(* ===== verification/Prelude.thy ===== *)
theory Prelude
  imports Complex_Main "HOL-Library.Char_ord" "HOL-Library.List_Lexorder"
begin

text \<open>
  Shared ground of the development: the collections of facts the components feed, the types
  that name points in time and identifiers, relational tables as lists with the handful of
  SQL-shaped operations the repositories use (\<open>UPDATE .. WHERE\<close>, \<open>DELETE .. WHERE\<close>,
  \<open>SELECT .. LIMIT 1\<close>), and the decimal rendering of integers that JavaScript's template
  literals and PostgreSQL's \<open>::text\<close> perform.
\<close>

named_theorems table_simps "evaluation of table operations"
named_theorems repo_defs "definitions of the repository operations"
named_theorems repo_frame "tables an operation leaves alone"

section \<open>Names for the model's basic types\<close>

text \<open>
  A JavaScript \<open>Date\<close> and a PostgreSQL \<open>timestamptz\<close> are both points in time; the model
  counts milliseconds since the epoch. Target identifiers take part in string keys, so they
  stay strings; every other row identifier is drawn by \<open>gen_random_uuid()\<close>, whose only
  property the code relies on is that it never repeats, and is a natural number drawn from a
  counter of the database state.
\<close>

type_synonym timestamp = int
type_synonym target_id = string
type_synonym row_id = nat

section \<open>Tables as lists\<close>

definition upd_where :: "('r \<Rightarrow> bool) \<Rightarrow> ('r \<Rightarrow> 'r) \<Rightarrow> 'r list \<Rightarrow> 'r list" where
  "upd_where p f rows = map (\<lambda>r. if p r then f r else r) rows"

definition unique_on :: "('r \<Rightarrow> bool) \<Rightarrow> ('r \<Rightarrow> 'k) \<Rightarrow> 'r list \<Rightarrow> bool" where
  "unique_on p k rows \<longleftrightarrow> distinct (map k (filter p rows))"

lemma upd_where_Nil [simp]: "upd_where p f [] = []"
  by (simp add: upd_where_def)

lemma upd_where_Cons [simp]:
  "upd_where p f (r # rows) = (if p r then f r else r) # upd_where p f rows"
  by (simp add: upd_where_def)

lemma upd_where_append [simp]:
  "upd_where p f (xs @ ys) = upd_where p f xs @ upd_where p f ys"
  by (simp add: upd_where_def)

lemma length_upd_where [simp]: "length (upd_where p f rows) = length rows"
  by (simp add: upd_where_def)

lemma set_upd_where: "set (upd_where p f rows) = (\<lambda>r. if p r then f r else r) ` set rows"
  by (simp add: upd_where_def)

lemma upd_where_none: "(\<And>r. r \<in> set rows \<Longrightarrow> \<not> p r) \<Longrightarrow> upd_where p f rows = rows"
  by (simp add: upd_where_def map_idI)

lemma map_upd_where_inv:
  "(\<And>r. p r \<Longrightarrow> k (f r) = k r) \<Longrightarrow> map k (upd_where p f rows) = map k rows"
  by (simp add: upd_where_def)

lemma filter_upd_where_inv:
  assumes "\<And>r. p r \<Longrightarrow> q (f r) = q r"
  shows "filter q (upd_where p f rows) = upd_where p f (filter q rows)"
  using assms by (induction rows) auto

lemma filter_upd_where_frame:
  assumes "\<And>r. r \<in> set rows \<Longrightarrow> p r \<Longrightarrow> \<not> q r \<and> \<not> q (f r)"
  shows "filter q (upd_where p f rows) = filter q rows"
  using assms by (induction rows) auto

lemma unique_on_upd_inv:
  assumes "\<And>r. p r \<Longrightarrow> q (f r) = q r" and "\<And>r. p r \<Longrightarrow> k (f r) = k r"
  shows "unique_on q k (upd_where p f rows) = unique_on q k rows"
  unfolding unique_on_def
  by (simp add: filter_upd_where_inv [where q = q, OF assms(1)] map_upd_where_inv [where k = k, OF assms(2)])

lemma unique_on_upd_shrink:
  assumes "unique_on q k rows"
    and "\<And>r. p r \<Longrightarrow> q (f r) \<Longrightarrow> q r" and "\<And>r. p r \<Longrightarrow> k (f r) = k r"
  shows "unique_on q k (upd_where p f rows)"
  using assms(1)
proof (induction rows)
  case Nil
  then show ?case by simp
next
  case (Cons r rows)
  then have uniq: "unique_on q k (upd_where p f rows)"
    by (simp add: unique_on_def split: if_splits)
  have sub: "k ` set (filter q (upd_where p f rows)) \<subseteq> k ` set (filter q rows)"
    using assms(2,3) by (auto simp: set_upd_where image_iff split: if_splits)
  show ?case
  proof (cases "q (if p r then f r else r)")
    case True
    then have "q r" and "k (if p r then f r else r) = k r"
      using assms(2,3) by (auto split: if_splits)
    with Cons.prems have "k r \<notin> k ` set (filter q rows)"
      by (simp add: unique_on_def)
    with sub True uniq \<open>k (if p r then f r else r) = k r\<close> show ?thesis
      by (auto simp: unique_on_def)
  next
    case False
    with uniq show ?thesis by (auto simp: unique_on_def)
  qed
qed

lemma unique_on_snoc:
  "unique_on q k (rows @ [r]) \<longleftrightarrow>
     unique_on q k rows \<and> (q r \<longrightarrow> (\<forall>x \<in> set rows. q x \<longrightarrow> k x \<noteq> k r))"
  by (auto simp: unique_on_def image_iff)

lemma unique_on_filter: "unique_on q k rows \<Longrightarrow> unique_on q k (filter p rows)"
  unfolding unique_on_def filter_filter
  by (induction rows) (auto split: if_splits)

lemma unique_onD:
  "unique_on q k rows \<Longrightarrow> x \<in> set rows \<Longrightarrow> y \<in> set rows \<Longrightarrow> q x \<Longrightarrow> q y \<Longrightarrow> k x = k y \<Longrightarrow> x = y"
  unfolding unique_on_def distinct_map inj_on_def by auto

lemma find_eq_None: "find p xs = None \<longleftrightarrow> (\<forall>x \<in> set xs. \<not> p x)"
  by (auto simp: find_None_iff)

lemma find_SomeD: "find p xs = Some x \<Longrightarrow> x \<in> set xs \<and> p x"
  by (auto simp: find_Some_iff)

lemma find_append:
  "find p (xs @ ys) = (case find p xs of None \<Rightarrow> find p ys | Some x \<Rightarrow> Some x)"
  by (induction xs) auto

lemma find_upd_where:
  assumes "\<And>r. p r \<Longrightarrow> q (f r) = q r"
  shows "find q (upd_where p f rows) = map_option (\<lambda>r. if p r then f r else r) (find q rows)"
  using assms by (induction rows) auto

lemma find_filter: "(\<And>x. x \<in> set xs \<Longrightarrow> p x \<Longrightarrow> q x) \<Longrightarrow> find p (filter q xs) = find p xs"
  by (induction xs) auto

lemma sort_key_ConsD: "sort_key f xs = y # ys \<Longrightarrow> y \<in> set xs"
  by (metis list.set_intros(1) set_sort)

lemma sort_key_empty_iff: "sort_key f xs = [] \<longleftrightarrow> xs = []"
  by (metis length_0_conv length_sort)

lemmas table_laws = upd_where_none map_upd_where_inv filter_upd_where_inv
  filter_upd_where_frame unique_on_upd_inv unique_on_snoc find_eq_None find_append

declare find_append [table_simps] upd_where_append [table_simps]

section \<open>Decimal rendering of integers\<close>

fun show_nat :: "nat \<Rightarrow> string" where
  "show_nat n = (if n < 10 then [char_of (48 + n)] else show_nat (n div 10) @ [char_of (48 + n mod 10)])"

declare show_nat.simps [simp del]

definition show_int :: "int \<Rightarrow> string" where
  "show_int i = (if i < 0 then ''-'' @ show_nat (nat (- i)) else show_nat (nat i))"

definition is_digit :: "char \<Rightarrow> bool" where
  "is_digit c \<longleftrightarrow> (48::nat) \<le> of_char c \<and> of_char c \<le> (57::nat)"

lemma of_char_digit: "d < 10 \<Longrightarrow> of_char (char_of (48 + d) :: char) = 48 + (d::nat)"
  by simp

lemma show_nat_digits: "c \<in> set (show_nat n) \<Longrightarrow> is_digit c"
proof (induction n rule: show_nat.induct)
  case (1 n)
  show ?case
  proof (cases "n < 10")
    case True
    with 1 show ?thesis by (auto simp: is_digit_def show_nat.simps [of n])
  next
    case False
    have "c \<in> set (show_nat (n div 10)) \<or> c = char_of (48 + n mod 10)"
      using "1.prems" False by (auto simp: show_nat.simps [of n])
    then show ?thesis
      using "1.IH" False by (auto simp: is_digit_def)
  qed
qed

lemma show_nat_nonempty [simp]: "show_nat n \<noteq> []"
  by (simp add: show_nat.simps [of n])

fun nat_of_digits :: "string \<Rightarrow> nat \<Rightarrow> nat" where
  "nat_of_digits [] acc = acc"
| "nat_of_digits (c # cs) acc = nat_of_digits cs (10 * acc + (of_char c - 48))"

lemma nat_of_digits_append:
  "nat_of_digits (xs @ ys) acc = nat_of_digits ys (nat_of_digits xs acc)"
  by (induction xs arbitrary: acc) auto

lemma nat_of_digits_show: "nat_of_digits (show_nat n) 0 = n"
proof (induction n rule: show_nat.induct)
  case (1 n)
  show ?case
  proof (cases "n < 10")
    case True
    then show ?thesis by (simp add: show_nat.simps [of n])
  next
    case False
    then have "nat_of_digits (show_nat (n div 10)) 0 = n div 10" using "1.IH" by simp
    with False show ?thesis by (simp add: show_nat.simps [of n] nat_of_digits_append)
  qed
qed

lemma show_nat_inject [simp]: "show_nat m = show_nat n \<longleftrightarrow> m = n"
  using nat_of_digits_show by metis

lemma not_digit_separators: "\<not> is_digit (CHR '':'')" "\<not> is_digit (CHR ''-'')"
  by (simp_all add: is_digit_def)

lemma show_int_no_colon: "CHR '':'' \<notin> set (show_int i)"
  using show_nat_digits not_digit_separators by (auto simp: show_int_def)

lemma show_int_inject [simp]: "show_int i = show_int j \<longleftrightarrow> i = j"
proof -
  have "show_nat n \<noteq> CHR ''-'' # s" for n s
    using show_nat_digits not_digit_separators by (metis list.set_intros(1))
  then have neg: "show_nat n \<noteq> CHR ''-'' # s" "CHR ''-'' # s \<noteq> show_nat n" for n s
    by (metis+)
  show ?thesis
    by (cases "i < 0"; cases "j < 0") (auto simp: show_int_def neg nat_eq_iff)
qed

text \<open>A separator that does not occur to its right splits a string in one way only.\<close>

lemma split_at_last_sep:
  assumes "xs @ c # ys = xs' @ c # ys'" and "c \<notin> set ys" and "c \<notin> set ys'"
  shows "xs = xs' \<and> ys = ys'"
proof -
  have "takeWhile (\<lambda>x. x \<noteq> c) (rev (xs @ c # ys)) = takeWhile (\<lambda>x. x \<noteq> c) (rev (xs' @ c # ys'))"
    using assms(1) by simp
  moreover have "takeWhile (\<lambda>x. x \<noteq> c) (rev (us @ c # vs)) = rev vs" if "c \<notin> set vs" for us vs
    using that by (simp, subst takeWhile_append2) auto
  ultimately have "ys = ys'" using assms(2,3) by (metis rev_rev_ident)
  with assms(1) show ?thesis by simp
qed

section \<open>Characters outside ASCII\<close>

text \<open>Strings are UTF-8 byte sequences; these are the non-ASCII characters of the messages.\<close>

definition utf8_times :: string where
  "utf8_times = [CHR 0xC3, CHR 0x97]"

definition utf8_arrow :: string where
  "utf8_arrow = [CHR 0xE2, CHR 0x86, CHR 0x92]"

definition utf8_em_dash :: string where
  "utf8_em_dash = [CHR 0xE2, CHR 0x80, CHR 0x94]"

definition utf8_ellipsis :: string where
  "utf8_ellipsis = [CHR 0xE2, CHR 0x80, CHR 0xA6]"

definition dquote :: string where
  "dquote = [CHR 0x22]"

section \<open>Number of status changes along a list\<close>

fun changes :: "'a list \<Rightarrow> nat" where
  "changes (x # y # zs) = (if y \<noteq> x then 1 else 0) + changes (y # zs)"
| "changes _ = 0"

lemma changes_bound: "changes xs \<le> length xs - 1"
  by (induction xs rule: changes.induct) auto

lemma changes_0_iff: "changes xs = 0 \<longleftrightarrow> (\<forall>x \<in> set xs. \<forall>y \<in> set xs. x = y)"
  by (induction xs rule: changes.induct) auto

end
