(* ===== verification/Js_String.thy ===== *)
theory Js_String
  imports Prelude
begin

text \<open>
  JavaScript string operations. A string of the model is the UTF-8 encoding of the source's
  string, so the operations that speak about characters (white space, code units, letters)
  decode as far as they need to.
\<close>

section \<open>Blank strings\<close>

text \<open>
  \<open>String.prototype.trim\<close> strips white space and line terminators; a string trims to the empty
  one iff it consists of them alone. \<open>ws_len\<close> is the length of the UTF-8 encoding of the white
  space character a string begins with, 0 if there is none.
\<close>

definition ws_len :: "string \<Rightarrow> nat" where
  "ws_len s =
     (case map of_char s :: nat list of
        [] \<Rightarrow> 0
      | a # bs \<Rightarrow>
          if a \<in> {9, 10, 11, 12, 13, 32} then 1
          else if take 1 bs = [0xA0] \<and> a = 0xC2 then 2
          else if a = 0xE1 \<and> take 2 bs = [0x9A, 0x80] then 3
          else if a = 0xE2 \<and> (case bs of b # c # _ \<Rightarrow>
              b = 0x80 \<and> (0x80 \<le> c \<and> c \<le> 0x8A \<or> c \<in> {0xA8, 0xA9, 0xAF}) \<or> b = 0x81 \<and> c = 0x9F | _ \<Rightarrow> False) then 3
          else if a = 0xE3 \<and> take 2 bs = [0x80, 0x80] then 3
          else if a = 0xEF \<and> take 2 bs = [0xBB, 0xBF] then 3
          else 0)"

lemma ws_len_Nil [simp]: "ws_len [] = 0"
  by (simp add: ws_len_def)

function blank :: "string \<Rightarrow> bool" where
  "blank s = (if 0 < ws_len s then blank (drop (ws_len s) s) else s = [])"
  by auto

termination
proof (relation "measure length")
  fix s :: string
  assume "0 < ws_len s"
  then have "s \<noteq> []" by auto
  with \<open>0 < ws_len s\<close> show "(drop (ws_len s) s, s) \<in> measure length" by (simp add: length_greater_0_conv)
qed simp

declare blank.simps [simp del]

text \<open>A white space character never begins inside the encoding of another character, so trailing
  white space is a suffix that is blank.\<close>

function trimStart :: "string \<Rightarrow> string" where
  "trimStart s = (if 0 < ws_len s then trimStart (drop (ws_len s) s) else s)"
  by auto

termination
proof (relation "measure length")
  fix s :: string
  assume "0 < ws_len s"
  then have "s \<noteq> []" by auto
  with \<open>0 < ws_len s\<close> show "(drop (ws_len s) s, s) \<in> measure length" by (simp add: length_greater_0_conv)
qed simp

declare trimStart.simps [simp del]

fun trimEnd :: "string \<Rightarrow> string" where
  "trimEnd [] = []"
| "trimEnd (c # cs) = (if blank (c # cs) then [] else c # trimEnd cs)"

definition trim :: "string \<Rightarrow> string" where
  "trim s = trimEnd (trimStart s)"

section \<open>Code units, letters and separators\<close>

text \<open>The number of UTF-16 code units: one per character, two for a character of four bytes.\<close>

definition js_length :: "string \<Rightarrow> nat" where
  "js_length s =
     length (filter (\<lambda>n. n < 0x80 \<or> 0xC0 \<le> n) (map of_char s :: nat list)) +
     length (filter (\<lambda>n. 0xF0 \<le> n) (map of_char s :: nat list))"

text \<open>Lower case of the letters A to Z, and of the Kelvin sign, whose lower case is an ASCII letter.
  Host names and header names are compared with ASCII text; other letters stay as they are.\<close>

fun toLowerCase :: "string \<Rightarrow> string" where
  "toLowerCase [] = []"
| "toLowerCase (c # cs) =
     (if c = CHR 0xE2 \<and> take 2 cs = [CHR 0x84, CHR 0xAA] then CHR ''k'' # toLowerCase (drop 2 cs)
      else (if 65 \<le> (of_char c :: nat) \<and> (of_char c :: nat) \<le> 90 then char_of ((of_char c :: nat) + 32) else c) # toLowerCase cs)"

fun split_on :: "char \<Rightarrow> string \<Rightarrow> string list" where
  "split_on c [] = [[]]"
| "split_on c (x # xs) =
     (if x = c then [] # split_on c xs
      else (case split_on c xs of y # ys \<Rightarrow> (x # y) # ys | [] \<Rightarrow> [[x]]))"

lemma split_on_nonempty [simp]: "split_on c s \<noteq> []"
  by (cases s) (auto split: list.splits)

lemma split_on_sep_free: "y \<in> set (split_on c s) \<Longrightarrow> c \<notin> set y"
  by (induction s arbitrary: y) (auto split: if_splits list.splits)

lemma split_on_append:
  "c \<notin> set x \<Longrightarrow> split_on c (x @ c # s) = x # split_on c s"
  by (induction x) auto

lemma split_on_single: "c \<notin> set x \<Longrightarrow> split_on c x = [x]"
  by (induction x) auto

section \<open>Parts of a string\<close>

fun join :: "string \<Rightarrow> string list \<Rightarrow> string" where
  "join sep [] = []"
| "join sep [x] = x"
| "join sep (x # y # zs) = x @ sep @ join sep (y # zs)"

fun join_names :: "string list \<Rightarrow> string" where
  "join_names [] = []"
| "join_names [x] = x"
| "join_names (x # y # zs) = x @ '', '' @ join_names (y # zs)"

fun has_part :: "string \<Rightarrow> string \<Rightarrow> bool" where
  "has_part p [] = (p = [])"
| "has_part p (c # cs) = (take (length p) (c # cs) = p \<or> has_part p cs)"

lemma has_part_iff: "has_part p s \<longleftrightarrow> (\<exists>a b. s = a @ p @ b)"
proof (induction s)
  case (Cons c cs)
  have "take (length p) (c # cs) = p \<longleftrightarrow> (\<exists>b. c # cs = p @ b)"
    by (metis append_eq_conv_conj append_take_drop_id)
  with Cons show ?case by (auto simp: Cons_eq_append_conv)
qed auto

text \<open>The first \<open>n\<close> code units of a string. A pair of surrogates that is cut is stored as the
  replacement character.\<close>

function js_take :: "nat \<Rightarrow> string \<Rightarrow> string" where
  "js_take n s =
     (if n = 0 then []
      else case s of
             [] \<Rightarrow> []
           | c # cs \<Rightarrow>
               let b = (of_char c :: nat)
               in if 0xF0 \<le> b then (if n = 1 then [CHR 0xEF, CHR 0xBF, CHR 0xBD] else take 4 s @ js_take (n - 2) (drop 4 s))
                  else if 0xE0 \<le> b then take 3 s @ js_take (n - 1) (drop 3 s)
                  else if 0xC0 \<le> b then take 2 s @ js_take (n - 1) (drop 2 s)
                  else c # js_take (n - 1) cs)"
  by auto

termination
  by (relation "measure fst") auto

declare js_take.simps [simp del]

section \<open>Printable ASCII\<close>

definition printable :: "string \<Rightarrow> bool" where
  "printable s \<longleftrightarrow> list_all (\<lambda>c. 33 \<le> (of_char c :: nat) \<and> (of_char c :: nat) \<le> 126) s"

lemma printable_simps [simp]:
  "printable []" "printable (c # cs) \<longleftrightarrow> (33 \<le> (of_char c :: nat) \<and> (of_char c :: nat) \<le> 126) \<and> printable cs"
  "printable (xs @ ys) \<longleftrightarrow> printable xs \<and> printable ys"
  by (auto simp: printable_def)

lemma ws_len_printable: "printable s \<Longrightarrow> ws_len s = 0"
  by (cases s) (auto simp: ws_len_def)

lemma trimStart_printable: "printable s \<Longrightarrow> trimStart s = s"
  by (simp add: trimStart.simps [of s] ws_len_printable)

lemma trimEnd_printable: "printable s \<Longrightarrow> trimEnd s = s"
proof (induction s)
  case (Cons c cs)
  then have "\<not> blank (c # cs)" by (subst blank.simps) (simp add: ws_len_printable)
  with Cons show ?case by simp
qed simp

lemma trim_printable: "printable s \<Longrightarrow> trim s = s"
  by (simp add: trim_def trimStart_printable trimEnd_printable)

end
