(* ===== verification/Js_Number.thy ===== *)
theory Js_Number
  imports Js_String
begin

text \<open>
  JavaScript numbers. A number of the source is an IEEE-754 double; the model keeps its exact
  rational value, and every arithmetic operation whose result need not be representable is
  followed by \<open>fl\<close>, rounding to the nearest value with a 53-bit significand, ties to even.
  The magnitudes that occur (milliseconds, rates, ratios) stay far inside the exponent range,
  so overflow to infinity and subnormals are left out. A decimal literal such as \<open>0.05\<close> is
  \<open>fl (5 / 100)\<close>. \<open>Math.round\<close> and \<open>Math.floor\<close> act on the exact value of their argument.

  What the components use of rounding is the locale \<open>js_rounding\<close> below, interpreted by \<open>fl\<close>.
\<close>

section \<open>Rounding to the nearest double\<close>

fun bit_len :: "nat \<Rightarrow> nat" where
  "bit_len n = (if n = 0 then 0 else Suc (bit_len (n div 2)))"

declare bit_len.simps [simp del]

lemma bit_len_bounds: "0 < n \<Longrightarrow> 2 ^ (bit_len n - 1) \<le> n \<and> n < 2 ^ bit_len n \<and> 0 < bit_len n"
proof (induction n rule: bit_len.induct)
  case (1 n)
  show ?case
  proof (cases "n div 2 = 0")
    case True
    with "1.prems" have "n = 1" by simp
    then show ?thesis by (simp add: bit_len.simps)
  next
    case False
    with "1.IH" "1.prems" have ih: "2 ^ (bit_len (n div 2) - 1) \<le> n div 2"
      "n div 2 < 2 ^ bit_len (n div 2)" "0 < bit_len (n div 2)" by auto
    have eq: "bit_len n = Suc (bit_len (n div 2))"
      using "1.prems" by (simp add: bit_len.simps [of n])
    have "(2::nat) ^ bit_len (n div 2) = 2 * 2 ^ (bit_len (n div 2) - 1)"
      using ih(3) by (cases "bit_len (n div 2)") auto
    then have "2 ^ bit_len (n div 2) \<le> 2 * (n div 2)" using ih(1) by simp
    then have lo: "2 ^ bit_len (n div 2) \<le> n" by linarith
    have hi: "n < 2 * 2 ^ bit_len (n div 2)" using ih(2) by linarith
    from lo hi show ?thesis by (simp add: eq)
  qed
qed

definition ilog2 :: "rat \<Rightarrow> int" where
  "ilog2 x = (if 1 \<le> x then int (bit_len (nat \<lfloor>x\<rfloor>)) - 1 else - int (bit_len (nat (\<lceil>1 / x\<rceil> - 1))))"

lemma ilog2_bounds:
  assumes "0 < x"
  shows "2 powi ilog2 x \<le> x \<and> x < 2 powi (ilog2 x + 1)"
proof (cases "1 \<le> x")
  case True
  define n where "n = nat \<lfloor>x\<rfloor>"
  have n: "0 < n" "\<lfloor>x\<rfloor> = int n" using True by (auto simp: n_def le_floor_iff)
  from bit_len_bounds [OF n(1)] obtain k where k: "bit_len n = Suc k"
    "2 ^ k \<le> n" "n < 2 ^ Suc k" by (cases "bit_len n") auto
  have e: "ilog2 x = int k" using True k by (simp add: ilog2_def n_def)
  have "of_nat (2 ^ k) \<le> (of_nat n :: rat)" using k(2) by (subst of_nat_le_iff)
  also have "\<dots> \<le> x" using n(2) by (metis of_int_floor_le of_int_of_nat_eq)
  finally have lo: "2 ^ k \<le> x" by simp
  have "x < of_int \<lfloor>x\<rfloor> + 1" by linarith
  also have "\<dots> = of_nat (n + 1)" using n(2) by simp
  also have "\<dots> \<le> of_nat (2 ^ Suc k)" using k(3) by (subst of_nat_le_iff) simp
  finally have hi: "x < 2 ^ Suc k" by simp
  show ?thesis using lo hi by (simp add: e power_int_def nat_add_distrib)
next
  case False
  define m where "m = nat (\<lceil>1 / x\<rceil> - 1)"
  have gt: "1 < 1 / x" using False assms by simp
  then have "1 < \<lceil>1 / x\<rceil>" by (metis less_ceiling_iff of_int_1)
  then have m: "0 < m" "\<lceil>1 / x\<rceil> = int m + 1" unfolding m_def by linarith+
  from bit_len_bounds [OF m(1)] obtain k where k: "bit_len m = Suc k"
    "2 ^ k \<le> m" "m < 2 ^ Suc k" by (cases "bit_len m") auto
  have e: "ilog2 x = - int (Suc k)" using False k by (simp add: ilog2_def m_def)
  have up: "1 / x \<le> of_nat (2 ^ Suc k)"
  proof -
    have "1 / x \<le> of_int \<lceil>1 / x\<rceil>" by (rule le_of_int_ceiling)
    also have "\<dots> = of_nat (m + 1)" using m(2) by simp
    also have "\<dots> \<le> of_nat (2 ^ Suc k)" using k(3) by (subst of_nat_le_iff) simp
    finally show ?thesis .
  qed
  have dn: "of_nat (2 ^ k) < 1 / x"
  proof -
    have "of_int \<lceil>1 / x\<rceil> - 1 < 1 / x" by linarith
    then have "of_nat m < 1 / x" using m(2) by simp
    moreover have "of_nat (2 ^ k) \<le> (of_nat m :: rat)" using k(2) by (subst of_nat_le_iff)
    ultimately show ?thesis by linarith
  qed
  have "1 / 2 ^ Suc k \<le> x" using up assms by (simp add: field_simps)
  moreover have "x < 1 / 2 ^ k" using dn assms by (simp add: field_simps)
  moreover have "(2::rat) powi ilog2 x = 1 / 2 ^ Suc k"
    unfolding e by (subst power_int_minus) (simp add: divide_inverse del: of_nat_Suc power_Suc)
  moreover have "ilog2 x + 1 = - int k" by (simp add: e)
  then have "(2::rat) powi (ilog2 x + 1) = 1 / 2 ^ k"
    by (simp add: power_int_minus divide_inverse)
  ultimately show ?thesis by simp
qed

definition round_half_even :: "rat \<Rightarrow> int" where
  "round_half_even y =
     (let f = \<lfloor>y\<rfloor>; d = y - of_int f
      in if d < 1 / 2 then f else if 1 / 2 < d then f + 1 else if even f then f else f + 1)"

definition fl :: "rat \<Rightarrow> rat" where
  "fl x = (if x = 0 then 0
           else let u = 2 powi (ilog2 \<bar>x\<bar> - 52) in of_int (round_half_even (x / u)) * u)"

definition Math_round :: "rat \<Rightarrow> int" where
  "Math_round x = \<lfloor>x + 1 / 2\<rfloor>"

lemma round_half_even_of_int [simp]: "round_half_even (of_int n) = n"
  by (simp add: round_half_even_def)

lemma round_half_even_err: "\<bar>of_int (round_half_even y) - y\<bar> \<le> 1 / 2"
proof -
  have "of_int \<lfloor>y\<rfloor> \<le> y" "y < of_int \<lfloor>y\<rfloor> + 1" by linarith+
  then show ?thesis by (auto simp: round_half_even_def Let_def abs_le_iff)
qed

lemma round_half_even_mono: "x \<le> y \<Longrightarrow> round_half_even x \<le> round_half_even y"
proof -
  assume le: "x \<le> y"
  have fl: "\<lfloor>x\<rfloor> \<le> \<lfloor>y\<rfloor>" using le by (rule floor_mono)
  show ?thesis
  proof (cases "\<lfloor>x\<rfloor> = \<lfloor>y\<rfloor>")
    case True
    with le show ?thesis by (auto simp: round_half_even_def Let_def)
  next
    case False
    with fl have "\<lfloor>x\<rfloor> + 1 \<le> \<lfloor>y\<rfloor>" by simp
    then show ?thesis by (auto simp: round_half_even_def Let_def)
  qed
qed

lemma ulp_pos: "(0::rat) < 2 powi e"
  by simp

lemma fl_err: "\<bar>fl x - x\<bar> \<le> \<bar>x\<bar> / 2 ^ 53"
proof (cases "x = 0")
  case False
  define u :: rat where "u = 2 powi (ilog2 \<bar>x\<bar> - 52)"
  have u: "0 < u" by (simp add: u_def)
  have fl: "fl x = of_int (round_half_even (x / u)) * u"
    using False by (simp add: fl_def u_def Let_def)
  have "fl x - x = (of_int (round_half_even (x / u)) - x / u) * u"
    using u by (simp add: fl field_simps)
  then have "\<bar>fl x - x\<bar> = \<bar>of_int (round_half_even (x / u)) - x / u\<bar> * u"
    using u by (simp add: abs_mult)
  also have "\<dots> \<le> 1 / 2 * u"
    using u by (intro mult_right_mono round_half_even_err) simp
  also have "u * 2 ^ 52 \<le> \<bar>x\<bar>"
    using ilog2_bounds [of "\<bar>x\<bar>"] False by (simp add: u_def power_int_diff)
  then have "1 / 2 * u \<le> \<bar>x\<bar> / 2 ^ 53" by (simp add: field_simps)
  finally show ?thesis .
qed (simp add: fl_def)

lemma fl_of_int: "\<bar>n\<bar> < 2 ^ 53 \<Longrightarrow> fl (of_int n) = of_int n"
proof (cases "n = 0")
  case False
  assume n: "\<bar>n\<bar> < 2 ^ 53"
  define k where "k = ilog2 \<bar>of_int n\<bar>"
  have pos: "(0::rat) < \<bar>of_int n\<bar>" using False by simp
  have "(2::rat) powi k \<le> \<bar>of_int n\<bar>" using ilog2_bounds [OF pos] by (simp add: k_def)
  also have "\<bar>of_int n\<bar> < (2::rat) ^ 53"
    using n by (metis of_int_abs of_int_less_iff of_int_numeral of_int_power)
  finally have "(2::rat) powi k < 2 powi 53" by (simp add: power_int_def)
  then have "k < 53"
    using power_int_increasing [of 53 k "2::rat"] by (cases "k < 53") auto
  then obtain j where j: "52 - k = int j" using zero_le_imp_eq_int [of "52 - k"] by auto
  have u: "(2::rat) powi (k - 52) = 1 / 2 ^ j"
  proof -
    have "k - 52 = - int j" using j by simp
    then show ?thesis by (simp add: power_int_minus divide_inverse)
  qed
  have "of_int n / (2::rat) powi (k - 52) = of_int (n * 2 ^ j)" by (simp add: u)
  then have "round_half_even (of_int n / (2::rat) powi (k - 52)) = n * 2 ^ j"
    by (simp only: round_half_even_of_int)
  then show ?thesis using False by (simp add: fl_def Let_def k_def [symmetric] u)
qed (simp add: fl_def)

lemma fl_scaled:
  assumes "0 < x"
  obtains m where "fl x = of_int m * 2 powi (ilog2 x - 52)" "2 ^ 52 \<le> m" "m \<le> 2 ^ 53"
proof -
  define u :: rat where "u = 2 powi (ilog2 x - 52)"
  have u: "0 < u" by (simp add: u_def)
  have b: "2 powi ilog2 x = 2 ^ 52 * u" "2 powi (ilog2 x + 1) = 2 ^ 53 * u"
    by (simp_all add: u_def power_int_diff power_int_add)
  from ilog2_bounds [OF assms] have "2 ^ 52 \<le> x / u" "x / u \<le> 2 ^ 53"
    unfolding b using u by (simp_all add: field_simps)
  then have "round_half_even (of_int (2 ^ 52)) \<le> round_half_even (x / u)"
    "round_half_even (x / u) \<le> round_half_even (of_int (2 ^ 53))"
    by (intro round_half_even_mono; simp)+
  then have "2 ^ 52 \<le> round_half_even (x / u)" "round_half_even (x / u) \<le> 2 ^ 53"
    by (simp_all only: round_half_even_of_int)
  moreover have "fl x = of_int (round_half_even (x / u)) * u"
    using assms by (simp add: fl_def u_def Let_def)
  ultimately show ?thesis using that by (auto simp: u_def)
qed

lemma fl_pos: "0 < x \<Longrightarrow> 0 < fl x"
  by (erule fl_scaled) simp

lemma fl_mono_pos:
  assumes "0 < x" and "x \<le> y"
  shows "fl x \<le> fl y"
proof (cases "ilog2 x = ilog2 y")
  case True
  define u :: rat where "u = 2 powi (ilog2 y - 52)"
  have u: "0 < u" by (simp add: u_def)
  have "x / u \<le> y / u" using assms(2) u by (simp add: divide_right_mono)
  then have "of_int (round_half_even (x / u)) \<le> (of_int (round_half_even (y / u)) :: rat)"
    by (simp add: round_half_even_mono)
  then show ?thesis using assms True u by (simp add: fl_def u_def Let_def)
next
  case False
  have y: "0 < y" using assms by simp
  have "\<not> ilog2 y < ilog2 x"
  proof
    assume "ilog2 y < ilog2 x"
    then have "(2::rat) powi (ilog2 y + 1) \<le> 2 powi ilog2 x" by (intro power_int_increasing) auto
    then show False using ilog2_bounds [OF y] ilog2_bounds [OF assms(1)] assms(2) by linarith
  qed
  with False have lt: "ilog2 x + 1 \<le> ilog2 y" by simp
  obtain m where m: "fl x = of_int m * 2 powi (ilog2 x - 52)" "m \<le> 2 ^ 53"
    using fl_scaled [OF assms(1)] by blast
  obtain n where n: "fl y = of_int n * 2 powi (ilog2 y - 52)" "2 ^ 52 \<le> n"
    using fl_scaled [OF y] by blast
  have "of_int m \<le> (of_int (2 ^ 53) :: rat)" using m(2) by (subst of_int_le_iff)
  then have "fl x \<le> 2 ^ 53 * 2 powi (ilog2 x - 52)" by (simp add: m(1) mult_right_mono)
  also have "\<dots> = 2 powi (ilog2 x + 1)" by (simp add: power_int_diff power_int_add)
  also have "\<dots> \<le> 2 powi ilog2 y" using lt by (intro power_int_increasing) auto
  also have "\<dots> = 2 ^ 52 * 2 powi (ilog2 y - 52)" by (simp add: power_int_diff)
  also have "\<dots> \<le> fl y"
  proof -
    have "(of_int (2 ^ 52) :: rat) \<le> of_int n" using n(2) by (subst of_int_le_iff)
    then show ?thesis by (simp add: n(1) mult_right_mono)
  qed
  finally show ?thesis .
qed

lemma fl_mono: "0 \<le> x \<Longrightarrow> x \<le> y \<Longrightarrow> fl x \<le> fl y"
proof (cases "x = 0")
  case True
  assume "x \<le> y"
  with True have "y = 0 \<or> 0 < y" by auto
  with True show ?thesis using fl_pos [of y] by (auto simp: fl_def less_imp_le)
qed (use fl_mono_pos in auto)

section \<open>The contract the components rely on\<close>

locale js_rounding =
  fixes rnd :: "rat \<Rightarrow> rat"
  assumes rnd_of_int: "\<bar>n\<bar> < 2 ^ 53 \<Longrightarrow> rnd (of_int n) = of_int n"
    and rnd_err: "\<bar>rnd x - x\<bar> \<le> \<bar>x\<bar> / 2 ^ 53"
    and rnd_mono: "0 \<le> x \<Longrightarrow> x \<le> y \<Longrightarrow> rnd x \<le> rnd y"
begin

lemma rnd_nonneg: "0 \<le> x \<Longrightarrow> 0 \<le> rnd x"
  using rnd_mono [of 0 x] rnd_of_int [of 0] by simp

lemma rnd_upper: "0 \<le> x \<Longrightarrow> rnd x \<le> x * (1 + 1 / 2 ^ 53)"
  using abs_le_D1 [OF rnd_err [of x]] by (simp add: field_simps)

lemma rnd_lower: "0 \<le> x \<Longrightarrow> x * (1 - 1 / 2 ^ 53) \<le> rnd x"
  using abs_le_D2 [OF rnd_err [of x]] by (simp add: field_simps)

text \<open>A product with a decimal literal is off by two roundings at most.\<close>

lemma rnd_scaled_upper:
  assumes "0 \<le> t" and "0 \<le> f"
  shows "rnd (t * rnd f) \<le> t * f * (1 + 1 / 2 ^ 51)"
proof -
  have "rnd (t * rnd f) \<le> t * rnd f * (1 + 1 / 2 ^ 53)"
    using assms rnd_nonneg by (intro rnd_upper) simp
  also have "\<dots> \<le> t * (f * (1 + 1 / 2 ^ 53)) * (1 + 1 / 2 ^ 53)"
    using assms by (intro mult_right_mono mult_left_mono rnd_upper) auto
  also have "\<dots> = t * f * ((1 + 1 / 2 ^ 53) * (1 + 1 / 2 ^ 53))" by (simp add: ac_simps)
  also have "\<dots> \<le> t * f * (1 + 1 / 2 ^ 51)"
    using assms by (intro mult_left_mono) auto
  finally show ?thesis .
qed

lemma rnd_le_int: "0 \<le> x \<Longrightarrow> x \<le> of_int n \<Longrightarrow> \<bar>n\<bar> < 2 ^ 53 \<Longrightarrow> rnd x \<le> of_int n"
  using rnd_mono [of x "of_int n"] rnd_of_int [of n] by simp

lemma rnd_ge_int: "0 \<le> n \<Longrightarrow> of_int n \<le> x \<Longrightarrow> n < 2 ^ 53 \<Longrightarrow> of_int n \<le> rnd x"
  using rnd_mono [of "of_int n" x] rnd_of_int [of n] by simp

end

interpretation js: js_rounding fl
  by unfold_locales (fact fl_of_int fl_err fl_mono)+

lemma Math_round_mono: "x \<le> y \<Longrightarrow> Math_round x \<le> Math_round y"
  by (simp add: Math_round_def floor_mono)

lemma Math_round_of_int [simp]: "Math_round (of_int n) = n"
  by (simp add: Math_round_def floor_unique)

section \<open>Numbers from strings\<close>

text \<open>
  \<open>Number(s)\<close> for the values \<open>Number.isFinite\<close> accepts: \<open>None\<close> stands for \<open>NaN\<close> and the
  infinities. White space around the literal is dropped, the empty string is 0.
\<close>

definition digit_value :: "char \<Rightarrow> nat" where
  "digit_value c =
     (let n = (of_char c :: nat)
      in if 48 \<le> n \<and> n \<le> 57 then n - 48 else if 97 \<le> n \<and> n \<le> 122 then n - 87
         else if 65 \<le> n \<and> n \<le> 90 then n - 55 else 99)"

definition digits_in_base :: "nat \<Rightarrow> string \<Rightarrow> rat option" where
  "digits_in_base b s =
     (if s \<noteq> [] \<and> list_all (\<lambda>c. digit_value c < b) s
      then Some (of_nat (fold (\<lambda>c acc. acc * b + digit_value c) s 0)) else None)"

definition signed :: "string \<Rightarrow> rat \<times> string" where
  "signed s = (case s of c # cs \<Rightarrow> if c = CHR ''-'' then (- 1, cs) else if c = CHR ''+'' then (1, cs) else (1, s) | [] \<Rightarrow> (1, []))"

definition parse_exponent :: "string \<Rightarrow> int option" where
  "parse_exponent s =
     (case s of
        [] \<Rightarrow> Some 0
      | c # cs \<Rightarrow>
          if c = CHR ''e'' \<or> c = CHR ''E''
          then (case signed cs of (sg, ds) \<Rightarrow> map_option (\<lambda>v. \<lfloor>sg * v\<rfloor>) (digits_in_base 10 ds))
          else None)"

definition parse_decimal :: "string \<Rightarrow> rat option" where
  "parse_decimal s =
     (case signed s of
        (sg, r) \<Rightarrow>
          let ip = takeWhile is_digit r; r1 = dropWhile is_digit r;
              fp = (case r1 of c # cs \<Rightarrow> if c = CHR ''.'' then takeWhile is_digit cs else [] | [] \<Rightarrow> []);
              r2 = (case r1 of c # cs \<Rightarrow> if c = CHR ''.'' then dropWhile is_digit cs else r1 | [] \<Rightarrow> [])
          in if ip = [] \<and> fp = [] then None
             else map_option (\<lambda>e. sg * of_nat (nat_of_digits (ip @ fp) 0) * 10 powi (e - int (length fp))) (parse_exponent r2))"

definition to_double :: "rat \<Rightarrow> rat option" where
  "to_double v = (if 2 ^ 1024 - 2 ^ 970 \<le> \<bar>v\<bar> then None else if \<bar>v\<bar> * 2 ^ 1075 \<le> 1 then Some 0 else Some (fl v))"

definition Number :: "string \<Rightarrow> rat option" where
  "Number str =
     (let s = trim str
      in if s = [] then Some 0
         else if take 2 s = ''0x'' \<or> take 2 s = ''0X'' then Option.bind (digits_in_base 16 (drop 2 s)) to_double
         else if take 2 s = ''0o'' \<or> take 2 s = ''0O'' then Option.bind (digits_in_base 8 (drop 2 s)) to_double
         else if take 2 s = ''0b'' \<or> take 2 s = ''0B'' then Option.bind (digits_in_base 2 (drop 2 s)) to_double
         else Option.bind (parse_decimal s) to_double)"

lemma digit_printable: "is_digit c \<Longrightarrow> printable [c]"
  by (simp add: is_digit_def)

lemma show_nat_printable: "printable (show_nat n)"
  using show_nat_digits [of _ n] digit_printable by (auto simp: printable_def list_all_iff)

lemma Number_show_nat:
  assumes "n < 2 ^ 53" shows "Number (show_nat n) = Some (of_nat n)"
proof -
  let ?s = "show_nat n"
  have dig: "is_digit c" if "c \<in> set ?s" for c using that show_nat_digits by blast
  have tk: "takeWhile is_digit ?s = ?s" "dropWhile is_digit ?s = []"
    using dig by (simp_all add: takeWhile_eq_all_conv dropWhile_eq_Nil_conv)
  have pre: "take 2 ?s \<noteq> [CHR ''0'', c]" if "\<not> is_digit c" for c
  proof
    assume "take 2 ?s = [CHR ''0'', c]"
    then have "c \<in> set ?s" by (metis in_set_takeD list.set_intros(1,2))
    with dig that show False by blast
  qed
  obtain c cs where s: "?s = c # cs" using show_nat_nonempty by (cases ?s) auto
  have "is_digit c" using dig s by simp
  then have sg: "signed ?s = (1, ?s)" unfolding s by (auto simp: signed_def is_digit_def)
  have dec: "parse_decimal ?s = Some (of_nat n)"
    by (simp add: parse_decimal_def sg tk parse_exponent_def nat_of_digits_show)
  have lt: "of_nat n < (2 ^ 53 :: rat)" using assms by (metis of_nat_less_iff of_nat_numeral of_nat_power)
  have big: "\<not> (2 ^ 1024 - 2 ^ 970 \<le> \<bar>of_nat n :: rat\<bar>)"
  proof -
    have "(2 ^ 53 :: rat) \<le> 2 ^ 970" by (rule power_increasing) auto
    moreover have "(2 ^ 970 + 2 ^ 970 :: rat) \<le> 2 ^ 1024"
      using power_increasing [of 971 1024 "2 :: rat"] by simp
    ultimately show ?thesis using lt by simp
  qed
  have "to_double (of_nat n) = Some (of_nat n)"
  proof (cases "n = 0")
    case False
    have "(1 :: rat) * 2 ^ 1075 \<le> of_nat n * 2 ^ 1075" using False by (intro mult_right_mono) auto
    moreover have "(1 :: rat) < 2 ^ 1075" by (rule one_less_power) auto
    ultimately have "\<not> \<bar>of_nat n :: rat\<bar> * 2 ^ 1075 \<le> 1" by simp
    moreover have "fl (of_nat n) = of_nat n" using js.rnd_of_int [of "int n"] assms by simp
    ultimately show ?thesis using big unfolding to_double_def by simp
  qed (simp add: to_double_def)
  then show ?thesis using pre trim_printable [OF show_nat_printable, of n]
    by (simp add: Number_def Let_def dec is_digit_def)
qed

end
