(* ===== verification/Json.thy ===== *)
theory Json
  imports Js_Number
begin

text \<open>
  JSON values and what the code does with them: \<open>JSON.stringify\<close>, \<open>String\<close> and \<open>Number\<close> of a parsed
  value, the accessor of \<^verbatim>\<open>src/lib/json-path.ts\<close> and the templates of \<^verbatim>\<open>src/lib/templating.ts\<close>. An object
  is the list of its own properties in enumeration order. The decimal notation of a number is an
  argument \<open>nt\<close> (ECMAScript's \<open>Number::toString\<close>), and numbers are finite.
\<close>

section \<open>Values\<close>

datatype json =
    Jnull | Jbool bool | Jnum rat | Jstr string | Jarr "json list" | Jobj "(string \<times> json) list"

text \<open>What an access to a parsed value can give: a JSON value, \<open>undefined\<close>, or something an object
  inherits.\<close>

datatype js_value = Val json | Undefined | Native string | Object_prototype

definition object_names :: "string list" where
  "object_names = [''constructor'', ''__defineGetter__'', ''__defineSetter__'', ''hasOwnProperty'', ''__lookupGetter__'',
     ''__lookupSetter__'', ''isPrototypeOf'', ''propertyIsEnumerable'', ''toString'', ''valueOf'', ''toLocaleString'']"

definition array_names :: "string list" where
  "array_names = [''length'', ''at'', ''concat'', ''copyWithin'', ''fill'', ''find'', ''findIndex'', ''findLast'', ''findLastIndex'',
     ''lastIndexOf'', ''pop'', ''push'', ''reverse'', ''shift'', ''unshift'', ''slice'', ''sort'', ''splice'', ''includes'', ''indexOf'',
     ''join'', ''keys'', ''entries'', ''values'', ''forEach'', ''filter'', ''flat'', ''flatMap'', ''map'', ''every'', ''some'', ''reduce'',
     ''reduceRight'', ''toReversed'', ''toSorted'', ''toSpliced'', ''with'']"

section \<open>Text of a value\<close>

definition hex_digit :: "nat \<Rightarrow> char" where
  "hex_digit n = (if n < 10 then char_of (48 + n) else char_of (87 + n))"

definition escape_char :: "char \<Rightarrow> string" where
  "escape_char c =
     (let n = (of_char c :: nat)
      in if n = 34 then [CHR 92, CHR 34] else if n = 92 then [CHR 92, CHR 92]
         else if n = 8 then [CHR 92, CHR ''b''] else if n = 12 then [CHR 92, CHR ''f'']
         else if n = 10 then [CHR 92, CHR ''n''] else if n = 13 then [CHR 92, CHR ''r'']
         else if n = 9 then [CHR 92, CHR ''t'']
         else if n < 32 then [CHR 92, CHR ''u'', CHR ''0'', CHR ''0'', hex_digit (n div 16), hex_digit (n mod 16)]
         else [c])"

definition quote :: "string \<Rightarrow> string" where
  "quote s = CHR 34 # concat (map escape_char s) @ [CHR 34]"

definition comma_list :: "string list \<Rightarrow> string" where
  "comma_list xs = (case xs of [] \<Rightarrow> [] | y # ys \<Rightarrow> y @ concat (map (\<lambda>z. CHR '','' # z) ys))"

primrec stringify :: "(rat \<Rightarrow> string) \<Rightarrow> json \<Rightarrow> string" where
  "stringify nt Jnull = ''null''"
| "stringify nt (Jbool b) = (if b then ''true'' else ''false'')"
| "stringify nt (Jnum n) = nt n"
| "stringify nt (Jstr s) = quote s"
| "stringify nt (Jarr xs) = ''['' @ comma_list (map (stringify nt) xs) @ '']''"
| "stringify nt (Jobj kvs) = ''{'' @ comma_list (map (\<lambda>(k, t). quote k @ '':'' @ t) (map (map_prod id (stringify nt)) kvs)) @ ''}''"

definition stringify_value :: "(rat \<Rightarrow> string) \<Rightarrow> js_value \<Rightarrow> string option" where
  "stringify_value nt v =
     (case v of Val j \<Rightarrow> Some (stringify nt j) | Undefined \<Rightarrow> None | Native _ \<Rightarrow> None | Object_prototype \<Rightarrow> Some ''{}'')"

text \<open>\<open>String(v)\<close>: the elements of an array are joined, \<open>null\<close> among them as nothing.\<close>

primrec json_string :: "(rat \<Rightarrow> string) \<Rightarrow> json \<Rightarrow> string" where
  "json_string nt Jnull = ''null''"
| "json_string nt (Jbool b) = (if b then ''true'' else ''false'')"
| "json_string nt (Jnum n) = nt n"
| "json_string nt (Jstr s) = s"
| "json_string nt (Jarr xs) = comma_list (map (\<lambda>(x, t). if x = Jnull then [] else t) (zip xs (map (json_string nt) xs)))"
| "json_string nt (Jobj kvs) = ''[object Object]''"

definition js_string :: "(rat \<Rightarrow> string) \<Rightarrow> js_value \<Rightarrow> string" where
  "js_string nt v =
     (case v of
        Val j \<Rightarrow> json_string nt j
      | Undefined \<Rightarrow> ''undefined''
      | Native f \<Rightarrow> ''function '' @ (if f = ''constructor'' then ''Object'' else f) @ ''() { [native code] }''
      | Object_prototype \<Rightarrow> ''[object Object]'')"

section \<open>Number of a value\<close>

datatype js_num = Fin rat | Infinite bool | Nan

definition literal :: "string \<Rightarrow> rat option" where
  "literal s =
     (if s = [] then Some 0
      else if take 2 s = ''0x'' \<or> take 2 s = ''0X'' then digits_in_base 16 (drop 2 s)
      else if take 2 s = ''0o'' \<or> take 2 s = ''0O'' then digits_in_base 8 (drop 2 s)
      else if take 2 s = ''0b'' \<or> take 2 s = ''0B'' then digits_in_base 2 (drop 2 s)
      else parse_decimal s)"

text \<open>\<open>Infinite True\<close> is \<open>Infinity\<close>, \<open>Infinite False\<close> its negation.\<close>

definition string_number :: "string \<Rightarrow> js_num" where
  "string_number str =
     (let s = trim str
      in if s = ''Infinity'' \<or> s = ''+Infinity'' then Infinite True else if s = ''-Infinity'' then Infinite False
         else case literal s of
                None \<Rightarrow> Nan
              | Some v \<Rightarrow> (case to_double v of Some d \<Rightarrow> Fin d | None \<Rightarrow> Infinite (0 < v)))"

definition js_number :: "(rat \<Rightarrow> string) \<Rightarrow> js_value \<Rightarrow> js_num" where
  "js_number nt v =
     (case v of
        Val Jnull \<Rightarrow> Fin 0
      | Val (Jbool b) \<Rightarrow> Fin (if b then 1 else 0)
      | Val (Jnum n) \<Rightarrow> Fin n
      | Val (Jstr s) \<Rightarrow> string_number s
      | Val (Jarr xs) \<Rightarrow> string_number (json_string nt (Jarr xs))
      | _ \<Rightarrow> Nan)"

section \<open>Paths\<close>

definition path_stop :: "char \<Rightarrow> bool" where
  "path_stop c \<longleftrightarrow> c = CHR ''.'' \<or> c = CHR ''['' \<or> c = CHR '']''"

text \<open>The matches of the segment pattern: the maximal runs free of dots and brackets.\<close>

fun segments :: "string \<Rightarrow> string \<Rightarrow> string list" where
  "segments acc [] = (if acc = [] then [] else [acc])"
| "segments acc (c # cs) =
     (if path_stop c then (if acc = [] then segments [] cs else acc # segments [] cs) else segments (acc @ [c]) cs)"

definition parsePath :: "string \<Rightarrow> string list" where
  "parsePath path =
     segments [] (if take 2 path = ''$.'' then drop 2 path else if take 1 path = ''$'' then drop 1 path else path)"

text \<open>\<open>Number.parseInt(s, 10)\<close>: white space, a sign and the digits that follow; the rest is ignored.\<close>

definition parseInt :: "string \<Rightarrow> int option" where
  "parseInt str =
     (let s = trimStart str; ng = (take 1 s = ''-''); r = (if ng \<or> take 1 s = ''+'' then drop 1 s else s);
          ds = takeWhile is_digit r
      in if ds = [] then None else Some ((if ng then - 1 else 1) * int (nat_of_digits ds 0)))"

definition get_own :: "string \<Rightarrow> (string \<times> json) list \<Rightarrow> js_value option" where
  "get_own k kvs =
     (case map_of kvs k of
        Some v \<Rightarrow> Some (Val v)
      | None \<Rightarrow> if k = ''__proto__'' then Some Object_prototype else if k \<in> set object_names then Some (Native k) else None)"

definition get_step :: "js_value \<Rightarrow> string \<Rightarrow> js_value option" where
  "get_step v seg =
     (case v of
        Val (Jarr xs) \<Rightarrow>
          (case parseInt seg of
             None \<Rightarrow> None
           | Some i \<Rightarrow> if i < 0 \<or> int (length xs) \<le> i then None else Some (Val (xs ! nat i)))
      | Val (Jobj kvs) \<Rightarrow> get_own seg kvs
      | Object_prototype \<Rightarrow> if seg = ''__proto__'' then Some (Val Jnull)
                            else if seg \<in> set object_names then Some (Native seg) else None
      | _ \<Rightarrow> None)"

fun get_segments :: "js_value \<Rightarrow> string list \<Rightarrow> js_value option" where
  "get_segments v [] = Some v"
| "get_segments v (s # ss) = (case get_step v s of None \<Rightarrow> None | Some w \<Rightarrow> get_segments w ss)"

text \<open>\<open>None\<close> is a lookup that found nothing.\<close>

definition getByPath :: "js_value \<Rightarrow> string \<Rightarrow> js_value option" where
  "getByPath v path = get_segments v (parsePath path)"

section \<open>Membership\<close>

text \<open>The operator \<open>in\<close>, which raises on a value that is not an object.\<close>

definition js_in :: "string \<Rightarrow> json \<Rightarrow> bool option" where
  "js_in k j =
     (case j of
        Jobj kvs \<Rightarrow> Some (get_own k kvs \<noteq> None)
      | Jarr xs \<Rightarrow> Some ((\<exists>i < length xs. k = show_nat i) \<or> k \<in> set array_names \<or> k = ''__proto__'' \<or> k \<in> set object_names)
      | _ \<Rightarrow> None)"

section \<open>Templates\<close>

definition uuid_placeholder :: string where
  "uuid_placeholder = ''{{uuid}}''"

fun replace_all :: "string \<Rightarrow> string \<Rightarrow> string \<Rightarrow> string" where
  "replace_all p r [] = []"
| "replace_all p r (c # cs) =
     (if p \<noteq> [] \<and> take (length p) (c # cs) = p then r @ replace_all p r (drop (length p) (c # cs)) else c # replace_all p r cs)"

text \<open>Assigning to the key \<open>__proto__\<close> of a fresh object adds no property.\<close>

primrec substituteUuid :: "string \<Rightarrow> json \<Rightarrow> json" where
  "substituteUuid u Jnull = Jnull"
| "substituteUuid u (Jbool b) = Jbool b"
| "substituteUuid u (Jnum n) = Jnum n"
| "substituteUuid u (Jstr s) = Jstr (replace_all uuid_placeholder u s)"
| "substituteUuid u (Jarr xs) = Jarr (map (substituteUuid u) xs)"
| "substituteUuid u (Jobj kvs) = Jobj (filter (\<lambda>kv. fst kv \<noteq> ''__proto__'') (map (map_prod id (substituteUuid u)) kvs))"

section \<open>The text of a value determines it\<close>

text \<open>What ECMAScript promises of the notation of a number: different numbers have different texts,
  made of digits, signs, a point and an exponent.\<close>

definition num_char :: "char \<Rightarrow> bool" where
  "num_char c \<longleftrightarrow> is_digit c \<or> c \<in> {CHR ''-'', CHR ''+'', CHR ''.'', CHR ''e''}"

definition number_text :: "(rat \<Rightarrow> string) \<Rightarrow> bool" where
  "number_text nt \<longleftrightarrow> inj nt \<and> (\<forall>n. nt n \<noteq> [] \<and> list_all num_char (nt n) \<and> hd (nt n) \<noteq> CHR ''e'')"

definition unescape :: "string \<Rightarrow> char \<times> string" where
  "unescape s =
     (if hd s \<noteq> CHR 92 then (hd s, tl s)
      else let b = s ! 1
           in if b = CHR ''b'' then (CHR 8, drop 2 s) else if b = CHR ''f'' then (CHR 12, drop 2 s)
              else if b = CHR ''n'' then (CHR 10, drop 2 s) else if b = CHR ''r'' then (CHR 13, drop 2 s)
              else if b = CHR ''t'' then (CHR 9, drop 2 s)
              else if b = CHR ''u'' then (char_of (digit_value (s ! 4) * 16 + digit_value (s ! 5)), drop 6 s)
              else (b, drop 2 s))"

lemma digit_value_hex: "n < 16 \<Longrightarrow> digit_value (hex_digit n) = n"
  by (cases "n < 10") (simp_all add: digit_value_def hex_digit_def Let_def)

lemma of_char_eq: "of_char c = (n :: nat) \<Longrightarrow> c = char_of n"
  by auto

lemma control_chars:
  "char_of (8 :: nat) = CHR 8" "char_of (9 :: nat) = CHR 9" "char_of (10 :: nat) = CHR 10" "char_of (12 :: nat) = CHR 12"
  "char_of (13 :: nat) = CHR 13" "char_of (34 :: nat) = CHR 34" "char_of (92 :: nat) = CHR 92"
  by code_simp+

lemma unescape_escape: "unescape (escape_char c @ s) = (c, s)"
proof -
  have "c = char_of (of_char c div 16 * 16 + of_char c mod 16 :: nat)" by simp
  moreover have "(of_char c :: nat) < 32 \<Longrightarrow> of_char c div 16 < (16 :: nat)" by simp
  ultimately show ?thesis
    by (auto simp: escape_char_def unescape_def Let_def digit_value_hex control_chars dest!: of_char_eq)
qed

lemma escape_inject: "escape_char c @ s = escape_char d @ t \<Longrightarrow> c = d \<and> s = t"
  by (metis unescape_escape prod.inject)

lemma escape_no_quote: "escape_char c @ s \<noteq> CHR 34 # t"
  by (auto simp: escape_char_def Let_def)

lemma quoted_inject:
  "concat (map escape_char s) @ CHR 34 # r = concat (map escape_char t) @ CHR 34 # r' \<Longrightarrow> s = t \<and> r = r'"
proof (induction s arbitrary: t)
  case Nil
  then show ?case using escape_no_quote [of "hd t"] by (cases t) (auto, metis)
next
  case (Cons c s)
  then obtain d t' where t: "t = d # t'" using escape_no_quote [of c] by (cases t) auto
  with Cons.prems have "escape_char c @ (concat (map escape_char s) @ CHR 34 # r) = escape_char d @ (concat (map escape_char t') @ CHR 34 # r')" by simp
  from escape_inject [OF this] Cons.IH [of t'] t show ?case by simp
qed

lemma quote_inject: "quote s @ r = quote t @ r' \<Longrightarrow> s = t \<and> r = r'"
  using quoted_inject [of s r t r'] by (simp add: quote_def)

definition stops :: "string \<Rightarrow> bool" where
  "stops r \<longleftrightarrow> r = [] \<or> \<not> num_char (hd r)"

lemma number_inject:
  assumes "number_text nt" and "nt m @ r = nt n @ r'" and "stops r" and "stops r'"
  shows "m = n \<and> r = r'"
proof -
  have tw: "takeWhile num_char (nt k @ x) = nt k \<and> dropWhile num_char (nt k @ x) = x" if "stops x" for k x
    using assms(1) that by (cases x) (auto simp: number_text_def stops_def list_all_iff takeWhile_append2 dropWhile_append2 takeWhile_eq_all_conv)
  have "nt m = nt n" "r = r'" using tw [OF assms(3), of m] tw [OF assms(4), of n] assms(2) by metis+
  then show ?thesis using assms(1) by (auto simp: number_text_def inj_def)
qed

definition cancels :: "('a \<Rightarrow> string) \<Rightarrow> 'a \<Rightarrow> bool" where
  "cancels f x \<longleftrightarrow> (\<forall>y r r'. f x @ r = f y @ r' \<longrightarrow> stops r \<longrightarrow> stops r' \<longrightarrow> x = y \<and> r = r')"

lemma cancelsD: "cancels f x \<Longrightarrow> f x @ r = f y @ r' \<Longrightarrow> stops r \<Longrightarrow> stops r' \<Longrightarrow> x = y \<and> r = r'"
  by (simp add: cancels_def)

lemma stops_tail: "\<not> num_char e \<Longrightarrow> stops (concat (map (\<lambda>x. CHR '','' # f x) xs) @ e # r)"
  by (cases xs) (simp_all add: stops_def num_char_def is_digit_def)

lemma tail_inject:
  assumes "\<forall>x \<in> set xs. cancels f x" and "\<not> num_char e" and "e \<noteq> CHR '',''"
    and "concat (map (\<lambda>x. CHR '','' # f x) xs) @ e # r = concat (map (\<lambda>x. CHR '','' # f x) ys) @ e # r'"
  shows "xs = ys \<and> r = r'"
  using assms
proof (induction xs arbitrary: ys)
  case Nil
  then show ?case by (cases ys) auto
next
  case (Cons x xs)
  then obtain y ys' where ys: "ys = y # ys'" by (cases ys) auto
  with Cons.prems(4) have "f x @ (concat (map (\<lambda>x. CHR '','' # f x) xs) @ e # r) = f y @ (concat (map (\<lambda>x. CHR '','' # f x) ys') @ e # r')" by simp
  with Cons.prems(1,2) have "x = y \<and> concat (map (\<lambda>x. CHR '','' # f x) xs) @ e # r = concat (map (\<lambda>x. CHR '','' # f x) ys') @ e # r'"
    by (intro cancelsD [of f x]) (simp_all add: stops_tail)
  with Cons.IH [of ys'] Cons.prems ys show ?case by simp
qed

lemma comma_list_map: "comma_list (map f (x # xs)) = f x @ concat (map (\<lambda>x. CHR '','' # f x) xs)"
  by (simp add: comma_list_def comp_def)

lemma comma_list_inject:
  assumes "\<forall>x \<in> set xs. cancels f x" and "\<not> num_char e" and "e \<noteq> CHR '',''" and "\<And>x s. f x @ s \<noteq> e # r \<and> f x @ s \<noteq> e # r'"
    and "comma_list (map f xs) @ e # r = comma_list (map f ys) @ e # r'"
  shows "xs = ys \<and> r = r'"
proof (cases xs)
  case Nil
  then show ?thesis
  proof (cases ys)
    case (Cons y ys')
    then have "e # r = f y @ (concat (map (\<lambda>x. CHR '','' # f x) ys') @ e # r')"
      using assms(5) Nil by (simp only: comma_list_map append_assoc) (simp add: comma_list_def)
    with assms(4) show ?thesis by metis
  qed (use Nil assms(5) in simp)
next
  case (Cons x xs')
  show ?thesis
  proof (cases ys)
    case Nil
    then have "f x @ (concat (map (\<lambda>x. CHR '','' # f x) xs') @ e # r) = e # r'"
      using assms(5) Cons by (simp only: comma_list_map append_assoc) (simp add: comma_list_def)
    with assms(4) show ?thesis by metis
  next
    case ys: (Cons y ys')
    with assms(5) Cons have "f x @ (concat (map (\<lambda>x. CHR '','' # f x) xs') @ e # r) = f y @ (concat (map (\<lambda>x. CHR '','' # f x) ys') @ e # r')"
      by (simp only: comma_list_map append_assoc)
    then have "x = y \<and> concat (map (\<lambda>x. CHR '','' # f x) xs') @ e # r = concat (map (\<lambda>x. CHR '','' # f x) ys') @ e # r'"
      using assms(1,2) Cons by (intro cancelsD [of f x]) (simp_all add: stops_tail)
    then show ?thesis using tail_inject [of xs' f e r ys' r'] assms(1-3) Cons ys by simp
  qed
qed

definition member_text :: "(rat \<Rightarrow> string) \<Rightarrow> string \<times> json \<Rightarrow> string" where
  "member_text nt kv = quote (fst kv) @ '':'' @ stringify nt (snd kv)"

lemma stringify_members: "stringify nt (Jobj kvs) = ''{'' @ comma_list (map (member_text nt) kvs) @ ''}''"
proof -
  have "map (\<lambda>(k, t). quote k @ '':'' @ t) (map (map_prod id (stringify nt)) kvs) = map (member_text nt) kvs"
    by (simp add: member_text_def split_beta)
  then show ?thesis by (simp only: stringify.simps)
qed

lemma member_cancels: "cancels (stringify nt) (snd kv) \<Longrightarrow> cancels (member_text nt) kv"
proof -
  assume c: "cancels (stringify nt) (snd kv)"
  have "kv = y \<and> r = r'" if e: "member_text nt kv @ r = member_text nt y @ r'" and s: "stops r" "stops r'" for y r r'
  proof -
    from e have "quote (fst kv) @ ('':'' @ stringify nt (snd kv) @ r) = quote (fst y) @ ('':'' @ stringify nt (snd y) @ r')"
      by (simp add: member_text_def)
    from quote_inject [OF this] have "fst kv = fst y" "stringify nt (snd kv) @ r = stringify nt (snd y) @ r'" by simp_all
    with cancelsD [OF c _ s] show ?thesis by (auto simp: prod_eq_iff)
  qed
  then show ?thesis by (simp add: cancels_def)
qed

text \<open>The first character tells the kind of a value.\<close>

fun heads :: "json \<Rightarrow> char set" where
  "heads Jnull = {CHR ''n''}"
| "heads (Jbool b) = {if b then CHR ''t'' else CHR ''f''}"
| "heads (Jnum n) = {c. num_char c \<and> c \<noteq> CHR ''e''}"
| "heads (Jstr s) = {CHR 34}"
| "heads (Jarr xs) = {CHR ''[''}"
| "heads (Jobj kvs) = {CHR ''{''}"

lemma stringify_head: "number_text nt \<Longrightarrow> \<exists>c cs. stringify nt j = c # cs \<and> c \<in> heads j"
proof (cases j)
  case (Jnum n)
  assume "number_text nt"
  then have n: "nt n \<noteq> []" "list_all num_char (nt n)" "hd (nt n) \<noteq> CHR ''e''" by (simp_all add: number_text_def)
  then obtain c cs where "nt n = c # cs" by (cases "nt n") auto
  with n Jnum show ?thesis by simp
qed (auto simp: quote_def)

lemma heads_disjoint: "c \<in> heads a \<Longrightarrow> c \<in> heads b \<Longrightarrow>
    (case (a, b) of (Jnull, Jnull) \<Rightarrow> True | (Jbool x, Jbool y) \<Rightarrow> x = y | (Jnum _, Jnum _) \<Rightarrow> True | (Jstr _, Jstr _) \<Rightarrow> True
       | (Jarr _, Jarr _) \<Rightarrow> True | (Jobj _, Jobj _) \<Rightarrow> True | _ \<Rightarrow> False)"
  by (cases a; cases b) (auto simp: num_char_def is_digit_def split: if_splits)

lemma stringify_not_close: "number_text nt \<Longrightarrow> stringify nt j @ s \<noteq> CHR '']'' # t"
  using stringify_head [of nt j] by (cases j) (auto simp: num_char_def is_digit_def split: if_splits)

lemma member_not_close: "member_text nt kv @ s \<noteq> CHR ''}'' # t"
  by (simp add: member_text_def quote_def)

lemma same_kind:
  assumes "number_text nt" and "stringify nt a @ r = stringify nt b @ r'"
  shows "case (a, b) of (Jnull, Jnull) \<Rightarrow> True | (Jbool x, Jbool y) \<Rightarrow> x = y | (Jnum _, Jnum _) \<Rightarrow> True | (Jstr _, Jstr _) \<Rightarrow> True
       | (Jarr _, Jarr _) \<Rightarrow> True | (Jobj _, Jobj _) \<Rightarrow> True | _ \<Rightarrow> False"
proof -
  obtain c cs where "stringify nt a = c # cs" "c \<in> heads a" using stringify_head [OF assms(1), of a] by blast
  moreover obtain d ds where "stringify nt b = d # ds" "d \<in> heads b" using stringify_head [OF assms(1), of b] by blast
  ultimately show ?thesis using assms(2) by (intro heads_disjoint [of c]) auto
qed

lemma stringify_cancels: "number_text nt \<Longrightarrow> cancels (stringify nt) a"
proof (induction a)
  case (Jarr xs)
  have "Jarr xs = b \<and> r = r'" if e: "stringify nt (Jarr xs) @ r = stringify nt b @ r'" and s: "stops r" "stops r'" for b r r'
  proof -
    obtain ys where b: "b = Jarr ys" using same_kind [OF Jarr.prems e] by (cases b) auto
    have "comma_list (map (stringify nt) xs) @ CHR '']'' # r = comma_list (map (stringify nt) ys) @ CHR '']'' # r'"
      using e by (simp add: b)
    then have "xs = ys \<and> r = r'"
      using Jarr stringify_not_close [OF Jarr.prems] by (intro comma_list_inject [of xs "stringify nt" "CHR '']''"]) (auto simp: num_char_def is_digit_def)
    then show ?thesis by (simp add: b)
  qed
  then show ?case by (simp add: cancels_def)
next
  case (Jobj kvs)
  have c: "\<forall>kv \<in> set kvs. cancels (member_text nt) kv"
  proof
    fix kv assume kv: "kv \<in> set kvs"
    have "cancels (stringify nt) (snd kv)" by (rule Jobj.IH [OF kv _ Jobj.prems]) (cases kv, simp)
    then show "cancels (member_text nt) kv" by (rule member_cancels)
  qed
  have "Jobj kvs = b \<and> r = r'" if e: "stringify nt (Jobj kvs) @ r = stringify nt b @ r'" and s: "stops r" "stops r'" for b r r'
  proof -
    obtain ys where b: "b = Jobj ys" using same_kind [OF Jobj.prems e] by (cases b) auto
    have "comma_list (map (member_text nt) kvs) @ CHR ''}'' # r = comma_list (map (member_text nt) ys) @ CHR ''}'' # r'"
      using e unfolding b stringify_members by simp
    then have "kvs = ys \<and> r = r'"
      using c member_not_close by (intro comma_list_inject [of kvs "member_text nt" "CHR ''}''"]) (auto simp: num_char_def is_digit_def)
    then show ?thesis by (simp add: b)
  qed
  then show ?case by (simp add: cancels_def)
next
  case (Jnum n)
  have "Jnum n = b \<and> r = r'" if e: "stringify nt (Jnum n) @ r = stringify nt b @ r'" and s: "stops r" "stops r'" for b r r'
  proof -
    obtain m where b: "b = Jnum m" using same_kind [OF Jnum e] by (cases b) auto
    with e number_inject [OF Jnum _ s, of n m] show ?thesis by simp
  qed
  then show ?case by (simp add: cancels_def)
next
  case (Jstr x)
  have "Jstr x = b \<and> r = r'" if e: "stringify nt (Jstr x) @ r = stringify nt b @ r'" for b r r'
  proof -
    obtain y where b: "b = Jstr y" using same_kind [OF Jstr e] by (cases b) auto
    with e quote_inject [of x r y r'] show ?thesis by simp
  qed
  then show ?case by (simp add: cancels_def)
next
  case Jnull
  have "Jnull = b \<and> r = r'" if e: "stringify nt Jnull @ r = stringify nt b @ r'" for b r r'
    using e same_kind [OF Jnull e] by (cases b) auto
  then show ?case unfolding cancels_def by blast
next
  case (Jbool x)
  have "Jbool x = b \<and> r = r'" if e: "stringify nt (Jbool x) @ r = stringify nt b @ r'" for b r r'
    using e same_kind [OF Jbool e] by (cases b) (auto split: if_splits)
  then show ?case unfolding cancels_def by blast
qed

lemma stringify_inject: "number_text nt \<Longrightarrow> stringify nt a = stringify nt b \<longleftrightarrow> a = b"
  using cancelsD [OF stringify_cancels, of nt a "[]" b "[]"] by (auto simp: stops_def)

end
