(* ===== verification/Enums.thy ===== *)
theory Enums
  imports Json
begin

text \<open>
  The controlled vocabularies of \<^verbatim>\<open>src/domain/enums.ts\<close> as datatypes with the source's
  labels, the default severity of each endpoint class, and the entities of
  \<^verbatim>\<open>src/domain/target.ts\<close> and \<^verbatim>\<open>src/domain/incident.ts\<close> as records. Severities and load
  environment classes are instances of \<open>linorder\<close>: the code compares both by rank.
\<close>

section \<open>Labels\<close>

datatype environment = Env_production | Env_staging | Env_sandbox

datatype endpoint_class =
    Payment_initiation | Payment_status | Ledger | Settlement | Psp_gateway
  | Kyc | Auth_class | Notification_class | Reporting | Internal | Utility_vending

datatype severity = CRITICAL | HIGH | MEDIUM | LOW

datatype health_status = UP | DOWN | DEGRADED | UNKNOWN

datatype check_failure_type =
    TIMEOUT | DNS_ERROR | CONNECTION_ERROR | TLS_ERROR | HTTP_4XX | HTTP_5XX
  | AUTHENTICATION_ERROR | VALIDATION_ERROR | SETTLEMENT_MISMATCH
  | RECONCILIATION_FAILURE | RATE_LIMITED | PARTIAL_DEGRADATION | UNKNOWN_FAILURE

datatype cron_run_status =
    RUNNING | SUCCESS | RUN_FAILED | SKIPPED_LOCK_CONTENDED | DEAD_LETTERED

datatype incident_status = OPEN | ACKNOWLEDGED | RESOLVED

datatype incident_type = OUTAGE | DEGRADATION | FLAPPING

datatype alert_type =
    API_DOWN | API_RECOVERED | API_DEGRADED | HIGH_LATENCY | AUTHENTICATION_FAILURE
  | REPEATED_FAILURE | FLAPPING_DETECTED | ESCALATION_TRIGGERED | SLA_BREACH_WARNING
  | SCHEDULER_HEARTBEAT_MISSED | JOB_EXECUTION_FAILURE

datatype alert_channel = EMAIL | SMS | WEBHOOK | SLACK | TEAMS | PUSH | PHONE

datatype alert_status = PENDING | SENT | ALERT_FAILED | SUPPRESSED

datatype load_environment_class = MOCK | SANDBOX | STAGING | PRODUCTION

datatype load_authorization_status = AUTH_PENDING | APPROVED | REJECTED | REVOKED

datatype load_profile = SMOKE | LOAD | STRESS | SPIKE | SOAK | BREAKPOINT

datatype load_run_status =
    RUN_QUEUED | RUN_PREFLIGHT | RUN_RUNNING | RUN_COMPLETED | RUN_ABORTED | RUN_RUN_FAILED

text \<open>\<open>DEFAULT_SEVERITY_BY_CLASS\<close>: used when a target is registered without a severity.\<close>

fun DEFAULT_SEVERITY_BY_CLASS :: "endpoint_class \<Rightarrow> severity" where
  "DEFAULT_SEVERITY_BY_CLASS Payment_initiation = CRITICAL"
| "DEFAULT_SEVERITY_BY_CLASS Payment_status = CRITICAL"
| "DEFAULT_SEVERITY_BY_CLASS Ledger = CRITICAL"
| "DEFAULT_SEVERITY_BY_CLASS Settlement = CRITICAL"
| "DEFAULT_SEVERITY_BY_CLASS Psp_gateway = CRITICAL"
| "DEFAULT_SEVERITY_BY_CLASS Kyc = HIGH"
| "DEFAULT_SEVERITY_BY_CLASS Auth_class = HIGH"
| "DEFAULT_SEVERITY_BY_CLASS Utility_vending = HIGH"
| "DEFAULT_SEVERITY_BY_CLASS Notification_class = MEDIUM"
| "DEFAULT_SEVERITY_BY_CLASS Reporting = LOW"
| "DEFAULT_SEVERITY_BY_CLASS Internal = LOW"

section \<open>Rendering of the labels inside messages\<close>

fun show_health_status :: "health_status \<Rightarrow> string" where
  "show_health_status UP = ''UP''"
| "show_health_status DOWN = ''DOWN''"
| "show_health_status DEGRADED = ''DEGRADED''"
| "show_health_status UNKNOWN = ''UNKNOWN''"

fun show_failure_type :: "check_failure_type \<Rightarrow> string" where
  "show_failure_type TIMEOUT = ''TIMEOUT''"
| "show_failure_type DNS_ERROR = ''DNS_ERROR''"
| "show_failure_type CONNECTION_ERROR = ''CONNECTION_ERROR''"
| "show_failure_type TLS_ERROR = ''TLS_ERROR''"
| "show_failure_type HTTP_4XX = ''HTTP_4XX''"
| "show_failure_type HTTP_5XX = ''HTTP_5XX''"
| "show_failure_type AUTHENTICATION_ERROR = ''AUTHENTICATION_ERROR''"
| "show_failure_type VALIDATION_ERROR = ''VALIDATION_ERROR''"
| "show_failure_type SETTLEMENT_MISMATCH = ''SETTLEMENT_MISMATCH''"
| "show_failure_type RECONCILIATION_FAILURE = ''RECONCILIATION_FAILURE''"
| "show_failure_type RATE_LIMITED = ''RATE_LIMITED''"
| "show_failure_type PARTIAL_DEGRADATION = ''PARTIAL_DEGRADATION''"
| "show_failure_type UNKNOWN_FAILURE = ''UNKNOWN''"

fun show_severity :: "severity \<Rightarrow> string" where
  "show_severity CRITICAL = ''CRITICAL''"
| "show_severity HIGH = ''HIGH''"
| "show_severity MEDIUM = ''MEDIUM''"
| "show_severity LOW = ''LOW''"

fun show_channel :: "alert_channel \<Rightarrow> string" where
  "show_channel EMAIL = ''EMAIL''"
| "show_channel SMS = ''SMS''"
| "show_channel WEBHOOK = ''WEBHOOK''"
| "show_channel SLACK = ''SLACK''"
| "show_channel TEAMS = ''TEAMS''"
| "show_channel PUSH = ''PUSH''"
| "show_channel PHONE = ''PHONE''"

text \<open>The key \<open>channel:recipient\<close> of a destination determines both parts.\<close>

definition dest_key :: "alert_channel \<times> string \<Rightarrow> string" where
  "dest_key x = show_channel (fst x) @ '':'' @ snd x"

lemma dest_key_inject: "dest_key x = dest_key y \<longleftrightarrow> x = y"
  by (cases x; cases y; cases "fst x"; cases "fst y") (auto simp: dest_key_def)

lemma inj_dest_key: "inj dest_key"
  by (simp add: inj_def dest_key_inject)

section \<open>Rank orders\<close>

text \<open>
  \<open>SEVERITIES\<close> lists the labels from the gravest to the mildest; \<open>sev_rank\<close> is the position
  counted from the mild end, so that a larger severity is a graver one.
\<close>

fun sev_rank :: "severity \<Rightarrow> nat" where
  "sev_rank CRITICAL = 3"
| "sev_rank HIGH = 2"
| "sev_rank MEDIUM = 1"
| "sev_rank LOW = 0"

lemma sev_rank_inject: "sev_rank a = sev_rank b \<longleftrightarrow> a = b"
  by (cases a; cases b) simp_all

instantiation severity :: linorder
begin

definition less_eq_severity :: "severity \<Rightarrow> severity \<Rightarrow> bool" where
  "a \<le> b \<longleftrightarrow> sev_rank a \<le> sev_rank b"

definition less_severity :: "severity \<Rightarrow> severity \<Rightarrow> bool" where
  "a < b \<longleftrightarrow> sev_rank a < sev_rank b"

instance
  by standard (auto simp: less_eq_severity_def less_severity_def sev_rank_inject)

end

text \<open>\<open>STRICTNESS\<close> of \<^verbatim>\<open>src/domain/load-safety.ts\<close>.\<close>

fun STRICTNESS :: "load_environment_class \<Rightarrow> nat" where
  "STRICTNESS MOCK = 0"
| "STRICTNESS SANDBOX = 1"
| "STRICTNESS STAGING = 2"
| "STRICTNESS PRODUCTION = 3"

lemma STRICTNESS_inject: "STRICTNESS a = STRICTNESS b \<longleftrightarrow> a = b"
  by (cases a; cases b) simp_all

instantiation load_environment_class :: linorder
begin

definition less_eq_load_environment_class :: "load_environment_class \<Rightarrow> load_environment_class \<Rightarrow> bool" where
  "a \<le> b \<longleftrightarrow> STRICTNESS a \<le> STRICTNESS b"

definition less_load_environment_class :: "load_environment_class \<Rightarrow> load_environment_class \<Rightarrow> bool" where
  "a < b \<longleftrightarrow> STRICTNESS a < STRICTNESS b"

instance
  by standard (auto simp: less_eq_load_environment_class_def less_load_environment_class_def STRICTNESS_inject)

end

lemmas rank_defs = less_eq_severity_def less_severity_def
  less_eq_load_environment_class_def less_load_environment_class_def

section \<open>Monitored targets\<close>

datatype target_method = M_GET | M_POST | M_PUT | M_PATCH | M_DELETE | M_HEAD

datatype auth_type = A_NONE | A_API_KEY | A_BEARER | A_BASIC | A_CUSTOM_HEADER | A_OAUTH2

text \<open>A rule of response validation; an expected value that is absent is \<open>None\<close>.\<close>

datatype numeric_op = Op_lt | Op_le | Op_gt | Op_ge | Op_eq

datatype validation_rule =
    R_status int
  | R_json_equals string "json option"
  | R_json_path_equals string "json option"
  | R_contains string bool
  | R_numeric string numeric_op rat
  | R_json_schema "(string \<times> json) list"
  | R_composite bool "validation_rule list"

record retry_config =
  retry_count :: nat
  baseDelayMs :: int
  backoffMultiplier :: rat
  maxDelayMs :: int

record monitored_api =
  api_id :: target_id
  api_name :: string
  api_description :: "string option"
  api_environment :: environment
  endpointClass :: endpoint_class
  severityDefault :: severity
  isMoneyMoving :: bool
  api_url :: string
  api_method :: target_method
  authenticationType :: auth_type
  hasCredentials :: bool
  api_headers :: "(string \<times> string) list"
  requestBody :: "json option"
  expectedStatus :: "int option"
  expectedResponse :: "validation_rule option"
  timeoutMs :: int
  frequencyCron :: string
  api_retry :: retry_config
  slaTargetPercent :: rat
  ownerId :: "row_id option"
  teamId :: "row_id option"
  escalationPolicyId :: "row_id option"
  api_tags :: "string list"
  isActive :: bool
  allowPrivateNetwork :: bool
  bypassMinIntervalFloor :: bool
  api_createdAt :: timestamp
  api_updatedAt :: timestamp

section \<open>Incidents\<close>

record incident =
  inc_id :: row_id
  inc_apiId :: target_id
  incidentNumber :: string
  incidentType :: incident_type
  inc_severity :: severity
  endpointClassSnapshot :: endpoint_class
  isMoneyMovingSnapshot :: bool
  inc_status :: incident_status
  startedAt :: timestamp
  detectedByCheckId :: "row_id option"
  acknowledgedAt :: "timestamp option"
  acknowledgedBy :: "row_id option"
  resolvedAt :: "timestamp option"
  durationSeconds :: "int option"
  failureCount :: nat
  inc_failureType :: "check_failure_type option"
  escalationLevelReached :: int
  rootCause :: "string option"
  resolution :: "string option"
  inc_createdAt :: timestamp
  inc_updatedAt :: timestamp

end
