(* ===== verification/Database.thy ===== *)
theory Database
  imports Enums
begin

text \<open>
  The PostgreSQL state shared by every process: one record per table row and one record for
  the whole database, each table a list of its rows in insertion order. \<open>next_id\<close> stands for
  \<open>gen_random_uuid()\<close> (a supply of identifiers that never repeat) and \<open>incident_seq\<close> for the
  sequence \<open>incident_number_seq\<close>. Operations that the schema can reject return a sum whose
  left side is the database error; \<open>withTransaction\<close> undoes every table but, as PostgreSQL
  does, neither gives back a sequence value nor an identifier drawn.

  The unique constraints of the schema that the code leans on are the invariant \<open>db_inv\<close>.
\<close>

section \<open>Rows\<close>

record lock_row =
  lock_key :: string
  lock_holder :: string
  lock_acquiredAt :: timestamp
  lock_expiresAt :: timestamp

record cron_job_run =
  cjr_id :: row_id
  cjr_targetId :: target_id
  cjr_scheduledSlot :: timestamp
  cjr_jobRunId :: string
  cjr_workerId :: "string option"
  cjr_status :: cron_run_status
  cjr_attemptNumber :: nat
  cjr_lockAcquiredAt :: "timestamp option"
  cjr_startedAt :: "timestamp option"
  cjr_completedAt :: "timestamp option"
  cjr_createdAt :: timestamp

record rule_result =
  rr_rule :: string
  rr_passed :: bool
  rr_detail :: "string option"

record req_resp_trace =
  requestMethod :: string
  requestUrlMasked :: string
  requestHeadersMasked :: "(string \<times> string) list"
  requestBodyMasked :: "string option"
  responseStatus :: "int option"
  responseHeadersMasked :: "(string \<times> string) list"
  responseBodyMasked :: "string option"
  responseBytes :: "nat option"
  responseContentType :: "string option"
  trace_responseTimeMs :: "int option"

record health_check_outcome =
  out_status :: health_status
  out_httpStatus :: "int option"
  out_responseTimeMs :: "int option"
  out_failureType :: "check_failure_type option"
  out_errorMessage :: "string option"
  out_validation :: "(bool \<times> rule_result list) option"
  out_attempts :: nat
  out_responseSample :: "string option"
  out_trace :: "req_resp_trace option"
  out_checkedAt :: timestamp

record health_check_row =
  hcr_id :: row_id
  hcr_apiId :: target_id
  hcr_jobRunId :: "string option"
  hcr_checkedAt :: timestamp
  hcr_status :: health_status
  hcr_httpStatus :: "int option"
  hcr_responseTimeMs :: "int option"
  hcr_errorType :: "check_failure_type option"
  hcr_errorMessage :: "string option"
  hcr_validation :: "(bool \<times> rule_result list) option"
  hcr_responseCode :: "string option"

record trace_row =
  tr_checkId :: row_id
  tr_apiId :: target_id
  tr_jobRunId :: "string option"
  tr_requestId :: row_id
  tr_correlationId :: string
  tr_checkedAt :: timestamp
  tr_attempts :: nat
  tr_healthStatus :: health_status
  tr_failureType :: "check_failure_type option"
  tr_trace :: req_resp_trace

record schedule_state =
  ss_targetId :: target_id
  lastExpectedRunAt :: "timestamp option"
  lastActualRunAt :: "timestamp option"
  lastStatus :: "health_status option"
  consecutiveSuccesses :: nat
  consecutiveFailures :: nat
  missedRunCount :: nat
  ss_updatedAt :: timestamp

record heartbeat_row =
  hb_instanceId :: string
  hb_lastTickAt :: timestamp
  hb_activeJobCount :: nat
  hb_queueDepth :: nat
  hb_createdAt :: timestamp

datatype incident_event_kind =
    Ev_detected | Ev_failure_changed | Ev_severity_escalated | Ev_flapping_detected
  | Ev_latency_elevated | Ev_dependency_error | Ev_database_error | Ev_rca_computed
  | Ev_acknowledged | Ev_recovered | Ev_resolved | Ev_alert

record incident_event =
  ev_incidentId :: row_id
  ev_at :: timestamp
  ev_kind :: incident_event_kind
  ev_summary :: string
  ev_detail :: "(string \<times> string) list"
  ev_source :: string

record alert =
  al_id :: row_id
  al_incidentId :: "row_id option"
  al_apiId :: "target_id option"
  alertType :: alert_type
  al_channel :: alert_channel
  al_recipient :: string
  al_status :: alert_status
  escalationTier :: "int option"
  al_sentAt :: "timestamp option"
  al_errorMessage :: "string option"
  al_createdAt :: timestamp

record notification_contact =
  nc_id :: row_id
  nc_name :: "string option"
  nc_channel :: alert_channel
  nc_address :: string
  nc_digest :: bool
  nc_digestEveryRun :: bool
  nc_incidentAlerts :: bool
  nc_isActive :: bool

record maintenance_window =
  mw_id :: row_id
  mw_targetId :: "target_id option"
  mw_startsAt :: timestamp
  mw_endsAt :: timestamp
  mw_reason :: string
  mw_ticketRef :: "string option"
  mw_createdBy :: "row_id option"
  mw_createdAt :: timestamp

datatype tier_condition = Always | Is_money_moving

record escalation_tier =
  delayMinutes :: nat
  tier_channel :: alert_channel
  recipients :: "string list"
  tier_condition_of :: tier_condition

record escalation_policy =
  ep_id :: row_id
  ep_name :: string
  ep_description :: "string option"
  tiers :: "escalation_tier list"
  ep_createdAt :: timestamp
  ep_updatedAt :: timestamp

record audit_actor =
  actor_userId :: "row_id option"
  actor_label :: "string option"

datatype entity_id = Row row_id | Target target_id

record audit_row =
  audit_userId :: "row_id option"
  audit_label :: string
  audit_action :: string
  audit_entityType :: string
  audit_entityId :: "entity_id option"
  audit_summary :: "string option"

section \<open>The database\<close>

record db =
  job_locks :: "lock_row list"
  cron_job_runs :: "cron_job_run list"
  health_check_results :: "health_check_row list"
  health_check_traces :: "trace_row list"
  target_schedule_state :: "schedule_state list"
  scheduler_heartbeats :: "heartbeat_row list"
  incidents :: "incident list"
  incident_events :: "incident_event list"
  alerts :: "alert list"
  notification_contacts :: "notification_contact list"
  maintenance_windows :: "maintenance_window list"
  escalation_policies :: "escalation_policy list"
  monitored_apis :: "monitored_api list"
  audit_logs :: "audit_row list"
  next_id :: nat
  incident_seq :: nat

definition empty_db :: db where
  "empty_db = \<lparr>job_locks = [], cron_job_runs = [], health_check_results = [],
     health_check_traces = [], target_schedule_state = [], scheduler_heartbeats = [],
     incidents = [], incident_events = [], alerts = [], notification_contacts = [],
     maintenance_windows = [], escalation_policies = [], monitored_apis = [], audit_logs = [],
     next_id = 0, incident_seq = 1\<rparr>"

text \<open>The validated environment (\<^verbatim>\<open>src/config/env.ts\<close>), the settings the model reads.\<close>

record env =
  INSTANCE_ID :: string
  SCHEDULER_LOCK_TTL_MS :: int
  SCHEDULER_HEARTBEAT_INTERVAL_MS :: int
  SCHEDULER_HEARTBEAT_GRACE_MS :: int
  MAX_GLOBAL_CONCURRENT_CHECKS :: nat
  INCIDENT_RECOVERY_STREAK :: nat
  FLAPPING_THRESHOLD :: nat
  FLAPPING_WINDOW_MINUTES :: nat
  ALERT_DEFAULT_CHANNELS :: "alert_channel list"
  ALERT_DEFAULT_RECIPIENT :: string
  WATCHDOG_EXTERNAL_ENDPOINT :: "string option"

text \<open>The defaults of the schema, used by the examples.\<close>

definition default_env :: env where
  "default_env = \<lparr>INSTANCE_ID = ''local-1'', SCHEDULER_LOCK_TTL_MS = 15000,
     SCHEDULER_HEARTBEAT_INTERVAL_MS = 10000, SCHEDULER_HEARTBEAT_GRACE_MS = 30000,
     MAX_GLOBAL_CONCURRENT_CHECKS = 50, INCIDENT_RECOVERY_STREAK = 2,
     FLAPPING_THRESHOLD = 4, FLAPPING_WINDOW_MINUTES = 10,
     ALERT_DEFAULT_CHANNELS = [WEBHOOK], ALERT_DEFAULT_RECIPIENT = ''ops'',
     WATCHDOG_EXTERNAL_ENDPOINT = None\<rparr>"

text \<open>A target for the examples: a money-moving payout endpoint checked every minute.\<close>

definition sample_api :: monitored_api where
  "sample_api = \<lparr>api_id = ''t1'', api_name = ''payout'', api_description = None, api_environment = Env_production,
     endpointClass = Psp_gateway, severityDefault = CRITICAL, isMoneyMoving = True,
     api_url = ''https://pay.example/health'', api_method = M_GET, authenticationType = A_NONE, hasCredentials = False,
     api_headers = [], requestBody = None, expectedStatus = Some 200, expectedResponse = None,
     timeoutMs = 5000, frequencyCron = ''* * * * *'',
     api_retry = \<lparr>retry_count = 2, baseDelayMs = 1000, backoffMultiplier = 2, maxDelayMs = 30000\<rparr>,
     slaTargetPercent = 99, ownerId = None, teamId = None, escalationPolicyId = Some 7, api_tags = [], isActive = True,
     allowPrivateNetwork = False, bypassMinIntervalFloor = False, api_createdAt = 0, api_updatedAt = 0\<rparr>"

lemma sample_api_simps [simp]:
  "api_id sample_api = ''t1''" "severityDefault sample_api = CRITICAL" "isMoneyMoving sample_api = True"
  "timeoutMs sample_api = 5000" "retry_count (api_retry sample_api) = 2" "isActive sample_api"
  "frequencyCron sample_api = ''* * * * *''" "api_createdAt sample_api = 0"
  by (simp_all add: sample_api_def)

definition findTargetById :: "target_id \<Rightarrow> db \<Rightarrow> monitored_api option" where
  "findTargetById t d = find (\<lambda>m. api_id m = t) (monitored_apis d)"

section \<open>Errors and transactions\<close>

datatype db_error = Unique_violation string | Check_violation string | Foreign_key_violation string | Numeric_overflow

datatype app_error = NotFoundError string | ValidationError string | ZodError string | ForbiddenError string
  | ConflictError string | UnauthorizedError string | PlainError string | DbError db_error

text \<open>The \<open>message\<close> of an error.\<close>

definition db_error_message :: "db_error \<Rightarrow> string" where
  "db_error_message err =
     (case err of
        Unique_violation c \<Rightarrow> ''duplicate key value violates unique constraint '' @ dquote @ c @ dquote
      | Check_violation c \<Rightarrow> ''new row violates check constraint '' @ dquote @ c @ dquote
      | Foreign_key_violation c \<Rightarrow> ''insert or update violates foreign key constraint '' @ dquote @ c @ dquote
      | Numeric_overflow \<Rightarrow> ''numeric field overflow'')"

definition app_error_message :: "app_error \<Rightarrow> string" where
  "app_error_message err =
     (case err of
        NotFoundError m \<Rightarrow> m | ValidationError m \<Rightarrow> m | ZodError m \<Rightarrow> m | ForbiddenError m \<Rightarrow> m
      | ConflictError m \<Rightarrow> m | UnauthorizedError m \<Rightarrow> m | PlainError m \<Rightarrow> m | DbError e \<Rightarrow> db_error_message e)"

definition withTransaction ::
    "(db \<Rightarrow> ('e + 'a) \<times> db) \<Rightarrow> db \<Rightarrow> ('e + 'a) \<times> db" where
  "withTransaction fn d =
     (case fn d of
        (Inr result, d') \<Rightarrow> (Inr result, d')
      | (Inl err, d') \<Rightarrow> (Inl err, d\<lparr>next_id := next_id d', incident_seq := incident_seq d'\<rparr>))"

lemma withTransaction_Inr:
  "withTransaction fn d = (Inr r, d') \<longleftrightarrow> fn d = (Inr r, d')"
  by (auto simp: withTransaction_def split: prod.splits sum.splits)

lemma withTransaction_rollback:
  "withTransaction fn d = (Inl e, d') \<Longrightarrow>
     \<exists>n s. d' = d\<lparr>next_id := n, incident_seq := s\<rparr>"
  by (auto simp: withTransaction_def split: prod.splits sum.splits)

section \<open>The constraints of the schema\<close>

definition active_incident :: "incident \<Rightarrow> bool" where
  "active_incident i \<longleftrightarrow> inc_status i \<noteq> RESOLVED"

definition run_key :: "cron_job_run \<Rightarrow> target_id \<times> timestamp \<times> nat" where
  "run_key r = (cjr_targetId r, cjr_scheduledSlot r, cjr_attemptNumber r)"

text \<open>
  One predicate per table: \<open>incidents_one_active_per_target\<close>,
  \<open>cron_job_runs_slot_attempt_unique\<close>, \<open>health_check_results_job_run_id_unique\<close>, the primary
  keys, and that the identifiers in use lie below the supply.
\<close>

definition locks_ok :: "lock_row list \<Rightarrow> bool" where
  "locks_ok rows \<longleftrightarrow> unique_on (\<lambda>_. True) lock_key rows"

definition runs_ok :: "nat \<Rightarrow> cron_job_run list \<Rightarrow> bool" where
  "runs_ok n rows \<longleftrightarrow> unique_on (\<lambda>_. True) run_key rows \<and> unique_on (\<lambda>_. True) cjr_id rows \<and>
     (\<forall>r \<in> set rows. cjr_id r < n)"

definition results_ok :: "health_check_row list \<Rightarrow> bool" where
  "results_ok rows \<longleftrightarrow> unique_on (\<lambda>r. hcr_jobRunId r \<noteq> None) hcr_jobRunId rows"

definition sched_ok :: "schedule_state list \<Rightarrow> bool" where
  "sched_ok rows \<longleftrightarrow> unique_on (\<lambda>_. True) ss_targetId rows"

definition incidents_ok :: "nat \<Rightarrow> incident list \<Rightarrow> bool" where
  "incidents_ok n rows \<longleftrightarrow> unique_on active_incident inc_apiId rows \<and>
     unique_on (\<lambda>_. True) inc_id rows \<and> unique_on (\<lambda>_. True) incidentNumber rows \<and>
     (\<forall>i \<in> set rows. inc_id i < n)"

definition alerts_ok :: "nat \<Rightarrow> alert list \<Rightarrow> bool" where
  "alerts_ok n rows \<longleftrightarrow> unique_on (\<lambda>_. True) al_id rows \<and> (\<forall>a \<in> set rows. al_id a < n)"

definition db_inv :: "db \<Rightarrow> bool" where
  "db_inv d \<longleftrightarrow> locks_ok (job_locks d) \<and> runs_ok (next_id d) (cron_job_runs d) \<and>
     results_ok (health_check_results d) \<and> sched_ok (target_schedule_state d) \<and>
     incidents_ok (next_id d) (incidents d) \<and> alerts_ok (next_id d) (alerts d)"

lemmas table_ok_defs = locks_ok_def runs_ok_def results_ok_def sched_ok_def incidents_ok_def alerts_ok_def

lemma ok_mono:
  "runs_ok n rs \<Longrightarrow> n \<le> m \<Longrightarrow> runs_ok m rs"
  "incidents_ok n is \<Longrightarrow> n \<le> m \<Longrightarrow> incidents_ok m is"
  "alerts_ok n as \<Longrightarrow> n \<le> m \<Longrightarrow> alerts_ok m as"
  by (auto simp: runs_ok_def incidents_ok_def alerts_ok_def intro: less_le_trans)

lemma alerts_ok_append:
  assumes "alerts_ok n rows" and "\<forall>a \<in> set new. n \<le> al_id a \<and> al_id a < m"
    and "distinct (map al_id new)" and "n \<le> m"
  shows "alerts_ok m (rows @ new)"
  using assms by (force simp: alerts_ok_def unique_on_def)

lemma db_inv_empty: "db_inv empty_db"
  by (simp add: db_inv_def empty_db_def table_ok_defs unique_on_def)

end
