(* ===== verification/Incidents_Repo.thy ===== *)
theory Incidents_Repo
  imports Database
begin

text \<open>
  \<^verbatim>\<open>src/repositories/incidents.repo.ts\<close>, the two operations of
  \<^verbatim>\<open>src/repositories/incident-events.repo.ts\<close> that write and query the timeline, and the audit
  writer of \<^verbatim>\<open>src/services/audit/audit.service.ts\<close>. The trigger \<open>set_updated_at\<close> fires on every
  row an \<open>UPDATE\<close> touches. The database clock does not run backwards, so the row checks
  \<open>resolved_at >= started_at\<close> and \<open>acknowledged_at >= started_at\<close> never reject an update.
\<close>

section \<open>Incident numbers\<close>

text \<open>\<open>to_char(now(), 'YYYY')\<close> in UTC: the proleptic Gregorian year of a timestamp.\<close>

definition year_of :: "timestamp \<Rightarrow> int" where
  "year_of ms =
     (let z = ms div 86400000 + 719468; era = z div 146097; doe = z mod 146097;
          yoe = (doe - doe div 1460 + doe div 36524 - doe div 146096) div 365;
          doy = doe - (365 * yoe + yoe div 4 - yoe div 100);
          mp = (5 * doy + 2) div 153
      in yoe + era * 400 + (if mp < 10 then 0 else 1))"

definition lpad :: "nat \<Rightarrow> char \<Rightarrow> string \<Rightarrow> string" where
  "lpad n c s = (if length s < n then replicate (n - length s) c @ s else take n s)"

definition incident_number :: "timestamp \<Rightarrow> nat \<Rightarrow> string" where
  "incident_number now seq =
     ''INC-'' @ show_int (year_of now) @ ''-'' @ lpad 6 (CHR ''0'') (show_nat seq)"

section \<open>Operations\<close>

definition findActiveIncident :: "target_id \<Rightarrow> db \<Rightarrow> incident option" where
  "findActiveIncident apiId d = find (\<lambda>i. inc_apiId i = apiId \<and> inc_status i \<noteq> RESOLVED) (incidents d)"

definition openIncident ::
    "timestamp \<Rightarrow> target_id \<Rightarrow> incident_type \<Rightarrow> severity \<Rightarrow> endpoint_class \<Rightarrow> bool \<Rightarrow> row_id option \<Rightarrow>
     check_failure_type option \<Rightarrow> db \<Rightarrow> (db_error + incident) \<times> db" where
  "openIncident now apiId typ sev cls money checkId failureType d =
     (let i = \<lparr>inc_id = next_id d, inc_apiId = apiId,
               incidentNumber = incident_number now (incident_seq d), incidentType = typ,
               inc_severity = sev, endpointClassSnapshot = cls, isMoneyMovingSnapshot = money,
               inc_status = OPEN, startedAt = now, detectedByCheckId = checkId,
               acknowledgedAt = None, acknowledgedBy = None, resolvedAt = None,
               durationSeconds = None, failureCount = 1, inc_failureType = failureType,
               escalationLevelReached = 0, rootCause = None, resolution = None,
               inc_createdAt = now, inc_updatedAt = now\<rparr>;
          d' = d\<lparr>next_id := Suc (next_id d), incident_seq := Suc (incident_seq d)\<rparr>
      in if \<exists>j \<in> set (incidents d). incidentNumber j = incidentNumber i
         then (Inl (Unique_violation ''incidents_incident_number_key''), d')
         else if \<exists>j \<in> set (incidents d). active_incident j \<and> inc_apiId j = apiId
         then (Inl (Unique_violation ''incidents_one_active_per_target''), d')
         else (Inr i, d'\<lparr>incidents := incidents d @ [i]\<rparr>))"

definition update_incident :: "timestamp \<Rightarrow> (incident \<Rightarrow> bool) \<Rightarrow> (incident \<Rightarrow> incident) \<Rightarrow> db \<Rightarrow> db" where
  "update_incident now p f d =
     d\<lparr>incidents := upd_where p (\<lambda>i. (f i)\<lparr>inc_updatedAt := now\<rparr>) (incidents d)\<rparr>"

definition incrementFailureCount :: "timestamp \<Rightarrow> row_id \<Rightarrow> check_failure_type option \<Rightarrow> db \<Rightarrow> db" where
  "incrementFailureCount now incId failureType =
     update_incident now (\<lambda>i. inc_id i = incId)
       (\<lambda>i. i\<lparr>failureCount := failureCount i + 1,
              inc_failureType := (case failureType of None \<Rightarrow> inc_failureType i | Some f \<Rightarrow> Some f)\<rparr>)"

definition markIncidentFlapping :: "timestamp \<Rightarrow> row_id \<Rightarrow> db \<Rightarrow> db" where
  "markIncidentFlapping now incId =
     update_incident now (\<lambda>i. inc_id i = incId \<and> incidentType i \<noteq> FLAPPING) (\<lambda>i. i\<lparr>incidentType := FLAPPING\<rparr>)"

definition escalateIncident :: "timestamp \<Rightarrow> row_id \<Rightarrow> int \<Rightarrow> db \<Rightarrow> db" where
  "escalateIncident now incId level =
     update_incident now (\<lambda>i. inc_id i = incId)
       (\<lambda>i. i\<lparr>escalationLevelReached := max (escalationLevelReached i) level\<rparr>)"

text \<open>\<open>EXTRACT(EPOCH ..)::int\<close> rounds to the nearest second, halves away from zero.\<close>

definition resolveIncident ::
    "timestamp \<Rightarrow> row_id \<Rightarrow> string option \<Rightarrow> db \<Rightarrow> incident option \<times> db" where
  "resolveIncident now incId note d =
     (let d' = update_incident now (\<lambda>i. inc_id i = incId \<and> inc_status i \<noteq> RESOLVED)
            (\<lambda>i. i\<lparr>inc_status := RESOLVED, resolvedAt := Some now,
                   durationSeconds := Some ((now - startedAt i + 500) div 1000),
                   resolution := (case note of None \<Rightarrow> resolution i | Some n \<Rightarrow> Some n)\<rparr>) d
      in if \<exists>i \<in> set (incidents d). inc_id i = incId \<and> inc_status i \<noteq> RESOLVED
         then (find (\<lambda>i. inc_id i = incId) (incidents d'), d') else (None, d'))"

definition acknowledgeIncident_row ::
    "timestamp \<Rightarrow> row_id \<Rightarrow> row_id option \<Rightarrow> db \<Rightarrow> incident option \<times> db" where
  "acknowledgeIncident_row now incId byUserId d =
     (let d' = update_incident now (\<lambda>i. inc_id i = incId \<and> inc_status i \<noteq> RESOLVED)
            (\<lambda>i. i\<lparr>inc_status := (if inc_status i = OPEN then ACKNOWLEDGED else inc_status i),
                   acknowledgedAt := (case acknowledgedAt i of None \<Rightarrow> Some now | Some t \<Rightarrow> Some t),
                   acknowledgedBy := (case acknowledgedBy i of None \<Rightarrow> byUserId | Some u \<Rightarrow> Some u)\<rparr>) d
      in if \<exists>i \<in> set (incidents d). inc_id i = incId \<and> inc_status i \<noteq> RESOLVED
         then (find (\<lambda>i. inc_id i = incId) (incidents d'), d') else (None, d'))"

definition setRootCause_row :: "timestamp \<Rightarrow> row_id \<Rightarrow> string \<Rightarrow> db \<Rightarrow> incident option \<times> db" where
  "setRootCause_row now incId txt d =
     (let d' = update_incident now (\<lambda>i. inc_id i = incId) (\<lambda>i. i\<lparr>rootCause := Some txt\<rparr>) d
      in (find (\<lambda>i. inc_id i = incId) (incidents d'), d'))"

definition getIncident :: "row_id \<Rightarrow> db \<Rightarrow> incident option" where
  "getIncident incId d = find (\<lambda>i. inc_id i = incId) (incidents d)"

text \<open>OPEN incidents whose target has an escalation policy, oldest first.\<close>

definition listOpenIncidentsForEscalation :: "db \<Rightarrow> (incident \<times> row_id \<times> string) list" where
  "listOpenIncidentsForEscalation d =
     sort_key (\<lambda>(i, _, _). startedAt i)
       (concat (map (\<lambda>i. concat (map (\<lambda>m. case escalationPolicyId m of
              None \<Rightarrow> []
            | Some p \<Rightarrow> if api_id m = inc_apiId i \<and> inc_status i = OPEN then [(i, p, api_name m)] else [])
            (monitored_apis d))) (incidents d)))"

record list_incident_filters =
  f_status :: "incident_status option"
  f_severity :: "severity option"
  f_apiId :: "target_id option"
  f_isMoneyMoving :: "bool option"
  f_incidentType :: "incident_type option"
  f_limit :: "nat option"
  f_offset :: "nat option"

definition matches :: "'a option \<Rightarrow> 'a \<Rightarrow> bool" where
  "matches f x = (case f of None \<Rightarrow> True | Some y \<Rightarrow> x = y)"

definition listIncidents :: "list_incident_filters \<Rightarrow> db \<Rightarrow> incident list" where
  "listIncidents f d =
     (let rows = filter (\<lambda>i. matches (f_status f) (inc_status i) \<and> matches (f_severity f) (inc_severity i) \<and>
            matches (case f_apiId f of Some a \<Rightarrow> if a = [] then None else Some a | None \<Rightarrow> None) (inc_apiId i) \<and>
            matches (f_isMoneyMoving f) (isMoneyMovingSnapshot i) \<and>
            matches (f_incidentType f) (incidentType i)) (incidents d);
          n = min (case f_limit f of Some l \<Rightarrow> l | None \<Rightarrow> 100) 500;
          k = (case f_offset f of Some m \<Rightarrow> m | None \<Rightarrow> 0)
      in take n (drop k (sort_key (\<lambda>i. - startedAt i) rows)))"

definition countStatusTransitions :: "timestamp \<Rightarrow> target_id \<Rightarrow> nat \<Rightarrow> db \<Rightarrow> nat" where
  "countStatusTransitions now apiId windowMinutes d =
     changes (map hcr_status (sort_key hcr_checkedAt
       (filter (\<lambda>r. hcr_apiId r = apiId \<and> now - int windowMinutes * 60000 < hcr_checkedAt r)
         (health_check_results d))))"

section \<open>Timeline and audit\<close>

definition recordIncidentEvent ::
    "timestamp \<Rightarrow> row_id \<Rightarrow> incident_event_kind \<Rightarrow> string \<Rightarrow> (string \<times> string) list \<Rightarrow> string \<Rightarrow> db \<Rightarrow> db" where
  "recordIncidentEvent now incId kind summary detail source d =
     d\<lparr>incident_events := incident_events d @
         [\<lparr>ev_incidentId = incId, ev_at = now, ev_kind = kind, ev_summary = summary,
           ev_detail = detail, ev_source = source\<rparr>]\<rparr>"

definition incidentEventExists :: "row_id \<Rightarrow> incident_event_kind \<Rightarrow> db \<Rightarrow> bool" where
  "incidentEventExists incId kind d \<longleftrightarrow>
     0 < length (filter (\<lambda>e. ev_incidentId e = incId \<and> ev_kind e = kind) (incident_events d))"

definition recordAudit ::
    "audit_actor \<Rightarrow> string \<Rightarrow> string \<Rightarrow> entity_id option \<Rightarrow> string option \<Rightarrow> db \<Rightarrow> db" where
  "recordAudit actor action entityType entityId summary d =
     d\<lparr>audit_logs := audit_logs d @
         [\<lparr>audit_userId = actor_userId actor,
           audit_label = (case actor_label actor of Some l \<Rightarrow> l
              | None \<Rightarrow> (case actor_userId actor of
                    Some u \<Rightarrow> ''user:'' @ show_nat u | None \<Rightarrow> ''system:unknown'')),
           audit_action = action, audit_entityType = entityType, audit_entityId = entityId,
           audit_summary = summary\<rparr>]\<rparr>"

declare openIncident_def [repo_defs] incrementFailureCount_def [repo_defs] markIncidentFlapping_def [repo_defs]
  escalateIncident_def [repo_defs] resolveIncident_def [repo_defs] acknowledgeIncident_row_def [repo_defs]
  setRootCause_row_def [repo_defs] recordIncidentEvent_def [repo_defs] recordAudit_def [repo_defs]

section \<open>Every operation keeps the constraints of the schema\<close>

lemma update_incident_inv:
  assumes "db_inv d"
    and "\<And>i. inc_id (f i) = inc_id i \<and> inc_apiId (f i) = inc_apiId i \<and> incidentNumber (f i) = incidentNumber i"
    and "\<And>i. p i \<Longrightarrow> inc_status (f i) \<noteq> RESOLVED \<Longrightarrow> inc_status i \<noteq> RESOLVED"
  shows "db_inv (update_incident now p f d)"
proof -
  let ?g = "\<lambda>i. (f i)\<lparr>inc_updatedAt := now\<rparr>"
  from assms(1) have ok: "incidents_ok (next_id d) (incidents d)" by (simp add: db_inv_def)
  then have "unique_on active_incident inc_apiId (upd_where p ?g (incidents d))"
    using assms(2,3) by (intro unique_on_upd_shrink) (auto simp: incidents_ok_def active_incident_def)
  moreover have "unique_on (\<lambda>_. True) inc_id (upd_where p ?g (incidents d))"
    "unique_on (\<lambda>_. True) incidentNumber (upd_where p ?g (incidents d))"
    using ok assms(2) by (auto simp: incidents_ok_def intro!: unique_on_upd_inv [THEN iffD2])
  ultimately have "incidents_ok (next_id d) (upd_where p ?g (incidents d))"
    using ok assms(2) by (auto simp: incidents_ok_def set_upd_where)
  with assms(1) show ?thesis by (simp add: update_incident_def db_inv_def)
qed

lemma openIncident_inv: "db_inv d \<Longrightarrow> db_inv (snd (openIncident now a ty sv c m ch ft d))"
  by (auto simp: openIncident_def Let_def db_inv_def incidents_ok_def unique_on_snoc less_Suc_eq
      intro: ok_mono)

lemma incident_update_inv:
  "db_inv d \<Longrightarrow> db_inv (incrementFailureCount now k ft d)"
  "db_inv d \<Longrightarrow> db_inv (markIncidentFlapping now k d)"
  "db_inv d \<Longrightarrow> db_inv (escalateIncident now k l d)"
  "db_inv d \<Longrightarrow> db_inv (snd (resolveIncident now k n d))"
  "db_inv d \<Longrightarrow> db_inv (snd (acknowledgeIncident_row now k u d))"
  "db_inv d \<Longrightarrow> db_inv (snd (setRootCause_row now k txt d))"
  by (auto simp: incrementFailureCount_def markIncidentFlapping_def escalateIncident_def
      resolveIncident_def acknowledgeIncident_row_def setRootCause_row_def Let_def
      intro!: update_incident_inv)

lemma timeline_inv:
  "db_inv d \<Longrightarrow> db_inv (recordIncidentEvent now k e s dt src d)"
  "db_inv d \<Longrightarrow> db_inv (recordAudit act an ty ei sm d)"
  by (auto simp: recordIncidentEvent_def recordAudit_def db_inv_def)

lemmas incidents_repo_inv = openIncident_inv incident_update_inv timeline_inv

section \<open>Lookups\<close>

lemma findActiveIncident_SomeD:
  "findActiveIncident a d = Some i \<Longrightarrow> i \<in> set (incidents d) \<and> inc_apiId i = a \<and> inc_status i \<noteq> RESOLVED"
  unfolding findActiveIncident_def by (drule find_SomeD) auto

lemma findActiveIncident_None_iff:
  "findActiveIncident a d = None \<longleftrightarrow> (\<forall>i \<in> set (incidents d). inc_apiId i = a \<longrightarrow> inc_status i = RESOLVED)"
  unfolding findActiveIncident_def find_eq_None by auto

lemma findActiveIncident_unique:
  assumes "db_inv d" and "findActiveIncident a d = Some i"
    and "j \<in> set (incidents d)" and "inc_apiId j = a" and "inc_status j \<noteq> RESOLVED"
  shows "j = i"
proof -
  have "unique_on active_incident inc_apiId (incidents d)"
    using assms(1) by (simp add: db_inv_def incidents_ok_def)
  then show ?thesis
    using assms(3-5) findActiveIncident_SomeD [OF assms(2)]
    by (intro unique_onD [where q = active_incident and k = inc_apiId]) (auto simp: active_incident_def)
qed

section \<open>Incident numbers stay apart for the first million incidents of a year\<close>

lemma length_show_nat: "n < 10 ^ k \<Longrightarrow> 0 < k \<Longrightarrow> length (show_nat n) \<le> k"
proof (induction n arbitrary: k rule: show_nat.induct)
  case (1 n)
  show ?case
  proof (cases "n < 10")
    case True
    with 1 show ?thesis by (simp add: show_nat.simps [of n])
  next
    case False
    with "1.prems" obtain j where j: "k = Suc j" "0 < j" by (cases k; cases "k - 1") auto
    with "1.prems" have "n div 10 < 10 ^ j" by simp
    with "1.IH" False j have "length (show_nat (n div 10)) \<le> j" by simp
    with False j show ?thesis by (simp add: show_nat.simps [of n])
  qed
qed

lemma nat_of_digits_zeros: "nat_of_digits (replicate k (CHR ''0'') @ s) 0 = nat_of_digits s 0"
  by (induction k) auto

lemma lpad_value:
  assumes "n < 10 ^ k" and "0 < k"
  shows "nat_of_digits (lpad k (CHR ''0'') (show_nat n)) 0 = n"
  using length_show_nat [OF assms] by (auto simp: lpad_def nat_of_digits_zeros nat_of_digits_show)

lemma lpad_digits: "c \<in> set (lpad k (CHR ''0'') (show_nat n)) \<Longrightarrow> is_digit c"
proof -
  assume "c \<in> set (lpad k (CHR ''0'') (show_nat n))"
  then have "c = CHR ''0'' \<or> c \<in> set (show_nat n)"
    by (auto simp: lpad_def split: if_splits dest: in_set_takeD)
  then show ?thesis using show_nat_digits by (auto simp: is_digit_def)
qed

lemma incident_number_split:
  "incident_number now m = incident_number now' n \<longleftrightarrow>
     year_of now = year_of now' \<and> lpad 6 (CHR ''0'') (show_nat m) = lpad 6 (CHR ''0'') (show_nat n)"
proof
  assume "incident_number now m = incident_number now' n"
  then have "show_int (year_of now) @ CHR ''-'' # lpad 6 (CHR ''0'') (show_nat m) =
      show_int (year_of now') @ CHR ''-'' # lpad 6 (CHR ''0'') (show_nat n)"
    by (simp add: incident_number_def)
  moreover have "CHR ''-'' \<notin> set (lpad 6 (CHR ''0'') (show_nat k))" for k
    using lpad_digits not_digit_separators(2) by blast
  ultimately show "year_of now = year_of now' \<and>
      lpad 6 (CHR ''0'') (show_nat m) = lpad 6 (CHR ''0'') (show_nat n)"
    by (metis split_at_last_sep show_int_inject)
qed (simp add: incident_number_def)

text \<open>Two incident numbers drawn from different sequence values below one million differ,
  whatever the years.\<close>

theorem incident_number_injective:
  assumes "m < 1000000" and "n < 1000000"
  shows "incident_number now m = incident_number now' n \<longleftrightarrow> year_of now = year_of now' \<and> m = n"
proof -
  have "m < 10 ^ 6" "n < 10 ^ 6" using assms by simp_all
  then have "lpad 6 (CHR ''0'') (show_nat m) = lpad 6 (CHR ''0'') (show_nat n) \<longleftrightarrow> m = n"
    by (metis lpad_value zero_less_numeral)
  then show ?thesis by (simp add: incident_number_split)
qed

theorem incident_number_injective_witness:
  "incident_number 1735689600000 42 = incident_number 1735689600000 42 \<and>
   incident_number 1735689600000 42 \<noteq> incident_number 1735689599999 42"
proof -
  have "year_of 1735689600000 = 2025" "year_of 1735689599999 = 2024" by code_simp+
  then show ?thesis
    using incident_number_injective [of 42 42 1735689600000 1735689599999] by simp
qed

text \<open>\<open>lpad\<close> cuts a number longer than the width: sequence value 1000000 renders like
  100000, so in one year the unique constraint on the number rejects the second of the two
  incidents and \<open>openIncident\<close> fails although the target has no active incident.\<close>

theorem openIncident_fails_at_one_million:
  assumes "incident_seq d = 1000000" and "j \<in> set (incidents d)"
    and "incidentNumber j = incident_number now' 100000" and "year_of now' = year_of now"
  shows "\<exists>d'. openIncident now a ty sv c m ch ft d = (Inl (Unique_violation ''incidents_incident_number_key''), d')"
proof -
  have "lpad 6 (CHR ''0'') (show_nat 1000000) = lpad 6 (CHR ''0'') (show_nat 100000)"
    by (simp add: show_nat.simps lpad_def)
  then have "incidentNumber j = incident_number now (incident_seq d)"
    using assms by (simp add: incident_number_def)
  with assms(2) show ?thesis by (auto simp: openIncident_def Let_def)
qed

end
