(* ===== verification/Alerts_Repo.thy ===== *)
theory Alerts_Repo
  imports Database
begin

text \<open>
  \<^verbatim>\<open>src/repositories/alerts.repo.ts\<close>, \<^verbatim>\<open>src/repositories/escalation-policies.repo.ts\<close>,
  \<^verbatim>\<open>src/repositories/maintenance-windows.repo.ts\<close> and the contact query of
  \<^verbatim>\<open>src/repositories/notification-contacts.repo.ts\<close>: the alert queue with its delivery status,
  the escalation policies, and the windows that suppress alerting.
\<close>

section \<open>Alerts\<close>

definition createAlert ::
    "timestamp \<Rightarrow> alert_type \<Rightarrow> alert_channel \<Rightarrow> string \<Rightarrow> row_id option \<Rightarrow> target_id option \<Rightarrow>
     int option \<Rightarrow> alert_status option \<Rightarrow> db \<Rightarrow> alert \<times> db" where
  "createAlert now alertTyp channel recipient incidentId apiId tier status d =
     (let a = \<lparr>al_id = next_id d, al_incidentId = incidentId, al_apiId = apiId, alertType = alertTyp,
               al_channel = channel, al_recipient = recipient,
               al_status = (case status of Some s \<Rightarrow> s | None \<Rightarrow> PENDING), escalationTier = tier,
               al_sentAt = None, al_errorMessage = None, al_createdAt = now\<rparr>
      in (a, d\<lparr>alerts := alerts d @ [a], next_id := Suc (next_id d)\<rparr>))"

definition listPendingAlerts :: "nat \<Rightarrow> db \<Rightarrow> alert list" where
  "listPendingAlerts limit d =
     take limit (sort_key al_createdAt (filter (\<lambda>a. al_status a = PENDING) (alerts d)))"

definition markAlert :: "timestamp \<Rightarrow> row_id \<Rightarrow> alert_status \<Rightarrow> string option \<Rightarrow> db \<Rightarrow> db" where
  "markAlert now alertId status detail d =
     d\<lparr>alerts := upd_where (\<lambda>a. al_id a = alertId)
         (\<lambda>a. a\<lparr>al_status := status, al_sentAt := (if status = SENT then Some now else al_sentAt a),
                al_errorMessage := detail\<rparr>) (alerts d)\<rparr>"

record list_alert_filters =
  fa_incidentId :: "row_id option"
  fa_apiId :: "target_id option"
  fa_status :: "alert_status option"
  fa_alertType :: "alert_type option"
  fa_limit :: "nat option"
  fa_offset :: "nat option"

definition listAlerts :: "list_alert_filters \<Rightarrow> db \<Rightarrow> alert list" where
  "listAlerts f d =
     (let keep = (\<lambda>a.
            (case fa_incidentId f of None \<Rightarrow> True | Some i \<Rightarrow> al_incidentId a = Some i) \<and>
            (case fa_apiId f of None \<Rightarrow> True | Some t \<Rightarrow> t = [] \<or> al_apiId a = Some t) \<and>
            (case fa_status f of None \<Rightarrow> True | Some s \<Rightarrow> al_status a = s) \<and>
            (case fa_alertType f of None \<Rightarrow> True | Some t \<Rightarrow> alertType a = t));
          n = min (case fa_limit f of Some l \<Rightarrow> l | None \<Rightarrow> 100) 500;
          k = (case fa_offset f of Some m \<Rightarrow> m | None \<Rightarrow> 0)
      in take n (drop k (sort_key (\<lambda>a. - al_createdAt a) (filter keep (alerts d)))))"

text \<open>The highest escalation tier already actioned for an incident: \<open>MAX\<close> over the tiers that
  are not null, \<open>-1\<close> when there is none.\<close>

definition tiers_fired :: "row_id \<Rightarrow> db \<Rightarrow> int list" where
  "tiers_fired incidentId d =
     concat (map (\<lambda>a. case escalationTier a of None \<Rightarrow> [] | Some t \<Rightarrow> [t])
       (filter (\<lambda>a. al_incidentId a = Some incidentId \<and> al_status a \<noteq> ALERT_FAILED) (alerts d)))"

definition highestTierFired :: "row_id \<Rightarrow> db \<Rightarrow> int" where
  "highestTierFired incidentId d =
     (case tiers_fired incidentId d of [] \<Rightarrow> - 1 | t # ts \<Rightarrow> fold max ts t)"

definition notifiedTargetsForIncident :: "row_id \<Rightarrow> db \<Rightarrow> (alert_channel \<times> string) list" where
  "notifiedTargetsForIncident incidentId d =
     remdups (map (\<lambda>a. (al_channel a, al_recipient a))
       (filter (\<lambda>a. al_incidentId a = Some incidentId \<and> al_status a = SENT \<and> alertType a \<noteq> API_RECOVERED)
         (alerts d)))"

definition recentAlertExists :: "timestamp \<Rightarrow> row_id \<Rightarrow> alert_type \<Rightarrow> nat \<Rightarrow> db \<Rightarrow> bool" where
  "recentAlertExists now incidentId typ withinMinutes d \<longleftrightarrow>
     (\<exists>a \<in> set (alerts d). al_incidentId a = Some incidentId \<and> alertType a = typ \<and>
        al_status a \<in> {SENT, PENDING, SUPPRESSED} \<and> now - int withinMinutes * 60000 < al_createdAt a)"

section \<open>Contacts\<close>

fun channel_rank :: "alert_channel \<Rightarrow> nat" where
  "channel_rank EMAIL = 0" | "channel_rank SMS = 1" | "channel_rank WEBHOOK = 2"
| "channel_rank SLACK = 3" | "channel_rank TEAMS = 4" | "channel_rank PUSH = 5"
| "channel_rank PHONE = 6"

definition incidentAlertContacts :: "db \<Rightarrow> notification_contact list" where
  "incidentAlertContacts d =
     sort_key (\<lambda>c. channel_rank (nc_channel c)) (sort_key nc_address
       (filter (\<lambda>c. nc_isActive c \<and> nc_incidentAlerts c) (notification_contacts d)))"

section \<open>Escalation policies\<close>

definition escalationTierSchema :: "escalation_tier \<Rightarrow> bool" where
  "escalationTierSchema t \<longleftrightarrow> recipients t \<noteq> [] \<and> (\<forall>r \<in> set (recipients t). r \<noteq> [])"

definition escalationTiersSchema :: "escalation_tier list \<Rightarrow> bool" where
  "escalationTiersSchema ts \<longleftrightarrow> list_all escalationTierSchema ts"

definition policy_toDomain :: "escalation_policy \<Rightarrow> escalation_policy" where
  "policy_toDomain p = p\<lparr>tiers := (if escalationTiersSchema (tiers p) then tiers p else [])\<rparr>"

definition createEscalationPolicy_row ::
    "timestamp \<Rightarrow> string \<Rightarrow> string option \<Rightarrow> escalation_tier list \<Rightarrow> db \<Rightarrow> (db_error + escalation_policy) \<times> db" where
  "createEscalationPolicy_row now nm desc ts d =
     (let p = \<lparr>ep_id = next_id d, ep_name = nm, ep_description = desc, tiers = ts,
               ep_createdAt = now, ep_updatedAt = now\<rparr>;
          d' = d\<lparr>next_id := Suc (next_id d)\<rparr>
      in if \<exists>q \<in> set (escalation_policies d). ep_name q = nm
         then (Inl (Unique_violation ''escalation_policies_name_key''), d')
         else (Inr (policy_toDomain p), d'\<lparr>escalation_policies := escalation_policies d @ [p]\<rparr>))"

definition updateEscalationPolicy_row ::
    "timestamp \<Rightarrow> row_id \<Rightarrow> string option \<Rightarrow> string option \<Rightarrow> escalation_tier list option \<Rightarrow> db \<Rightarrow>
     (db_error + escalation_policy option) \<times> db" where
  "updateEscalationPolicy_row now polId nm desc ts d =
     (let f = (\<lambda>p. p\<lparr>ep_name := (case nm of Some n \<Rightarrow> n | None \<Rightarrow> ep_name p),
                    ep_description := (case desc of Some x \<Rightarrow> Some x | None \<Rightarrow> ep_description p),
                    tiers := (case ts of Some x \<Rightarrow> x | None \<Rightarrow> tiers p), ep_updatedAt := now\<rparr>);
          d' = d\<lparr>escalation_policies := upd_where (\<lambda>p. ep_id p = polId) f (escalation_policies d)\<rparr>
      in if (\<exists>p \<in> set (escalation_policies d). ep_id p = polId) \<and>
            (\<exists>n. nm = Some n \<and> (\<exists>q \<in> set (escalation_policies d). ep_id q \<noteq> polId \<and> ep_name q = n))
         then (Inl (Unique_violation ''escalation_policies_name_key''), d)
         else (Inr (map_option policy_toDomain (find (\<lambda>p. ep_id p = polId) (escalation_policies d'))), d'))"

definition getEscalationPolicy :: "row_id \<Rightarrow> db \<Rightarrow> escalation_policy option" where
  "getEscalationPolicy polId d =
     map_option policy_toDomain (find (\<lambda>p. ep_id p = polId) (escalation_policies d))"

definition listEscalationPolicies :: "db \<Rightarrow> escalation_policy list" where
  "listEscalationPolicies d = map policy_toDomain (sort_key ep_name (escalation_policies d))"

section \<open>Maintenance windows\<close>

definition createMaintenanceWindow_row ::
    "timestamp \<Rightarrow> target_id option \<Rightarrow> timestamp \<Rightarrow> timestamp \<Rightarrow> string \<Rightarrow> string option \<Rightarrow> row_id option \<Rightarrow>
     db \<Rightarrow> maintenance_window \<times> db" where
  "createMaintenanceWindow_row now targetId startsAt endsAt reason ticketRef createdBy d =
     (let w = \<lparr>mw_id = next_id d, mw_targetId = targetId, mw_startsAt = startsAt, mw_endsAt = endsAt,
               mw_reason = reason, mw_ticketRef = ticketRef, mw_createdBy = createdBy, mw_createdAt = now\<rparr>
      in (w, d\<lparr>maintenance_windows := maintenance_windows d @ [w], next_id := Suc (next_id d)\<rparr>))"

definition deleteMaintenanceWindow_row :: "row_id \<Rightarrow> db \<Rightarrow> bool \<times> db" where
  "deleteMaintenanceWindow_row winId d =
     (\<exists>w \<in> set (maintenance_windows d). mw_id w = winId,
      d\<lparr>maintenance_windows := filter (\<lambda>w. mw_id w \<noteq> winId) (maintenance_windows d)\<rparr>)"

definition listMaintenanceWindows :: "timestamp \<Rightarrow> bool \<Rightarrow> db \<Rightarrow> maintenance_window list" where
  "listMaintenanceWindows now includeExpired d =
     take 200 (sort_key (\<lambda>w. - mw_startsAt w)
       (if includeExpired then maintenance_windows d
        else filter (\<lambda>w. now < mw_endsAt w) (maintenance_windows d)))"

text \<open>A window of the target itself comes before a global one (\<open>NULLS LAST\<close>).\<close>

definition activeWindowForTarget :: "target_id \<Rightarrow> timestamp \<Rightarrow> db \<Rightarrow> maintenance_window option" where
  "activeWindowForTarget apiId when d =
     (let live = filter (\<lambda>w. (mw_targetId w = Some apiId \<or> mw_targetId w = None) \<and>
            mw_startsAt w \<le> when \<and> when < mw_endsAt w) (maintenance_windows d)
      in case sort_key (\<lambda>w. if mw_targetId w = None then 1 else 0 :: nat) live of
           [] \<Rightarrow> None | w # _ \<Rightarrow> Some w)"

declare createAlert_def [repo_defs] markAlert_def [repo_defs] createMaintenanceWindow_row_def [repo_defs]
  deleteMaintenanceWindow_row_def [repo_defs] createEscalationPolicy_row_def [repo_defs]
  updateEscalationPolicy_row_def [repo_defs]

section \<open>Invariants and lookups\<close>

lemma createAlert_inv: "db_inv d \<Longrightarrow> db_inv (snd (createAlert now ty ch rc i a tr st d))"
  by (auto simp: createAlert_def Let_def db_inv_def alerts_ok_def unique_on_snoc less_Suc_eq intro: ok_mono)

lemma markAlert_inv: "db_inv d \<Longrightarrow> db_inv (markAlert now k st m d)"
  by (auto simp: markAlert_def db_inv_def alerts_ok_def set_upd_where intro!: unique_on_upd_inv [THEN iffD2])

lemma policy_window_inv:
  "db_inv d \<Longrightarrow> db_inv (snd (createEscalationPolicy_row now nm ds ts d))"
  "db_inv d \<Longrightarrow> db_inv (snd (updateEscalationPolicy_row now k nm' ds' ts' d))"
  "db_inv d \<Longrightarrow> db_inv (snd (createMaintenanceWindow_row now t s e r tk cb d))"
  "db_inv d \<Longrightarrow> db_inv (snd (deleteMaintenanceWindow_row k d))"
  by (auto simp: createEscalationPolicy_row_def updateEscalationPolicy_row_def
      createMaintenanceWindow_row_def deleteMaintenanceWindow_row_def Let_def db_inv_def intro: ok_mono)

lemmas alerts_repo_inv = createAlert_inv markAlert_inv policy_window_inv

lemma fold_max_ge: "x \<le> fold max ts x" for x :: int
  by (induction ts arbitrary: x) (auto intro: order.trans [OF max.cobounded2])

lemma fold_max_upper: "t \<in> set ts \<Longrightarrow> t \<le> fold max ts x" for x :: int
  by (induction ts arbitrary: x) (auto intro: order.trans [OF _ fold_max_ge])

lemma fold_max_in: "fold max ts x \<in> insert x (set ts)" for x :: int
proof (induction ts arbitrary: x)
  case (Cons t ts)
  from Cons.IH [of "max t x"] show ?case by (auto simp: max_def split: if_splits)
qed simp

lemma highestTierFired_upper: "t \<in> set (tiers_fired i d) \<Longrightarrow> t \<le> highestTierFired i d"
  by (cases "tiers_fired i d") (auto simp: highestTierFired_def fold_max_ge fold_max_upper)

lemma highestTierFired_in: "highestTierFired i d = - 1 \<or> highestTierFired i d \<in> set (tiers_fired i d)"
proof (cases "tiers_fired i d")
  case (Cons t ts)
  then show ?thesis using fold_max_in [of ts t] by (auto simp: highestTierFired_def)
qed (simp add: highestTierFired_def)

lemma highestTierFired_cong: "alerts d' = alerts d \<Longrightarrow> highestTierFired i d' = highestTierFired i d"
  by (simp add: highestTierFired_def tiers_fired_def)

lemma activeWindowForTarget_SomeD:
  assumes "activeWindowForTarget t when d = Some w"
  shows "w \<in> set (maintenance_windows d) \<and> (mw_targetId w = Some t \<or> mw_targetId w = None) \<and>
    mw_startsAt w \<le> when \<and> when < mw_endsAt w"
proof -
  let ?live = "filter (\<lambda>w. (mw_targetId w = Some t \<or> mw_targetId w = None) \<and>
            mw_startsAt w \<le> when \<and> when < mw_endsAt w) (maintenance_windows d)"
  from assms have "w \<in> set ?live"
    by (auto simp: activeWindowForTarget_def Let_def split: list.splits dest!: sort_key_ConsD)
  then show ?thesis by auto
qed

lemma activeWindowForTarget_None_iff:
  "activeWindowForTarget t when d = None \<longleftrightarrow>
     (\<forall>w \<in> set (maintenance_windows d). mw_targetId w = Some t \<or> mw_targetId w = None \<longrightarrow>
        \<not> (mw_startsAt w \<le> when \<and> when < mw_endsAt w))"
proof -
  let ?live = "filter (\<lambda>w. (mw_targetId w = Some t \<or> mw_targetId w = None) \<and>
            mw_startsAt w \<le> when \<and> when < mw_endsAt w) (maintenance_windows d)"
  have "activeWindowForTarget t when d = None \<longleftrightarrow> ?live = []"
    unfolding activeWindowForTarget_def Let_def
    by (subst sort_key_empty_iff [symmetric, of _ "\<lambda>w. if mw_targetId w = None then 1 else 0 :: nat"])
      (auto split: list.splits)
  then show ?thesis by (auto simp: filter_empty_conv)
qed

end
