(* ===== verification/Scheduler_Repo.thy ===== *)
theory Scheduler_Repo
  imports Database
begin

text \<open>
  \<^verbatim>\<open>src/repositories/scheduler.repo.ts\<close>: the run ledger (\<open>cron_job_runs\<close>), the recorded check
  results, the per-target schedule state with its recovery counters, the scheduler heartbeats
  and the alert queue. Each function of the file is one definition over the database record;
  \<open>now()\<close> is an argument. The lemmas show that every operation keeps the schema's constraints
  and that the recovery counters are what the documentation calls them: the length of the
  trailing run of clean \<open>UP\<close> checks, and the \<open>DOWN\<close> checks since the last \<open>UP\<close>.
\<close>

section \<open>cron\_job\_runs\<close>

definition claimJobRun ::
    "timestamp \<Rightarrow> target_id \<Rightarrow> timestamp \<Rightarrow> string \<Rightarrow> string \<Rightarrow> nat \<Rightarrow> db \<Rightarrow> row_id option \<times> db" where
  "claimJobRun now targetId scheduledSlot jobRunId workerId attemptNumber d =
     (if \<exists>r \<in> set (cron_job_runs d). run_key r = (targetId, scheduledSlot, attemptNumber)
      then (None, d)
      else (Some (next_id d),
        d\<lparr>cron_job_runs := cron_job_runs d @
            [\<lparr>cjr_id = next_id d, cjr_targetId = targetId, cjr_scheduledSlot = scheduledSlot,
              cjr_jobRunId = jobRunId, cjr_workerId = Some workerId, cjr_status = RUNNING,
              cjr_attemptNumber = attemptNumber, cjr_lockAcquiredAt = Some now,
              cjr_startedAt = Some now, cjr_completedAt = None, cjr_createdAt = now\<rparr>],
          next_id := Suc (next_id d)\<rparr>))"

definition completeJobRun :: "timestamp \<Rightarrow> row_id \<Rightarrow> cron_run_status \<Rightarrow> db \<Rightarrow> db" where
  "completeJobRun now runRowId status d =
     d\<lparr>cron_job_runs := upd_where (\<lambda>r. cjr_id r = runRowId)
         (\<lambda>r. r\<lparr>cjr_status := status, cjr_completedAt := Some now\<rparr>) (cron_job_runs d)\<rparr>"

text \<open>The upsert overwrites the status of whatever row the slot already has.\<close>

definition recordSkippedRun ::
    "timestamp \<Rightarrow> target_id \<Rightarrow> timestamp \<Rightarrow> string \<Rightarrow> string \<Rightarrow> cron_run_status \<Rightarrow> db \<Rightarrow> db" where
  "recordSkippedRun now targetId scheduledSlot jobRunId workerId status d =
     (if \<exists>r \<in> set (cron_job_runs d). run_key r = (targetId, scheduledSlot, 1)
      then d\<lparr>cron_job_runs := upd_where (\<lambda>r. run_key r = (targetId, scheduledSlot, 1))
               (\<lambda>r. r\<lparr>cjr_status := status, cjr_completedAt := Some now\<rparr>) (cron_job_runs d)\<rparr>
      else d\<lparr>cron_job_runs := cron_job_runs d @
               [\<lparr>cjr_id = next_id d, cjr_targetId = targetId, cjr_scheduledSlot = scheduledSlot,
                 cjr_jobRunId = jobRunId, cjr_workerId = Some workerId, cjr_status = status,
                 cjr_attemptNumber = 1, cjr_lockAcquiredAt = None,
                 cjr_startedAt = Some now, cjr_completedAt = Some now, cjr_createdAt = now\<rparr>],
             next_id := Suc (next_id d)\<rparr>)"

definition jobRunExists :: "string \<Rightarrow> db \<Rightarrow> bool" where
  "jobRunExists jobRunId d \<longleftrightarrow>
     (\<exists>r \<in> set (cron_job_runs d). cjr_jobRunId r = jobRunId \<and> cjr_status r \<in> {SUCCESS, DEAD_LETTERED})"

definition listJobRuns :: "target_id option \<Rightarrow> nat option \<Rightarrow> nat option \<Rightarrow> db \<Rightarrow> cron_job_run list" where
  "listJobRuns targetId limit offset d =
     (let rows = (case targetId of
            Some t \<Rightarrow> if t = [] then cron_job_runs d else filter (\<lambda>r. cjr_targetId r = t) (cron_job_runs d)
          | None \<Rightarrow> cron_job_runs d);
          n = min (case limit of Some l \<Rightarrow> l | None \<Rightarrow> 100) 500;
          k = (case offset of Some m \<Rightarrow> m | None \<Rightarrow> 0)
      in take n (drop k (sort_key (\<lambda>r. - cjr_scheduledSlot r) rows)))"

section \<open>health\_check\_results\<close>

definition insertHealthCheckResult ::
    "target_id \<Rightarrow> string \<Rightarrow> health_check_outcome \<Rightarrow> db \<Rightarrow> (db_error + row_id option) \<times> db" where
  "insertHealthCheckResult apiId jobRunId outcome d =
     (if (case out_httpStatus outcome of Some c \<Rightarrow> \<not> (100 \<le> c \<and> c \<le> 599) | None \<Rightarrow> False)
      then (Inl (Check_violation ''health_check_results_http_status_range''), d)
      else if (case out_responseTimeMs outcome of Some ms \<Rightarrow> ms < 0 | None \<Rightarrow> False)
      then (Inl (Check_violation ''health_check_results_response_time_valid''), d)
      else if \<exists>r \<in> set (health_check_results d). hcr_jobRunId r = Some jobRunId
      then (Inr None, d)
      else (Inr (Some (next_id d)),
        d\<lparr>health_check_results := health_check_results d @
            [\<lparr>hcr_id = next_id d, hcr_apiId = apiId, hcr_jobRunId = Some jobRunId,
              hcr_checkedAt = out_checkedAt outcome, hcr_status = out_status outcome,
              hcr_httpStatus = out_httpStatus outcome,
              hcr_responseTimeMs = out_responseTimeMs outcome,
              hcr_errorType = out_failureType outcome,
              hcr_errorMessage = out_errorMessage outcome,
              hcr_validation = out_validation outcome,
              hcr_responseCode = map_option show_int (out_httpStatus outcome)\<rparr>],
          next_id := Suc (next_id d)\<rparr>))"

section \<open>target\_schedule\_state\<close>

definition recordRunOutcome ::
    "timestamp \<Rightarrow> target_id \<Rightarrow> timestamp \<Rightarrow> health_status \<Rightarrow> db \<Rightarrow> (nat \<times> nat) \<times> db" where
  "recordRunOutcome now targetId scheduledSlot status d =
     (let isUp = (status = UP); isDown = (status = DOWN)
      in case find (\<lambda>s. ss_targetId s = targetId) (target_schedule_state d) of
           None \<Rightarrow>
             (let cs = (if isUp then 1 else 0); cf = (if isDown then 1 else 0)
              in ((cs, cf), d\<lparr>target_schedule_state := target_schedule_state d @
                   [\<lparr>ss_targetId = targetId, lastExpectedRunAt = Some scheduledSlot,
                     lastActualRunAt = Some now, lastStatus = Some status,
                     consecutiveSuccesses = cs, consecutiveFailures = cf,
                     missedRunCount = 0, ss_updatedAt = now\<rparr>]\<rparr>))
         | Some s \<Rightarrow>
             (let cs = (if isUp then consecutiveSuccesses s + 1 else 0);
                  cf = (if isDown then consecutiveFailures s + 1
                        else if isUp then 0 else consecutiveFailures s)
              in ((cs, cf), d\<lparr>target_schedule_state := upd_where (\<lambda>s. ss_targetId s = targetId)
                   (\<lambda>s. s\<lparr>lastExpectedRunAt := Some scheduledSlot, lastActualRunAt := Some now,
                          lastStatus := Some status, consecutiveSuccesses := cs,
                          consecutiveFailures := cf, ss_updatedAt := now\<rparr>)
                   (target_schedule_state d)\<rparr>)))"

definition bumpMissedRunCount :: "timestamp \<Rightarrow> target_id \<Rightarrow> nat \<Rightarrow> db \<Rightarrow> db" where
  "bumpMissedRunCount now targetId n d =
     (if \<exists>s \<in> set (target_schedule_state d). ss_targetId s = targetId
      then d\<lparr>target_schedule_state := upd_where (\<lambda>s. ss_targetId s = targetId)
               (\<lambda>s. s\<lparr>missedRunCount := missedRunCount s + n, ss_updatedAt := now\<rparr>)
               (target_schedule_state d)\<rparr>
      else d\<lparr>target_schedule_state := target_schedule_state d @
               [\<lparr>ss_targetId = targetId, lastExpectedRunAt = None, lastActualRunAt = None,
                 lastStatus = None, consecutiveSuccesses = 0, consecutiveFailures = 0,
                 missedRunCount = n, ss_updatedAt = now\<rparr>]\<rparr>)"

definition getScheduleState :: "target_id \<Rightarrow> db \<Rightarrow> schedule_state option" where
  "getScheduleState targetId d = find (\<lambda>s. ss_targetId s = targetId) (target_schedule_state d)"

section \<open>scheduler\_heartbeats\<close>

definition writeHeartbeat :: "timestamp \<Rightarrow> string \<Rightarrow> nat \<Rightarrow> nat \<Rightarrow> db \<Rightarrow> db" where
  "writeHeartbeat now instanceId activeJobCount queueDepth d =
     d\<lparr>scheduler_heartbeats := scheduler_heartbeats d @
         [\<lparr>hb_instanceId = instanceId, hb_lastTickAt = now, hb_activeJobCount = activeJobCount,
           hb_queueDepth = queueDepth, hb_createdAt = now\<rparr>]\<rparr>"

definition pruneHeartbeats :: "timestamp \<Rightarrow> nat \<Rightarrow> db \<Rightarrow> nat \<times> db" where
  "pruneHeartbeats now keepMinutes d =
     (let old = (\<lambda>h. hb_createdAt h < now - int keepMinutes * 60000)
      in (length (filter old (scheduler_heartbeats d)),
          d\<lparr>scheduler_heartbeats := filter (\<lambda>h. \<not> old h) (scheduler_heartbeats d)\<rparr>))"

record latest_heartbeat =
  lh_instanceId :: string
  lh_lastTickAt :: timestamp
  lh_activeJobCount :: nat
  lh_queueDepth :: nat
  lh_ageMs :: int

definition latestHeartbeat :: "timestamp \<Rightarrow> db \<Rightarrow> latest_heartbeat option" where
  "latestHeartbeat now d =
     (case sort_key (\<lambda>h. - hb_lastTickAt h) (scheduler_heartbeats d) of
        [] \<Rightarrow> None
      | h # _ \<Rightarrow> Some \<lparr>lh_instanceId = hb_instanceId h, lh_lastTickAt = hb_lastTickAt h,
           lh_activeJobCount = hb_activeJobCount h, lh_queueDepth = hb_queueDepth h,
           lh_ageMs = now - hb_lastTickAt h\<rparr>)"

definition listMissedRuns :: "db \<Rightarrow> (schedule_state \<times> string) list" where
  "listMissedRuns d =
     sort_key (\<lambda>(s, nm). - int (missedRunCount s))
       (sort_key snd
         (concat (map (\<lambda>s. map (\<lambda>m. (s, api_name m))
             (filter (\<lambda>m. api_id m = ss_targetId s \<and> 0 < missedRunCount s) (monitored_apis d)))
           (target_schedule_state d))))"

definition totalMissedRuns :: "db \<Rightarrow> nat" where
  "totalMissedRuns d = sum_list (map missedRunCount (target_schedule_state d))"

section \<open>alerts\<close>

definition recordAlert ::
    "timestamp \<Rightarrow> alert_type \<Rightarrow> alert_channel \<Rightarrow> string \<Rightarrow> row_id option \<Rightarrow> target_id option \<Rightarrow>
     string option \<Rightarrow> db \<Rightarrow> db" where
  "recordAlert now alertTyp channel recipient incidentId apiId errorMessage d =
     d\<lparr>alerts := alerts d @
         [\<lparr>al_id = next_id d, al_incidentId = incidentId, al_apiId = apiId, alertType = alertTyp,
           al_channel = channel, al_recipient = recipient, al_status = PENDING,
           escalationTier = None, al_sentAt = None, al_errorMessage = errorMessage,
           al_createdAt = now\<rparr>],
       next_id := Suc (next_id d)\<rparr>"

declare claimJobRun_def [repo_defs] completeJobRun_def [repo_defs] recordSkippedRun_def [repo_defs]
  insertHealthCheckResult_def [repo_defs] recordRunOutcome_def [repo_defs]
  bumpMissedRunCount_def [repo_defs] writeHeartbeat_def [repo_defs] pruneHeartbeats_def [repo_defs]
  recordAlert_def [repo_defs]

section \<open>Every operation keeps the constraints of the schema\<close>

lemma claimJobRun_inv: "db_inv d \<Longrightarrow> db_inv (snd (claimJobRun now t s j w a d))"
  by (auto simp: claimJobRun_def db_inv_def runs_ok_def unique_on_snoc run_key_def less_Suc_eq
      intro: ok_mono)

lemma upd_status_runs_ok:
  "runs_ok n rows \<Longrightarrow>
   runs_ok n (upd_where p (\<lambda>r. r\<lparr>cjr_status := st, cjr_completedAt := c\<rparr>) rows)"
  by (auto simp: runs_ok_def set_upd_where run_key_def intro!: unique_on_upd_inv [THEN iffD2])

lemma completeJobRun_inv: "db_inv d \<Longrightarrow> db_inv (completeJobRun now i st d)"
  by (simp add: completeJobRun_def db_inv_def upd_status_runs_ok)

lemma recordSkippedRun_inv: "db_inv d \<Longrightarrow> db_inv (recordSkippedRun now t s j w st d)"
  by (auto simp: recordSkippedRun_def db_inv_def runs_ok_def unique_on_snoc run_key_def less_Suc_eq
      set_upd_where intro: ok_mono intro!: unique_on_upd_inv [THEN iffD2])

lemma insertHealthCheckResult_inv: "db_inv d \<Longrightarrow> db_inv (snd (insertHealthCheckResult a j oc d))"
  by (auto simp: insertHealthCheckResult_def db_inv_def results_ok_def unique_on_snoc
      intro: ok_mono split: option.splits)

lemma sched_append_ok:
  "find (\<lambda>s. ss_targetId s = t) rows = None \<Longrightarrow> sched_ok rows \<Longrightarrow> ss_targetId r = t \<Longrightarrow> sched_ok (rows @ [r])"
  by (auto simp: sched_ok_def unique_on_snoc find_eq_None)

lemma recordRunOutcome_inv: "db_inv d \<Longrightarrow> db_inv (snd (recordRunOutcome now t s st d))"
  by (auto simp: recordRunOutcome_def db_inv_def Let_def intro!: sched_append_ok
      split: option.splits) (auto simp: sched_ok_def intro!: unique_on_upd_inv [THEN iffD2])

lemma bumpMissedRunCount_inv: "db_inv d \<Longrightarrow> db_inv (bumpMissedRunCount now t n d)"
  by (auto simp: bumpMissedRunCount_def db_inv_def sched_ok_def unique_on_snoc
      intro!: unique_on_upd_inv [THEN iffD2])

lemma recordAlert_inv: "db_inv d \<Longrightarrow> db_inv (recordAlert now ty ch rc i a m d)"
  by (auto simp: recordAlert_def db_inv_def alerts_ok_def unique_on_snoc less_Suc_eq intro: ok_mono)

lemma heartbeat_inv:
  "db_inv d \<Longrightarrow> db_inv (writeHeartbeat now i n q d)"
  "db_inv d \<Longrightarrow> db_inv (snd (pruneHeartbeats now k d))"
  by (auto simp: writeHeartbeat_def pruneHeartbeats_def db_inv_def Let_def)

lemmas scheduler_repo_inv = claimJobRun_inv completeJobRun_inv recordSkippedRun_inv
  insertHealthCheckResult_inv recordRunOutcome_inv bumpMissedRunCount_inv recordAlert_inv heartbeat_inv

section \<open>The recovery counters\<close>

text \<open>The counters as the documentation words them, over the statuses in order of arrival.\<close>

definition trailing_ups :: "health_status list \<Rightarrow> nat" where
  "trailing_ups sts = length (takeWhile (\<lambda>st. st = UP) (rev sts))"

definition downs_since_up :: "health_status list \<Rightarrow> nat" where
  "downs_since_up sts = length (filter (\<lambda>st. st = DOWN) (takeWhile (\<lambda>st. st \<noteq> UP) (rev sts)))"

lemma trailing_ups_snoc: "trailing_ups (sts @ [st]) = (if st = UP then trailing_ups sts + 1 else 0)"
  by (simp add: trailing_ups_def)

lemma downs_since_up_snoc:
  "downs_since_up (sts @ [st]) =
     (if st = DOWN then downs_since_up sts + 1 else if st = UP then 0 else downs_since_up sts)"
  by (cases st) (simp_all add: downs_since_up_def)

lemma trailing_ups_ge:
  "n \<le> trailing_ups sts \<longleftrightarrow> n \<le> length sts \<and> (\<forall>st \<in> set (drop (length sts - n) sts). st = UP)"
proof (induction sts arbitrary: n rule: rev_induct)
  case Nil
  then show ?case by (simp add: trailing_ups_def)
next
  case (snoc st sts)
  show ?case
  proof (cases n)
    case (Suc m)
    have "drop (length (sts @ [st]) - n) (sts @ [st]) = drop (length sts - m) sts @ [st]"
      using Suc by simp
    then show ?thesis using Suc snoc.IH [of m] by (auto simp: trailing_ups_snoc)
  qed simp
qed

text \<open>One check after the other for the same target, each with its clock reading and slot.\<close>

fun record_history ::
    "target_id \<Rightarrow> (timestamp \<times> timestamp \<times> health_status) list \<Rightarrow> db \<Rightarrow> db" where
  "record_history t [] d = d"
| "record_history t ((now, slot, st) # h) d = record_history t h (snd (recordRunOutcome now t slot st d))"

lemma record_history_snoc:
  "record_history t (h @ [(now, slot, st)]) d = snd (recordRunOutcome now t slot st (record_history t h d))"
  by (induction t h d rule: record_history.induct) auto

definition counters :: "target_id \<Rightarrow> db \<Rightarrow> nat \<times> nat" where
  "counters t d = (case getScheduleState t d of
     None \<Rightarrow> (0, 0) | Some s \<Rightarrow> (consecutiveSuccesses s, consecutiveFailures s))"

lemma recordRunOutcome_counters:
  "fst (recordRunOutcome now t slot st d) =
     (if st = UP then fst (counters t d) + 1 else 0,
      if st = DOWN then snd (counters t d) + 1 else if st = UP then 0 else snd (counters t d))"
  by (auto simp: recordRunOutcome_def counters_def getScheduleState_def Let_def split: option.splits)

lemma recordRunOutcome_stored:
  "counters t (snd (recordRunOutcome now t slot st d)) = fst (recordRunOutcome now t slot st d)"
proof (cases "find (\<lambda>s. ss_targetId s = t) (target_schedule_state d)")
  case None
  then show ?thesis
    by (simp add: recordRunOutcome_def counters_def getScheduleState_def Let_def find_append)
next
  case (Some s)
  have "ss_targetId s = t" using find_SomeD [OF Some] by simp
  with Some show ?thesis
    by (simp add: recordRunOutcome_def counters_def getScheduleState_def Let_def
        find_upd_where [where p = "\<lambda>s. ss_targetId s = t"])
qed

lemma record_history_counters:
  assumes "getScheduleState t d = None"
  shows "counters t (record_history t h d) =
    (trailing_ups (map (snd \<circ> snd) h), downs_since_up (map (snd \<circ> snd) h))"
proof (induction h rule: rev_induct)
  case Nil
  then show ?case using assms by (simp add: counters_def trailing_ups_def downs_since_up_def)
next
  case (snoc x h)
  obtain now slot st where x: "x = (now, slot, st)" by (cases x)
  show ?case
    by (simp add: x record_history_snoc recordRunOutcome_stored recordRunOutcome_counters snoc.IH
        trailing_ups_snoc downs_since_up_snoc)
qed

text \<open>C28. The recovery counters are what they are documented to be: after any history of
  recorded checks for a target that had no state row, \<open>recordRunOutcome\<close> returns for the next
  check the number of uninterrupted \<open>UP\<close> checks that end the history, and the number of
  \<open>DOWN\<close> checks since the last \<open>UP\<close> (\<open>DEGRADED\<close> and \<open>UNKNOWN\<close> leave it alone).\<close>

theorem recordRunOutcome_refines_history:
  assumes "getScheduleState t d = None"
  shows "fst (recordRunOutcome now t slot st (record_history t h d)) =
    (trailing_ups (map (snd \<circ> snd) h @ [st]), downs_since_up (map (snd \<circ> snd) h @ [st]))"
  using record_history_counters [OF assms, of h]
  by (simp add: recordRunOutcome_counters trailing_ups_snoc downs_since_up_snoc)

theorem recordRunOutcome_refines_history_witness:
  "fst (recordRunOutcome 30 ''t'' 30 DOWN
      (record_history ''t'' [(0, 0, UP), (10, 10, DOWN), (20, 20, DEGRADED)] empty_db)) = (0, 2)"
proof -
  have "getScheduleState ''t'' empty_db = None" by (simp add: getScheduleState_def empty_db_def)
  from recordRunOutcome_refines_history [OF this, of 30 30 DOWN "[(0, 0, UP), (10, 10, DOWN), (20, 20, DEGRADED)]"]
  show ?thesis by (simp add: trailing_ups_def downs_since_up_def)
qed

end
