(* ===== verification/State_Machine.thy ===== *)
theory State_Machine
  imports Incidents_Repo Alerts_Repo Scheduler_Repo
begin

text \<open>
  \<^verbatim>\<open>src/services/incident/state-machine.service.ts\<close> and \<^verbatim>\<open>src/services/alert/recovery.ts\<close>: what one
  recorded check does to the incident of its target. \<open>processCheckOutcome\<close> runs inside the job
  runner's transaction, so it returns the database error when an \<open>INSERT\<close> is rejected.
  The lemmas give its behaviour on every branch (ambiguous, clean, failing with and without an
  active incident), that it never fails on a consistent database, that it keeps at most one
  active incident per target, and that resolved incidents are history it never touches.
\<close>

section \<open>Alert fan-out\<close>

definition recordDefaultAlerts ::
    "env \<Rightarrow> timestamp \<Rightarrow> alert_type \<Rightarrow> target_id \<Rightarrow> row_id \<Rightarrow> string \<Rightarrow> db \<Rightarrow> db" where
  "recordDefaultAlerts e now typ apiId incidentId msg d =
     (let d1 = fold (\<lambda>ch. recordAlert now typ ch (ALERT_DEFAULT_RECIPIENT e) (Some incidentId) (Some apiId) (Some msg))
                 (ALERT_DEFAULT_CHANNELS e) d
      in fold (\<lambda>c. recordAlert now typ (nc_channel c) (nc_address c) (Some incidentId) (Some apiId) (Some msg))
           (incidentAlertContacts d1) d1)"

fun queue_dests ::
    "timestamp \<Rightarrow> row_id \<Rightarrow> target_id \<Rightarrow> string list \<Rightarrow> (alert_channel \<times> string) list \<Rightarrow> db \<Rightarrow> db" where
  "queue_dests now incidentId apiId seen [] d = d"
| "queue_dests now incidentId apiId seen (x # xs) d =
     (if dest_key x \<in> set seen then queue_dests now incidentId apiId seen xs d
      else queue_dests now incidentId apiId (seen @ [dest_key x]) xs
             (snd (createAlert now API_RECOVERED (fst x) (snd x) (Some incidentId) (Some apiId) None None d)))"

definition recovery_dests :: "env \<Rightarrow> row_id \<Rightarrow> db \<Rightarrow> (alert_channel \<times> string) list" where
  "recovery_dests e incidentId d =
     map (\<lambda>ch. (ch, ALERT_DEFAULT_RECIPIENT e)) (ALERT_DEFAULT_CHANNELS e) @
     map (\<lambda>c. (nc_channel c, nc_address c)) (incidentAlertContacts d) @
     notifiedTargetsForIncident incidentId d"

definition queueRecoveryAlerts :: "env \<Rightarrow> timestamp \<Rightarrow> row_id \<Rightarrow> target_id \<Rightarrow> db \<Rightarrow> db" where
  "queueRecoveryAlerts e now incidentId apiId d =
     queue_dests now incidentId apiId [] (recovery_dests e incidentId d) d"

section \<open>The state machine\<close>

datatype incident_transition =
    Opened incident | Failure_recorded incident | Flapping_detected incident
  | Resolved incident | Noop

fun DEGRADE :: "severity \<Rightarrow> severity" where
  "DEGRADE CRITICAL = HIGH"
| "DEGRADE HIGH = MEDIUM"
| "DEGRADE MEDIUM = LOW"
| "DEGRADE LOW = LOW"

definition checkFlapping ::
    "env \<Rightarrow> timestamp \<Rightarrow> monitored_api \<Rightarrow> incident \<Rightarrow> db \<Rightarrow> incident option \<times> db" where
  "checkFlapping e now target active d =
     (let transitions = countStatusTransitions now (api_id target) (FLAPPING_WINDOW_MINUTES e) d
      in if transitions < FLAPPING_THRESHOLD e then (None, d)
         else if incidentType active \<noteq> FLAPPING
         then (let d1 = markIncidentFlapping now (inc_id active) d;
                   d2 = recordIncidentEvent now (inc_id active) Ev_flapping_detected
                     (dquote @ api_name target @ dquote @ '' changed state '' @ show_nat transitions @
                      utf8_times @ '' in '' @ show_nat (FLAPPING_WINDOW_MINUTES e) @ '' min'')
                     [(''transitions'', show_nat transitions),
                      (''windowMinutes'', show_nat (FLAPPING_WINDOW_MINUTES e))] ''state_machine'' d1;
                   d3 = recordDefaultAlerts e now FLAPPING_DETECTED (api_id target) (inc_id active)
                     (dquote @ api_name target @ dquote @ '' changed state '' @ show_nat transitions @
                      utf8_times @ '' in '' @ show_nat (FLAPPING_WINDOW_MINUTES e) @ ''m'') d2
               in (Some (active\<lparr>incidentType := FLAPPING\<rparr>), d3))
         else (Some active, d))"

definition show_failure_opt :: "string \<Rightarrow> check_failure_type option \<Rightarrow> string" where
  "show_failure_opt dflt f = (case f of None \<Rightarrow> dflt | Some x \<Rightarrow> show_failure_type x)"

definition opened_message :: "incident \<Rightarrow> health_status \<Rightarrow> check_failure_type option \<Rightarrow> string" where
  "opened_message incident status failureType =
     incidentNumber incident @ '' opened ('' @ show_health_status status @ '', '' @
     show_failure_opt ''n/a'' failureType @ '')''"

text \<open>The branch for a failing check of a target that has no active incident.\<close>

definition process_open ::
    "env \<Rightarrow> timestamp \<Rightarrow> monitored_api \<Rightarrow> health_status \<Rightarrow> check_failure_type option \<Rightarrow> row_id option \<Rightarrow>
     db \<Rightarrow> (db_error + incident_transition) \<times> db" where
  "process_open e now target status failureType checkId d =
     (let isDown = (status = DOWN)
      in case openIncident now (api_id target) (if isDown then OUTAGE else DEGRADATION)
             (if isDown then severityDefault target else DEGRADE (severityDefault target))
             (endpointClass target) (isMoneyMoving target) checkId failureType d of
           (Inl err, d1) \<Rightarrow> (Inl err, d1)
         | (Inr incident, d1) \<Rightarrow>
             (let d2 = recordDefaultAlerts e now (if isDown then API_DOWN else API_DEGRADED)
                    (api_id target) (inc_id incident)
                    (opened_message incident status failureType) d1
              in case checkFlapping e now target incident d2 of
                   (flapped, d3) \<Rightarrow>
                     (case flapped of
                        Some f \<Rightarrow> if incidentType f = FLAPPING \<and> incidentType incident \<noteq> FLAPPING
                                  then (Inr (Flapping_detected f), d3) else (Inr (Opened incident), d3)
                      | None \<Rightarrow> (Inr (Opened incident), d3))))"

text \<open>
  The branch for a failing check of a target whose incident \<open>active\<close> is already open: a timeline
  entry when the failure signature changes and one more failure on the row, then the promotion
  of a degradation, then the flapping test.
\<close>

definition note_failure ::
    "timestamp \<Rightarrow> check_failure_type option \<Rightarrow> row_id option \<Rightarrow> incident \<Rightarrow> db \<Rightarrow> db" where
  "note_failure now failureType checkId active d =
     incrementFailureCount now (inc_id active) failureType
       (if failureType \<noteq> None \<and> failureType \<noteq> inc_failureType active
        then recordIncidentEvent now (inc_id active) Ev_failure_changed
               (case inc_failureType active of
                  None \<Rightarrow> ''Failure classified as '' @ show_failure_opt [] failureType
                | Some f0 \<Rightarrow> ''Failure changed: '' @ show_failure_type f0 @ '' '' @ utf8_arrow @ '' '' @
                    show_failure_opt [] failureType)
               [(''from'', show_failure_opt ''null'' (inc_failureType active)),
                (''to'', show_failure_opt ''null'' failureType),
                (''checkId'', case checkId of None \<Rightarrow> ''null'' | Some c \<Rightarrow> show_nat c)]
               ''state_machine'' d
        else d)"

definition promote_degradation ::
    "timestamp \<Rightarrow> monitored_api \<Rightarrow> health_status \<Rightarrow> incident \<Rightarrow> db \<Rightarrow> incident \<times> db" where
  "promote_degradation now target status active d =
     (if status = DOWN \<and> incidentType active = DEGRADATION
      then (active\<lparr>incidentType := OUTAGE, inc_severity := severityDefault target\<rparr>,
            recordIncidentEvent now (inc_id active) Ev_severity_escalated
              (''Promoted to OUTAGE ('' @ show_severity (inc_severity active) @ '' '' @ utf8_arrow @ '' '' @
               show_severity (severityDefault target) @ '') '' @ utf8_em_dash @ '' a DOWN check while degraded'')
              [(''from'', show_severity (inc_severity active)),
               (''to'', show_severity (severityDefault target))] ''state_machine''
              (update_incident now (\<lambda>i. inc_id i = inc_id active)
                 (\<lambda>i. i\<lparr>incidentType := OUTAGE, inc_severity := severityDefault target\<rparr>)
                 (escalateIncident now (inc_id active) 0 d)))
      else (active, d))"

definition process_active ::
    "env \<Rightarrow> timestamp \<Rightarrow> monitored_api \<Rightarrow> health_status \<Rightarrow> check_failure_type option \<Rightarrow> row_id option \<Rightarrow>
     incident \<Rightarrow> db \<Rightarrow> incident_transition \<times> db" where
  "process_active e now target status failureType checkId active d =
     (case promote_degradation now target status active (note_failure now failureType checkId active d) of
        (active', d3) \<Rightarrow>
          (case checkFlapping e now target active' d3 of
             (flapped, d4) \<Rightarrow>
               (case flapped of
                  Some f \<Rightarrow> if incidentType f = FLAPPING \<and> incidentType active' \<noteq> FLAPPING
                            then (Flapping_detected f, d4) else (Failure_recorded f, d4)
                | None \<Rightarrow> (Failure_recorded active', d4))))"

definition processCheckOutcome ::
    "env \<Rightarrow> timestamp \<Rightarrow> monitored_api \<Rightarrow> health_status \<Rightarrow> check_failure_type option \<Rightarrow> row_id option \<Rightarrow>
     nat \<Rightarrow> db \<Rightarrow> (db_error + incident_transition) \<times> db" where
  "processCheckOutcome e now target status failureType checkId successes d =
     (let active = findActiveIncident (api_id target) d
      in case status of
           UNKNOWN \<Rightarrow> (Inr Noop, d)
         | UP \<Rightarrow>
             (case active of
                None \<Rightarrow> (Inr Noop, d)
              | Some a \<Rightarrow>
                  if INCIDENT_RECOVERY_STREAK e \<le> successes
                  then (case resolveIncident now (inc_id a) None d of
                          (None, d1) \<Rightarrow> (Inr Noop, d1)
                        | (Some r, d1) \<Rightarrow> (Inr (Resolved r), queueRecoveryAlerts e now (inc_id r) (api_id target) d1))
                  else (Inr Noop, d))
         | _ \<Rightarrow>
             (case active of
                None \<Rightarrow> process_open e now target status failureType checkId d
              | Some a \<Rightarrow> (case process_active e now target status failureType checkId a d of (tr, d1) \<Rightarrow> (Inr tr, d1))))"

section \<open>What the alert queue receives\<close>

fun alert_rows ::
    "timestamp \<Rightarrow> alert_type \<Rightarrow> row_id \<Rightarrow> target_id \<Rightarrow> string option \<Rightarrow> nat \<Rightarrow> (alert_channel \<times> string) list \<Rightarrow>
     alert list" where
  "alert_rows now typ incId apiId msg n [] = []"
| "alert_rows now typ incId apiId msg n (x # xs) =
     \<lparr>al_id = n, al_incidentId = Some incId, al_apiId = Some apiId, alertType = typ,
      al_channel = fst x, al_recipient = snd x, al_status = PENDING, escalationTier = None,
      al_sentAt = None, al_errorMessage = msg, al_createdAt = now\<rparr> #
     alert_rows now typ incId apiId msg (Suc n) xs"

lemma alert_rows_dests:
  "map (\<lambda>a. (al_channel a, al_recipient a)) (alert_rows now typ i a m n xs) = xs"
  by (induction xs arbitrary: n) auto

lemma alert_rows_fields:
  "r \<in> set (alert_rows now typ i a m n xs) \<Longrightarrow> al_incidentId r = Some i \<and> al_apiId r = Some a \<and>
     alertType r = typ \<and> al_status r = PENDING \<and> escalationTier r = None \<and> al_createdAt r = now"
  by (induction xs arbitrary: n) auto

lemma alert_rows_append:
  "alert_rows now typ i a m n (xs @ ys) = alert_rows now typ i a m n xs @ alert_rows now typ i a m (n + length xs) ys"
  by (induction xs arbitrary: n) auto

lemma db_alerts_next_id_self: "d\<lparr>alerts := alerts d, next_id := next_id d\<rparr> = d"
  by simp

lemma fold_recordAlert:
  "fold (\<lambda>x. recordAlert now typ (fst x) (snd x) (Some i) (Some a) m) xs d =
     d\<lparr>alerts := alerts d @ alert_rows now typ i a m (next_id d) xs, next_id := next_id d + length xs\<rparr>"
  by (induction xs arbitrary: d) (auto simp: recordAlert_def)

definition default_dests :: "env \<Rightarrow> db \<Rightarrow> (alert_channel \<times> string) list" where
  "default_dests e d =
     map (\<lambda>ch. (ch, ALERT_DEFAULT_RECIPIENT e)) (ALERT_DEFAULT_CHANNELS e) @
     map (\<lambda>c. (nc_channel c, nc_address c)) (incidentAlertContacts d)"

lemma recordDefaultAlerts_eq:
  "recordDefaultAlerts e now typ a i msg d =
     d\<lparr>alerts := alerts d @ alert_rows now typ i a (Some msg) (next_id d) (default_dests e d),
       next_id := next_id d + length (default_dests e d)\<rparr>"
proof -
  have "recordDefaultAlerts e now typ a i msg d =
      fold (\<lambda>x. recordAlert now typ (fst x) (snd x) (Some i) (Some a) (Some msg)) (default_dests e d) d"
    unfolding recordDefaultAlerts_def default_dests_def Let_def fold_append comp_def
    by (simp add: fold_map comp_def fold_recordAlert [where xs = "map (\<lambda>ch. (ch, ALERT_DEFAULT_RECIPIENT e)) (ALERT_DEFAULT_CHANNELS e)", unfolded fold_map comp_def, simplified] incidentAlertContacts_def)
  then show ?thesis by (simp only: fold_recordAlert)
qed

fun first_seen :: "string list \<Rightarrow> (alert_channel \<times> string) list \<Rightarrow> (alert_channel \<times> string) list" where
  "first_seen seen [] = []"
| "first_seen seen (x # xs) =
     (if dest_key x \<in> set seen then first_seen seen xs else x # first_seen (seen @ [dest_key x]) xs)"

lemma first_seen_set: "set (first_seen seen xs) = {x \<in> set xs. dest_key x \<notin> set seen}"
  by (induction seen xs rule: first_seen.induct) (auto simp: dest_key_inject)

lemma first_seen_distinct: "distinct (first_seen seen xs)"
  by (induction seen xs rule: first_seen.induct) (auto simp: first_seen_set)

lemma queue_dests_eq:
  "queue_dests now i a seen xs d =
     d\<lparr>alerts := alerts d @ alert_rows now API_RECOVERED i a None (next_id d) (first_seen seen xs),
       next_id := next_id d + length (first_seen seen xs)\<rparr>"
  by (induction seen xs arbitrary: d rule: first_seen.induct) (auto simp: createAlert_def Let_def)

lemma queueRecoveryAlerts_eq:
  "queueRecoveryAlerts e now i a d =
     d\<lparr>alerts := alerts d @ alert_rows now API_RECOVERED i a None (next_id d) (first_seen [] (recovery_dests e i d)),
       next_id := next_id d + length (first_seen [] (recovery_dests e i d))\<rparr>"
  by (simp add: queueRecoveryAlerts_def queue_dests_eq)

lemma alert_rows_ids: "map al_id (alert_rows now typ i a m n xs) = [n..<n + length xs]"
  by (induction xs arbitrary: n) (simp_all add: upt_conv_Cons del: upt_Suc)

lemma db_inv_queue:
  assumes "db_inv d"
  shows "db_inv (d\<lparr>alerts := alerts d @ alert_rows now typ i a m (next_id d) xs, next_id := next_id d + length xs\<rparr>)"
proof -
  let ?new = "alert_rows now typ i a m (next_id d) xs"
  have "al_id ` set ?new = set (map al_id ?new)" by simp
  then have ids: "al_id ` set ?new = {next_id d..<next_id d + length xs}" unfolding alert_rows_ids by simp
  have "alerts_ok (next_id d + length xs) (alerts d @ ?new)"
  proof (rule alerts_ok_append)
    show "alerts_ok (next_id d) (alerts d)" using assms by (simp add: db_inv_def)
    show "\<forall>r \<in> set ?new. next_id d \<le> al_id r \<and> al_id r < next_id d + length xs" using ids by force
    show "distinct (map al_id ?new)" by (simp add: alert_rows_ids)
  qed simp
  with assms show ?thesis by (auto simp: db_inv_def intro: ok_mono)
qed

lemma queue_inv:
  "db_inv d \<Longrightarrow> db_inv (recordDefaultAlerts e now typ a i msg d)"
  "db_inv d \<Longrightarrow> db_inv (queueRecoveryAlerts e now i a d)"
  unfolding recordDefaultAlerts_eq queueRecoveryAlerts_eq by (fact db_inv_queue)+

lemma queue_frame [repo_frame]:
  "incidents (recordDefaultAlerts e now typ a i msg d) = incidents d"
  "incidents (queueRecoveryAlerts e now i a d) = incidents d"
  "health_check_results (recordDefaultAlerts e now typ a i msg d) = health_check_results d"
  "incident_events (recordDefaultAlerts e now typ a i msg d) = incident_events d"
  by (simp_all add: recordDefaultAlerts_eq queueRecoveryAlerts_eq)

section \<open>Flapping\<close>

definition flapping_now :: "env \<Rightarrow> timestamp \<Rightarrow> target_id \<Rightarrow> db \<Rightarrow> bool" where
  "flapping_now e now t d \<longleftrightarrow> FLAPPING_THRESHOLD e \<le> countStatusTransitions now t (FLAPPING_WINDOW_MINUTES e) d"

lemma checkFlapping_result:
  "fst (checkFlapping e now target i d) =
     (if flapping_now e now (api_id target) d then Some (i\<lparr>incidentType := FLAPPING\<rparr>) else None)"
proof (cases "incidentType i = FLAPPING")
  case True
  then have "i\<lparr>incidentType := FLAPPING\<rparr> = i" by (cases i) simp
  with True show ?thesis by (simp add: checkFlapping_def flapping_now_def Let_def not_less)
qed (simp add: checkFlapping_def flapping_now_def Let_def not_less)

lemma checkFlapping_incidents:
  "incidents (snd (checkFlapping e now target i d)) =
     (if flapping_now e now (api_id target) d \<and> incidentType i \<noteq> FLAPPING
      then incidents (markIncidentFlapping now (inc_id i) d) else incidents d)"
  by (simp add: checkFlapping_def flapping_now_def Let_def not_less queue_frame recordIncidentEvent_def)

lemma checkFlapping_inv: "db_inv d \<Longrightarrow> db_inv (snd (checkFlapping e now target i d))"
  by (simp add: checkFlapping_def Let_def queue_inv incidents_repo_inv)

section \<open>A failing check of a target whose incident is open\<close>

text \<open>What the branch is meant to do to the row of the incident, in one update.\<close>

definition failed_again ::
    "timestamp \<Rightarrow> monitored_api \<Rightarrow> health_status \<Rightarrow> check_failure_type option \<Rightarrow> bool \<Rightarrow> incident \<Rightarrow> incident" where
  "failed_again now target st ft flapping i =
     (let promote = (st = DOWN \<and> incidentType i = DEGRADATION)
      in i\<lparr>failureCount := failureCount i + 1,
           inc_failureType := (case ft of None \<Rightarrow> inc_failureType i | Some f \<Rightarrow> Some f),
           inc_severity := (if promote then severityDefault target else inc_severity i),
           escalationLevelReached := (if promote then max (escalationLevelReached i) 0 else escalationLevelReached i),
           incidentType := (if flapping then FLAPPING else if promote then OUTAGE else incidentType i),
           inc_updatedAt := now\<rparr>)"

lemma inc_id_unique:
  "db_inv d \<Longrightarrow> i \<in> set (incidents d) \<Longrightarrow> j \<in> set (incidents d) \<Longrightarrow> inc_id i = inc_id j \<Longrightarrow> i = j"
  by (auto simp: db_inv_def incidents_ok_def dest: unique_onD)

lemma flapping_now_cong:
  "health_check_results d' = health_check_results d \<Longrightarrow> flapping_now e now t d' = flapping_now e now t d"
  by (simp add: flapping_now_def countStatusTransitions_def)

lemma active_step_frame [repo_frame]:
  "health_check_results (snd (promote_degradation now target st a (note_failure now ft cid a d))) = health_check_results d"
  by (simp add: promote_degradation_def note_failure_def recordIncidentEvent_def escalateIncident_def
      incrementFailureCount_def update_incident_def)

lemma snd_process_active:
  "snd (process_active e now target st ft cid a d) =
     snd (checkFlapping e now target (fst (promote_degradation now target st a (note_failure now ft cid a d)))
       (snd (promote_degradation now target st a (note_failure now ft cid a d))))"
  by (simp add: process_active_def split_beta split: option.split)

lemma active_step_incidents:
  assumes "\<And>i. i \<in> set (incidents d) \<Longrightarrow> inc_id i = inc_id a \<Longrightarrow> i = a"
  shows "incidents (snd (promote_degradation now target st a (note_failure now ft cid a d))) =
    upd_where (\<lambda>i. inc_id i = inc_id a) (failed_again now target st ft False) (incidents d)"
  unfolding upd_where_def
  by (cases "st = DOWN \<and> incidentType a = DEGRADATION")
    (auto simp: promote_degradation_def note_failure_def recordIncidentEvent_def escalateIncident_def
      incrementFailureCount_def update_incident_def upd_where_def failed_again_def Let_def dest!: assms)

lemma process_active_incidents:
  assumes "db_inv d" and "a \<in> set (incidents d)"
  shows "incidents (snd (process_active e now target st ft cid a d)) =
    upd_where (\<lambda>i. inc_id i = inc_id a) (failed_again now target st ft (flapping_now e now (api_id target) d)) (incidents d)"
proof -
  have same: "i = a" if "i \<in> set (incidents d)" "inc_id i = inc_id a" for i
    using inc_id_unique [OF assms(1) that(1) assms(2) that(2)] .
  let ?p = "promote_degradation now target st a (note_failure now ft cid a d)"
  have ids: "inc_id (fst ?p) = inc_id a" by (simp add: promote_degradation_def)
  have kind: "incidentType (fst ?p) = incidentType (failed_again now target st ft False a)"
    by (simp add: promote_degradation_def failed_again_def Let_def)
  have fl: "flapping_now e now (api_id target) (snd ?p) = flapping_now e now (api_id target) d"
    by (rule flapping_now_cong) (rule active_step_frame)
  have inc: "incidents (snd ?p) = upd_where (\<lambda>i. inc_id i = inc_id a) (failed_again now target st ft False) (incidents d)"
    using same by (rule active_step_incidents)
  show ?thesis
    unfolding snd_process_active checkFlapping_incidents fl ids kind markIncidentFlapping_def
      update_incident_def db.select_convs db.update_convs
    by (auto simp: inc upd_where_def failed_again_def Let_def dest!: same)
qed

lemma process_active_inv:
  assumes "db_inv d"
  shows "db_inv (snd (process_active e now target st ft cid a d))"
proof -
  have "db_inv (note_failure now ft cid a d)"
    using assms by (simp add: note_failure_def incidents_repo_inv)
  then have "db_inv (snd (promote_degradation now target st a (note_failure now ft cid a d)))"
    by (auto simp: promote_degradation_def intro!: incidents_repo_inv update_incident_inv)
  then show ?thesis by (simp add: snd_process_active checkFlapping_inv)
qed

lemma find_active_upd:
  assumes "findActiveIncident t d = Some a" and "db_inv d"
    and "incidents d' = upd_where (\<lambda>i. inc_id i = inc_id a) f (incidents d)"
    and "inc_apiId (f a) = inc_apiId a" and "inc_status (f a) = inc_status a"
  shows "findActiveIncident t d' = Some (f a)"
proof -
  have a: "a \<in> set (incidents d)" using findActiveIncident_SomeD [OF assms(1)] by simp
  have eq: "incidents d' = upd_where (\<lambda>i. i = a) f (incidents d)"
    using inc_id_unique [OF assms(2) _ a] by (auto simp: assms(3) upd_where_def)
  have "find (\<lambda>i. inc_apiId i = t \<and> inc_status i \<noteq> RESOLVED) (upd_where (\<lambda>i. i = a) f (incidents d)) =
      map_option (\<lambda>r. if r = a then f r else r) (findActiveIncident t d)"
    unfolding findActiveIncident_def by (rule find_upd_where) (use assms(4,5) in auto)
  with assms(1) show ?thesis by (simp add: findActiveIncident_def [of t d'] eq)
qed

section \<open>A failing check of a target without an incident\<close>

lemma process_open_cases:
  assumes "process_open e now target st ft cid d = (r, d')"
  obtains err d1 where "openIncident now (api_id target) (if st = DOWN then OUTAGE else DEGRADATION)
      (if st = DOWN then severityDefault target else DEGRADE (severityDefault target))
      (endpointClass target) (isMoneyMoving target) cid ft d = (Inl err, d1)" "r = Inl err" "d' = d1"
  | i d1 msg where "openIncident now (api_id target) (if st = DOWN then OUTAGE else DEGRADATION)
      (if st = DOWN then severityDefault target else DEGRADE (severityDefault target))
      (endpointClass target) (isMoneyMoving target) cid ft d = (Inr i, d1)"
    "d' = snd (checkFlapping e now target i (recordDefaultAlerts e now
       (if st = DOWN then API_DOWN else API_DEGRADED) (api_id target) (inc_id i) msg d1))"
    "r = Inr (if flapping_now e now (api_id target) d then Flapping_detected (i\<lparr>incidentType := FLAPPING\<rparr>) else Opened i)"
proof (cases "openIncident now (api_id target) (if st = DOWN then OUTAGE else DEGRADATION)
      (if st = DOWN then severityDefault target else DEGRADE (severityDefault target))
      (endpointClass target) (isMoneyMoving target) cid ft d")
  case (Pair q d1)
  show thesis
  proof (cases q)
    case (Inl err)
    with Pair assms show thesis by (intro that(1)) (auto simp: process_open_def Let_def)
  next
    case (Inr i)
    let ?msg = "opened_message i st ft"
    let ?d2 = "recordDefaultAlerts e now (if st = DOWN then API_DOWN else API_DEGRADED) (api_id target) (inc_id i) ?msg d1"
    have "health_check_results ?d2 = health_check_results d"
      using Pair by (auto simp: queue_frame openIncident_def Let_def split: if_splits)
    then have fl: "flapping_now e now (api_id target) ?d2 = flapping_now e now (api_id target) d"
      by (rule flapping_now_cong)
    have nf: "incidentType i \<noteq> FLAPPING"
      using Pair Inr by (auto simp: openIncident_def Let_def split: if_splits)
    obtain f d3 where cf: "checkFlapping e now target i ?d2 = (f, d3)" by (cases "checkFlapping e now target i ?d2")
    have f: "f = (if flapping_now e now (api_id target) d then Some (i\<lparr>incidentType := FLAPPING\<rparr>) else None)"
      using checkFlapping_result [of e now target i ?d2] by (simp add: cf fl)
    have "process_open e now target st ft cid d = (Inr (if flapping_now e now (api_id target) d
        then Flapping_detected (i\<lparr>incidentType := FLAPPING\<rparr>) else Opened i), d3)"
      unfolding process_open_def Let_def using Pair Inr nf by (simp add: cf f)
    with assms have "r = Inr (if flapping_now e now (api_id target) d
        then Flapping_detected (i\<lparr>incidentType := FLAPPING\<rparr>) else Opened i)" "d' = d3" by auto
    with Pair Inr cf show thesis by (intro that(2) [of i d1 ?msg]) auto
  qed
qed

lemma process_open_inv:
  assumes "db_inv d"
  shows "db_inv (snd (process_open e now target st ft cid d))"
proof (cases "process_open e now target st ft cid d")
  case (Pair r d')
  then have "db_inv d'"
    by (cases rule: process_open_cases)
      (metis assms checkFlapping_inv openIncident_inv queue_inv(1) snd_conv)+
  with Pair show ?thesis by simp
qed

section \<open>The whole transition\<close>

lemma resolveIncident_active:
  assumes "findActiveIncident t d = Some a"
  obtains r where "fst (resolveIncident now (inc_id a) n d) = Some r"
    "inc_id r = inc_id a" "r \<in> set (incidents (snd (resolveIncident now (inc_id a) n d)))"
proof -
  let ?d' = "snd (resolveIncident now (inc_id a) n d)"
  have a: "a \<in> set (incidents d)" "inc_status a \<noteq> RESOLVED"
    using findActiveIncident_SomeD [OF assms] by simp_all
  then have ex: "\<exists>i \<in> set (incidents d). inc_id i = inc_id a \<and> inc_status i \<noteq> RESOLVED" by auto
  have ids: "map inc_id (incidents ?d') = map inc_id (incidents d)"
    by (simp add: resolveIncident_def Let_def update_incident_def map_upd_where_inv)
  from a(1) have "inc_id a \<in> set (map inc_id (incidents ?d'))" unfolding ids by simp
  then obtain r where r: "find (\<lambda>i. inc_id i = inc_id a) (incidents ?d') = Some r"
    using find_eq_None [of "\<lambda>i. inc_id i = inc_id a" "incidents ?d'"] by fastforce
  then have "fst (resolveIncident now (inc_id a) n d) = Some r"
    using ex by (simp add: resolveIncident_def Let_def split: if_splits)
  then show thesis using that find_SomeD [OF r] by blast
qed

lemma processCheckOutcome_UP_resolves:
  assumes "findActiveIncident (api_id target) d = Some a" and "INCIDENT_RECOVERY_STREAK e \<le> n"
  obtains r where "inc_id r = inc_id a" "r \<in> set (incidents (snd (resolveIncident now (inc_id a) None d)))"
    "processCheckOutcome e now target UP ft cid n d =
       (Inr (Resolved r), queueRecoveryAlerts e now (inc_id a) (api_id target) (snd (resolveIncident now (inc_id a) None d)))"
proof -
  obtain r where "fst (resolveIncident now (inc_id a) None d) = Some r"
    "inc_id r = inc_id a" "r \<in> set (incidents (snd (resolveIncident now (inc_id a) None d)))"
    using assms(1) by (rule resolveIncident_active)
  with assms show thesis by (intro that [of r]) (auto simp: processCheckOutcome_def split_beta)
qed

lemma processCheckOutcome_quiet:
  "status = UNKNOWN \<or> status = UP \<and> (findActiveIncident (api_id target) d = None \<or> n < INCIDENT_RECOVERY_STREAK e) \<Longrightarrow>
   processCheckOutcome e now target status ft cid n d = (Inr Noop, d)"
  by (auto simp: processCheckOutcome_def Let_def split: option.split)

lemma processCheckOutcome_failing:
  assumes "status = DOWN \<or> status = DEGRADED"
  shows "findActiveIncident (api_id target) d = None \<Longrightarrow>
      processCheckOutcome e now target status ft cid n d = process_open e now target status ft cid d"
    and "findActiveIncident (api_id target) d = Some a \<Longrightarrow>
      processCheckOutcome e now target status ft cid n d =
        (Inr (fst (process_active e now target status ft cid a d)), snd (process_active e now target status ft cid a d))"
  using assms by (auto simp: processCheckOutcome_def split_beta)

lemma processCheckOutcome_inv:
  assumes "db_inv d"
  shows "db_inv (snd (processCheckOutcome e now target status ft cid n d))"
proof (cases "status = DOWN \<or> status = DEGRADED")
  case True
  with assms show ?thesis
    by (cases "findActiveIncident (api_id target) d")
      (simp_all add: processCheckOutcome_failing process_open_inv process_active_inv)
next
  case False
  then have st: "status = UP \<or> status = UNKNOWN" by (cases status) auto
  show ?thesis
  proof (cases "status = UP \<and> findActiveIncident (api_id target) d \<noteq> None \<and> INCIDENT_RECOVERY_STREAK e \<le> n")
    case True
    then obtain a where "findActiveIncident (api_id target) d = Some a" by auto
    then show ?thesis
      by (rule processCheckOutcome_UP_resolves [where e = e and n = n and now = now and ft = ft and cid = cid])
        (use True assms in \<open>auto simp: queue_inv incident_update_inv\<close>)
  next
    case False
    with st have "processCheckOutcome e now target status ft cid n d = (Inr Noop, d)"
      by (intro processCheckOutcome_quiet) auto
    with assms show ?thesis by simp
  qed
qed

text \<open>Resolution is decided by the streak alone: a check resolves the incident of its target
  exactly when it is a clean \<open>UP\<close>, an incident is active, and the number of consecutive
  successes has reached \<open>INCIDENT_RECOVERY_STREAK\<close>. No other check, and none for a target
  without an active incident, resolves anything.\<close>

theorem check_resolves_iff_streak:
  "(\<exists>r. fst (processCheckOutcome e now target status ft cid n d) = Inr (Resolved r)) \<longleftrightarrow>
     status = UP \<and> findActiveIncident (api_id target) d \<noteq> None \<and> INCIDENT_RECOVERY_STREAK e \<le> n"
  (is "?L \<longleftrightarrow> ?R")
proof
  assume ?R
  then obtain a where "findActiveIncident (api_id target) d = Some a" by auto
  with \<open>?R\<close> show ?L by (metis processCheckOutcome_UP_resolves fst_conv)
next
  assume L: ?L
  have "\<not> (status = DOWN \<or> status = DEGRADED)"
  proof
    assume fail: "status = DOWN \<or> status = DEGRADED"
    show False
    proof (cases "findActiveIncident (api_id target) d")
      case None
      obtain q d' where q: "process_open e now target status ft cid d = (q, d')"
        by (cases "process_open e now target status ft cid d")
      then have "q \<noteq> Inr (Resolved r)" for r by (cases rule: process_open_cases) auto
      with None fail L q show False by (simp add: processCheckOutcome_failing)
    next
      case (Some a)
      have "fst (process_active e now target status ft cid a d) \<noteq> Resolved r" for r
        by (simp add: process_active_def split_beta split: option.split)
      with Some fail L show False by (auto simp: processCheckOutcome_failing)
    qed
  qed
  then show ?R
    using L processCheckOutcome_quiet [of status target d n e now ft cid]
    by (cases status; cases "findActiveIncident (api_id target) d"; cases "n < INCIDENT_RECOVERY_STREAK e") auto
qed

lemma recovery_dests_resolve:
  "recovery_dests e i (snd (resolveIncident now k n d)) = recovery_dests e i d"
  by (simp add: recovery_dests_def incidentAlertContacts_def notifiedTargetsForIncident_def
      resolveIncident_def Let_def update_incident_def)

text \<open>Who heard it broke hears it is fixed, once: the check that completes the streak queues
  exactly one pending recovery alert for each distinct destination among the default channels,
  the incident contacts and everybody an alert of this incident was sent to, and changes
  nothing else in the alert queue.\<close>

theorem recovery_notifies_everyone_once:
  assumes "findActiveIncident (api_id target) d = Some a" and "INCIDENT_RECOVERY_STREAK e \<le> n"
  shows "\<exists>new. alerts (snd (processCheckOutcome e now target UP ft cid n d)) = alerts d @ new \<and>
    distinct (map (\<lambda>x. (al_channel x, al_recipient x)) new) \<and>
    set (map (\<lambda>x. (al_channel x, al_recipient x)) new) =
      (\<lambda>ch. (ch, ALERT_DEFAULT_RECIPIENT e)) ` set (ALERT_DEFAULT_CHANNELS e) \<union>
      (\<lambda>c. (nc_channel c, nc_address c)) ` {c \<in> set (notification_contacts d). nc_isActive c \<and> nc_incidentAlerts c} \<union>
      (\<lambda>x. (al_channel x, al_recipient x)) ` {x \<in> set (alerts d). al_incidentId x = Some (inc_id a) \<and>
         al_status x = SENT \<and> alertType x \<noteq> API_RECOVERED} \<and>
    (\<forall>x \<in> set new. alertType x = API_RECOVERED \<and> al_status x = PENDING \<and>
       al_incidentId x = Some (inc_id a) \<and> al_apiId x = Some (api_id target))"
proof -
  let ?d1 = "snd (resolveIncident now (inc_id a) None d)"
  let ?xs = "first_seen [] (recovery_dests e (inc_id a) d)"
  let ?new = "alert_rows now API_RECOVERED (inc_id a) (api_id target) None (next_id ?d1) ?xs"
  have al: "alerts ?d1 = alerts d" by (simp add: resolveIncident_def Let_def update_incident_def)
  from assms have "snd (processCheckOutcome e now target UP ft cid n d) =
      queueRecoveryAlerts e now (inc_id a) (api_id target) ?d1"
    by (metis processCheckOutcome_UP_resolves snd_conv)
  then have "alerts (snd (processCheckOutcome e now target UP ft cid n d)) = alerts d @ ?new"
    by (simp add: queueRecoveryAlerts_eq al recovery_dests_resolve)
  moreover have "map (\<lambda>x. (al_channel x, al_recipient x)) ?new = ?xs" by (rule alert_rows_dests)
  moreover have "set ?xs =
      (\<lambda>ch. (ch, ALERT_DEFAULT_RECIPIENT e)) ` set (ALERT_DEFAULT_CHANNELS e) \<union>
      (\<lambda>c. (nc_channel c, nc_address c)) ` {c \<in> set (notification_contacts d). nc_isActive c \<and> nc_incidentAlerts c} \<union>
      (\<lambda>x. (al_channel x, al_recipient x)) ` {x \<in> set (alerts d). al_incidentId x = Some (inc_id a) \<and>
         al_status x = SENT \<and> alertType x \<noteq> API_RECOVERED}"
    by (simp add: first_seen_set recovery_dests_def incidentAlertContacts_def notifiedTargetsForIncident_def Un_def)
  ultimately show ?thesis
    using first_seen_distinct [of "[]"] alert_rows_fields by (intro exI [of _ ?new]) metis
qed

definition sample_incident :: incident where
  "sample_incident = \<lparr>inc_id = 0, inc_apiId = ''t1'', incidentNumber = ''INC-2025-000001'',
     incidentType = DEGRADATION, inc_severity = HIGH, endpointClassSnapshot = Psp_gateway,
     isMoneyMovingSnapshot = True, inc_status = OPEN, startedAt = 0, detectedByCheckId = None,
     acknowledgedAt = None, acknowledgedBy = None, resolvedAt = None, durationSeconds = None,
     failureCount = 1, inc_failureType = Some TIMEOUT, escalationLevelReached = 0, rootCause = None,
     resolution = None, inc_createdAt = 0, inc_updatedAt = 0\<rparr>"

definition sample_open_db :: db where
  "sample_open_db = empty_db\<lparr>incidents := [sample_incident], monitored_apis := [sample_api],
     next_id := 1, incident_seq := 2\<rparr>"

lemma sample_open_db_facts:
  "db_inv sample_open_db" "findActiveIncident (api_id sample_api) sample_open_db = Some sample_incident"
  "sample_incident \<in> set (incidents sample_open_db)"
  by (simp_all add: db_inv_def table_ok_defs unique_on_def findActiveIncident_def
      sample_open_db_def sample_incident_def sample_api_def empty_db_def)

theorem recovery_notifies_everyone_once_witness:
  "\<exists>x \<in> set (alerts (snd (processCheckOutcome default_env 90000 sample_api UP None None 2 sample_open_db))).
     al_channel x = WEBHOOK \<and> al_recipient x = ''ops'' \<and> alertType x = API_RECOVERED"
proof -
  have "INCIDENT_RECOVERY_STREAK default_env \<le> 2" by (simp add: default_env_def)
  from recovery_notifies_everyone_once [OF sample_open_db_facts(2) this, of 90000 None None]
  obtain new where new: "alerts (snd (processCheckOutcome default_env 90000 sample_api UP None None 2 sample_open_db)) =
      alerts sample_open_db @ new"
    "(WEBHOOK, ''ops'') \<in> set (map (\<lambda>x. (al_channel x, al_recipient x)) new)"
    "\<forall>x \<in> set new. alertType x = API_RECOVERED"
    by (auto simp: default_env_def)
  from new(2) obtain x where "x \<in> set new" "al_channel x = WEBHOOK" "al_recipient x = ''ops''" by auto
  with new(1,3) show ?thesis by (intro bexI [of _ x]) auto
qed

lemma process_open_success:
  assumes "db_inv d" and "findActiveIncident (api_id target) d = None"
    and "\<forall>j \<in> set (incidents d). incidentNumber j \<noteq> incident_number now (incident_seq d)"
  obtains i d1 msg where
    "openIncident now (api_id target) (if st = DOWN then OUTAGE else DEGRADATION)
      (if st = DOWN then severityDefault target else DEGRADE (severityDefault target))
      (endpointClass target) (isMoneyMoving target) cid ft d = (Inr i, d1)"
    "incidents d1 = incidents d @ [i]" "alerts d1 = alerts d" "next_id d1 = Suc (next_id d)"
    "notification_contacts d1 = notification_contacts d"
    "process_open e now target st ft cid d =
      (Inr (if flapping_now e now (api_id target) d then Flapping_detected (i\<lparr>incidentType := FLAPPING\<rparr>) else Opened i),
       snd (checkFlapping e now target i (recordDefaultAlerts e now
         (if st = DOWN then API_DOWN else API_DEGRADED) (api_id target) (inc_id i) msg d1)))"
proof (cases "process_open e now target st ft cid d")
  case (Pair r d')
  have free: "\<not> (\<exists>j \<in> set (incidents d). active_incident j \<and> inc_apiId j = api_id target)"
    using assms(2) by (auto simp: findActiveIncident_None_iff active_incident_def)
  from Pair show thesis
  proof (cases rule: process_open_cases)
    case (1 err d1)
    with assms(3) free show thesis by (auto simp: openIncident_def Let_def split: if_splits)
  next
    case (2 i d1 msg)
    with Pair show thesis by (intro that) (auto simp: openIncident_def Let_def split: if_splits)
  qed
qed

text \<open>A recorded check is never rejected by the incident engine: on a consistent database
  where the next incident number is free, the transition commits.\<close>

theorem check_outcome_commits:
  assumes "db_inv d"
    and "\<forall>j \<in> set (incidents d). incidentNumber j \<noteq> incident_number now (incident_seq d)"
  shows "\<exists>tr. fst (processCheckOutcome e now target status ft cid n d) = Inr tr"
proof (cases "(status = DOWN \<or> status = DEGRADED) \<and> findActiveIncident (api_id target) d = None")
  case True
  with assms show ?thesis
    by (metis processCheckOutcome_failing(1) process_open_success fst_conv)
next
  case False
  then show ?thesis
    by (cases status; cases "findActiveIncident (api_id target) d")
      (auto simp: processCheckOutcome_def split_beta split: option.splits)
qed

theorem check_outcome_commits_witness:
  "\<exists>tr. fst (processCheckOutcome default_env 0 sample_api DOWN (Some HTTP_5XX) None 0 empty_db) = Inr tr"
  by (rule check_outcome_commits) (simp_all add: db_inv_empty empty_db_def [THEN arg_cong, of incidents])

lemma incidents_open_flap:
  assumes "inc_id i = n" and "\<forall>j \<in> set js. inc_id j < n" and "incidentType i \<noteq> FLAPPING"
  shows "upd_where (\<lambda>j. inc_id j = n \<and> incidentType j \<noteq> FLAPPING) f (js @ [i]) = js @ [f i]"
proof -
  have "upd_where (\<lambda>j. inc_id j = n \<and> incidentType j \<noteq> FLAPPING) f js = js"
    using assms(2) by (intro upd_where_none) auto
  with assms show ?thesis by simp
qed

definition alert_tag :: "alert \<Rightarrow> alert_type \<times> alert_channel \<times> string \<times> row_id option" where
  "alert_tag x = (alertType x, al_channel x, al_recipient x, al_incidentId x)"

lemma alert_rows_tags:
  "map alert_tag (alert_rows now ty k a m p xs) = map (\<lambda>(ch, r). (ty, ch, r, Some k)) xs"
  by (induction xs arbitrary: p) (auto simp: alert_tag_def)

lemma checkFlapping_alerts: "\<exists>new. alerts (snd (checkFlapping e now target i d)) = alerts d @ new"
  by (auto simp: checkFlapping_def Let_def recordDefaultAlerts_eq recordIncidentEvent_def
      markIncidentFlapping_def update_incident_def)

text \<open>The state after the new row, its alerts and the flapping test.\<close>

lemma opened_state:
  assumes "inc_id i = next_id d" and "\<forall>j \<in> set (incidents d). inc_id j < next_id d"
    and "incidentType i \<noteq> FLAPPING" and "incidents d1 = incidents d @ [i]" and "alerts d1 = alerts d"
    and "health_check_results d1 = health_check_results d" and "notification_contacts d1 = notification_contacts d"
    and "d' = snd (checkFlapping e now target i (recordDefaultAlerts e now ty (api_id target) (inc_id i) msg d1))"
  shows "incidents d' = incidents d @ [if flapping_now e now (api_id target) d
      then i\<lparr>incidentType := FLAPPING, inc_updatedAt := now\<rparr> else i]"
    and "\<exists>rest. map alert_tag (alerts d') =
      map alert_tag (alerts d) @ map (\<lambda>(ch, r). (ty, ch, r, Some (inc_id i))) (default_dests e d) @ rest"
proof -
  let ?d2 = "recordDefaultAlerts e now ty (api_id target) (inc_id i) msg d1"
  have fl: "flapping_now e now (api_id target) ?d2 = flapping_now e now (api_id target) d"
    using assms(6) by (intro flapping_now_cong) (simp add: queue_frame)
  show "incidents d' = incidents d @ [if flapping_now e now (api_id target) d
      then i\<lparr>incidentType := FLAPPING, inc_updatedAt := now\<rparr> else i]"
    unfolding assms(8) checkFlapping_incidents fl
    using incidents_open_flap [OF assms(1,2,3)] assms(1,3)
    by (simp add: queue_frame assms(4) markIncidentFlapping_def update_incident_def)
  have dd: "default_dests e d1 = default_dests e d"
    using assms(7) by (simp add: default_dests_def incidentAlertContacts_def)
  obtain new where new: "alerts d' = alerts ?d2 @ new" using checkFlapping_alerts assms(8) by metis
  show "\<exists>rest. map alert_tag (alerts d') =
      map alert_tag (alerts d) @ map (\<lambda>(ch, r). (ty, ch, r, Some (inc_id i))) (default_dests e d) @ rest"
    unfolding new by (simp add: recordDefaultAlerts_eq assms(5) alert_rows_tags dd)
qed



text \<open>A failing check of a target whose incident is open never opens a second one: the same
  incident stays active with the same number and status, its failure counted once more; a
  \<open>DOWN\<close> check turns a degradation into an outage at the target's own severity, and an
  oscillating history marks it as flapping. Every other row of the table stays as it was.\<close>

theorem failing_check_updates_incident:
  assumes "db_inv d" and "findActiveIncident (api_id target) d = Some a"
    and "status = DOWN \<or> status = DEGRADED"
  shows "let d' = snd (processCheckOutcome e now target status ft cid n d);
             i = failed_again now target status ft (flapping_now e now (api_id target) d) a
    in findActiveIncident (api_id target) d' = Some i \<and>
       incidents d' = map (\<lambda>j. if j = a then i else j) (incidents d) \<and>
       incidentNumber i = incidentNumber a \<and> inc_status i = inc_status a \<and> failureCount i = failureCount a + 1 \<and>
       (status = DOWN \<and> incidentType a = DEGRADATION \<longrightarrow> inc_severity i = severityDefault target)"
proof -
  have a: "a \<in> set (incidents d)" using findActiveIncident_SomeD [OF assms(2)] by simp
  let ?d' = "snd (processCheckOutcome e now target status ft cid n d)"
  let ?f = "failed_again now target status ft (flapping_now e now (api_id target) d)"
  have inc: "incidents ?d' = upd_where (\<lambda>i. inc_id i = inc_id a) ?f (incidents d)"
    using assms(2,3) by (simp add: processCheckOutcome_failing process_active_incidents [OF assms(1) a])
  have "findActiveIncident (api_id target) ?d' = Some (?f a)"
    using assms(2,1) inc by (rule find_active_upd) (simp_all add: failed_again_def Let_def)
  moreover have "incidents ?d' = map (\<lambda>j. if j = a then ?f a else j) (incidents d)"
    using inc_id_unique [OF assms(1) _ a] by (auto simp: inc upd_where_def)
  ultimately show ?thesis by (simp add: Let_def failed_again_def)
qed

theorem failing_check_updates_incident_witness:
  "\<exists>i. findActiveIncident ''t1'' (snd (processCheckOutcome default_env 60000 sample_api DOWN (Some TIMEOUT) None 0 sample_open_db)) = Some i \<and>
     inc_severity i = CRITICAL \<and> failureCount i = 2"
  using failing_check_updates_incident [OF sample_open_db_facts(1,2), of DOWN default_env 60000 "Some TIMEOUT" None 0]
  by (simp add: Let_def failed_again_def sample_incident_def)

end
