(* ===== verification/Incident_Service.thy ===== *)
theory Incident_Service
  imports State_Machine Js_String
begin

text \<open>
  \<^verbatim>\<open>src/services/incident/incident.service.ts\<close>: the operators' operations on incidents, with
  their errors as values, and the life cycle every incident follows whatever the operators and
  the checks do to it: statuses only move forward, the identity of a row is fixed, and a
  resolved row keeps everything but its root cause.
\<close>

section \<open>Operations\<close>

definition incident_not_found :: "row_id \<Rightarrow> app_error" where
  "incident_not_found incId = NotFoundError (''Incident '' @ show_nat incId @ '' not found'')"

definition getIncidentById :: "row_id \<Rightarrow> db \<Rightarrow> app_error + incident" where
  "getIncidentById incId d =
     (case getIncident incId d of None \<Rightarrow> Inl (incident_not_found incId) | Some i \<Rightarrow> Inr i)"

definition acknowledgeIncident ::
    "timestamp \<Rightarrow> row_id \<Rightarrow> audit_actor \<Rightarrow> db \<Rightarrow> (app_error + incident) \<times> db" where
  "acknowledgeIncident now incId actor d =
     (case getIncident incId d of
        None \<Rightarrow> (Inl (incident_not_found incId), d)
      | Some existing \<Rightarrow>
          if inc_status existing = RESOLVED then (Inl (ValidationError ''Incident is already resolved''), d)
          else (case acknowledgeIncident_row now incId (actor_userId actor) d of
                  (None, d1) \<Rightarrow> (Inl (incident_not_found incId), d1)
                | (Some updated, d1) \<Rightarrow>
                    (Inr updated, recordAudit actor ''incident.acknowledged'' ''incident'' (Some (Row incId))
                       (Some (''Acknowledged '' @ incidentNumber updated @ '' (by '' @
                          (case actor_label actor of Some l \<Rightarrow> l
                           | None \<Rightarrow> (case actor_userId actor of Some u \<Rightarrow> show_nat u | None \<Rightarrow> ''unknown'')) @ '')'')) d1)))"

definition resolveIncidentManually ::
    "timestamp \<Rightarrow> row_id \<Rightarrow> string \<Rightarrow> audit_actor \<Rightarrow> db \<Rightarrow> (app_error + incident) \<times> db" where
  "resolveIncidentManually now incId note actor d =
     (if blank note then (Inl (ValidationError ''A resolution note is required''), d)
      else case getIncident incId d of
        None \<Rightarrow> (Inl (incident_not_found incId), d)
      | Some existing \<Rightarrow>
          if inc_status existing = RESOLVED then (Inl (ValidationError ''Incident is already resolved''), d)
          else (case resolveIncident now incId (Some note) d of
                  (None, d1) \<Rightarrow> (Inl (incident_not_found incId), d1)
                | (Some updated, d1) \<Rightarrow>
                    (Inr updated, recordAudit actor ''incident.resolved'' ''incident'' (Some (Row incId))
                       (Some (''Manually resolved '' @ incidentNumber updated @ '' after '' @
                          (case durationSeconds updated of Some s \<Rightarrow> show_int s | None \<Rightarrow> ''?'') @ ''s'')) d1)))"

definition setIncidentRootCause ::
    "timestamp \<Rightarrow> row_id \<Rightarrow> string \<Rightarrow> audit_actor \<Rightarrow> db \<Rightarrow> (app_error + incident) \<times> db" where
  "setIncidentRootCause now incId txt actor d =
     (if blank txt then (Inl (ValidationError ''Root cause text is required''), d)
      else case setRootCause_row now incId txt d of
             (None, d1) \<Rightarrow> (Inl (incident_not_found incId), d1)
           | (Some updated, d1) \<Rightarrow>
               (Inr updated, recordAudit actor ''incident.root_cause_set'' ''incident'' (Some (Row incId))
                  (Some (''Root cause recorded for '' @ incidentNumber updated)) d1))"

section \<open>Invariant\<close>

lemma incident_service_inv:
  "db_inv d \<Longrightarrow> db_inv (snd (acknowledgeIncident now k act d))"
  "db_inv d \<Longrightarrow> db_inv (snd (resolveIncidentManually now k rsn act d))"
  "db_inv d \<Longrightarrow> db_inv (snd (setIncidentRootCause now k rsn act d))"
  using incident_update_inv(5) [of d now k "actor_userId act"] incident_update_inv(4) [of d now k "Some rsn"]
    incident_update_inv(6) [of d now k rsn]
  by (auto simp: acknowledgeIncident_def resolveIncidentManually_def setIncidentRootCause_def timeline_inv
      split: option.splits prod.splits)

section \<open>The life cycle\<close>

fun status_rank :: "incident_status \<Rightarrow> nat" where
  "status_rank OPEN = 0" | "status_rank ACKNOWLEDGED = 1" | "status_rank RESOLVED = 2"

definition incident_evolves :: "incident \<Rightarrow> incident \<Rightarrow> bool" where
  "incident_evolves i i' \<longleftrightarrow>
     inc_id i' = inc_id i \<and> inc_apiId i' = inc_apiId i \<and> incidentNumber i' = incidentNumber i \<and>
     startedAt i' = startedAt i \<and> endpointClassSnapshot i' = endpointClassSnapshot i \<and>
     isMoneyMovingSnapshot i' = isMoneyMovingSnapshot i \<and> detectedByCheckId i' = detectedByCheckId i \<and>
     status_rank (inc_status i) \<le> status_rank (inc_status i') \<and>
     failureCount i \<le> failureCount i' \<and> escalationLevelReached i \<le> escalationLevelReached i' \<and>
     (acknowledgedAt i \<noteq> None \<longrightarrow> acknowledgedAt i' = acknowledgedAt i) \<and>
     (inc_status i = RESOLVED \<longrightarrow>
        i' = i\<lparr>rootCause := rootCause i', inc_updatedAt := inc_updatedAt i'\<rparr>)"

definition incidents_evolve :: "db \<Rightarrow> db \<Rightarrow> bool" where
  "incidents_evolve d d' \<longleftrightarrow>
     list_all2 incident_evolves (incidents d) (take (length (incidents d)) (incidents d'))"

lemma incident_evolves_refl [simp]: "incident_evolves i i"
  by (cases i) (simp add: incident_evolves_def)

lemma incident_evolves_trans:
  assumes "incident_evolves i j" and "incident_evolves j k"
  shows "incident_evolves i k"
proof -
  have "status_rank (inc_status i) \<le> status_rank (inc_status k)" using assms by (auto simp: incident_evolves_def)
  moreover have "k = i\<lparr>rootCause := rootCause k, inc_updatedAt := inc_updatedAt k\<rparr>" if "inc_status i = RESOLVED"
  proof -
    from that assms(1) have j: "j = i\<lparr>rootCause := rootCause j, inc_updatedAt := inc_updatedAt j\<rparr>"
      by (simp add: incident_evolves_def)
    then have "inc_status j = RESOLVED" using that by (metis incident.select_convs(8) incident.surjective incident.update_convs(18,21))
    with assms(2) have k: "k = j\<lparr>rootCause := rootCause k, inc_updatedAt := inc_updatedAt k\<rparr>"
      by (simp add: incident_evolves_def)
    show ?thesis by (subst k, subst j) simp
  qed
  ultimately show ?thesis using assms unfolding incident_evolves_def by auto
qed

lemma evolves_list_refl [simp]: "list_all2 incident_evolves xs xs"
  by (simp add: list_all2_refl)

lemma incidents_evolve_refl [simp]: "incidents_evolve d d"
  by (simp add: incidents_evolve_def list_all2_refl)

lemma incidents_evolve_same: "incidents d' = incidents d \<Longrightarrow> incidents_evolve d d'"
  by (simp add: incidents_evolve_def list_all2_refl)

lemma incidents_evolve_trans:
  assumes "incidents_evolve d d'" and "incidents_evolve d' d''"
  shows "incidents_evolve d d''"
proof -
  let ?n = "length (incidents d)"
  have n: "?n \<le> length (incidents d')"
    using assms(1) by (auto simp: incidents_evolve_def dest: list_all2_lengthD)
  have "list_all2 incident_evolves (take ?n (incidents d')) (take ?n (take (length (incidents d')) (incidents d'')))"
    using assms(2) unfolding incidents_evolve_def by (rule list_all2_takeI)
  then have "list_all2 incident_evolves (take ?n (incidents d')) (take ?n (incidents d''))"
    using n by (simp add: min_def)
  with assms(1) show ?thesis
    unfolding incidents_evolve_def using incident_evolves_trans by (blast intro: list_all2_trans)
qed

lemma incidents_evolve_upd:
  assumes "incidents d' = upd_where p f (incidents d)"
    and "\<And>i. i \<in> set (incidents d) \<Longrightarrow> p i \<Longrightarrow> incident_evolves i (f i)"
  shows "incidents_evolve d d'"
  using assms(2) by (simp add: incidents_evolve_def assms(1) upd_where_def list_all2_map2 list_all2_same)

lemma incidents_evolve_append: "incidents d' = incidents d @ new \<Longrightarrow> incidents_evolve d d'"
  by (simp add: incidents_evolve_def list_all2_refl)

lemma update_incident_evolve:
  assumes "\<And>i. i \<in> set (incidents d) \<Longrightarrow> p i \<Longrightarrow> incident_evolves i ((f i)\<lparr>inc_updatedAt := now\<rparr>)"
  shows "incidents_evolve d (update_incident now p f d)"
  using assms by (rule incidents_evolve_upd [rotated]) (simp_all add: update_incident_def)

lemma acknowledge_row_evolve: "incidents_evolve d (snd (acknowledgeIncident_row now k u d))"
proof -
  have "snd (acknowledgeIncident_row now k u d) = update_incident now (\<lambda>i. inc_id i = k \<and> inc_status i \<noteq> RESOLVED)
      (\<lambda>i. i\<lparr>inc_status := (if inc_status i = OPEN then ACKNOWLEDGED else inc_status i),
             acknowledgedAt := (case acknowledgedAt i of None \<Rightarrow> Some now | Some t \<Rightarrow> Some t),
             acknowledgedBy := (case acknowledgedBy i of None \<Rightarrow> u | Some u \<Rightarrow> Some u)\<rparr>) d"
    by (simp add: acknowledgeIncident_row_def Let_def)
  moreover have "incidents_evolve d \<dots>"
    by (rule update_incident_evolve) (simp add: incident_evolves_def split: option.split)
  ultimately show ?thesis by simp
qed

lemma resolve_evolve: "incidents_evolve d (snd (resolveIncident now k n d))"
proof -
  have top: "status_rank st \<le> 2" for st by (cases st) simp_all
  have "snd (resolveIncident now k n d) = update_incident now (\<lambda>i. inc_id i = k \<and> inc_status i \<noteq> RESOLVED)
      (\<lambda>i. i\<lparr>inc_status := RESOLVED, resolvedAt := Some now,
             durationSeconds := Some ((now - startedAt i + 500) div 1000),
             resolution := (case n of None \<Rightarrow> resolution i | Some n \<Rightarrow> Some n)\<rparr>) d"
    by (simp add: resolveIncident_def Let_def)
  moreover have "incidents_evolve d \<dots>"
    by (rule update_incident_evolve) (simp add: incident_evolves_def top)
  ultimately show ?thesis by simp
qed

lemma root_cause_evolve: "incidents_evolve d (snd (setRootCause_row now k s d))"
proof -
  have "snd (setRootCause_row now k s d) = update_incident now (\<lambda>i. inc_id i = k) (\<lambda>i. i\<lparr>rootCause := Some s\<rparr>) d"
    by (simp add: setRootCause_row_def Let_def)
  moreover have "incidents_evolve d \<dots>"
    by (rule update_incident_evolve) (simp add: incident_evolves_def)
  ultimately show ?thesis by simp
qed

lemma incident_service_evolve:
  "incidents_evolve d (snd (acknowledgeIncident now k act d))"
  "incidents_evolve d (snd (resolveIncidentManually now k rsn act d))"
  "incidents_evolve d (snd (setIncidentRootCause now k rsn act d))"
proof -
  show "incidents_evolve d (snd (acknowledgeIncident now k act d))"
    using acknowledge_row_evolve [of d now k "actor_userId act"]
    by (auto simp: acknowledgeIncident_def recordAudit_def incidents_evolve_def split: option.splits prod.splits)
  show "incidents_evolve d (snd (resolveIncidentManually now k rsn act d))"
    using resolve_evolve [of d now k "Some rsn"]
    by (auto simp: resolveIncidentManually_def recordAudit_def incidents_evolve_def split: option.splits prod.splits)
  show "incidents_evolve d (snd (setIncidentRootCause now k rsn act d))"
    using root_cause_evolve [of d now k rsn]
    by (auto simp: setIncidentRootCause_def recordAudit_def incidents_evolve_def split: option.splits prod.splits)
qed

lemma process_check_evolve:
  assumes "db_inv d"
  shows "incidents_evolve d (snd (processCheckOutcome e now target status ft cid n d))"
proof (cases "findActiveIncident (api_id target) d")
  case None
  show ?thesis
  proof (cases "status = DOWN \<or> status = DEGRADED")
    case True
    obtain r d' where p: "process_open e now target status ft cid d = (r, d')"
      by (cases "process_open e now target status ft cid d")
    from p have "incidents_evolve d d'"
    proof (cases rule: process_open_cases)
      case (1 err d1)
      then show ?thesis by (intro incidents_evolve_same) (auto simp: openIncident_def Let_def split: if_splits)
    next
      case (2 i d1 msg)
      have f: "inc_id i = next_id d" "incidentType i \<noteq> FLAPPING" "incidents d1 = incidents d @ [i]" "alerts d1 = alerts d"
        "health_check_results d1 = health_check_results d" "notification_contacts d1 = notification_contacts d"
        using 2(1) by (auto simp: openIncident_def Let_def split: if_splits)
      have "\<forall>j \<in> set (incidents d). inc_id j < next_id d"
        using assms by (simp add: db_inv_def incidents_ok_def)
      from opened_state(1) [OF f(1) this f(2-6) 2(2)] show ?thesis by (rule incidents_evolve_append)
    qed
    with None True p show ?thesis by (simp add: processCheckOutcome_failing)
  next
    case False
    with None have "processCheckOutcome e now target status ft cid n d = (Inr Noop, d)"
      by (intro processCheckOutcome_quiet) (cases status; simp)
    then show ?thesis by simp
  qed
next
  case (Some a)
  have a: "a \<in> set (incidents d)" "inc_status a \<noteq> RESOLVED" using findActiveIncident_SomeD [OF Some] by simp_all
  consider "status = DOWN \<or> status = DEGRADED" | "status = UP" "INCIDENT_RECOVERY_STREAK e \<le> n"
    | "status = UNKNOWN \<or> status = UP \<and> n < INCIDENT_RECOVERY_STREAK e"
    by (cases status; cases "INCIDENT_RECOVERY_STREAK e \<le> n") auto
  then show ?thesis
  proof cases
    case 1
    have "incident_evolves i (failed_again now target status ft fl i)" if "inc_status i \<noteq> RESOLVED" for i fl
      using that by (simp add: incident_evolves_def failed_again_def Let_def)
    moreover have "i = a" if "i \<in> set (incidents d)" "inc_id i = inc_id a" for i
      using inc_id_unique [OF assms that(1) a(1) that(2)] .
    ultimately have "incidents_evolve d (snd (process_active e now target status ft cid a d))"
      using a(2) by (intro incidents_evolve_upd [OF process_active_incidents [OF assms a(1)]]) metis
    with 1 Some show ?thesis by (simp add: processCheckOutcome_failing)
  next
    case 2
    have "snd (processCheckOutcome e now target status ft cid n d) =
        queueRecoveryAlerts e now (inc_id a) (api_id target) (snd (resolveIncident now (inc_id a) None d))"
      using Some 2 by (metis processCheckOutcome_UP_resolves snd_conv)
    then show ?thesis using resolve_evolve [of d now "inc_id a" None] by (simp add: incidents_evolve_def queue_frame)
  next
    case 3
    then show ?thesis by (subst processCheckOutcome_quiet) auto
  qed
qed

section \<open>Manual resolution\<close>

lemma manual_resolution_ok:
  assumes "db_inv d" and "getIncident k d = Some i" and "inc_status i \<noteq> RESOLVED" and "\<not> blank rsn"
  shows "\<exists>u s. resolveIncidentManually now k rsn act d =
      (Inr u, recordAudit act ''incident.resolved'' ''incident'' (Some (Row k)) s (snd (resolveIncident now k (Some rsn) d))) \<and>
    u = i\<lparr>inc_status := RESOLVED, resolvedAt := Some now, durationSeconds := Some ((now - startedAt i + 500) div 1000),
          resolution := Some rsn, inc_updatedAt := now\<rparr>"
proof -
  have i: "i \<in> set (incidents d)" "inc_id i = k"
    using assms(2) unfolding getIncident_def by (auto dest: find_SomeD)
  let ?f = "\<lambda>i. i\<lparr>inc_status := RESOLVED, resolvedAt := Some now, durationSeconds := Some ((now - startedAt i + 500) div 1000),
          resolution := Some rsn, inc_updatedAt := now\<rparr>"
  have inc: "incidents (snd (resolveIncident now k (Some rsn) d)) =
      upd_where (\<lambda>i. inc_id i = k \<and> inc_status i \<noteq> RESOLVED) ?f (incidents d)"
    by (simp add: resolveIncident_def Let_def update_incident_def)
  have "find (\<lambda>i. inc_id i = k) (upd_where (\<lambda>i. inc_id i = k \<and> inc_status i \<noteq> RESOLVED) ?f (incidents d)) =
      map_option (\<lambda>r. if inc_id r = k \<and> inc_status r \<noteq> RESOLVED then ?f r else r) (getIncident k d)"
    unfolding getIncident_def by (rule find_upd_where) simp
  with assms(2,3) i(2) have "find (\<lambda>i. inc_id i = k) (incidents (snd (resolveIncident now k (Some rsn) d))) = Some (?f i)"
    unfolding inc by simp
  moreover have "\<exists>i \<in> set (incidents d). inc_id i = k \<and> inc_status i \<noteq> RESOLVED" using i assms(3) by auto
  ultimately obtain d1 where r: "resolveIncident now k (Some rsn) d = (Some (?f i), d1)"
    by (simp add: resolveIncident_def Let_def)
  show ?thesis
    unfolding resolveIncidentManually_def assms(2) r using assms(3,4) by (simp only: if_False option.case prod.case snd_conv) blast
qed

text \<open>Resolving an incident by hand: it needs a note that is not blank and an incident that
  exists and is not resolved, otherwise it fails and changes nothing; when it succeeds the
  incident carries the note and its duration, its target is free to open the next one, exactly
  one audit row is written, and no alert of any kind is queued.\<close>

theorem manual_resolution:
  assumes "db_inv d"
  shows "let (r, d') = resolveIncidentManually now k rsn act d in
    (if blank rsn \<or> (\<forall>i \<in> set (incidents d). inc_id i = k \<longrightarrow> inc_status i = RESOLVED)
     then isl r \<and> d' = d
     else \<exists>i u. r = Inr u \<and> i \<in> set (incidents d) \<and> inc_id i = k \<and> inc_status u = RESOLVED \<and>
       resolution u = Some rsn \<and> durationSeconds u = Some ((now - startedAt i + 500) div 1000) \<and>
       findActiveIncident (inc_apiId i) d' = None \<and> length (audit_logs d') = length (audit_logs d) + 1 \<and>
       alerts d' = alerts d)"
proof (cases "blank rsn \<or> (\<forall>i \<in> set (incidents d). inc_id i = k \<longrightarrow> inc_status i = RESOLVED)")
  case True
  have "isl (fst (resolveIncidentManually now k rsn act d)) \<and> snd (resolveIncidentManually now k rsn act d) = d"
  proof (cases "getIncident k d")
    case (Some i)
    then have "i \<in> set (incidents d)" "inc_id i = k" unfolding getIncident_def by (auto dest: find_SomeD)
    with True Some show ?thesis by (auto simp: resolveIncidentManually_def)
  qed (simp add: resolveIncidentManually_def)
  with True show ?thesis by (simp add: Let_def split_beta)
next
  case False
  then obtain i where i: "i \<in> set (incidents d)" "inc_id i = k" "inc_status i \<noteq> RESOLVED" and nb: "\<not> blank rsn" by auto
  have "getIncident k d = Some i"
  proof (cases "getIncident k d")
    case None
    with i show ?thesis by (simp add: getIncident_def find_eq_None)
  next
    case (Some j)
    then have "j \<in> set (incidents d)" "inc_id j = k" unfolding getIncident_def by (auto dest: find_SomeD)
    with Some i inc_id_unique [OF assms] show ?thesis by metis
  qed
  from manual_resolution_ok [OF assms this i(3) nb] obtain u s where
    u: "resolveIncidentManually now k rsn act d =
      (Inr u, recordAudit act ''incident.resolved'' ''incident'' (Some (Row k)) s (snd (resolveIncident now k (Some rsn) d)))"
    "inc_status u = RESOLVED" "resolution u = Some rsn" "durationSeconds u = Some ((now - startedAt i + 500) div 1000)"
    by fastforce
  have "j = i" if "j \<in> set (incidents d)" "inc_apiId j = inc_apiId i" "inc_status j \<noteq> RESOLVED" for j
    using that i assms unique_onD [of active_incident inc_apiId "incidents d" j i]
    by (simp add: db_inv_def incidents_ok_def active_incident_def)
  then have "findActiveIncident (inc_apiId i) (snd (resolveIncident now k (Some rsn) d)) = None"
    using i(2) by (auto simp: findActiveIncident_None_iff resolveIncident_def Let_def update_incident_def set_upd_where)
  then have "findActiveIncident (inc_apiId i)
      (recordAudit act ''incident.resolved'' ''incident'' (Some (Row k)) s (snd (resolveIncident now k (Some rsn) d))) = None"
    by (simp add: findActiveIncident_def recordAudit_def)
  with False u i show ?thesis
    by (auto simp: recordAudit_def resolveIncident_def Let_def update_incident_def)
qed

theorem manual_resolution_witness:
  "\<exists>u. fst (resolveIncidentManually 120000 0 ''rolled back'' \<lparr>actor_userId = Some 5, actor_label = None\<rparr> sample_open_db) = Inr u \<and>
     durationSeconds u = Some 120"
proof -
  have nb: "\<not> blank ''rolled back''" by (simp add: blank.simps [of "''rolled back''"] ws_len_def)
  have i: "incidents sample_open_db = [sample_incident]" "inc_id sample_incident = 0"
    "inc_status sample_incident = OPEN" "startedAt sample_incident = 0"
    by (simp_all add: sample_open_db_def sample_incident_def)
  from manual_resolution [OF sample_open_db_facts(1), of 120000 0 "''rolled back''" "\<lparr>actor_userId = Some 5, actor_label = None\<rparr>"]
  show ?thesis using nb i by (auto simp: split_beta)
qed

end
