(* ===== verification/Lock_Service.thy ===== *)
theory Lock_Service
  imports Database
begin

text \<open>
  \<^verbatim>\<open>src/services/scheduler/lock.service.ts\<close>: the distributed lock kept in the table
  \<open>job_locks\<close>, with a time to live. Its contract is the locale \<open>ttl_lock\<close>: a lock held and not
  expired is refused to everybody, a free or expired one is granted, the holder keeps it until
  it expires whatever other workers do, and an expired lock can be stolen. The locale is
  interpreted by the operations of the service.
\<close>

section \<open>Operations\<close>

definition acquireLock :: "timestamp \<Rightarrow> string \<Rightarrow> string \<Rightarrow> int \<Rightarrow> db \<Rightarrow> bool \<times> db" where
  "acquireLock now key holder ttlMs d =
     (case find (\<lambda>l. lock_key l = key) (job_locks d) of
        None \<Rightarrow>
          (True, d\<lparr>job_locks := job_locks d @
             [\<lparr>lock_key = key, lock_holder = holder, lock_acquiredAt = now, lock_expiresAt = now + ttlMs\<rparr>]\<rparr>)
      | Some l \<Rightarrow>
          if lock_expiresAt l < now
          then (True, d\<lparr>job_locks := upd_where (\<lambda>l. lock_key l = key)
             (\<lambda>l. l\<lparr>lock_holder := holder, lock_acquiredAt := now, lock_expiresAt := now + ttlMs\<rparr>)
             (job_locks d)\<rparr>)
          else (False, d))"

definition releaseLock :: "string \<Rightarrow> string \<Rightarrow> db \<Rightarrow> db" where
  "releaseLock key holder d =
     d\<lparr>job_locks := filter (\<lambda>l. \<not> (lock_key l = key \<and> lock_holder l = holder)) (job_locks d)\<rparr>"

text \<open>Runs \<open>fn\<close> iff the lock is acquired; the release happens whether \<open>fn\<close> throws or not.\<close>

definition withLock ::
    "timestamp \<Rightarrow> string \<Rightarrow> string \<Rightarrow> int \<Rightarrow> (db \<Rightarrow> ('e + 'a) \<times> db) \<Rightarrow> db \<Rightarrow> ('e + 'a option) \<times> db" where
  "withLock now key holder ttlMs fn d =
     (case acquireLock now key holder ttlMs d of
        (False, d1) \<Rightarrow> (Inr None, d1)
      | (True, d1) \<Rightarrow> (case fn d1 of (r, d2) \<Rightarrow> (map_sum id Some r, releaseLock key holder d2)))"

definition pruneExpiredLocks :: "timestamp \<Rightarrow> db \<Rightarrow> nat \<times> db" where
  "pruneExpiredLocks now d =
     (let old = (\<lambda>l. lock_expiresAt l < now - 3600000)
      in (length (filter old (job_locks d)), d\<lparr>job_locks := filter (\<lambda>l. \<not> old l) (job_locks d)\<rparr>))"

text \<open>The holder of a lock at a point in time: an expired row holds nothing.\<close>

definition lock_holds :: "timestamp \<Rightarrow> db \<Rightarrow> string \<Rightarrow> string option" where
  "lock_holds t d key =
     (case find (\<lambda>l. lock_key l = key) (job_locks d) of
        None \<Rightarrow> None
      | Some l \<Rightarrow> if lock_expiresAt l < t then None else Some (lock_holder l))"

declare acquireLock_def [repo_defs] releaseLock_def [repo_defs] pruneExpiredLocks_def [repo_defs]

section \<open>Contract\<close>

datatype lock_op = Acquire timestamp string string int | Release string string

fun lock_step :: "(timestamp \<Rightarrow> string \<Rightarrow> string \<Rightarrow> int \<Rightarrow> 's \<Rightarrow> bool \<times> 's) \<Rightarrow>
    (string \<Rightarrow> string \<Rightarrow> 's \<Rightarrow> 's) \<Rightarrow> lock_op \<Rightarrow> 's \<Rightarrow> 's" where
  "lock_step acq rel (Acquire t k h ttl) s = snd (acq t k h ttl s)"
| "lock_step acq rel (Release k h) s = rel k h s"

text \<open>Operations that another worker may issue no later than \<open>t1\<close>.\<close>

fun foreign_op :: "string \<Rightarrow> string \<Rightarrow> timestamp \<Rightarrow> lock_op \<Rightarrow> bool" where
  "foreign_op k h t1 (Acquire t k' h' ttl) \<longleftrightarrow> t \<le> t1"
| "foreign_op k h t1 (Release k' h') \<longleftrightarrow> k' \<noteq> k \<or> h' \<noteq> h"

locale ttl_lock =
  fixes ok :: "'s \<Rightarrow> bool"
    and holds :: "timestamp \<Rightarrow> 's \<Rightarrow> string \<Rightarrow> string option"
    and acquire :: "timestamp \<Rightarrow> string \<Rightarrow> string \<Rightarrow> int \<Rightarrow> 's \<Rightarrow> bool \<times> 's"
    and release :: "string \<Rightarrow> string \<Rightarrow> 's \<Rightarrow> 's"
  assumes acquire_held: "holds t s k = Some h' \<Longrightarrow> acquire t k h ttl s = (False, s)"
    and acquire_free: "holds t s k = None \<Longrightarrow> fst (acquire t k h ttl s)"
    and acquire_ok: "ok s \<Longrightarrow> ok (snd (acquire t k h ttl s))"
    and acquire_holds: "ok s \<Longrightarrow> acquire t k h ttl s = (True, s') \<Longrightarrow>
       holds u s' k' = (if k' = k then (if u \<le> t + ttl then Some h else None) else holds u s k')"
    and release_ok: "ok s \<Longrightarrow> ok (release k h s)"
    and release_own: "ok s \<Longrightarrow> holds u s k = Some h \<Longrightarrow> holds u (release k h s) k = None"
    and release_foreign: "ok s \<Longrightarrow> k' \<noteq> k \<or> holds u s k' \<noteq> Some h \<Longrightarrow>
       holds u (release k h s) k' = holds u s k'"
    and holds_antimono: "holds u s k = Some h \<Longrightarrow> t \<le> u \<Longrightarrow> holds t s k = Some h"
begin

lemma step_ok: "ok s \<Longrightarrow> ok (lock_step acquire release opn s)"
  by (cases opn) (auto intro: acquire_ok release_ok)

lemma step_keeps_holder:
  assumes "ok s" and "holds t1 s k = Some h" and "foreign_op k h t1 opn"
  shows "holds t1 (lock_step acquire release opn s) k = Some h"
proof (cases opn)
  case (Acquire t k' h' ttl)
  with assms(3) have t: "t \<le> t1" by simp
  show ?thesis
  proof (cases "k' = k")
    case True
    from assms(2) t have "holds t s k = Some h" by (rule holds_antimono)
    with True Acquire assms(2) show ?thesis by (simp add: acquire_held)
  next
    case False
    show ?thesis
    proof (cases "acquire t k' h' ttl s")
      case (Pair b s')
      show ?thesis
      proof (cases b)
        case True
        with Pair False Acquire assms(1,2) show ?thesis by (simp add: acquire_holds)
      next
        case no: False
        have "holds t s k' \<noteq> None" using acquire_free [of t s k' h' ttl] Pair no by auto
        then obtain g where "holds t s k' = Some g" by auto
        then have "s' = s" using Pair acquire_held by (metis prod.inject)
        with Pair Acquire assms(2) show ?thesis by simp
      qed
    qed
  qed
next
  case (Release k' h')
  with assms have "k \<noteq> k' \<or> holds t1 s k \<noteq> Some h'" by auto
  with assms(1,2) Release show ?thesis by (simp add: release_foreign)
qed

text \<open>The holder keeps the lock until it expires, whatever the other workers try.\<close>

lemma holder_undisturbed:
  assumes "ok s" and "holds t1 s k = Some h" and "list_all (foreign_op k h t1) ops"
  shows "holds t1 (fold (lock_step acquire release) ops s) k = Some h"
  using assms
proof (induction ops arbitrary: s)
  case (Cons opn ops)
  then show ?case by (simp add: step_keeps_holder step_ok)
qed simp

lemma exclusive:
  assumes "ok s" and "acquire t k h ttl s = (True, s')" and "t1 \<le> t + ttl"
    and "list_all (foreign_op k h t1) ops"
  shows "\<not> fst (acquire t1 k h' ttl' (fold (lock_step acquire release) ops s'))"
proof -
  have "ok s'" using acquire_ok [OF assms(1), of t k h ttl] assms(2) by simp
  moreover have "holds t1 s' k = Some h" using acquire_holds [OF assms(1,2)] assms(3) by simp
  ultimately have "holds t1 (fold (lock_step acquire release) ops s') k = Some h"
    using assms(4) by (rule holder_undisturbed)
  then show ?thesis by (simp add: acquire_held)
qed

lemma stolen_after_expiry:
  assumes "ok s" and "acquire t k h ttl s = (True, s')" and "t + ttl < t1"
  shows "fst (acquire t1 k h' ttl' s')"
  using acquire_holds [OF assms(1,2), of t1 k] assms(3) by (auto intro: acquire_free)

end

section \<open>The service meets the contract\<close>

lemma acquireLock_frame [repo_frame]:
  "\<exists>ls. snd (acquireLock t k h ttl d) = d\<lparr>job_locks := ls\<rparr>"
  by (auto simp: acquireLock_def split: option.splits intro: exI [of _ "job_locks d"])

lemma acquireLock_locks_ok:
  assumes "locks_ok (job_locks d)"
  shows "locks_ok (job_locks (snd (acquireLock t k h ttl d)))"
proof (cases "find (\<lambda>l. lock_key l = k) (job_locks d)")
  case None
  then have "\<forall>l \<in> set (job_locks d). lock_key l \<noteq> k" by (simp add: find_eq_None)
  with None assms show ?thesis
    by (simp add: acquireLock_def locks_ok_def unique_on_snoc)
next
  case (Some l)
  with assms show ?thesis
    by (auto simp: acquireLock_def locks_ok_def intro!: unique_on_upd_inv [THEN iffD2])
qed

lemma acquireLock_holds:
  assumes "acquireLock t k h ttl d = (True, d')"
  shows "lock_holds u d' k' =
    (if k' = k then (if u \<le> t + ttl then Some h else None) else lock_holds u d k')"
proof (cases "find (\<lambda>l. lock_key l = k) (job_locks d)")
  case None
  with assms have d': "job_locks d' = job_locks d @
      [\<lparr>lock_key = k, lock_holder = h, lock_acquiredAt = t, lock_expiresAt = t + ttl\<rparr>]"
    by (auto simp: acquireLock_def)
  show ?thesis
    using None by (auto simp: lock_holds_def d' find_append split: option.splits)
next
  case (Some l)
  with assms have d': "job_locks d' = upd_where (\<lambda>l. lock_key l = k)
      (\<lambda>l. l\<lparr>lock_holder := h, lock_acquiredAt := t, lock_expiresAt := t + ttl\<rparr>) (job_locks d)"
    by (auto simp: acquireLock_def split: if_splits)
  have f: "find (\<lambda>l. lock_key l = k') (job_locks d') = map_option
      (\<lambda>l. if lock_key l = k then l\<lparr>lock_holder := h, lock_acquiredAt := t, lock_expiresAt := t + ttl\<rparr> else l)
      (find (\<lambda>l. lock_key l = k') (job_locks d))"
    unfolding d' by (rule find_upd_where) simp
  show ?thesis
  proof (cases "k' = k")
    case True
    then have "find (\<lambda>l. lock_key l = k) (job_locks d') =
        Some (l\<lparr>lock_holder := h, lock_acquiredAt := t, lock_expiresAt := t + ttl\<rparr>)"
      using f Some find_SomeD [OF Some] by simp
    with True show ?thesis by (simp add: lock_holds_def)
  next
    case False
    have "map_option (\<lambda>l. if lock_key l = k
        then l\<lparr>lock_holder := h, lock_acquiredAt := t, lock_expiresAt := t + ttl\<rparr> else l)
        (find (\<lambda>l. lock_key l = k') (job_locks d)) = find (\<lambda>l. lock_key l = k') (job_locks d)"
      using False by (auto simp: map_option_case split: option.splits dest!: find_SomeD)
    with False show ?thesis by (simp add: lock_holds_def f)
  qed
qed

lemma releaseLock_own:
  assumes "locks_ok (job_locks d)" and "lock_holds u d k = Some h"
  shows "lock_holds u (releaseLock k h d) k = None"
proof -
  from assms(2) obtain l where l: "find (\<lambda>l. lock_key l = k) (job_locks d) = Some l" "lock_holder l = h"
    by (auto simp: lock_holds_def split: option.splits if_splits)
  have "\<not> (lock_key x = k \<and> \<not> (lock_key x = k \<and> lock_holder x = h))" if "x \<in> set (job_locks d)" for x
    using that l find_SomeD [OF l(1)] assms(1) by (auto simp: locks_ok_def dest: unique_onD)
  then have "find (\<lambda>l. lock_key l = k) (job_locks (releaseLock k h d)) = None"
    by (auto simp: releaseLock_def find_eq_None)
  then show ?thesis by (simp add: lock_holds_def)
qed

lemma releaseLock_foreign:
  assumes ok: "locks_ok (job_locks d)" and other: "k' \<noteq> k \<or> lock_holds u d k' \<noteq> Some h"
  shows "lock_holds u (releaseLock k h d) k' = lock_holds u d k'"
proof (cases "\<exists>x \<in> set (job_locks d). lock_key x = k' \<and> k' = k \<and> lock_holder x = h")
  case False
  then have "find (\<lambda>l. lock_key l = k') (job_locks (releaseLock k h d)) = find (\<lambda>l. lock_key l = k') (job_locks d)"
    by (auto simp: releaseLock_def intro!: find_filter)
  then show ?thesis by (simp add: lock_holds_def)
next
  case True
  then obtain x where x: "x \<in> set (job_locks d)" "lock_key x = k'" "k' = k" "lock_holder x = h" by auto
  have uniq: "y = x" if "y \<in> set (job_locks d)" "lock_key y = k'" for y
    using that x ok by (auto simp: locks_ok_def dest: unique_onD)
  have f: "find (\<lambda>l. lock_key l = k') (job_locks d) = Some x"
  proof (cases "find (\<lambda>l. lock_key l = k') (job_locks d)")
    case None
    with x show ?thesis by (simp add: find_eq_None)
  next
    case (Some y)
    with find_SomeD [OF Some] uniq show ?thesis by simp
  qed
  with other x have "lock_expiresAt x < u" by (auto simp: lock_holds_def split: if_splits)
  with f have none: "lock_holds u d k' = None" by (simp add: lock_holds_def)
  have "lock_holder y = h" if "y \<in> set (job_locks d)" "lock_key y = k'" for y
    using uniq [OF that] x(4) by simp
  then have "find (\<lambda>l. lock_key l = k') (job_locks (releaseLock k h d)) = None"
    unfolding find_eq_None releaseLock_def using x(3) by auto
  with none show ?thesis by (simp add: lock_holds_def)
qed

interpretation job_lock: ttl_lock "\<lambda>d. locks_ok (job_locks d)" lock_holds acquireLock releaseLock
proof unfold_locales
  fix t d k h h' ttl
  show "lock_holds t d k = Some h' \<Longrightarrow> acquireLock t k h ttl d = (False, d)"
    by (auto simp: lock_holds_def acquireLock_def split: option.splits if_splits)
  show "lock_holds t d k = None \<Longrightarrow> fst (acquireLock t k h ttl d)"
    by (auto simp: lock_holds_def acquireLock_def split: option.splits if_splits)
  show "lock_holds u d k = Some h \<Longrightarrow> t \<le> u \<Longrightarrow> lock_holds t d k = Some h" for u
    by (auto simp: lock_holds_def split: option.splits if_splits)
  show "locks_ok (job_locks d) \<Longrightarrow> locks_ok (job_locks (releaseLock k h d))"
    by (simp add: releaseLock_def locks_ok_def unique_on_filter)
qed (erule acquireLock_locks_ok acquireLock_holds | erule (1) releaseLock_own releaseLock_foreign)+

text \<open>C9. Mutual exclusion of the distributed lock: once \<open>h\<close> has acquired \<open>k\<close> at time \<open>t\<close>, no
  acquisition of \<open>k\<close> by anyone succeeds at any time up to \<open>t + ttl\<close>, after any sequence of
  acquisitions (of any key, by anyone) and of releases other than \<open>h\<close>'s own in between.\<close>

theorem lock_mutual_exclusion:
  assumes "locks_ok (job_locks d)" and "acquireLock t k h ttl d = (True, d')"
    and "t1 \<le> t + ttl" and "list_all (foreign_op k h t1) ops"
  shows "\<not> fst (acquireLock t1 k h' ttl' (fold (lock_step acquireLock releaseLock) ops d'))"
  using assms by (rule job_lock.exclusive)

theorem lock_mutual_exclusion_witness:
  "fst (acquireLock 0 ''k'' ''w1'' 10 empty_db) \<and>
   \<not> fst (acquireLock 9 ''k'' ''w2'' 5
       (fold (lock_step acquireLock releaseLock) [Acquire 3 ''k'' ''w3'' 5, Release ''k'' ''w3'']
         (snd (acquireLock 0 ''k'' ''w1'' 10 empty_db))))"
proof -
  have ok: "locks_ok (job_locks empty_db)" by (simp add: empty_db_def locks_ok_def unique_on_def)
  have acq: "acquireLock 0 ''k'' ''w1'' 10 empty_db = (True, snd (acquireLock 0 ''k'' ''w1'' 10 empty_db))"
    by (simp add: acquireLock_def empty_db_def)
  show ?thesis
    using lock_mutual_exclusion [OF ok acq, of 9 "[Acquire 3 ''k'' ''w3'' 5, Release ''k'' ''w3'']" "''w2''" 5] acq
    by (simp add: prod_eq_iff)
qed

text \<open>A crashed holder does not deadlock the slot: as soon as the time to live has passed,
  the lock is granted to the next worker that asks.\<close>

theorem lock_stolen_after_expiry:
  assumes "locks_ok (job_locks d)" and "acquireLock t k h ttl d = (True, d')" and "t + ttl < t1"
  shows "fst (acquireLock t1 k h' ttl' d')"
  using assms by (rule job_lock.stolen_after_expiry)

theorem lock_stolen_after_expiry_witness:
  "fst (acquireLock 11 ''k'' ''w2'' 5 (snd (acquireLock 0 ''k'' ''w1'' 10 empty_db)))"
proof -
  have ok: "locks_ok (job_locks empty_db)" by (simp add: empty_db_def locks_ok_def unique_on_def)
  have acq: "acquireLock 0 ''k'' ''w1'' 10 empty_db = (True, snd (acquireLock 0 ''k'' ''w1'' 10 empty_db))"
    by (simp add: acquireLock_def empty_db_def)
  show ?thesis by (rule lock_stolen_after_expiry [OF ok acq]) simp
qed

end
