(* ===== verification/Job_Runner.thy ===== *)
theory Job_Runner
  imports Incident_Service Lock_Service
begin

text \<open>
  \<^verbatim>\<open>src/services/scheduler/job-runner.service.ts\<close> with \<open>insertTrace\<close> of
  \<^verbatim>\<open>src/repositories/health-check-traces.repo.ts\<close>: one scheduled check from the idempotency
  test to the release of the lock. As in the source, the function that performs the check is an
  argument (\<open>execute\<close>), which returns an outcome or throws; so is the root-cause analysis the
  advisory refresh calls (\<open>buildRootCauseAnalysis\<close>, which may throw). \<open>t0\<close> is the clock when the
  run starts, \<open>t1\<close> when the check has been performed. Encryption of the raw trace is left out.

  The lemmas show that a slot is executed at most once, that a failure of the monitor leaves the
  target's health, incidents and counters alone, that a committed run records result, counters
  and incident together, and that an incident is resolved exactly when the last checks recorded
  for its target are all clean.
\<close>

section \<open>Keys\<close>

text \<open>\<open>Math.floor(slot.getTime() / 1000)\<close>: the quotient of a date by 1000 is further from the next
  integer than half a unit in the last place, so the division is the exact one.\<close>

definition jobRunId :: "target_id \<Rightarrow> timestamp \<Rightarrow> string" where
  "jobRunId targetId slot = targetId @ '':'' @ show_int (slot div 1000)"

definition lockKey :: "target_id \<Rightarrow> timestamp \<Rightarrow> string" where
  "lockKey targetId slot = ''lock:job:'' @ targetId @ '':'' @ show_int (slot div 1000)"

definition lock_ttl :: "env \<Rightarrow> monitored_api \<Rightarrow> int" where
  "lock_ttl e target =
     max (SCHEDULER_LOCK_TTL_MS e) (timeoutMs target * (int (retry_count (api_retry target)) + 1) + 5000)"

datatype skip_reason = Already_done | Lock_contended

datatype run_result = Executed health_check_outcome | Skipped skip_reason | Dead_lettered string

section \<open>Root-cause refresh\<close>

text \<open>\<open>latency.ratio\<close> is a number with two decimals; the model counts hundredths.\<close>

record rca_latency =
  rca_baselineMs :: int
  rca_recentMs :: int
  rca_ratioHundredths :: nat

record rca =
  rca_category :: string
  rca_subtype :: string
  rca_probableCause :: string
  rca_confidence :: string
  rca_latency :: "rca_latency option"

definition show_hundredths :: "nat \<Rightarrow> string" where
  "show_hundredths k = show_nat (k div 100) @
     (if k mod 100 = 0 then [] else if k mod 10 = 0 then ''.'' @ show_nat (k mod 100 div 10)
      else ''.'' @ show_nat (k mod 100 div 10) @ show_nat (k mod 10))"

definition event_once ::
    "timestamp \<Rightarrow> row_id \<Rightarrow> incident_event_kind \<Rightarrow> string \<Rightarrow> (string \<times> string) list \<Rightarrow> db \<Rightarrow> db" where
  "event_once now incidentId kind summary detail d =
     (if incidentEventExists incidentId kind d then d
      else recordIncidentEvent now incidentId kind summary detail ''rca'' d)"

definition rca_events :: "timestamp \<Rightarrow> row_id \<Rightarrow> rca \<Rightarrow> db \<Rightarrow> db" where
  "rca_events now incidentId rca d =
     (let d1 = event_once now incidentId Ev_rca_computed
            (''RCA: '' @ rca_category rca @ '' '' @ utf8_em_dash @ '' '' @ rca_probableCause rca)
            [(''category'', rca_category rca), (''confidence'', rca_confidence rca)] d;
          d2 = (if rca_category rca = ''DATABASE''
                then event_once now incidentId Ev_database_error
                       (''Database dependency implicated '' @ utf8_em_dash @ '' '' @ rca_subtype rca)
                       [(''subtype'', rca_subtype rca)] d1
                else d1);
          d3 = (if rca_category rca = ''DEPENDENCY''
                then event_once now incidentId Ev_dependency_error
                       (''Downstream dependency implicated '' @ utf8_em_dash @ '' '' @ rca_subtype rca)
                       [(''subtype'', rca_subtype rca)] d2
                else d2)
      in case rca_latency rca of
           None \<Rightarrow> d3
         | Some l \<Rightarrow>
             if 200 \<le> rca_ratioHundredths l
             then event_once now incidentId Ev_latency_elevated
                    (''Latency '' @ show_int (rca_baselineMs l) @ ''ms '' @ utf8_arrow @ '' '' @
                     show_int (rca_recentMs l) @ ''ms ('' @ show_hundredths (rca_ratioHundredths l) @
                     utf8_times @ '' baseline)'')
                    [(''baselineMs'', show_int (rca_baselineMs l)), (''recentMs'', show_int (rca_recentMs l)),
                     (''ratio'', show_hundredths (rca_ratioHundredths l))] d3
             else d3)"

definition refreshRcaFor ::
    "timestamp \<Rightarrow> (row_id \<Rightarrow> db \<Rightarrow> rca option) \<Rightarrow> incident_transition \<Rightarrow> db \<Rightarrow> db" where
  "refreshRcaFor now buildRootCauseAnalysis transition d =
     (case (case transition of
              Opened i \<Rightarrow> Some (inc_id i) | Failure_recorded i \<Rightarrow> Some (inc_id i)
            | Flapping_detected i \<Rightarrow> Some (inc_id i) | Resolved _ \<Rightarrow> None | Noop \<Rightarrow> None) of
        None \<Rightarrow> d
      | Some incidentId \<Rightarrow>
          (case buildRootCauseAnalysis incidentId d of
             None \<Rightarrow> d
           | Some rca \<Rightarrow> rca_events now incidentId rca d))"

section \<open>Traces\<close>

definition insertTrace ::
    "row_id \<Rightarrow> target_id \<Rightarrow> string option \<Rightarrow> string \<Rightarrow> timestamp \<Rightarrow> health_status \<Rightarrow> nat \<Rightarrow>
     check_failure_type option \<Rightarrow> req_resp_trace \<Rightarrow> db \<Rightarrow> db" where
  "insertTrace checkId apiId runId correlationId checkedAt status attempts failureType t d =
     (if \<exists>r \<in> set (health_check_traces d). tr_checkId r = checkId
      then d\<lparr>next_id := Suc (next_id d)\<rparr>
      else d\<lparr>health_check_traces := health_check_traces d @
               [\<lparr>tr_checkId = checkId, tr_apiId = apiId, tr_jobRunId = runId, tr_requestId = next_id d,
                 tr_correlationId = correlationId, tr_checkedAt = checkedAt, tr_attempts = attempts,
                 tr_healthStatus = status, tr_failureType = failureType, tr_trace = t\<rparr>],
             next_id := Suc (next_id d)\<rparr>)"

section \<open>One scheduled check\<close>

text \<open>The trace is stored with a result that was inserted, when the outcome carries one.\<close>

definition trace_result ::
    "monitored_api \<Rightarrow> string \<Rightarrow> row_id option \<Rightarrow> health_check_outcome \<Rightarrow> db \<Rightarrow> db" where
  "trace_result target runId checkId outcome d =
     (case (checkId, out_trace outcome) of
        (Some c, Some t) \<Rightarrow> insertTrace c (api_id target) (Some runId) runId (out_checkedAt outcome)
           (out_status outcome) (out_attempts outcome) (out_failureType outcome) t d
      | _ \<Rightarrow> d)"

text \<open>The body of the transaction that records an outcome.\<close>

definition record_outcome ::
    "env \<Rightarrow> timestamp \<Rightarrow> monitored_api \<Rightarrow> timestamp \<Rightarrow> row_id \<Rightarrow> health_check_outcome \<Rightarrow> db \<Rightarrow>
     (db_error + incident_transition) \<times> db" where
  "record_outcome e now target scheduledSlot claimId outcome d =
     (case insertHealthCheckResult (api_id target) (jobRunId (api_id target) scheduledSlot) outcome d of
        (Inl err, d1) \<Rightarrow> (Inl err, d1)
      | (Inr checkId, d1) \<Rightarrow>
          (case recordRunOutcome now (api_id target) scheduledSlot (out_status outcome)
                  (trace_result target (jobRunId (api_id target) scheduledSlot) checkId outcome d1) of
             ((consecSuccesses, consecFailures), d3) \<Rightarrow>
               (case processCheckOutcome e now target (out_status outcome) (out_failureType outcome)
                       checkId consecSuccesses d3 of
                  (Inl err, d4) \<Rightarrow> (Inl err, d4)
                | (Inr transition, d4) \<Rightarrow> (Inr transition, completeJobRun now claimId SUCCESS d4))))"

definition dead_letter :: "timestamp \<Rightarrow> target_id \<Rightarrow> row_id \<Rightarrow> string \<Rightarrow> db \<Rightarrow> run_result \<times> db" where
  "dead_letter now targetId claimId message d =
     (Dead_lettered message,
      recordAlert now JOB_EXECUTION_FAILURE WEBHOOK ''ops'' None (Some targetId) (Some message)
        (completeJobRun now claimId DEAD_LETTERED d))"

definition run_claimed ::
    "env \<Rightarrow> timestamp \<Rightarrow> (row_id \<Rightarrow> db \<Rightarrow> rca option) \<Rightarrow> string + health_check_outcome \<Rightarrow>
     monitored_api \<Rightarrow> timestamp \<Rightarrow> row_id \<Rightarrow> db \<Rightarrow> run_result \<times> db" where
  "run_claimed e now rcaFn executed target scheduledSlot claimId d =
     (case executed of
        Inl message \<Rightarrow> dead_letter now (api_id target) claimId message d
      | Inr outcome \<Rightarrow>
          (case withTransaction (record_outcome e now target scheduledSlot claimId outcome) d of
             (Inl err, d1) \<Rightarrow> dead_letter now (api_id target) claimId (db_error_message err) d1
           | (Inr transition, d1) \<Rightarrow> (Executed outcome, refreshRcaFor now rcaFn transition d1)))"

definition runScheduledCheck ::
    "env \<Rightarrow> timestamp \<Rightarrow> timestamp \<Rightarrow> (row_id \<Rightarrow> db \<Rightarrow> rca option) \<Rightarrow>
     (monitored_api \<Rightarrow> string + health_check_outcome) \<Rightarrow> string \<Rightarrow> monitored_api \<Rightarrow> timestamp \<Rightarrow> db \<Rightarrow>
     run_result \<times> db" where
  "runScheduledCheck e t0 t1 rcaFn execute workerId target scheduledSlot d =
     (let runId = jobRunId (api_id target) scheduledSlot;
          key = lockKey (api_id target) scheduledSlot
      in if jobRunExists runId d then (Skipped Already_done, d)
         else case acquireLock t0 key workerId (lock_ttl e target) d of
           (False, d1) \<Rightarrow>
             (Skipped Lock_contended,
              recordSkippedRun t0 (api_id target) scheduledSlot runId workerId SKIPPED_LOCK_CONTENDED d1)
         | (True, d1) \<Rightarrow>
             (case claimJobRun t0 (api_id target) scheduledSlot runId workerId 1 d1 of
                (None, d2) \<Rightarrow> (Skipped Already_done, releaseLock key workerId d2)
              | (Some claimId, d2) \<Rightarrow>
                  (case run_claimed e t1 rcaFn (execute target) target scheduledSlot claimId d2 of
                     (r, d3) \<Rightarrow> (r, releaseLock key workerId d3))))"

section \<open>Keys are injective\<close>

lemma jobRunId_inject: "jobRunId t s = jobRunId t' s' \<longleftrightarrow> t = t' \<and> s div 1000 = s' div 1000"
  unfolding jobRunId_def using split_at_last_sep [of t "CHR '':''" _ t'] show_int_no_colon
  by (metis append_Cons append_Nil show_int_inject)

lemma lockKey_inject: "lockKey t s = lockKey t' s' \<longleftrightarrow> t = t' \<and> s div 1000 = s' div 1000"
  using jobRunId_inject [of t s t' s'] by (simp add: lockKey_def jobRunId_def)

section \<open>What a transition leaves alone\<close>

definition monitor_frame :: "db \<Rightarrow> db \<Rightarrow> bool" where
  "monitor_frame d d' \<longleftrightarrow> job_locks d' = job_locks d \<and> cron_job_runs d' = cron_job_runs d \<and>
     health_check_results d' = health_check_results d \<and> target_schedule_state d' = target_schedule_state d \<and>
     monitored_apis d' = monitored_apis d \<and> next_id d \<le> next_id d'"

lemma monitor_frame_refl [simp]: "monitor_frame d d"
  by (simp add: monitor_frame_def)

lemma monitor_frame_trans: "monitor_frame d d' \<Longrightarrow> monitor_frame d' d'' \<Longrightarrow> monitor_frame d d''"
  by (simp add: monitor_frame_def)

lemma incident_ops_frame:
  "monitor_frame d (recordIncidentEvent now k ev s dt src d)"
  "monitor_frame d (update_incident now p f d)"
  "monitor_frame d (snd (openIncident now a ty sv c m ch ft d))"
  "monitor_frame d (snd (resolveIncident now k n d))"
  "monitor_frame d (recordDefaultAlerts e now aty a i msg d)"
  "monitor_frame d (queueRecoveryAlerts e now i a d)"
  by (simp_all add: monitor_frame_def recordIncidentEvent_def update_incident_def openIncident_def Let_def
      resolveIncident_def recordDefaultAlerts_eq queueRecoveryAlerts_eq)

lemmas frame_chain = incident_ops_frame [THEN monitor_frame_trans [rotated]]

lemma checkFlapping_frame: "monitor_frame d (snd (checkFlapping e now target i d))"
  by (auto simp: checkFlapping_def Let_def markIncidentFlapping_def intro!: frame_chain)

lemma process_open_frame: "monitor_frame d (snd (process_open e now target st ft cid d))"
proof (cases "process_open e now target st ft cid d")
  case (Pair r d')
  then have "monitor_frame d d'"
    by (cases rule: process_open_cases)
      (metis checkFlapping_frame incident_ops_frame(3,5) monitor_frame_trans snd_conv)+
  with Pair show ?thesis by simp
qed

lemma process_active_frame: "monitor_frame d (snd (process_active e now target st ft cid a d))"
proof -
  have n: "monitor_frame d (note_failure now ft cid a d)"
    by (auto simp: note_failure_def incrementFailureCount_def intro!: frame_chain)
  have "monitor_frame d' (snd (promote_degradation now target st a d'))" for d'
    by (auto simp: promote_degradation_def escalateIncident_def intro!: frame_chain)
  with n show ?thesis unfolding snd_process_active by (metis checkFlapping_frame monitor_frame_trans)
qed

lemma processCheckOutcome_frame: "monitor_frame d (snd (processCheckOutcome e now target st ft cid n d))"
proof (cases "st = DOWN \<or> st = DEGRADED")
  case True
  then show ?thesis
    by (cases "findActiveIncident (api_id target) d")
      (simp_all add: processCheckOutcome_failing process_open_frame process_active_frame)
next
  case False
  then show ?thesis
    by (cases st) (auto simp: processCheckOutcome_def split_beta split: option.splits intro!: frame_chain)
qed

definition events_only :: "db \<Rightarrow> db \<Rightarrow> bool" where
  "events_only d d' \<longleftrightarrow> (\<exists>evs. d' = d\<lparr>incident_events := evs\<rparr>)"

lemma events_only_refl [simp]: "events_only d d"
  unfolding events_only_def by (rule exI [of _ "incident_events d"]) simp

lemma events_only_once: "events_only d d' \<Longrightarrow> events_only d (event_once now i k s dt d')"
  by (auto simp: events_only_def event_once_def recordIncidentEvent_def)

lemma refreshRcaFor_frame: "events_only d (refreshRcaFor now f tr d)"
  by (auto simp: refreshRcaFor_def rca_events_def Let_def intro!: events_only_once
      split: option.split incident_transition.split)

lemma events_only_frame:
  "events_only d d' \<Longrightarrow> monitor_frame d d' \<and> incidents d' = incidents d \<and> alerts d' = alerts d \<and> (db_inv d' = db_inv d)"
  by (auto simp: events_only_def monitor_frame_def db_inv_def)

section \<open>Recording an outcome\<close>

lemma insertTrace_frame:
  "monitor_frame d (insertTrace c a j k t st n ft tr d)" "incidents (insertTrace c a j k t st n ft tr d) = incidents d"
  "db_inv d \<Longrightarrow> db_inv (insertTrace c a j k t st n ft tr d)"
  by (auto simp: insertTrace_def monitor_frame_def db_inv_def intro: ok_mono)

lemma insertHealthCheckResult_frame:
  "insertHealthCheckResult a j oc d = (r, d') \<Longrightarrow>
     job_locks d' = job_locks d \<and> cron_job_runs d' = cron_job_runs d \<and> incidents d' = incidents d \<and>
     target_schedule_state d' = target_schedule_state d \<and> next_id d \<le> next_id d' \<and>
     (\<forall>x. r = Inr x \<longrightarrow> (\<exists>h \<in> set (health_check_results d'). hcr_jobRunId h = Some j))"
  by (auto simp: insertHealthCheckResult_def split: if_splits option.splits)

lemma recordRunOutcome_frame:
  "job_locks (snd (recordRunOutcome now t s st d)) = job_locks d"
  "cron_job_runs (snd (recordRunOutcome now t s st d)) = cron_job_runs d"
  "incidents (snd (recordRunOutcome now t s st d)) = incidents d"
  "health_check_results (snd (recordRunOutcome now t s st d)) = health_check_results d"
  "next_id (snd (recordRunOutcome now t s st d)) = next_id d"
  by (auto simp: recordRunOutcome_def Let_def split: option.splits)

text \<open>The database after the result (and its trace) has been inserted, before the counters.\<close>

lemma record_outcome_cases:
  assumes "record_outcome e now target slot cid oc d = (r, d')"
  obtains err where "insertHealthCheckResult (api_id target) (jobRunId (api_id target) slot) oc d = (Inl err, d')" "r = Inl err"
  | checkId d1 d2 d3 q d4 where
      "insertHealthCheckResult (api_id target) (jobRunId (api_id target) slot) oc d = (Inr checkId, d1)"
      "monitor_frame d1 d2" "incidents d2 = incidents d1" "db_inv d1 \<Longrightarrow> db_inv d2"
      "d3 = snd (recordRunOutcome now (api_id target) slot (out_status oc) d2)"
      "processCheckOutcome e now target (out_status oc) (out_failureType oc) checkId
         (fst (fst (recordRunOutcome now (api_id target) slot (out_status oc) d2))) d3 = (q, d4)"
      "r = q" "d' = (case q of Inl _ \<Rightarrow> d4 | Inr _ \<Rightarrow> completeJobRun now cid SUCCESS d4)"
proof (cases "insertHealthCheckResult (api_id target) (jobRunId (api_id target) slot) oc d")
  case (Pair q0 d1)
  show thesis
  proof (cases q0)
    case (Inl err)
    with Pair assms show thesis by (intro that(1)) (auto simp: record_outcome_def)
  next
    case (Inr checkId)
    let ?d2 = "trace_result target (jobRunId (api_id target) slot) checkId oc d1"
    obtain cs cf d3 where c: "recordRunOutcome now (api_id target) slot (out_status oc) ?d2 = ((cs, cf), d3)"
      by (metis surj_pair)
    obtain q d4 where q: "processCheckOutcome e now target (out_status oc) (out_failureType oc) checkId cs d3 = (q, d4)"
      by (metis surj_pair)
    have f: "monitor_frame d1 ?d2" "incidents ?d2 = incidents d1" "db_inv d1 \<Longrightarrow> db_inv ?d2"
      by (auto simp: trace_result_def insertTrace_frame split: option.splits)
    have "(r, d') = (q, case q of Inl _ \<Rightarrow> d4 | Inr _ \<Rightarrow> completeJobRun now cid SUCCESS d4)"
      using assms unfolding record_outcome_def by (cases q) (auto simp: Pair Inr c q)
    with Pair Inr c q f show thesis by (intro that(2) [of checkId d1 ?d2 d3 q d4]) auto
  qed
qed

lemma record_outcome_next_id:
  assumes "record_outcome e now target slot cid oc d = (r, d')"
  shows "next_id d \<le> next_id d' \<and> job_locks d' = job_locks d"
  using assms
proof (cases rule: record_outcome_cases)
  case (1 err)
  then show ?thesis using insertHealthCheckResult_frame by blast
next
  case (2 checkId d1 d2 d3 q d4)
  have "monitor_frame d3 d4" using processCheckOutcome_frame [of d3] 2(6) by (metis snd_conv)
  with 2(2,5,8) insertHealthCheckResult_frame [OF 2(1)] show ?thesis
    by (auto simp: monitor_frame_def recordRunOutcome_frame completeJobRun_def split: sum.splits)
qed

lemma record_outcome_inv:
  assumes "db_inv d" and "record_outcome e now target slot cid oc d = (r, d')"
  shows "db_inv d'"
  using assms(2)
proof (cases rule: record_outcome_cases)
  case (1 err)
  then show ?thesis using insertHealthCheckResult_inv [OF assms(1)] by (metis snd_conv)
next
  case (2 checkId d1 d2 d3 q d4)
  have "db_inv d1" using insertHealthCheckResult_inv [OF assms(1)] 2(1) by (metis snd_conv)
  then have "db_inv d3" using 2(4,5) recordRunOutcome_inv by blast
  then have "db_inv d4" using processCheckOutcome_inv 2(6) by (metis snd_conv)
  with 2(8) show ?thesis by (auto simp: completeJobRun_inv split: sum.splits)
qed

lemma withTransaction_inv:
  assumes "db_inv d" and "\<And>r d'. fn d = (r, d') \<Longrightarrow> db_inv d' \<and> next_id d \<le> next_id d'"
  shows "db_inv (snd (withTransaction fn d))"
proof (cases "fn d")
  case (Pair r d')
  with assms have "db_inv d'" "next_id d \<le> next_id d'" by auto
  with Pair assms(1) show ?thesis
    by (cases r) (auto simp: withTransaction_def db_inv_def intro: ok_mono)
qed

lemma commit_inv:
  "db_inv d \<Longrightarrow> db_inv (snd (withTransaction (record_outcome e now target slot cid oc) d))"
  by (rule withTransaction_inv) (auto dest: record_outcome_inv record_outcome_next_id)

lemma dead_letter_inv: "db_inv d \<Longrightarrow> db_inv (snd (dead_letter now t cid m d))"
  by (simp add: dead_letter_def recordAlert_inv completeJobRun_inv)

lemma run_claimed_inv: "db_inv d \<Longrightarrow> db_inv (snd (run_claimed e now rca ex target slot cid d))"
proof (cases ex)
  case (Inr oc)
  assume "db_inv d"
  then have inv: "db_inv (snd (withTransaction (record_outcome e now target slot cid oc) d))" by (rule commit_inv)
  show ?thesis
  proof (cases "withTransaction (record_outcome e now target slot cid oc) d")
    case (Pair q d1)
    with inv Inr show ?thesis
      using events_only_frame [OF refreshRcaFor_frame, of d1]
      by (cases q) (simp_all add: run_claimed_def dead_letter_inv)
  qed
qed (simp add: run_claimed_def dead_letter_inv)

lemma lock_inv:
  "db_inv d \<Longrightarrow> db_inv (snd (acquireLock t k h ttl d))" "db_inv d \<Longrightarrow> db_inv (releaseLock k h d)"
  "db_inv d \<Longrightarrow> db_inv (snd (pruneExpiredLocks t d))"
  using acquireLock_frame [of t k h ttl d] acquireLock_locks_ok [of d t k h ttl]
  by (auto simp: db_inv_def releaseLock_def pruneExpiredLocks_def Let_def locks_ok_def unique_on_filter)

lemma runScheduledCheck_inv:
  assumes "db_inv d"
  shows "db_inv (snd (runScheduledCheck e t0 t1 rca ex w target slot d))"
  using lock_inv(1) [OF assms, of t0 "lockKey (api_id target) slot" w "lock_ttl e target"]
    claimJobRun_inv run_claimed_inv
  by (auto simp: runScheduledCheck_def Let_def assms split: prod.splits bool.splits option.splits
      intro!: lock_inv(2) recordSkippedRun_inv) (metis snd_conv)+

section \<open>Idempotency\<close>

lemma complete_marks_done:
  assumes "x \<in> set (cron_job_runs d)" and "cjr_id x = c" and "cjr_jobRunId x = j" and "st \<in> {SUCCESS, DEAD_LETTERED}"
  shows "jobRunExists j (completeJobRun now c st d)"
proof -
  have "x\<lparr>cjr_status := st, cjr_completedAt := Some now\<rparr> \<in> set (cron_job_runs (completeJobRun now c st d))"
    using assms(1,2) by (auto simp: completeJobRun_def set_upd_where)
  then show ?thesis unfolding jobRunExists_def by (rule bexI [rotated]) (use assms(3,4) in auto)
qed

lemma jobRunExists_cong: "cron_job_runs d' = cron_job_runs d \<Longrightarrow> jobRunExists j d' = jobRunExists j d"
  by (simp add: jobRunExists_def)

lemma dead_letter_done:
  assumes "x \<in> set (cron_job_runs d)" and "cjr_id x = c" and "cjr_jobRunId x = j"
  shows "jobRunExists j (snd (dead_letter now t c m d))"
  using complete_marks_done [OF assms, of DEAD_LETTERED now] by (simp add: dead_letter_def recordAlert_def jobRunExists_def)

lemma commit_done:
  assumes "withTransaction (record_outcome e now target slot c oc) d = (Inr tr, d')"
    and "x \<in> set (cron_job_runs d)" and "cjr_id x = c" and "cjr_jobRunId x = j"
  shows "jobRunExists j d'"
proof -
  from assms(1) have "record_outcome e now target slot c oc d = (Inr tr, d')" by (simp add: withTransaction_Inr)
  then show ?thesis
  proof (cases rule: record_outcome_cases)
    case (2 checkId d1 d2 d3 q d4)
    have "monitor_frame d3 d4" using processCheckOutcome_frame [of d3] 2(6) by (metis snd_conv)
    then have "cron_job_runs d4 = cron_job_runs d"
      using 2(2,5) insertHealthCheckResult_frame [OF 2(1)] by (simp add: monitor_frame_def recordRunOutcome_frame)
    with assms(2-4) have "jobRunExists j (completeJobRun now c SUCCESS d4)" by (intro complete_marks_done) auto
    moreover have "d' = completeJobRun now c SUCCESS d4" using 2(7,8) by auto
    ultimately show ?thesis by simp
  qed simp
qed

lemma run_claimed_done:
  assumes "x \<in> set (cron_job_runs d)" and "cjr_id x = c" and "cjr_jobRunId x = j"
  shows "jobRunExists j (snd (run_claimed e now rca ex target slot c d))"
proof (cases ex)
  case (Inr oc)
  obtain q d1 where q: "withTransaction (record_outcome e now target slot c oc) d = (q, d1)" by (metis surj_pair)
  show ?thesis
  proof (cases q)
    case (Inl err)
    then have "cron_job_runs d1 = cron_job_runs d" using withTransaction_rollback q by fastforce
    with assms have "jobRunExists j (snd (dead_letter now (api_id target) c (db_error_message err) d1))"
      by (intro dead_letter_done) auto
    with Inr Inl q show ?thesis by (simp add: run_claimed_def)
  next
    case tr: (Inr tr)
    have "jobRunExists j d1" using commit_done [OF q [unfolded tr] assms] .
    then have "jobRunExists j (refreshRcaFor now rca tr d1)"
      using events_only_frame [OF refreshRcaFor_frame, of d1 now rca tr] jobRunExists_cong
      by (metis monitor_frame_def)
    with Inr tr q show ?thesis by (simp add: run_claimed_def)
  qed
qed (simp add: run_claimed_def dead_letter_done [OF assms])

text \<open>The branches of a run: done before, contended, claimed by somebody, or claimed here.\<close>

lemma runScheduledCheck_cases:
  assumes "runScheduledCheck e t0 t1 rca ex w target slot d = (r, d')"
  obtains "jobRunExists (jobRunId (api_id target) slot) d" "r = Skipped Already_done" "d' = d"
  | "\<not> jobRunExists (jobRunId (api_id target) slot) d" "r = Skipped Lock_contended"
    "\<not> fst (acquireLock t0 (lockKey (api_id target) slot) w (lock_ttl e target) d)"
  | ls where "r = Skipped Already_done" "d' = d\<lparr>job_locks := ls\<rparr>"
  | d1 d2 d3 c ls ls' where "\<not> jobRunExists (jobRunId (api_id target) slot) d" "d1 = d\<lparr>job_locks := ls\<rparr>" "db_inv d \<Longrightarrow> db_inv d1"
    "claimJobRun t0 (api_id target) slot (jobRunId (api_id target) slot) w 1 d1 = (Some c, d2)"
    "run_claimed e t1 rca (ex target) target slot c d2 = (r, d3)" "d' = d3\<lparr>job_locks := ls'\<rparr>"
proof -
  let ?j = "jobRunId (api_id target) slot" and ?k = "lockKey (api_id target) slot"
  obtain b d1 where acq: "acquireLock t0 ?k w (lock_ttl e target) d = (b, d1)" by (metis surj_pair)
  obtain ls where ls: "d1 = d\<lparr>job_locks := ls\<rparr>" using acquireLock_frame acq by (metis snd_conv)
  obtain q d2 where cl: "claimJobRun t0 (api_id target) slot ?j w 1 d1 = (q, d2)" by (metis surj_pair)
  show thesis
  proof (cases "jobRunExists ?j d \<or> \<not> b \<or> q = None")
    case True
    have "q = None \<Longrightarrow> d2 = d1" using cl by (auto simp: claimJobRun_def split: if_splits)
    with True assms acq cl ls show thesis
      by (cases b) (auto simp: runScheduledCheck_def Let_def releaseLock_def split: if_splits intro: that(1,2,3))
  next
    case False
    then obtain c where c: "q = Some c" "b" "\<not> jobRunExists ?j d" by auto
    obtain r3 d3 where r3: "run_claimed e t1 rca (ex target) target slot c d2 = (r3, d3)" by (metis surj_pair)
    with assms acq cl c have "r = r3" "d' = releaseLock ?k w d3" by (auto simp: runScheduledCheck_def Let_def)
    moreover have "db_inv d \<Longrightarrow> db_inv d1" using lock_inv(1) acq by (metis snd_conv)
    ultimately show thesis using c ls cl r3 by (intro that(4) [of d1 ls c d2 d3]) (auto simp: releaseLock_def)
  qed
qed

lemma claim_row:
  "claimJobRun t0 t s j w a d = (Some c, d') \<Longrightarrow>
     (\<exists>x \<in> set (cron_job_runs d'). cjr_id x = c \<and> cjr_jobRunId x = j) \<and>
     d' = d\<lparr>cron_job_runs := cron_job_runs d', next_id := Suc (next_id d)\<rparr> \<and> c = next_id d"
  by (auto simp: claimJobRun_def split: if_splits)

lemma run_marks_done:
  assumes "runScheduledCheck e t0 t1 rca ex w target slot d = (r, d')" and "\<forall>reason. r \<noteq> Skipped reason"
  shows "jobRunExists (jobRunId (api_id target) slot) d'"
  using assms(1)
proof (cases rule: runScheduledCheck_cases)
  case (4 d1 d2 d3 c ls ls')
  obtain x where "x \<in> set (cron_job_runs d2)" "cjr_id x = c" "cjr_jobRunId x = jobRunId (api_id target) slot"
    using claim_row [OF 4(4)] by blast
  then have "jobRunExists (jobRunId (api_id target) slot) d3"
    using run_claimed_done [of x d2 c _ e t1 rca "ex target" target slot] 4(5) by simp
  then show ?thesis using 4(6) by (simp add: jobRunExists_def)
qed (use assms(2) in auto)


definition sample_outcome :: "health_status \<Rightarrow> health_check_outcome" where
  "sample_outcome st = \<lparr>out_status = st, out_httpStatus = Some 200, out_responseTimeMs = Some 120,
     out_failureType = None, out_errorMessage = None, out_validation = None, out_attempts = 1,
     out_responseSample = None, out_trace = None, out_checkedAt = 60100\<rparr>"

lemma sample_run:
  "fst (runScheduledCheck default_env 60000 60200 (\<lambda>_ _. None) (\<lambda>_. Inl ''boom'') ''w1'' sample_api 60000 empty_db) =
     Dead_lettered ''boom''"
  by (simp add: runScheduledCheck_def Let_def jobRunExists_def acquireLock_def claimJobRun_def
      run_claimed_def dead_letter_def empty_db_def)


section \<open>A failure of the monitor is not a failure of the target\<close>

lemma dead_letter_effect:
  "dead_letter now t c m d = (Dead_lettered m, d') \<Longrightarrow>
     health_check_results d' = health_check_results d \<and> target_schedule_state d' = target_schedule_state d \<and>
     incidents d' = incidents d \<and> (\<exists>a. alerts d' = alerts d @ [a] \<and> alertType a = JOB_EXECUTION_FAILURE \<and>
       al_apiId a = Some t \<and> al_errorMessage a = Some m \<and> al_status a = PENDING)"
  by (auto simp: dead_letter_def recordAlert_def completeJobRun_def)

lemma run_claimed_dead_letter:
  assumes "run_claimed e now rca ex target slot c d = (Dead_lettered m, d')"
  shows "\<exists>n s. dead_letter now (api_id target) c m (d\<lparr>next_id := n, incident_seq := s\<rparr>) = (Dead_lettered m, d')"
proof (cases ex)
  case (Inl msg)
  with assms have "dead_letter now (api_id target) c m d = (Dead_lettered m, d')"
    by (auto simp: run_claimed_def dead_letter_def)
  moreover have "d = d\<lparr>next_id := next_id d, incident_seq := incident_seq d\<rparr>" by simp
  ultimately show ?thesis by metis
next
  case (Inr oc)
  obtain q d1 where q: "withTransaction (record_outcome e now target slot c oc) d = (q, d1)" by (metis surj_pair)
  with assms Inr obtain err where err: "q = Inl err" by (cases q) (auto simp: run_claimed_def)
  with q obtain n s where "d1 = d\<lparr>next_id := n, incident_seq := s\<rparr>" using withTransaction_rollback by metis
  with assms Inr q err show ?thesis by (auto simp: run_claimed_def dead_letter_def)
qed

text \<open>C3. A dead-lettered run says nothing about the target: whether the check function threw or the
  database rejected the recording, no result is stored, the recovery counters and every
  incident stay as they were, and exactly one pending \<open>JOB_EXECUTION_FAILURE\<close> alert carrying the
  error is queued.\<close>

theorem dead_letter_isolated:
  assumes "runScheduledCheck e t0 t1 rca ex w target slot d = (Dead_lettered m, d')"
  shows "health_check_results d' = health_check_results d \<and> target_schedule_state d' = target_schedule_state d \<and>
    incidents d' = incidents d \<and> (\<exists>a. alerts d' = alerts d @ [a] \<and> alertType a = JOB_EXECUTION_FAILURE \<and>
      al_apiId a = Some (api_id target) \<and> al_errorMessage a = Some m \<and> al_status a = PENDING)"
  using assms
proof (cases rule: runScheduledCheck_cases)
  case (4 d1 d2 d3 c ls ls')
  have "health_check_results d2 = health_check_results d \<and> target_schedule_state d2 = target_schedule_state d \<and>
      incidents d2 = incidents d \<and> alerts d2 = alerts d"
    using 4(2,4) by (auto simp: claimJobRun_def split: if_splits)
  then show ?thesis
    using run_claimed_dead_letter [OF 4(5)] dead_letter_effect 4(6) by fastforce
qed simp_all

theorem dead_letter_isolated_witness:
  "incidents (snd (runScheduledCheck default_env 60000 60200 (\<lambda>_ _. None) (\<lambda>_. Inl ''boom'') ''w1'' sample_api 60000 sample_open_db)) =
     incidents sample_open_db"
proof -
  have "fst (runScheduledCheck default_env 60000 60200 (\<lambda>_ _. None) (\<lambda>_. Inl ''boom'') ''w1'' sample_api 60000 sample_open_db) =
      Dead_lettered ''boom''"
    by (simp add: runScheduledCheck_def Let_def jobRunExists_def acquireLock_def claimJobRun_def
        run_claimed_def dead_letter_def sample_open_db_def empty_db_def)
  with dead_letter_isolated [of default_env 60000 60200 "\<lambda>_ _. None" "\<lambda>_. Inl ''boom''" "''w1''" sample_api 60000
      sample_open_db "''boom''"]
  show ?thesis by (metis prod.collapse)
qed

section \<open>A committed run\<close>

lemma processCheckOutcome_active:
  assumes "db_inv d" and "findActiveIncident (api_id target) d = Some a"
  shows "findActiveIncident (api_id target) (snd (processCheckOutcome e now target st ft cid n d)) = None \<longleftrightarrow>
    st = UP \<and> INCIDENT_RECOVERY_STREAK e \<le> n"
proof -
  have a: "a \<in> set (incidents d)" using findActiveIncident_SomeD [OF assms(2)] by simp
  consider "st = DOWN \<or> st = DEGRADED" | "st = UP" "INCIDENT_RECOVERY_STREAK e \<le> n"
    | "st = UNKNOWN \<or> st = UP \<and> n < INCIDENT_RECOVERY_STREAK e"
    by (cases st; cases "INCIDENT_RECOVERY_STREAK e \<le> n") auto
  then show ?thesis
  proof cases
    case 1
    have "findActiveIncident (api_id target) (snd (process_active e now target st ft cid a d)) \<noteq> None"
      using find_active_upd [OF assms(2,1) process_active_incidents [OF assms(1) a]]
      by (simp add: failed_again_def Let_def)
    with 1 assms(2) show ?thesis by (auto simp: processCheckOutcome_failing)
  next
    case 2
    have "snd (processCheckOutcome e now target st ft cid n d) =
        queueRecoveryAlerts e now (inc_id a) (api_id target) (snd (resolveIncident now (inc_id a) None d))"
      using assms(2) 2 by (metis processCheckOutcome_UP_resolves snd_conv)
    moreover have "findActiveIncident (api_id target) (snd (resolveIncident now (inc_id a) None d)) = None"
      using findActiveIncident_unique [OF assms]
      by (auto simp: findActiveIncident_None_iff resolveIncident_def Let_def update_incident_def set_upd_where)
    ultimately show ?thesis using 2 by (simp add: findActiveIncident_def queue_frame)
  next
    case 3
    then show ?thesis using assms(2) by (subst processCheckOutcome_quiet) auto
  qed
qed

lemma run_executed:
  assumes "runScheduledCheck e t0 t1 rca ex w target slot d = (Executed oc, d')"
  obtains checkId d2 d3 d4 tr where
    "ex target = Inr oc" "db_inv d \<Longrightarrow> db_inv d3" "incidents d3 = incidents d"
    "\<exists>h \<in> set (health_check_results d'). hcr_jobRunId h = Some (jobRunId (api_id target) slot)"
    "target_schedule_state d2 = target_schedule_state d"
    "d3 = snd (recordRunOutcome t1 (api_id target) slot (out_status oc) d2)"
    "processCheckOutcome e t1 target (out_status oc) (out_failureType oc) checkId
       (fst (fst (recordRunOutcome t1 (api_id target) slot (out_status oc) d2))) d3 = (Inr tr, d4)"
    "incidents d' = incidents d4" "target_schedule_state d' = target_schedule_state d3"
  using assms
proof (cases rule: runScheduledCheck_cases)
  case (4 e1 e2 e3 c ls ls')
  obtain tr e4 where ex: "ex target = Inr oc"
      and tx: "record_outcome e t1 target slot c oc e2 = (Inr tr, e4)" and e3: "e3 = refreshRcaFor t1 rca tr e4"
    using 4(5) by (auto simp: run_claimed_def dead_letter_def withTransaction_Inr split: sum.splits prod.splits)
  have e2: "incidents e2 = incidents d" "target_schedule_state e2 = target_schedule_state d"
    using 4(2,4) by (auto simp: claimJobRun_def split: if_splits)
  have inv2: "db_inv d \<Longrightarrow> db_inv e2" using 4(3,4) claimJobRun_inv by (metis snd_conv)
  from tx show thesis
  proof (cases rule: record_outcome_cases)
    case (2 checkId d1 d2 d3 q d4)
    note f1 = insertHealthCheckResult_frame [OF 2(1)]
    have "db_inv d \<Longrightarrow> db_inv d1" using inv2 2(1) insertHealthCheckResult_inv by (metis snd_conv)
    then have inv3: "db_inv d \<Longrightarrow> db_inv d3" using 2(4,5) recordRunOutcome_inv by blast
    have inc3: "incidents d3 = incidents d" using 2(3,5) f1 e2(1) by (simp add: recordRunOutcome_frame)
    have fr: "monitor_frame d3 d4" using processCheckOutcome_frame [of d3] 2(6) by (metis snd_conv)
    have e4: "e4 = completeJobRun t1 c SUCCESS d4" using 2(7,8) by auto
    have d': "incidents d' = incidents d4" "target_schedule_state d' = target_schedule_state d3"
      "health_check_results d' = health_check_results d1"
      using events_only_frame [OF refreshRcaFor_frame, of e4 t1 rca tr] fr 2(2,5) 4(6) e3 e4
      by (simp_all add: monitor_frame_def completeJobRun_def recordRunOutcome_frame)
    have "target_schedule_state d2 = target_schedule_state d"
      using 2(2) f1 e2(2) by (simp add: monitor_frame_def)
    moreover have "\<exists>h \<in> set (health_check_results d'). hcr_jobRunId h = Some (jobRunId (api_id target) slot)"
      using f1 d'(3) by auto
    moreover have "processCheckOutcome e t1 target (out_status oc) (out_failureType oc) checkId
        (fst (fst (recordRunOutcome t1 (api_id target) slot (out_status oc) d2))) d3 = (Inr tr, d4)"
      using 2(6,7) by simp
    ultimately show thesis using that [OF ex inv3 inc3 _ _ 2(5) _ d'(1,2)] by blast
  qed simp
qed auto

lemma counters_cong: "target_schedule_state d' = target_schedule_state d \<Longrightarrow> counters t d' = counters t d"
  by (simp add: counters_def getScheduleState_def)


text \<open>C1. An incident is resolved by a run exactly when the target has been clean for the whole
  streak: if the counters describe the history \<open>sts\<close> of the target's checks and an incident is
  active, then after a committed run the target has no active incident iff the last
  \<open>INCIDENT_RECOVERY_STREAK\<close> checks, this one included, exist and are all \<open>UP\<close>.\<close>

theorem incident_resolved_iff_clean_streak:
  assumes "runScheduledCheck e t0 t1 rca ex w target slot d = (Executed oc, d')" and "db_inv d"
    and "findActiveIncident (api_id target) d = Some a"
    and "fst (counters (api_id target) d) = trailing_ups sts" and "1 \<le> INCIDENT_RECOVERY_STREAK e"
  shows "findActiveIncident (api_id target) d' = None \<longleftrightarrow>
    (let all = sts @ [out_status oc]; n = INCIDENT_RECOVERY_STREAK e
     in n \<le> length all \<and> (\<forall>st \<in> set (drop (length all - n) all). st = UP))"
proof -
  from assms(1) obtain checkId d2 d3 d4 tr where r: "db_inv d \<Longrightarrow> db_inv d3" "incidents d3 = incidents d"
    "target_schedule_state d2 = target_schedule_state d"
    "processCheckOutcome e t1 target (out_status oc) (out_failureType oc) checkId
       (fst (fst (recordRunOutcome t1 (api_id target) slot (out_status oc) d2))) d3 = (Inr tr, d4)"
    "incidents d' = incidents d4"
    by (rule run_executed) blast
  let ?n = "fst (fst (recordRunOutcome t1 (api_id target) slot (out_status oc) d2))"
  have n: "?n = trailing_ups (sts @ [out_status oc])"
    using assms(4) counters_cong [OF r(3)] by (simp add: recordRunOutcome_counters trailing_ups_snoc)
  have "findActiveIncident (api_id target) d3 = Some a" using assms(3) r(2) by (simp add: findActiveIncident_def)
  from processCheckOutcome_active [OF r(1) [OF assms(2)] this, of e t1 "out_status oc" "out_failureType oc" checkId ?n]
  have "findActiveIncident (api_id target) d' = None \<longleftrightarrow> out_status oc = UP \<and> INCIDENT_RECOVERY_STREAK e \<le> ?n"
    unfolding r(4) using r(5) by (simp add: findActiveIncident_def)
  also have "\<dots> \<longleftrightarrow> INCIDENT_RECOVERY_STREAK e \<le> trailing_ups (sts @ [out_status oc])"
    using assms(5) by (auto simp: n trailing_ups_snoc split: if_splits)
  finally show ?thesis by (simp only: trailing_ups_ge Let_def)
qed

lemma sample_executed:
  "fst (runScheduledCheck default_env 60000 60200 (\<lambda>_ _. None) (\<lambda>_. Inr (sample_outcome UP)) ''w1'' sample_api 60000 sample_open_db) =
     Executed (sample_outcome UP)"
  by (simp add: runScheduledCheck_def Let_def jobRunExists_def acquireLock_def claimJobRun_def run_claimed_def
      withTransaction_def record_outcome_def insertHealthCheckResult_def trace_result_def recordRunOutcome_def
      processCheckOutcome_def findActiveIncident_def refreshRcaFor_def completeJobRun_def default_env_def
      sample_outcome_def sample_open_db_def sample_incident_def empty_db_def)


theorem incident_resolved_iff_clean_streak_witness:
  "findActiveIncident ''t1''
     (snd (runScheduledCheck default_env 60000 60200 (\<lambda>_ _. None) (\<lambda>_. Inr (sample_outcome UP)) ''w1'' sample_api 60000 sample_open_db)) \<noteq> None"
proof -
  have "fst (counters (api_id sample_api) sample_open_db) = trailing_ups []"
    by (simp add: counters_def getScheduleState_def sample_open_db_def empty_db_def trailing_ups_def)
  moreover have "INCIDENT_RECOVERY_STREAK default_env = 2" by (simp add: default_env_def)
  moreover have "runScheduledCheck default_env 60000 60200 (\<lambda>_ _. None) (\<lambda>_. Inr (sample_outcome UP)) ''w1'' sample_api 60000 sample_open_db =
      (Executed (sample_outcome UP), snd (runScheduledCheck default_env 60000 60200 (\<lambda>_ _. None) (\<lambda>_. Inr (sample_outcome UP)) ''w1'' sample_api 60000 sample_open_db))"
    using sample_executed by (metis prod.collapse)
  ultimately show ?thesis
    using incident_resolved_iff_clean_streak [of default_env 60000 60200 "\<lambda>_ _. None" "\<lambda>_. Inr (sample_outcome UP)" "''w1''"
        sample_api 60000 sample_open_db "sample_outcome UP" _ sample_incident "[]"] sample_open_db_facts(1,2)
    by (simp add: Let_def)
qed

end
