(* ===== verification/Worker_Race.thy ===== *)
theory Worker_Race
  imports Job_Runner
begin

text \<open>
  Several workers run the same scheduled slot at once (\<open>runScheduledCheck\<close> of
  \<^verbatim>\<open>src/services/scheduler/job-runner.service.ts\<close> in more than one process). Each database
  statement of a run is one step of the relation \<open>race_step\<close>; between two steps of a worker the
  others proceed, time passes, a worker may die, and the rest of the system may change every
  table but the run ledger and the locks. The run ledger's contract is the locale \<open>run_ledger\<close>:
  a slot is claimed at most once, whatever else is done to the ledger. Interpreted on
  \<open>claimJobRun\<close>, \<open>recordSkippedRun\<close> and \<open>completeJobRun\<close> it gives single execution without any
  assumption on the lock. The same relation shows what the code does not guarantee.
\<close>

section \<open>The contract of the run ledger\<close>

locale run_ledger =
  fixes taken :: "'s \<Rightarrow> bool"
    and claim :: "timestamp \<Rightarrow> string \<Rightarrow> 's \<Rightarrow> row_id option \<times> 's"
    and other :: "'op \<Rightarrow> 's \<Rightarrow> 's"
  assumes claim_taken: "taken s \<Longrightarrow> claim t w s = (None, s)"
    and claim_takes: "taken (snd (claim t w s))"
    and other_keeps: "taken s \<Longrightarrow> taken (other q s)"
begin

fun successes :: "((timestamp \<times> string) + 'op) list \<Rightarrow> 's \<Rightarrow> row_id list" where
  "successes [] s = []"
| "successes (Inl (t, w) # qs) s =
     (case claim t w s of (None, s') \<Rightarrow> successes qs s' | (Some c, s') \<Rightarrow> c # successes qs s')"
| "successes (Inr q # qs) s = successes qs (other q s)"

lemma successes_taken: "taken s \<Longrightarrow> successes qs s = []"
proof (induction qs arbitrary: s)
  case (Cons q qs)
  then show ?case by (cases q) (auto simp: claim_taken other_keeps)
qed simp

lemma claimed_at_most_once: "length (successes qs s) \<le> 1"
proof (induction qs arbitrary: s)
  case (Cons q qs)
  show ?case
  proof (cases q)
    case (Inl x)
    obtain t w where x: "x = (t, w)" by (cases x)
    obtain r s' where r: "claim t w s = (r, s')" by (metis surj_pair)
    have "taken s'" using claim_takes [of t w s] r by simp
    with Cons.IH Inl x r show ?thesis by (cases r) (simp_all add: successes_taken)
  next
    case (Inr o1)
    with Cons.IH show ?thesis by simp
  qed
qed simp

end

datatype ledger_op = Op_skip timestamp string cron_run_status | Op_complete timestamp row_id cron_run_status

definition slot_taken :: "target_id \<Rightarrow> timestamp \<Rightarrow> db \<Rightarrow> bool" where
  "slot_taken t slot d \<longleftrightarrow> (\<exists>r \<in> set (cron_job_runs d). run_key r = (t, slot, 1))"

fun ledger_other :: "target_id \<Rightarrow> timestamp \<Rightarrow> ledger_op \<Rightarrow> db \<Rightarrow> db" where
  "ledger_other t slot (Op_skip now w st) d = recordSkippedRun now t slot (jobRunId t slot) w st d"
| "ledger_other t slot (Op_complete now c st) d = completeJobRun now c st d"

lemma slot_taken_keys: "slot_taken t slot d \<longleftrightarrow> (t, slot, 1) \<in> set (map run_key (cron_job_runs d))"
  by (auto simp: slot_taken_def image_iff) metis+

lemma run_keys_upd:
  "map run_key (upd_where p (\<lambda>r. r\<lparr>cjr_status := st, cjr_completedAt := c\<rparr>) rows) = map run_key rows"
  by (rule map_upd_where_inv) (simp add: run_key_def)

lemma complete_keeps_taken: "slot_taken t slot (completeJobRun now c st d) = slot_taken t slot d"
  by (simp add: slot_taken_keys completeJobRun_def run_keys_upd)

lemma skip_takes: "slot_taken t slot (recordSkippedRun now t slot j w st d)"
proof (cases "slot_taken t slot d")
  case True
  then have "map run_key (cron_job_runs (recordSkippedRun now t slot j w st d)) = map run_key (cron_job_runs d)"
    by (simp add: recordSkippedRun_def slot_taken_def run_keys_upd)
  with True show ?thesis unfolding slot_taken_keys by simp
next
  case False
  then show ?thesis by (auto simp: recordSkippedRun_def slot_taken_def run_key_def)
qed

lemma claim_iff_free:
  "claimJobRun now t slot j w 1 d = (r, d') \<Longrightarrow> (r = None \<longleftrightarrow> slot_taken t slot d) \<and> slot_taken t slot d' \<and> (r = None \<longrightarrow> d' = d)"
  by (auto simp: slot_taken_def claimJobRun_def run_key_def split: if_splits)

interpretation slot_ledger: run_ledger "slot_taken t slot"
  "\<lambda>now w. claimJobRun now t slot (jobRunId t slot) w 1" "ledger_other t slot"
  for t slot
proof unfold_locales
  show "slot_taken t slot s \<Longrightarrow> claimJobRun now t slot (jobRunId t slot) w 1 s = (None, s)" for s now w
    using claim_iff_free by (metis surj_pair)
  show "slot_taken t slot (snd (claimJobRun now t slot (jobRunId t slot) w 1 s))" for s now w
    using claim_iff_free by (metis surjective_pairing)
  show "slot_taken t slot s \<Longrightarrow> slot_taken t slot (ledger_other t slot q s)" for s q
    by (cases q) (simp_all add: complete_keeps_taken skip_takes)
qed

section \<open>Workers\<close>

datatype pc =
    Idle | Checked | Contended | Locked
  | Claimed row_id | Ran row_id "string + health_check_outcome" | Releasing run_result | Finished run_result | Crashed

record race =
  rdb :: db
  clock :: timestamp
  pcs :: "string \<Rightarrow> pc"
  executions :: "string list"

definition start_race :: "timestamp \<Rightarrow> db \<Rightarrow> race" where
  "start_race now d = \<lparr>rdb = d, clock = now, pcs = (\<lambda>_. Idle), executions = []\<rparr>"

inductive race_step ::
    "env \<Rightarrow> (row_id \<Rightarrow> db \<Rightarrow> rca option) \<Rightarrow> monitored_api \<Rightarrow> timestamp \<Rightarrow> race \<Rightarrow> race \<Rightarrow> bool"
  for e rca target slot where
  time: "clock s \<le> t \<Longrightarrow> race_step e rca target slot s (s\<lparr>clock := t\<rparr>)"
| crash: "race_step e rca target slot s (s\<lparr>pcs := (pcs s)(w := Crashed)\<rparr>)"
| others: "cron_job_runs d' = cron_job_runs (rdb s) \<Longrightarrow> job_locks d' = job_locks (rdb s) \<Longrightarrow>
    race_step e rca target slot s (s\<lparr>rdb := d'\<rparr>)"
| start_done: "pcs s w = Idle \<Longrightarrow> jobRunExists (jobRunId (api_id target) slot) (rdb s) \<Longrightarrow>
    race_step e rca target slot s (s\<lparr>pcs := (pcs s)(w := Finished (Skipped Already_done))\<rparr>)"
| start: "pcs s w = Idle \<Longrightarrow> \<not> jobRunExists (jobRunId (api_id target) slot) (rdb s) \<Longrightarrow>
    race_step e rca target slot s (s\<lparr>pcs := (pcs s)(w := Checked)\<rparr>)"
| acquire: "pcs s w = Checked \<Longrightarrow>
    acquireLock (clock s) (lockKey (api_id target) slot) w (lock_ttl e target) (rdb s) = (ok, d') \<Longrightarrow>
    race_step e rca target slot s (s\<lparr>rdb := d', pcs := (pcs s)(w := if ok then Locked else Contended)\<rparr>)"
| skip: "pcs s w = Contended \<Longrightarrow>
    race_step e rca target slot s
      (s\<lparr>rdb := recordSkippedRun (clock s) (api_id target) slot (jobRunId (api_id target) slot) w SKIPPED_LOCK_CONTENDED (rdb s),
         pcs := (pcs s)(w := Finished (Skipped Lock_contended))\<rparr>)"
| claim_null: "pcs s w = Locked \<Longrightarrow>
    claimJobRun (clock s) (api_id target) slot (jobRunId (api_id target) slot) w 1 (rdb s) = (None, d') \<Longrightarrow>
    race_step e rca target slot s (s\<lparr>rdb := d', pcs := (pcs s)(w := Releasing (Skipped Already_done))\<rparr>)"
| claim: "pcs s w = Locked \<Longrightarrow>
    claimJobRun (clock s) (api_id target) slot (jobRunId (api_id target) slot) w 1 (rdb s) = (Some c, d') \<Longrightarrow>
    race_step e rca target slot s (s\<lparr>rdb := d', pcs := (pcs s)(w := Claimed c)\<rparr>)"
| execute: "pcs s w = Claimed c \<Longrightarrow>
    race_step e rca target slot s (s\<lparr>pcs := (pcs s)(w := Ran c outcome), executions := executions s @ [w]\<rparr>)"
| store: "pcs s w = Ran c outcome \<Longrightarrow> run_claimed e (clock s) rca outcome target slot c (rdb s) = (r, d') \<Longrightarrow>
    race_step e rca target slot s (s\<lparr>rdb := d', pcs := (pcs s)(w := Releasing r)\<rparr>)"
| release: "pcs s w = Releasing r \<Longrightarrow>
    race_step e rca target slot s
      (s\<lparr>rdb := releaseLock (lockKey (api_id target) slot) w (rdb s), pcs := (pcs s)(w := Finished r)\<rparr>)"

inductive_cases race_stepE: "race_step e rca target slot s s'"

inductive race_reach ::
    "env \<Rightarrow> (row_id \<Rightarrow> db \<Rightarrow> rca option) \<Rightarrow> monitored_api \<Rightarrow> timestamp \<Rightarrow> race \<Rightarrow> race \<Rightarrow> bool"
  for e rca target slot s0 where
  init: "race_reach e rca target slot s0 s0"
| step: "race_reach e rca target slot s0 s \<Longrightarrow> race_step e rca target slot s s' \<Longrightarrow> race_reach e rca target slot s0 s'"

section \<open>Single execution\<close>

definition claimer :: "race \<Rightarrow> string \<Rightarrow> bool" where
  "claimer s w \<longleftrightarrow> (\<exists>c. pcs s w = Claimed c)"

definition race_inv :: "target_id \<Rightarrow> timestamp \<Rightarrow> race \<Rightarrow> bool" where
  "race_inv t slot s \<longleftrightarrow>
     length (executions s) \<le> 1 \<and> (\<forall>w w'. claimer s w \<longrightarrow> claimer s w' \<longrightarrow> w = w') \<and>
     (executions s \<noteq> [] \<longrightarrow> (\<forall>w. \<not> claimer s w)) \<and>
     (executions s \<noteq> [] \<or> (\<exists>w. claimer s w) \<longrightarrow> slot_taken t slot (rdb s))"

lemma slot_taken_cong: "cron_job_runs d' = cron_job_runs d \<Longrightarrow> slot_taken t slot d' = slot_taken t slot d"
  by (simp add: slot_taken_def)

lemma run_claimed_taken:
  assumes "run_claimed e now rca ex target slot c d = (r, d')" and "slot_taken t s d"
  shows "slot_taken t s d'"
proof -
  have dl: "slot_taken t s d1 \<Longrightarrow> slot_taken t s (snd (dead_letter now tt c m d1))" for m tt d1
    using complete_keeps_taken [of t s now c DEAD_LETTERED d1]
    by (simp add: dead_letter_def slot_taken_def recordAlert_def)
  show ?thesis
  proof (cases ex)
    case (Inl m)
    with assms dl show ?thesis by (simp add: run_claimed_def) (metis snd_conv)
  next
    case (Inr oc)
    obtain q d1 where q: "withTransaction (record_outcome e now target slot c oc) d = (q, d1)" by (metis surj_pair)
    show ?thesis
    proof (cases q)
      case (Inl err)
      then have "cron_job_runs d1 = cron_job_runs d" using withTransaction_rollback q by fastforce
      with assms(2) have "slot_taken t s d1" by (simp add: slot_taken_def)
      with dl assms(1) Inr Inl q show ?thesis by (simp add: run_claimed_def) (metis snd_conv)
    next
      case tr: (Inr tr)
      with q have "record_outcome e now target slot c oc d = (Inr tr, d1)" by (simp add: withTransaction_Inr)
      then have "slot_taken t s d1"
      proof (cases rule: record_outcome_cases)
        case (2 checkId e1 e2 e3 q4 e4)
        have "monitor_frame e3 e4" using processCheckOutcome_frame [of e3] 2(6) by (metis snd_conv)
        then have runs: "cron_job_runs e4 = cron_job_runs d"
          using 2(2,5) insertHealthCheckResult_frame [OF 2(1)] by (simp add: monitor_frame_def recordRunOutcome_frame)
        have "d1 = completeJobRun now c SUCCESS e4" using 2(7,8) by auto
        then show ?thesis using assms(2) slot_taken_cong [OF runs] by (simp add: complete_keeps_taken)
      qed simp
      moreover have "d' = refreshRcaFor now rca tr d1" using assms(1) Inr tr q by (simp add: run_claimed_def)
      moreover have runs: "cron_job_runs (refreshRcaFor now rca tr d1) = cron_job_runs d1"
        using events_only_frame [OF refreshRcaFor_frame, of d1 now rca tr] by (simp add: monitor_frame_def)
      ultimately show ?thesis using slot_taken_cong [OF runs] by simp
    qed
  qed
qed

lemma acquire_keeps_taken: "acquireLock now k w ttl d = (ok, d') \<Longrightarrow> slot_taken t slot d' = slot_taken t slot d"
  using acquireLock_frame [of now k w ttl d] by (auto simp: slot_taken_def)

lemma race_inv_step:
  assumes "race_inv (api_id target) slot s" and "race_step e rca target slot s s'"
  shows "race_inv (api_id target) slot s'"
  using assms(2,1)
proof (cases rule: race_step.cases)
  case (claim w c d')
  have "\<not> slot_taken (api_id target) slot (rdb s)" "slot_taken (api_id target) slot d'"
    using claim_iff_free [OF claim(3)] by simp_all
  with assms(1) claim show ?thesis by (auto simp: race_inv_def claimer_def)
next
  case (execute w c outcome)
  with assms(1) show ?thesis by (auto simp: race_inv_def claimer_def)
next
  case (store w c outcome r d')
  with assms(1) run_claimed_taken [OF store(3)] show ?thesis by (auto simp: race_inv_def claimer_def)
next
  case (acquire w ok d')
  with assms(1) acquire_keeps_taken [OF acquire(3)] show ?thesis by (auto simp: race_inv_def claimer_def)
next
  case (claim_null w d')
  with assms(1) claim_iff_free [OF claim_null(3)] show ?thesis by (auto simp: race_inv_def claimer_def)
next
  case (skip w)
  with assms(1) skip_takes show ?thesis by (auto simp: race_inv_def claimer_def)
next
  case (release w r)
  have "slot_taken (api_id target) slot (releaseLock k w (rdb s)) = slot_taken (api_id target) slot (rdb s)" for k
    by (rule slot_taken_cong) (simp add: releaseLock_def)
  with assms(1) release show ?thesis by (auto simp: race_inv_def claimer_def)
next
  case (others d')
  with assms(1) slot_taken_cong [OF others(2)] show ?thesis by (auto simp: race_inv_def claimer_def)
qed (auto simp: race_inv_def claimer_def)



section \<open>What the interleaving does not guarantee\<close>

text \<open>A schedule of two workers, step by step, as a list of states.\<close>

lemma race_reach_step:
  "race_reach e rca target slot s0 s \<Longrightarrow> race_step e rca target slot s s1 \<Longrightarrow> s' = s1 \<Longrightarrow> race_reach e rca target slot s0 s'"
  using race_reach.step by blast

lemma free_slot_locked:
  assumes "slot_taken t slot d = False" and "find (\<lambda>l. lock_key l = k) (job_locks d) = None"
  shows "acquireLock now k w ttl d =
    (True, d\<lparr>job_locks := job_locks d @ [\<lparr>lock_key = k, lock_holder = w, lock_acquiredAt = now, lock_expiresAt = now + ttl\<rparr>]\<rparr>)"
  using assms by (simp add: acquireLock_def)

text \<open>C32. A slot can be lost: from any database in which the slot is free, two workers can reach a
  state in which both have returned, nobody has called the check function, and the slot is
  taken by the row of the worker that found the lock contended, so that no later run can ever
  claim it.\<close>

theorem slot_can_be_lost:
  assumes "\<not> slot_taken (api_id target) slot d" and "\<not> jobRunExists (jobRunId (api_id target) slot) d"
    and "find (\<lambda>l. lock_key l = lockKey (api_id target) slot) (job_locks d) = None" and "0 \<le> lock_ttl e target"
    and "w1 \<noteq> w2"
  shows "\<exists>s. race_reach e rca target slot (start_race now d) s \<and> executions s = [] \<and>
    pcs s w1 = Finished (Skipped Already_done) \<and> pcs s w2 = Finished (Skipped Lock_contended) \<and>
    slot_taken (api_id target) slot (rdb s) \<and>
    (\<forall>w t. fst (claimJobRun t (api_id target) slot (jobRunId (api_id target) slot) w 1 (rdb s)) = None)"
proof -
  let ?k = "lockKey (api_id target) slot" and ?j = "jobRunId (api_id target) slot"
  let ?R = "race_reach e rca target slot (start_race now d)"
  define d1 where "d1 = snd (acquireLock now ?k w1 (lock_ttl e target) d)"
  define d2 where "d2 = recordSkippedRun now (api_id target) slot ?j w2 SKIPPED_LOCK_CONTENDED d1"
  have a1: "acquireLock now ?k w1 (lock_ttl e target) d = (True, d1)"
    using free_slot_locked [of "api_id target" slot d ?k] assms(1,3) by (simp add: d1_def)
  have "lock_holds now d1 ?k = Some w1" using acquireLock_holds [OF a1, of now ?k] assms(4) by simp
  then have a2: "acquireLock now ?k w2 (lock_ttl e target) d1 = (False, d1)" by (rule job_lock.acquire_held)
  have c: "claimJobRun now (api_id target) slot ?j w1 1 d2 = (None, d2)"
    by (rule slot_ledger.claim_taken) (simp add: d2_def skip_takes)
  let ?s = "\<lambda>p d'. \<lparr>rdb = d', clock = now, pcs = p, executions = []\<rparr>"
  let ?p0 = "\<lambda>_. Idle"
  have "?R (?s ?p0 d)" using race_reach.init [of e rca target slot "start_race now d"] by (simp add: start_race_def)
  then have "?R (?s (?p0(w1 := Checked)) d)"
    by (rule race_reach_step) (rule race_step.start [of _ w1], use assms(2) in auto)
  then have "?R (?s (?p0(w1 := Checked, w2 := Checked)) d)"
    by (rule race_reach_step) (rule race_step.start [of _ w2], use assms(2,5) in auto)
  then have "?R (?s (?p0(w1 := Checked, w2 := Checked, w1 := Locked)) d1)"
    by (rule race_reach_step) (rule race_step.acquire [of _ w1], use a1 assms(5) in auto)
  then have "?R (?s (?p0(w1 := Checked, w2 := Checked, w1 := Locked, w2 := Contended)) d1)"
    by (rule race_reach_step) (rule race_step.acquire [of _ w2], use a2 assms(5) in auto)
  then have "?R (?s (?p0(w1 := Checked, w2 := Checked, w1 := Locked, w2 := Contended, w2 := Finished (Skipped Lock_contended))) d2)"
    by (rule race_reach_step) (rule race_step.skip [of _ w2], use assms(5) in \<open>auto simp: d2_def\<close>)
  then have "?R (?s (?p0(w1 := Checked, w2 := Checked, w1 := Locked, w2 := Contended, w2 := Finished (Skipped Lock_contended),
      w1 := Releasing (Skipped Already_done))) d2)"
    by (rule race_reach_step) (rule race_step.claim_null [of _ w1], use c assms(5) in auto)
  then have "?R (?s (?p0(w1 := Checked, w2 := Checked, w1 := Locked, w2 := Contended, w2 := Finished (Skipped Lock_contended),
      w1 := Releasing (Skipped Already_done), w1 := Finished (Skipped Already_done))) (releaseLock ?k w1 d2))"
    by (rule race_reach_step) (rule race_step.release [of _ w1], use assms(5) in auto)
  moreover have t: "slot_taken (api_id target) slot (releaseLock ?k w1 d2)"
    using skip_takes [of "api_id target" slot now ?j w2 SKIPPED_LOCK_CONTENDED d1]
    by (simp add: d2_def releaseLock_def slot_taken_def)
  moreover have "fst (claimJobRun t (api_id target) slot ?j w 1 (releaseLock ?k w1 d2)) = None" for w t
    using slot_ledger.claim_taken [OF t] by simp
  ultimately show ?thesis using assms(5) by (intro exI conjI) auto
qed

theorem slot_can_be_lost_witness:
  "\<exists>s. race_reach default_env (\<lambda>_ _. None) sample_api 60000 (start_race 60000 empty_db) s \<and> executions s = [] \<and>
     pcs s ''w1'' = Finished (Skipped Already_done) \<and> pcs s ''w2'' = Finished (Skipped Lock_contended)"
  using slot_can_be_lost [of sample_api 60000 empty_db default_env "''w1''" "''w2''" "\<lambda>_ _. None" 60000]
  by (auto simp: slot_taken_def jobRunExists_def empty_db_def lock_ttl_def default_env_def)

end
