(* ===== verification/Cron.thy ===== *)
theory Cron
  imports Js_Number
begin

text \<open>
  \<^verbatim>\<open>src/lib/cron.ts\<close>. The package \<open>cron-parser\<close> is not part of the program: its iterator is a
  parameter, a pair of functions that give the occurrence after and before a point in time, or
  \<open>None\<close> when parsing or iterating throws. What the scheduler relies on is \<open>cron_ok\<close>: \<open>next()\<close> is
  the least occurrence strictly after, \<open>prev()\<close> the greatest strictly before. The lemmas show
  that the skipped slots the scheduler counts are exactly the occurrences of the range.
\<close>

section \<open>The parser as a parameter\<close>

record cron_parser =
  cron_next :: "string \<Rightarrow> timestamp \<Rightarrow> timestamp option"
  cron_prev :: "string \<Rightarrow> timestamp \<Rightarrow> timestamp option"

definition occurrence :: "cron_parser \<Rightarrow> string \<Rightarrow> timestamp \<Rightarrow> bool" where
  "occurrence C expr s \<longleftrightarrow> cron_next C expr (s - 1) = Some s"

definition cron_ok :: "cron_parser \<Rightarrow> string \<Rightarrow> bool" where
  "cron_ok C expr \<longleftrightarrow>
     (\<forall>t. \<exists>n. cron_next C expr t = Some n \<and> t < n \<and> (\<forall>u. t \<le> u \<and> u < n \<longrightarrow> cron_next C expr u = Some n)) \<and>
     (\<forall>t. \<exists>p. cron_prev C expr t = Some p \<and> p < t \<and> occurrence C expr p \<and>
        (\<forall>u. p < u \<and> u < t \<longrightarrow> \<not> occurrence C expr u))"

section \<open>Operations\<close>

definition assertValidCron :: "cron_parser \<Rightarrow> string \<Rightarrow> timestamp \<Rightarrow> bool" where
  "assertValidCron C expr now = (cron_next C expr now \<noteq> None)"

definition nextSlot :: "cron_parser \<Rightarrow> string \<Rightarrow> timestamp \<Rightarrow> timestamp option" where
  "nextSlot C expr from = cron_next C expr from"

definition previousSlot :: "cron_parser \<Rightarrow> string \<Rightarrow> timestamp \<Rightarrow> timestamp option" where
  "previousSlot C expr t = cron_prev C expr t"

definition intervalSeconds :: "cron_parser \<Rightarrow> string \<Rightarrow> timestamp \<Rightarrow> int option" where
  "intervalSeconds C expr from =
     (case cron_next C expr from of
        None \<Rightarrow> None
      | Some a \<Rightarrow> (case cron_next C expr a of
           None \<Rightarrow> None
         | Some b \<Rightarrow> Some (Math_round (fl (of_int (b - a) / 1000)))))"

text \<open>The loop of \<open>slotsBetween\<close>: the first argument is what is left of \<open>limit\<close>.\<close>

fun slots_loop :: "nat \<Rightarrow> cron_parser \<Rightarrow> string \<Rightarrow> timestamp \<Rightarrow> timestamp \<Rightarrow> timestamp list option" where
  "slots_loop 0 C expr cur until = Some []"
| "slots_loop (Suc k) C expr cur until =
     (case cron_next C expr cur of
        None \<Rightarrow> None
      | Some n \<Rightarrow>
          if until < n then Some []
          else (case slots_loop k C expr n until of None \<Rightarrow> None | Some ss \<Rightarrow> Some (n # ss)))"

definition slotsBetween :: "cron_parser \<Rightarrow> string \<Rightarrow> timestamp \<Rightarrow> timestamp \<Rightarrow> nat \<Rightarrow> timestamp list option" where
  "slotsBetween C expr after until limit = slots_loop limit C expr after until"

section \<open>Occurrences\<close>

lemma cron_nextE:
  assumes "cron_ok C x"
  obtains n where "cron_next C x t = Some n" "t < n" "occurrence C x n"
    "\<And>u. t < u \<Longrightarrow> u < n \<Longrightarrow> \<not> occurrence C x u"
proof -
  from assms obtain n where n: "cron_next C x t = Some n" "t < n"
    "\<forall>u. t \<le> u \<and> u < n \<longrightarrow> cron_next C x u = Some n"
    unfolding cron_ok_def by blast
  have "occurrence C x n" using n(2,3) by (simp add: occurrence_def)
  moreover have "\<not> occurrence C x u" if "t < u" "u < n" for u
    using n(3) [rule_format, of "u - 1"] that by (auto simp: occurrence_def)
  ultimately show thesis using that n(1,2) by blast
qed

lemma cron_prevE:
  assumes "cron_ok C x"
  obtains p where "cron_prev C x t = Some p" "p < t" "occurrence C x p"
    "\<And>u. p < u \<Longrightarrow> u < t \<Longrightarrow> \<not> occurrence C x u"
  using assms unfolding cron_ok_def by metis

lemma slots_loop_exact:
  assumes "cron_ok C x"
  shows "\<exists>ss. slots_loop k C x cur until = Some ss \<and> sorted_wrt (<) ss \<and> length ss \<le> k \<and>
    (\<forall>s \<in> set ss. occurrence C x s \<and> cur < s \<and> s \<le> until) \<and>
    (length ss < k \<longrightarrow> (\<forall>s. occurrence C x s \<and> cur < s \<and> s \<le> until \<longrightarrow> s \<in> set ss))"
proof (induction k arbitrary: cur)
  case (Suc k)
  obtain n where n: "cron_next C x cur = Some n" "cur < n" "occurrence C x n"
    "\<And>u. cur < u \<Longrightarrow> u < n \<Longrightarrow> \<not> occurrence C x u"
    using cron_nextE [OF assms] by metis
  show ?case
  proof (cases "until < n")
    case True
    then show ?thesis using n(1,4) by force
  next
    case False
    obtain ss where ss: "slots_loop k C x n until = Some ss" "sorted_wrt (<) ss" "length ss \<le> k"
      "\<forall>s \<in> set ss. occurrence C x s \<and> n < s \<and> s \<le> until"
      "length ss < k \<longrightarrow> (\<forall>s. occurrence C x s \<and> n < s \<and> s \<le> until \<longrightarrow> s \<in> set ss)"
      using Suc.IH [of n] by blast
    have "slots_loop (Suc k) C x cur until = Some (n # ss)" using n(1) False ss(1) by simp
    moreover have "\<forall>s \<in> set (n # ss). occurrence C x s \<and> cur < s \<and> s \<le> until"
      using n(2,3) False ss(4) by force
    moreover have "s \<in> set (n # ss)" if "length (n # ss) < Suc k" "occurrence C x s" "cur < s" "s \<le> until" for s
      using that ss(5) n(4) by (cases "s = n"; cases "n < s") auto
    ultimately show ?thesis using ss(2,3,4) by (intro exI [of _ "n # ss"]) auto
  qed
qed simp

text \<open>\<open>slotsBetween\<close> returns, in increasing order and without repetition, occurrences of the
  half-open range \<open>(after, until]\<close> only, never more than \<open>limit\<close>, and all of them whenever
  the limit was not reached.\<close>

theorem slots_between_exact:
  assumes "cron_ok C expr"
  shows "\<exists>ss. slotsBetween C expr after until limit = Some ss \<and> sorted_wrt (<) ss \<and> length ss \<le> limit \<and>
    (\<forall>s \<in> set ss. occurrence C expr s \<and> after < s \<and> s \<le> until) \<and>
    (length ss < limit \<longrightarrow> set ss = {s. occurrence C expr s \<and> after < s \<and> s \<le> until})"
proof -
  obtain ss where ss: "slots_loop limit C expr after until = Some ss" "sorted_wrt (<) ss" "length ss \<le> limit"
    "\<forall>s \<in> set ss. occurrence C expr s \<and> after < s \<and> s \<le> until"
    "length ss < limit \<longrightarrow> (\<forall>s. occurrence C expr s \<and> after < s \<and> s \<le> until \<longrightarrow> s \<in> set ss)"
    using slots_loop_exact [OF assms] by blast
  from ss(4,5) have "length ss < limit \<longrightarrow> set ss = {s. occurrence C expr s \<and> after < s \<and> s \<le> until}" by blast
  with ss show ?thesis unfolding slotsBetween_def by (intro exI [of _ ss] conjI)
qed

text \<open>A parser for the expressions \<open>* * * * *\<close> of the examples: an occurrence every minute.\<close>

definition every_minute :: cron_parser where
  "every_minute = \<lparr>cron_next = (\<lambda>_ t. Some ((t div 60000 + 1) * 60000)),
     cron_prev = (\<lambda>_ t. Some ((t - 1) div 60000 * 60000))\<rparr>"

lemma minute_div: "(q::int) * 60000 \<le> t \<Longrightarrow> t < q * 60000 + 60000 \<Longrightarrow> t div 60000 = q"
  by (rule int_div_pos_eq [where r = "t - q * 60000"]) linarith+

lemma minute_bounds: "(t::int) div 60000 * 60000 \<le> t" "t < t div 60000 * 60000 + 60000"
  using div_mult_mod_eq [of t 60000] pos_mod_sign [of 60000 t] pos_mod_bound [of 60000 t] by linarith+

lemma every_minute_occurrence: "occurrence every_minute x s \<longleftrightarrow> (\<exists>q. s = q * 60000)"
proof
  assume "\<exists>q. s = q * 60000"
  then obtain q where q: "s = q * 60000" ..
  have "(s - 1) div 60000 = q - 1" by (rule minute_div) (simp_all add: q)
  then show "occurrence every_minute x s" by (simp add: occurrence_def every_minute_def q)
next
  assume "occurrence every_minute x s"
  then have "s = ((s - 1) div 60000 + 1) * 60000" by (simp add: occurrence_def every_minute_def)
  then show "\<exists>q. s = q * 60000" ..
qed

lemma minute_gap: "(q::int) * 60000 < r * 60000 \<Longrightarrow> r * 60000 < q * 60000 + 60000 \<Longrightarrow> False"
proof -
  assume "q * 60000 < r * 60000" and r: "r * 60000 < q * 60000 + 60000"
  then have "q + 1 \<le> r" by simp
  with r show False by linarith
qed

lemma every_minute_ok: "cron_ok every_minute x"
  unfolding cron_ok_def
proof (intro conjI allI)
  fix t :: timestamp
  let ?q = "t div 60000"
  have same: "u div 60000 = ?q" if "t \<le> u" "u < (?q + 1) * 60000" for u
    using that minute_bounds [of t] by (intro minute_div) (simp_all add: algebra_simps)
  have nx: "cron_next every_minute x u = Some ((u div 60000 + 1) * 60000)" for u by (simp add: every_minute_def)
  have "t < (?q + 1) * 60000" using minute_bounds(2) [of t] by (simp only: distrib_right mult_1)
  then show "\<exists>n. cron_next every_minute x t = Some n \<and> t < n \<and>
      (\<forall>u. t \<le> u \<and> u < n \<longrightarrow> cron_next every_minute x u = Some n)"
    unfolding nx using same by metis
  let ?p = "(t - 1) div 60000"
  have "\<not> occurrence every_minute x u" if "?p * 60000 < u" "u < t" for u
  proof
    assume "occurrence every_minute x u"
    then obtain r where "u = r * 60000" by (auto simp: every_minute_occurrence)
    with that minute_bounds [of "t - 1"] show False by (intro minute_gap [of ?p r]) linarith+
  qed
  moreover have "occurrence every_minute x (?p * 60000)" by (auto simp: every_minute_occurrence)
  ultimately show "\<exists>p. cron_prev every_minute x t = Some p \<and> p < t \<and> occurrence every_minute x p \<and>
      (\<forall>u. p < u \<and> u < t \<longrightarrow> \<not> occurrence every_minute x u)"
    using minute_bounds [of "t - 1"] by (intro exI [of _ "?p * 60000"]) (auto simp: every_minute_def)
qed

theorem slots_between_exact_witness:
  "\<exists>ss. slotsBetween every_minute ''* * * * *'' 0 180000 1000 = Some ss \<and> (length ss < 1000 \<longrightarrow> 120000 \<in> set ss)"
proof -
  from slots_between_exact [OF every_minute_ok, of "''* * * * *''" 0 180000 1000] obtain ss where
    "slotsBetween every_minute ''* * * * *'' 0 180000 1000 = Some ss"
    "length ss < 1000 \<longrightarrow> set ss = {s. occurrence every_minute ''* * * * *'' s \<and> 0 < s \<and> s \<le> 180000}" by blast
  moreover have "occurrence every_minute ''* * * * *'' 120000"
    unfolding every_minute_occurrence by (rule exI [of _ 2]) simp
  ultimately show ?thesis by auto
qed

end
