(* ===== verification/Scheduler.thy ===== *)
theory Scheduler
  imports Cron Scheduler_Repo Lock_Service
begin

text \<open>
  \<^verbatim>\<open>src/services/scheduler/scheduler.service.ts\<close>, \<^verbatim>\<open>src/services/scheduler/missed-run-detector.ts\<close>
  and \<^verbatim>\<open>src/services/scheduler/scheduler-status.service.ts\<close>. The in-memory state of the class
  \<open>Scheduler\<close> is a record; a tick returns the checks it fires, and the end of a check is an event
  of its own (the \<open>finally\<close> of \<open>fire\<close>). Timers and the grace period of \<open>stop\<close> are left out: a
  schedule is any sequence of reloads, ticks and ends of checks.

  The lemmas show that a target never overlaps itself, that the global limit of concurrent checks
  holds, that the slots fired for a target strictly increase, and that the slots counted as
  skipped are exactly the occurrences passed over.
\<close>

section \<open>State\<close>

record entry =
  en_target :: monitored_api
  lastFiredSlot :: "timestamp option"

record scheduler =
  entries :: "(target_id \<times> entry) list"
  inFlight :: "target_id list"

definition safePreviousSlot :: "cron_parser \<Rightarrow> monitored_api \<Rightarrow> timestamp \<Rightarrow> timestamp option" where
  "safePreviousSlot C target now = previousSlot C (frequencyCron target) now"

definition listActiveTargets :: "db \<Rightarrow> monitored_api list" where
  "listActiveTargets d = sort_key api_id (filter isActive (monitored_apis d))"

section \<open>Reload\<close>

definition reload_target ::
    "cron_parser \<Rightarrow> timestamp \<Rightarrow> monitored_api \<Rightarrow> (target_id \<times> entry) list \<Rightarrow> (target_id \<times> entry) list" where
  "reload_target C now target es =
     (if \<exists>x \<in> set es. fst x = api_id target
      then map (\<lambda>(k, en). (k, if k = api_id target then en\<lparr>en_target := target\<rparr> else en)) es
      else es @ [(api_id target, \<lparr>en_target = target, lastFiredSlot = safePreviousSlot C target now\<rparr>)])"

definition reload :: "cron_parser \<Rightarrow> timestamp \<Rightarrow> monitored_api list \<Rightarrow> scheduler \<Rightarrow> scheduler" where
  "reload C now targets s =
     s\<lparr>entries := filter (\<lambda>x. fst x \<in> set (map api_id targets))
         (fold (reload_target C now) targets (entries s))\<rparr>"

section \<open>Tick\<close>

datatype tick_action = Not_due | In_flight | Deferred | Fire timestamp

text \<open>
  One round of the loop of \<open>tick\<close>: \<open>None\<close> when \<open>slotsBetween\<close> throws, which ends the tick. The
  missed-run row and the alert are written before the overlap and concurrency guards.
\<close>

definition tick_entry ::
    "cron_parser \<Rightarrow> timestamp \<Rightarrow> nat \<Rightarrow> entry \<Rightarrow> target_id list \<Rightarrow> db \<Rightarrow> (tick_action \<times> db) option" where
  "tick_entry C now maxConcurrent en running d =
     (let target = en_target en
      in case safePreviousSlot C target now of
           None \<Rightarrow> Some (Not_due, d)
         | Some due \<Rightarrow>
             if (case lastFiredSlot en of None \<Rightarrow> False | Some l \<Rightarrow> due \<le> l) then Some (Not_due, d)
             else (case (case lastFiredSlot en of
                           None \<Rightarrow> Some []
                         | Some l \<Rightarrow> slotsBetween C (frequencyCron target) l (due - 1) 1000) of
                     None \<Rightarrow> None
                   | Some skipped \<Rightarrow>
                       (let d1 = (if skipped \<noteq> []
                              then recordAlert now SCHEDULER_HEARTBEAT_MISSED WEBHOOK ''ops'' None (Some (api_id target))
                                     (Some (''Scheduler skipped '' @ show_nat (length skipped) @ '' slot(s) for '' @
                                        dquote @ api_name target @ dquote))
                                     (bumpMissedRunCount now (api_id target) (length skipped) d)
                              else d)
                        in if api_id target \<in> set running then Some (In_flight, d1)
                           else if maxConcurrent \<le> length running then Some (Deferred, d1)
                           else Some (Fire due, d1))))"

fun tick_loop ::
    "cron_parser \<Rightarrow> timestamp \<Rightarrow> nat \<Rightarrow> (target_id \<times> entry) list \<Rightarrow> target_id list \<Rightarrow> db \<Rightarrow>
     (target_id \<times> entry) list \<times> target_id list \<times> (monitored_api \<times> timestamp) list \<times> db" where
  "tick_loop C now maxConcurrent [] running d = ([], running, [], d)"
| "tick_loop C now maxConcurrent ((k, en) # es) running d =
     (case tick_entry C now maxConcurrent en running d of
        None \<Rightarrow> ((k, en) # es, running, [], d)
      | Some (Fire due, d1) \<Rightarrow>
          (case tick_loop C now maxConcurrent es (running @ [api_id (en_target en)]) d1 of
             (es', running', fired, d2) \<Rightarrow>
               ((k, en\<lparr>lastFiredSlot := Some due\<rparr>) # es', running', (en_target en, due) # fired, d2))
      | Some (_, d1) \<Rightarrow>
          (case tick_loop C now maxConcurrent es running d1 of
             (es', running', fired, d2) \<Rightarrow> ((k, en) # es', running', fired, d2)))"

definition tick ::
    "cron_parser \<Rightarrow> timestamp \<Rightarrow> nat \<Rightarrow> scheduler \<Rightarrow> db \<Rightarrow> scheduler \<times> (monitored_api \<times> timestamp) list \<times> db" where
  "tick C now maxConcurrent s d =
     (case tick_loop C now maxConcurrent (entries s) (inFlight s) d of
        (es, running, fired, d') \<Rightarrow> (s\<lparr>entries := es, inFlight := running\<rparr>, fired, d'))"

text \<open>The \<open>finally\<close> of a fired check.\<close>

definition check_done :: "target_id \<Rightarrow> scheduler \<Rightarrow> scheduler" where
  "check_done t s = s\<lparr>inFlight := filter (\<lambda>x. x \<noteq> t) (inFlight s)\<rparr>"

section \<open>Missed runs\<close>

record missed_run =
  mr_targetId :: target_id
  mr_name :: string
  expectedRunAt :: timestamp
  mr_lastActualRunAt :: "timestamp option"
  lateBySeconds :: int

text \<open>The decision for one target; \<open>None\<close> when its cron expression does not parse.\<close>

definition missed_run_of :: "cron_parser \<Rightarrow> timestamp \<Rightarrow> monitored_api \<Rightarrow> db \<Rightarrow> (int \<times> missed_run option) option" where
  "missed_run_of C now target d =
     (case intervalSeconds C (frequencyCron target) now of
        None \<Rightarrow> None
      | Some interval \<Rightarrow>
          (case previousSlot C (frequencyCron target) now of
             None \<Rightarrow> None
           | Some expected \<Rightarrow>
               (let toleranceMs = interval * 1000 * 2;
                    state = getScheduleState (api_id target) d;
                    lastActual = (case state of None \<Rightarrow> None | Some s \<Rightarrow> lastActualRunAt s);
                    reference = (case lastActual of Some t \<Rightarrow> t
                       | None \<Rightarrow> (case state of Some s \<Rightarrow> ss_updatedAt s | None \<Rightarrow> api_createdAt target));
                    lateByMs = now - reference
                in Some (interval,
                     if toleranceMs < lateByMs \<and> (case lastActual of None \<Rightarrow> 0 | Some t \<Rightarrow> t) < expected
                     then Some \<lparr>mr_targetId = api_id target, mr_name = api_name target, expectedRunAt = expected,
                            mr_lastActualRunAt = lastActual,
                            lateBySeconds = Math_round (fl (of_int lateByMs / 1000))\<rparr>
                     else None))))"

definition missed_message :: "monitored_api \<Rightarrow> missed_run \<Rightarrow> int \<Rightarrow> string" where
  "missed_message target m interval =
     ''No check for '' @ dquote @ api_name target @ dquote @ '' in '' @ show_int (lateBySeconds m) @
     ''s (interval '' @ show_int interval @ ''s)''"

fun detectMissedRuns ::
    "cron_parser \<Rightarrow> timestamp \<Rightarrow> monitored_api list \<Rightarrow> db \<Rightarrow> missed_run list option \<times> db" where
  "detectMissedRuns C now [] d = (Some [], d)"
| "detectMissedRuns C now (target # targets) d =
     (case missed_run_of C now target d of
        None \<Rightarrow> (None, d)
      | Some (interval, None) \<Rightarrow> detectMissedRuns C now targets d
      | Some (interval, Some m) \<Rightarrow>
          (let d1 = recordAlert now SCHEDULER_HEARTBEAT_MISSED WEBHOOK ''ops'' None (Some (api_id target))
                 (Some (missed_message target m interval))
                 (bumpMissedRunCount now (api_id target) 1 d)
           in case detectMissedRuns C now targets d1 of
                (None, d2) \<Rightarrow> (None, d2)
              | (Some ms, d2) \<Rightarrow> (Some (m # ms), d2)))"

text \<open>The heartbeat cycle: an exception of any step ends it, what was written before stays.\<close>

definition heartbeat :: "cron_parser \<Rightarrow> timestamp \<Rightarrow> string \<Rightarrow> scheduler \<Rightarrow> db \<Rightarrow> db" where
  "heartbeat C now instanceId s d =
     (let d1 = writeHeartbeat now instanceId (length (inFlight s)) 0 d
      in case detectMissedRuns C now (map (en_target \<circ> snd) (entries s)) d1 of
           (None, d2) \<Rightarrow> d2
         | (Some _, d2) \<Rightarrow> snd (pruneExpiredLocks now (snd (pruneHeartbeats now 60 d2))))"

section \<open>Status\<close>

datatype scheduler_health = Ok_health | Stale | Not_running

record scheduler_status =
  health :: scheduler_health
  st_heartbeat :: "latest_heartbeat option"
  graceMs :: int
  missedRunTotal :: nat

definition getSchedulerStatus :: "env \<Rightarrow> timestamp \<Rightarrow> db \<Rightarrow> scheduler_status" where
  "getSchedulerStatus e now d =
     (let grace = SCHEDULER_HEARTBEAT_GRACE_MS e; hb = latestHeartbeat now d
      in \<lparr>health = (case hb of None \<Rightarrow> Not_running | Some h \<Rightarrow> if grace < lh_ageMs h then Stale else Ok_health),
          st_heartbeat = hb, graceMs = grace, missedRunTotal = totalMissedRuns d\<rparr>)"

section \<open>One round of the tick\<close>

lemma tick_entry_Fire:
  assumes "tick_entry C now mx en running d = Some (Fire due, d')"
  shows "safePreviousSlot C (en_target en) now = Some due"
    and "\<And>l. lastFiredSlot en = Some l \<Longrightarrow> l < due"
    and "api_id (en_target en) \<notin> set running" and "length running < mx"
  using assms by (auto simp: tick_entry_def Let_def split: option.splits if_splits)

lemma bump_alert_inv:
  "db_inv d \<Longrightarrow> db_inv (recordAlert now ty ch rc i a m (bumpMissedRunCount now' t n d))"
  by (simp add: recordAlert_inv bumpMissedRunCount_inv)

lemma tick_entry_inv: "tick_entry C now mx en running d = Some (act, d') \<Longrightarrow> db_inv d \<Longrightarrow> db_inv d'"
  by (auto simp: tick_entry_def Let_def bump_alert_inv split: option.splits if_splits)

lemma tick_loop_inv: "db_inv d \<Longrightarrow> db_inv (snd (snd (snd (tick_loop C now mx es running d))))"
  by (induction es arbitrary: running d)
    (auto simp: split_beta split: option.splits tick_action.splits, (blast intro: tick_entry_inv)+)

lemma tick_inv: "db_inv d \<Longrightarrow> db_inv (snd (snd (tick C now mx s d)))"
  using tick_loop_inv [of d C now mx "entries s" "inFlight s"] by (simp add: tick_def split_beta)

lemma detectMissedRuns_inv: "db_inv d \<Longrightarrow> db_inv (snd (detectMissedRuns C now targets d))"
  by (induction targets arbitrary: d) (auto simp: Let_def split_beta bump_alert_inv split: option.splits)

section \<open>Overlap and concurrency\<close>

lemma tick_loop_running:
  assumes "tick_loop C now mx es running d = (es', running', fired, d')"
  shows "running' = running @ map (api_id \<circ> fst) fired \<and> (distinct running \<longrightarrow> distinct running') \<and>
    (length running \<le> mx \<longrightarrow> length running' \<le> mx) \<and> map fst es' = map fst es"
  using assms
proof (induction es arbitrary: running d es' running' fired d')
  case (Cons x es)
  obtain k en where x: "x = (k, en)" by (cases x)
  show ?case
  proof (cases "tick_entry C now mx en running d")
    case None
    with Cons.prems x show ?thesis by auto
  next
    case (Some p)
    obtain act d1 where p: "p = (act, d1)" by (cases p)
    show ?thesis
    proof (cases act)
      case (Fire due)
      obtain es2 r2 f2 d2 where rec: "tick_loop C now mx es (running @ [api_id (en_target en)]) d1 = (es2, r2, f2, d2)"
        by (metis surj_pair)
      have "api_id (en_target en) \<notin> set running" "length running < mx"
        using tick_entry_Fire(3,4) Some p Fire by metis+
      with Cons.IH [OF rec] Cons.prems Some p Fire x rec show ?thesis by auto
    qed (use Cons.prems Some p x Cons.IH in \<open>auto split: prod.splits\<close>)
  qed
qed simp

text \<open>C7. A tick never overlaps a target with itself and never exceeds the limit: it fires no target
  that is in flight and no target twice, the running set stays free of repetitions, and its
  size never passes \<open>maxConcurrent\<close>.\<close>

theorem tick_respects_limits:
  assumes "tick C now mx s d = (s', fired, d')" and "distinct (inFlight s)" and "length (inFlight s) \<le> mx"
  shows "distinct (inFlight s') \<and> length (inFlight s') \<le> mx \<and>
    inFlight s' = inFlight s @ map (api_id \<circ> fst) fired \<and> distinct (map (api_id \<circ> fst) fired) \<and>
    (\<forall>x \<in> set fired. api_id (fst x) \<notin> set (inFlight s))"
proof -
  obtain es running fired' d2 where l: "tick_loop C now mx (entries s) (inFlight s) d = (es, running, fired', d2)"
    by (metis surj_pair)
  with assms(1) have "inFlight s' = running" "fired = fired'" by (auto simp: tick_def)
  with tick_loop_running [OF l] assms(2,3) show ?thesis by (auto simp: disjoint_iff) force+
qed

section \<open>A slot is fired once\<close>

definition entries_ok :: "(target_id \<times> entry) list \<Rightarrow> bool" where
  "entries_ok es \<longleftrightarrow> distinct (map fst es) \<and> (\<forall>x \<in> set es. api_id (en_target (snd x)) = fst x)"

definition fired_slots :: "target_id \<Rightarrow> (monitored_api \<times> timestamp) list \<Rightarrow> timestamp list" where
  "fired_slots t fired = map snd (filter (\<lambda>x. api_id (fst x) = t) fired)"

lemma fired_slots_simps [simp]:
  "fired_slots t [] = []" "fired_slots t (x # xs) = (if api_id (fst x) = t then snd x # fired_slots t xs else fired_slots t xs)"
  "fired_slots t (xs @ ys) = fired_slots t xs @ fired_slots t ys"
  by (simp_all add: fired_slots_def)

lemma entries_ok_Cons:
  "entries_ok ((k, en) # es) \<longleftrightarrow> entries_ok es \<and> k \<notin> fst ` set es \<and> api_id (en_target en) = k"
  by (auto simp: entries_ok_def)

text \<open>What a tick does to the entry of one target and to the slots fired for it.\<close>

definition fires_at_most_one :: "entry \<Rightarrow> entry \<Rightarrow> timestamp list \<Rightarrow> bool" where
  "fires_at_most_one en en' slots \<longleftrightarrow>
     slots = [] \<and> en' = en \<or>
     (\<exists>due. slots = [due] \<and> en' = en\<lparr>lastFiredSlot := Some due\<rparr> \<and> (\<forall>l. lastFiredSlot en = Some l \<longrightarrow> l < due))"

lemma tick_loop_absent:
  "tick_loop C now mx es running d = (es', running', fired, d') \<Longrightarrow> entries_ok es \<Longrightarrow> t \<notin> fst ` set es \<Longrightarrow>
     fired_slots t fired = []"
proof (induction es arbitrary: running d es' running' fired d')
  case (Cons x es)
  obtain k en where x: "x = (k, en)" by (cases x)
  with Cons.prems(2,3) have ok: "entries_ok es" "t \<notin> fst ` set es" "api_id (en_target en) \<noteq> t"
    by (auto simp: entries_ok_Cons)
  show ?case
    using Cons.prems(1) Cons.IH [OF _ ok(1,2)] ok(3) x by (auto split: option.splits tick_action.splits prod.splits)
qed simp

lemma tick_loop_target:
  assumes "tick_loop C now mx es running d = (es', running', fired, d')" and "entries_ok es"
  shows "entries_ok es' \<and> (\<forall>t en. (t, en) \<in> set es \<longrightarrow> (\<exists>en'. (t, en') \<in> set es' \<and> fires_at_most_one en en' (fired_slots t fired)))"
  using assms
proof (induction es arbitrary: running d es' running' fired d')
  case (Cons x es)
  obtain k en where x: "x = (k, en)" by (cases x)
  with Cons.prems(2) have ok: "entries_ok es" "k \<notin> fst ` set es" "api_id (en_target en) = k"
    by (auto simp: entries_ok_Cons)
  show ?case
  proof (cases "tick_entry C now mx en running d")
    case None
    with Cons.prems x show ?thesis by (auto simp: fires_at_most_one_def)
  next
    case (Some p)
    obtain act d1 where p: "p = (act, d1)" by (cases p)
    define run1 where "run1 = (case act of Fire _ \<Rightarrow> running @ [api_id (en_target en)] | _ \<Rightarrow> running)"
    define en1 where "en1 = (case act of Fire due \<Rightarrow> en\<lparr>lastFiredSlot := Some due\<rparr> | _ \<Rightarrow> en)"
    define f1 where "f1 = (case act of Fire due \<Rightarrow> [(en_target en, due)] | _ \<Rightarrow> [])"
    obtain es2 r2 f2 d2 where rec: "tick_loop C now mx es run1 d1 = (es2, r2, f2, d2)" by (metis surj_pair)
    have res: "es' = (k, en1) # es2" "fired = f1 @ f2"
      using Cons.prems(1) rec Some p x by (auto simp: run1_def en1_def f1_def split: tick_action.splits)
    have "map fst es2 = map fst es" using tick_loop_running [OF rec] by simp
    then have keys: "fst ` set es2 = fst ` set es" by (metis list.set_map)
    note ih = Cons.IH [OF rec ok(1)]
    have own: "fires_at_most_one en en1 (fired_slots k fired)"
      using tick_loop_absent [OF rec ok(1,2)] ok(3) tick_entry_Fire(2) Some p
      by (cases act) (auto simp: res fires_at_most_one_def en1_def f1_def)
    have others: "fired_slots t fired = fired_slots t f2" if "t \<noteq> k" for t
      using that ok(3) by (simp add: res f1_def split: tick_action.split)
    have "entries_ok es'" using ih ok by (simp add: res entries_ok_Cons keys en1_def split: tick_action.split)
    moreover have "\<exists>en'. (t, en') \<in> set es' \<and> fires_at_most_one e0 en' (fired_slots t fired)" if "(t, e0) \<in> set (x # es)" for t e0
    proof (cases "t = k")
      case True
      with that x ok(2) have "e0 = en" by (auto simp: image_iff)
      with own True show ?thesis by (auto simp: res)
    next
      case False
      with that x ih others show ?thesis by (auto simp: res)
    qed
    ultimately show ?thesis by blast
  qed
qed (simp add: entries_ok_def)

section \<open>Runs of the scheduler\<close>

datatype sched_event = Reload timestamp "monitored_api list" | Tick timestamp | Check_done target_id

type_synonym sched_state = "scheduler \<times> (monitored_api \<times> timestamp) list \<times> db"

fun sched_event_step :: "cron_parser \<Rightarrow> nat \<Rightarrow> sched_event \<Rightarrow> sched_state \<Rightarrow> sched_state" where
  "sched_event_step C mx (Reload now ts) (s, lg, d) = (reload C now ts s, lg, d)"
| "sched_event_step C mx (Tick now) (s, lg, d) =
     (case tick C now mx s d of (s', fired, d') \<Rightarrow> (s', lg @ fired, d'))"
| "sched_event_step C mx (Check_done t) (s, lg, d) = (check_done t s, lg, d)"

fun keeps_target :: "target_id \<Rightarrow> sched_event \<Rightarrow> bool" where
  "keeps_target t (Reload now ts) \<longleftrightarrow> t \<in> set (map api_id ts)"
| "keeps_target t _ \<longleftrightarrow> True"

lemma reload_target_ok: "entries_ok es \<Longrightarrow> entries_ok (reload_target C now m es)"
proof (cases "\<exists>x \<in> set es. fst x = api_id m")
  case True
  have keys: "fst \<circ> (\<lambda>(k, en). (k, if k = api_id m then en\<lparr>en_target := m\<rparr> else en)) = fst"
    by (auto simp: fun_eq_iff)
  assume "entries_ok es"
  with True show ?thesis by (auto simp: reload_target_def entries_ok_def keys)
next
  case False
  assume "entries_ok es"
  with False show ?thesis by (force simp: reload_target_def entries_ok_def)
qed

lemma reload_target_keeps:
  "(t, en) \<in> set es \<Longrightarrow> \<exists>en'. (t, en') \<in> set (reload_target C now m es) \<and> lastFiredSlot en' = lastFiredSlot en"
  by (auto simp: reload_target_def image_iff intro!: bexI [of _ "(t, en)"])

lemma fold_reload_ok: "entries_ok es \<Longrightarrow> entries_ok (fold (reload_target C now) ms es)"
  by (induction ms arbitrary: es) (auto simp: reload_target_ok)

lemma fold_reload_keeps:
  "(t, en) \<in> set es \<Longrightarrow> \<exists>en'. (t, en') \<in> set (fold (reload_target C now) ms es) \<and> lastFiredSlot en' = lastFiredSlot en"
proof (induction ms arbitrary: es en)
  case (Cons m ms)
  from reload_target_keeps [OF Cons.prems] obtain en1 where
    "(t, en1) \<in> set (reload_target C now m es)" "lastFiredSlot en1 = lastFiredSlot en" by blast
  with Cons.IH show ?case by (metis fold_simps(2))
qed auto

lemma entries_ok_filter: "entries_ok es \<Longrightarrow> entries_ok (filter P es)"
  by (auto simp: entries_ok_def intro: distinct_map_filter)

definition fired_in_order :: "target_id \<Rightarrow> sched_state \<Rightarrow> bool" where
  "fired_in_order t st = (case st of (s, lg, d) \<Rightarrow>
     entries_ok (entries s) \<and> sorted_wrt (<) (fired_slots t lg) \<and>
     (\<exists>en. (t, en) \<in> set (entries s) \<and>
        (\<forall>x \<in> set (fired_slots t lg). \<exists>l. lastFiredSlot en = Some l \<and> x \<le> l)))"

lemma fired_in_order_step:
  assumes "fired_in_order t st" and "keeps_target t ev"
  shows "fired_in_order t (sched_event_step C mx ev st)"
proof -
  obtain s lg d where st: "st = (s, lg, d)" by (metis surj_pair)
  from assms(1) obtain en where ok: "entries_ok (entries s)" "sorted_wrt (<) (fired_slots t lg)" and
    en: "(t, en) \<in> set (entries s)" "\<forall>x \<in> set (fired_slots t lg). \<exists>l. lastFiredSlot en = Some l \<and> x \<le> l"
    by (auto simp: fired_in_order_def st)
  show ?thesis
  proof (cases ev)
    case (Reload now ts)
    obtain en' where "(t, en') \<in> set (fold (reload_target C now) ts (entries s))" "lastFiredSlot en' = lastFiredSlot en"
      using fold_reload_keeps [OF en(1)] by blast
    with assms(2) Reload ok en(2) show ?thesis
      by (auto simp: fired_in_order_def st reload_def fold_reload_ok entries_ok_filter)
  next
    case (Tick now)
    obtain es run fired d' where l: "tick_loop C now mx (entries s) (inFlight s) d = (es, run, fired, d')"
      by (metis surj_pair)
    have "entries_ok es" and ex: "\<exists>en'. (t, en') \<in> set es \<and> fires_at_most_one en en' (fired_slots t fired)"
      using tick_loop_target [OF l ok(1)] en(1) by blast+
    then obtain en' where "(t, en') \<in> set es" "fires_at_most_one en en' (fired_slots t fired)" by blast
    with \<open>entries_ok es\<close> en(2) ok(2) show ?thesis
      by (fastforce simp: Tick fired_in_order_def st tick_def l fires_at_most_one_def sorted_wrt_append)
  next
    case (Check_done t')
    with ok en show ?thesis by (auto simp: fired_in_order_def st check_done_def)
  qed
qed


definition missed_of :: "target_id \<Rightarrow> db \<Rightarrow> nat" where
  "missed_of t d = (case getScheduleState t d of None \<Rightarrow> 0 | Some s \<Rightarrow> missedRunCount s)"

lemma missed_of_bump: "missed_of t (bumpMissedRunCount now t' n d) = missed_of t d + (if t = t' then n else 0)"
proof (cases "\<exists>s \<in> set (target_schedule_state d). ss_targetId s = t'")
  case True
  let ?f = "\<lambda>s. s\<lparr>missedRunCount := missedRunCount s + n, ss_updatedAt := now\<rparr>"
  have "find (\<lambda>s. ss_targetId s = t) (upd_where (\<lambda>s. ss_targetId s = t') ?f (target_schedule_state d)) =
      map_option (\<lambda>s. if ss_targetId s = t' then ?f s else s) (find (\<lambda>s. ss_targetId s = t) (target_schedule_state d))"
    by (rule find_upd_where) simp
  moreover have "find (\<lambda>s. ss_targetId s = t) (target_schedule_state d) \<noteq> None" if "t = t'"
    using True that by (auto simp: find_eq_None)
  ultimately show ?thesis
    using True by (auto simp: missed_of_def getScheduleState_def bumpMissedRunCount_def split: option.splits dest!: find_SomeD)
next
  case False
  then have "find (\<lambda>s. ss_targetId s = t') (target_schedule_state d) = None" by (simp add: find_eq_None)
  with False show ?thesis
    by (auto simp: missed_of_def getScheduleState_def bumpMissedRunCount_def find_append split: option.splits)
qed

lemma missed_of_alert [simp]: "missed_of t (recordAlert now ty ch rc i a m d) = missed_of t d"
  by (simp add: missed_of_def getScheduleState_def recordAlert_def)

lemma sorted_distinct_card: "sorted_wrt (<) (ss :: timestamp list) \<Longrightarrow> length ss = card (set ss)"
  by (simp add: distinct_card strict_sorted_iff)

definition retick :: "cron_parser \<Rightarrow> timestamp \<Rightarrow> nat \<Rightarrow> entry \<Rightarrow> target_id list \<Rightarrow> db \<Rightarrow> db" where
  "retick C now mx en running d = (case tick_entry C now mx en running d of Some (_, d') \<Rightarrow> d' | None \<Rightarrow> d)"

lemma tick_entry_action:
  "map_option fst (tick_entry C now mx en running d') = map_option fst (tick_entry C now mx en running d)"
  by (simp add: tick_entry_def Let_def split: option.split)

lemma skipped_counted:
  assumes "cron_ok C (frequencyCron (en_target en))" and "lastFiredSlot en = Some l"
    and "tick_entry C now mx en running d = Some (act, d')" and "act \<noteq> Not_due"
    and "safePreviousSlot C (en_target en) now = Some due"
    and "card {x. occurrence C (frequencyCron (en_target en)) x \<and> l < x \<and> x < due} < 1000"
  shows "missed_of (api_id (en_target en)) d' = missed_of (api_id (en_target en)) d +
    card {x. occurrence C (frequencyCron (en_target en)) x \<and> l < x \<and> x < due}"
proof -
  let ?x = "frequencyCron (en_target en)"
  obtain ss where ss: "slotsBetween C ?x l (due - 1) 1000 = Some ss" "sorted_wrt (<) ss" "length ss \<le> 1000"
    "\<forall>s \<in> set ss. occurrence C ?x s \<and> l < s \<and> s \<le> due - 1"
    "length ss < 1000 \<longrightarrow> (\<forall>s. occurrence C ?x s \<and> l < s \<and> s \<le> due - 1 \<longrightarrow> s \<in> set ss)"
    using slots_loop_exact [OF assms(1), of 1000 l "due - 1"] unfolding slotsBetween_def by blast
  let ?S = "{x. occurrence C ?x x \<and> l < x \<and> x < due}"
  have fin: "finite ?S" by (rule finite_subset [of _ "{l..due}"]) auto
  have sub: "set ss \<subseteq> ?S" using ss(4) by auto
  then have "length ss \<le> card ?S" using fin sorted_distinct_card [OF ss(2)] by (simp add: card_mono)
  with assms(6) have "length ss < 1000" by simp
  with ss(5) sub have "set ss = ?S" by auto
  then have card: "length ss = card ?S" using sorted_distinct_card [OF ss(2)] by simp
  have "missed_of (api_id (en_target en)) d' = missed_of (api_id (en_target en)) d + length ss"
    using assms(2-5) ss(1)
    by (auto simp: tick_entry_def Let_def missed_of_bump split: if_splits)
  with card show ?thesis by simp
qed

text \<open>The slots counted as missed are exactly those passed over: when a tick fires, defers or
  skips an entry whose last fired slot is \<open>l\<close>, the target's missed count grows by the number of
  occurrences strictly between \<open>l\<close> and the due slot, as long as they are fewer than 1000.\<close>

theorem skipped_slots_counted:
  assumes "cron_ok C (frequencyCron (en_target en))" and "lastFiredSlot en = Some l"
    and "tick_entry C now mx en running d = Some (act, d')" and "act \<noteq> Not_due"
    and "safePreviousSlot C (en_target en) now = Some due"
    and "card {x. occurrence C (frequencyCron (en_target en)) x \<and> l < x \<and> x < due} < 1000"
  shows "missed_of (api_id (en_target en)) d' = missed_of (api_id (en_target en)) d +
    card {x. occurrence C (frequencyCron (en_target en)) x \<and> l < x \<and> x < due}"
  using assms by (rule skipped_counted)

lemma slots_loop_numeral [simp]:
  "slots_loop (numeral k) C x cur until =
     (case cron_next C x cur of
        None \<Rightarrow> None
      | Some n \<Rightarrow>
          if until < n then Some []
          else (case slots_loop (pred_numeral k) C x n until of None \<Rightarrow> None | Some ss \<Rightarrow> Some (n # ss)))"
  by (simp add: numeral_eq_Suc)

definition sample_entry :: entry where
  "sample_entry = \<lparr>en_target = sample_api, lastFiredSlot = Some 0\<rparr>"

definition sample_scheduler :: scheduler where
  "sample_scheduler = \<lparr>entries = [(''t1'', sample_entry)], inFlight = []\<rparr>"

lemma sample_due: "safePreviousSlot every_minute (en_target sample_entry) 181000 = Some 180000"
  by (simp add: safePreviousSlot_def previousSlot_def every_minute_def)

lemma sample_gap:
  "{x. occurrence every_minute (frequencyCron (en_target sample_entry)) x \<and> 0 < x \<and> x < 180000} = {60000, 120000}"
proof -
  have "q = 1 \<or> q = 2" if "0 < q * 60000" "q * 60000 < 180000" for q :: int using that by linarith
  moreover have "\<exists>q::int. 60000 = q * 60000" "\<exists>q::int. 120000 = q * 60000"
    by (rule exI [of _ 1], simp, rule exI [of _ 2], simp)
  ultimately show ?thesis by (auto simp: every_minute_occurrence)
qed

lemma sample_tick_entry:
  "\<exists>d'. tick_entry every_minute 181000 50 sample_entry running d =
     Some (if ''t1'' \<in> set running then In_flight else if 50 \<le> length running then Deferred else Fire 180000, d')"
  by (simp add: tick_entry_def Let_def safePreviousSlot_def previousSlot_def slotsBetween_def every_minute_def
      sample_entry_def)

theorem skipped_slots_counted_witness:
  "\<exists>d'. tick_entry every_minute 181000 50 sample_entry [] empty_db = Some (Fire 180000, d') \<and> missed_of ''t1'' d' = 2"
proof -
  obtain d' where d': "tick_entry every_minute 181000 50 sample_entry [] empty_db = Some (Fire 180000, d')"
    using sample_tick_entry [of "[]" empty_db] by auto
  have "missed_of ''t1'' empty_db = 0" by (simp add: missed_of_def getScheduleState_def empty_db_def)
  then have "missed_of ''t1'' d' = 2"
    using skipped_slots_counted [OF every_minute_ok _ d' _ sample_due, of 0] sample_gap
    by (simp add: sample_entry_def)
  with d' show ?thesis by blast
qed

theorem tick_respects_limits_witness:
  "let r = tick every_minute 181000 1 sample_scheduler empty_db in distinct (inFlight (fst r)) \<and> length (inFlight (fst r)) \<le> 1"
  using tick_respects_limits [of every_minute 181000 1 sample_scheduler empty_db] 
  by (simp add: Let_def sample_scheduler_def) (metis prod.collapse)


text \<open>A target that stays in flight, or is deferred at the concurrency limit, is charged for the
  same skipped slots on every tick: the last fired slot does not advance, yet the count is
  written before the guards, so \<open>n\<close> ticks at which the same slot is due add \<open>n\<close> times the
  number of skipped slots.\<close>

theorem deferred_slots_recounted:
  assumes "cron_ok C (frequencyCron (en_target en))" and "lastFiredSlot en = Some l"
    and "map_option fst (tick_entry C now mx en running d) = Some act" and "act = In_flight \<or> act = Deferred"
    and "safePreviousSlot C (en_target en) now = Some due"
    and "card {x. occurrence C (frequencyCron (en_target en)) x \<and> l < x \<and> x < due} < 1000"
  shows "missed_of (api_id (en_target en)) ((retick C now mx en running ^^ n) d) =
    missed_of (api_id (en_target en)) d + n * card {x. occurrence C (frequencyCron (en_target en)) x \<and> l < x \<and> x < due}"
proof (induction n)
  case (Suc n)
  let ?dn = "(retick C now mx en running ^^ n) d"
  from assms(3) tick_entry_action [of C now mx en running ?dn d]
  obtain d' where d': "tick_entry C now mx en running ?dn = Some (act, d')" by (auto simp: map_option_case split: option.splits)
  have "act \<noteq> Not_due" using assms(4) by auto
  have "retick C now mx en running ?dn = d'" by (simp add: retick_def [of C now mx en running ?dn] d')
  with skipped_counted [OF assms(1,2) d' \<open>act \<noteq> Not_due\<close> assms(5,6)] Suc.IH show ?case by simp
qed simp

theorem deferred_slots_recounted_witness:
  "missed_of ''t1'' ((retick every_minute 181000 50 sample_entry [''t1''] ^^ 10) empty_db) = 20"
proof -
  have a: "map_option fst (tick_entry every_minute 181000 50 sample_entry [''t1''] empty_db) = Some In_flight"
    using sample_tick_entry [of "[''t1'']" empty_db] by auto
  have "missed_of ''t1'' empty_db = 0" by (simp add: missed_of_def getScheduleState_def empty_db_def)
  then show ?thesis
    using deferred_slots_recounted [OF every_minute_ok _ a _ sample_due, of 0 10] sample_gap
    by (simp add: sample_entry_def)
qed

section \<open>Missed-run detection\<close>

lemma getScheduleState_bump_other:
  assumes "t \<noteq> t'"
  shows "getScheduleState t (bumpMissedRunCount now t' n d) = getScheduleState t d"
proof (cases "\<exists>s \<in> set (target_schedule_state d). ss_targetId s = t'")
  case True
  let ?f = "\<lambda>s. s\<lparr>missedRunCount := missedRunCount s + n, ss_updatedAt := now\<rparr>"
  have "find (\<lambda>s. ss_targetId s = t) (upd_where (\<lambda>s. ss_targetId s = t') ?f (target_schedule_state d)) =
      map_option (\<lambda>s. if ss_targetId s = t' then ?f s else s) (find (\<lambda>s. ss_targetId s = t) (target_schedule_state d))"
    by (rule find_upd_where) simp
  with True assms show ?thesis
    by (cases "find (\<lambda>s. ss_targetId s = t) (target_schedule_state d)")
      (auto simp: getScheduleState_def bumpMissedRunCount_def dest!: find_SomeD)
next
  case False
  with assms show ?thesis
    by (auto simp: getScheduleState_def bumpMissedRunCount_def find_append split: option.splits)
qed

lemma missed_run_of_cong:
  "getScheduleState (api_id m) d' = getScheduleState (api_id m) d \<Longrightarrow> missed_run_of C now m d' = missed_run_of C now m d"
  unfolding missed_run_of_def by (simp only:)

lemma getScheduleState_alert [simp]: "getScheduleState t (recordAlert now ty ch rc i a m d) = getScheduleState t d"
  by (simp add: getScheduleState_def recordAlert_def)

lemma missed_run_targetId: "missed_run_of C now m d = Some (iv, Some r) \<Longrightarrow> mr_targetId r = api_id m"
  by (auto simp: missed_run_of_def Let_def split: option.splits if_splits)

lemma map_option_targets_cong:
  "(\<And>m. m \<in> set ms \<Longrightarrow> missed_run_of C now m d' = missed_run_of C now m d) \<Longrightarrow>
   filter (\<lambda>m. \<exists>iv r. missed_run_of C now m d' = Some (iv, Some r)) ms =
   filter (\<lambda>m. \<exists>iv r. missed_run_of C now m d = Some (iv, Some r)) ms"
  by (rule filter_cong) auto

text \<open>Missed-run detection flags exactly the late targets: when every cron expression parses and
  the targets are distinct, the returned list names, in order, the targets that are late by
  more than twice their interval and whose expected slot lies after their last run, each of
  them has its count raised by one, and nobody else's count changes.\<close>

theorem detect_missed_exact:
  assumes "distinct (map api_id targets)" and "\<forall>m \<in> set targets. missed_run_of C now m d \<noteq> None"
  shows "\<exists>ms. fst (detectMissedRuns C now targets d) = Some ms \<and>
    map mr_targetId ms = map api_id (filter (\<lambda>m. \<exists>iv r. missed_run_of C now m d = Some (iv, Some r)) targets) \<and>
    (\<forall>t. missed_of t (snd (detectMissedRuns C now targets d)) =
       missed_of t d + (if t \<in> set (map mr_targetId ms) then 1 else 0))"
  using assms
proof (induction targets arbitrary: d)
  case (Cons m targets)
  from Cons.prems(2) obtain iv q where q: "missed_run_of C now m d = Some (iv, q)" by fastforce
  show ?case
  proof (cases q)
    case None
    with q Cons show ?thesis by simp
  next
    case (Some r)
    let ?d1 = "recordAlert now SCHEDULER_HEARTBEAT_MISSED WEBHOOK ''ops'' None (Some (api_id m))
       (Some (missed_message m r iv)) (bumpMissedRunCount now (api_id m) 1 d)"
    have same: "missed_run_of C now m' ?d1 = missed_run_of C now m' d" if "m' \<in> set targets" for m'
    proof -
      have "api_id m' \<noteq> api_id m" using that Cons.prems(1) by (auto simp: image_iff)
      then show ?thesis by (intro missed_run_of_cong) (simp add: getScheduleState_bump_other)
    qed
    have "distinct (map api_id targets)" "\<forall>m' \<in> set targets. missed_run_of C now m' ?d1 \<noteq> None"
      using Cons.prems same by auto
    from Cons.IH [OF this] obtain ms where ms: "fst (detectMissedRuns C now targets ?d1) = Some ms"
      "map mr_targetId ms = map api_id (filter (\<lambda>m. \<exists>iv r. missed_run_of C now m ?d1 = Some (iv, Some r)) targets)"
      "\<forall>t. missed_of t (snd (detectMissedRuns C now targets ?d1)) = missed_of t ?d1 + (if t \<in> set (map mr_targetId ms) then 1 else 0)"
      by blast
    have ms2: "map mr_targetId ms = map api_id (filter (\<lambda>m. \<exists>iv r. missed_run_of C now m d = Some (iv, Some r)) targets)"
      unfolding ms(2) by (simp only: map_option_targets_cong [OF same])
    have res: "detectMissedRuns C now (m # targets) d = (Some (r # ms), snd (detectMissedRuns C now targets ?d1))"
      using q Some ms(1) by (simp add: Let_def split_beta)
    have "api_id m \<notin> set (map mr_targetId ms)" using Cons.prems(1) by (auto simp: ms2)
    then have "missed_of t (snd (detectMissedRuns C now targets ?d1)) =
        missed_of t d + (if t \<in> set (map mr_targetId (r # ms)) then 1 else 0)" for t
      using ms(3) by (auto simp: missed_of_bump missed_run_targetId [OF q [unfolded Some]])
    moreover have "map mr_targetId (r # ms) =
        map api_id (filter (\<lambda>m. \<exists>iv r. missed_run_of C now m d = Some (iv, Some r)) (m # targets))"
      using q Some ms2 missed_run_targetId [OF q [unfolded Some]] by simp
    ultimately show ?thesis unfolding res fst_conv snd_conv by (intro exI [of _ "r # ms"] conjI allI refl)
  qed
qed simp

theorem detect_missed_exact_witness:
  "\<exists>ms. fst (detectMissedRuns every_minute 181000 [sample_api] empty_db) = Some ms \<and> map mr_targetId ms = [''t1'']"
proof -
  have iv: "intervalSeconds every_minute x 181000 = Some 60" for x
    unfolding intervalSeconds_def every_minute_def by (simp add: fl_of_int [of 60, simplified] Math_round_of_int [of 60, simplified])
  have pv: "previousSlot every_minute x 181000 = Some 180000" for x by (simp add: previousSlot_def every_minute_def)
  have "getScheduleState t empty_db = None" for t by (simp add: getScheduleState_def empty_db_def)
  then have mr: "\<exists>iv r. missed_run_of every_minute 181000 sample_api empty_db = Some (iv, Some r)"
    by (simp add: missed_run_of_def iv pv Let_def)
  then have "\<forall>m \<in> set [sample_api]. missed_run_of every_minute 181000 m empty_db \<noteq> None" by auto
  from detect_missed_exact [OF _ this] mr show ?thesis by auto
qed

lemma heartbeat_cycle_inv: "db_inv d \<Longrightarrow> db_inv (heartbeat C now i s d)"
  using detectMissedRuns_inv [of "writeHeartbeat now i (length (inFlight s)) 0 d" C now "map (en_target \<circ> snd) (entries s)"]
    heartbeat_inv
  by (auto simp: heartbeat_def Let_def pruneExpiredLocks_def pruneHeartbeats_def db_inv_def locks_ok_def unique_on_filter
      split: prod.splits option.splits)

end
