(* ===== verification/Watchdog.thy ===== *)
theory Watchdog
  imports Scheduler_Repo Js_Number
begin

text \<open>
  \<^verbatim>\<open>src/watchdog/watchdog.ts\<close>: the dead man's switch that watches the scheduler's heartbeats from
  a process of its own. The closure variables of \<open>startWatchdog\<close> are a record, one poll is a
  function on it; the POST to the external endpoint is pure output, and the row it leaves in
  \<open>alerts\<close> is its trace in the database. The lemmas show that silence is noticed at the first
  poll after the grace period and that alerts keep the distance the comment promises, without
  ever leaving a longer gap than that.
\<close>

record verdict =
  healthy :: bool
  wd_reason :: string
  lastTickAgeMs :: "int option"

definition evaluateSchedulerLiveness :: "int \<Rightarrow> timestamp \<Rightarrow> db \<Rightarrow> verdict" where
  "evaluateSchedulerLiveness grace now d =
     (case latestHeartbeat now d of
        None \<Rightarrow> \<lparr>healthy = False, wd_reason = ''no scheduler heartbeat has ever been recorded'', lastTickAgeMs = None\<rparr>
      | Some hb \<Rightarrow>
          if grace < lh_ageMs hb
          then \<lparr>healthy = False,
                wd_reason = ''scheduler '' @ dquote @ lh_instanceId hb @ dquote @ '' last ticked '' @
                  show_int (Math_round (fl (of_int (lh_ageMs hb) / 1000))) @ ''s ago (grace '' @
                  show_int (Math_round (fl (of_int grace / 1000))) @ ''s)'',
                lastTickAgeMs = Some (lh_ageMs hb)\<rparr>
          else \<lparr>healthy = True, wd_reason = ''scheduler is ticking'', lastTickAgeMs = Some (lh_ageMs hb)\<rparr>)"

definition fireWatchdogAlert :: "env \<Rightarrow> timestamp \<Rightarrow> verdict \<Rightarrow> db \<Rightarrow> db" where
  "fireWatchdogAlert e now v d =
     recordAlert now SCHEDULER_HEARTBEAT_MISSED WEBHOOK
       (case WATCHDOG_EXTERNAL_ENDPOINT e of Some u \<Rightarrow> u | None \<Rightarrow> ''log-only'')
       None None (Some (wd_reason v)) d"

record watchdog =
  alerting :: bool
  lastAlertAt :: timestamp

definition initial_watchdog :: watchdog where
  "initial_watchdog = \<lparr>alerting = False, lastAlertAt = 0\<rparr>"

definition watchdog_tick :: "env \<Rightarrow> int \<Rightarrow> timestamp \<Rightarrow> watchdog \<Rightarrow> db \<Rightarrow> watchdog \<times> bool \<times> db" where
  "watchdog_tick e grace now w d =
     (let v = evaluateSchedulerLiveness grace now d
      in if healthy v then (w\<lparr>alerting := False\<rparr>, False, d)
         else if alerting w \<and> now - lastAlertAt w < grace then (w, False, d)
         else (\<lparr>alerting = True, lastAlertAt = now\<rparr>, True, fireWatchdogAlert e now v d))"

section \<open>Polls in sequence\<close>

text \<open>The times at which alerts go out, for polls at the given times on the given databases.\<close>

fun alert_times :: "env \<Rightarrow> int \<Rightarrow> (timestamp \<times> db) list \<Rightarrow> watchdog \<Rightarrow> timestamp list" where
  "alert_times e grace [] w = []"
| "alert_times e grace ((now, d) # polls) w =
     (case watchdog_tick e grace now w d of
        (w', fired, _) \<Rightarrow> (if fired then [now] else []) @ alert_times e grace polls w')"

lemma latestHeartbeat_newest:
  assumes "latestHeartbeat now d = Some hb"
  shows "\<forall>h \<in> set (scheduler_heartbeats d). lh_ageMs hb \<le> now - hb_lastTickAt h"
proof -
  obtain h0 hs where s: "sort_key (\<lambda>h. - hb_lastTickAt h) (scheduler_heartbeats d) = h0 # hs"
    and age: "lh_ageMs hb = now - hb_lastTickAt h0"
    using assms by (auto simp: latestHeartbeat_def split: list.splits)
  have "sorted (map (\<lambda>h. - hb_lastTickAt h) (h0 # hs))"
    unfolding s [symmetric] by (rule sorted_sort_key)
  moreover have "set (h0 # hs) = set (scheduler_heartbeats d)" unfolding s [symmetric] by (rule set_sort)
  ultimately show ?thesis using age by (force simp flip: \<open>set (h0 # hs) = _\<close>)
qed

lemma latestHeartbeat_None: "latestHeartbeat now d = None \<longleftrightarrow> scheduler_heartbeats d = []"
  by (metis (no_types, lifting) latestHeartbeat_def list.case(1) list.exhaust list.simps(5) option.distinct(1) sort_key_empty_iff)

text \<open>The watchdog's verdict is about every scheduler instance: it is healthy exactly when some
  heartbeat row is no older than the grace period.\<close>

theorem liveness_verdict_exact:
  "healthy (evaluateSchedulerLiveness grace now d) \<longleftrightarrow>
     (\<exists>h \<in> set (scheduler_heartbeats d). now - hb_lastTickAt h \<le> grace)"
proof (cases "latestHeartbeat now d")
  case None
  then show ?thesis by (simp add: evaluateSchedulerLiveness_def) (simp add: latestHeartbeat_None)
next
  case (Some hb)
  have "\<exists>h \<in> set (scheduler_heartbeats d). lh_ageMs hb = now - hb_lastTickAt h"
    using Some by (auto simp: latestHeartbeat_def split: list.splits dest!: sort_key_ConsD)
  with Some latestHeartbeat_newest [OF Some] show ?thesis
    by (force simp: evaluateSchedulerLiveness_def)
qed

lemma alert_times_down:
  assumes "\<forall>p \<in> set polls. \<not> healthy (evaluateSchedulerLiveness grace (fst p) (snd p))"
    and "sorted (map fst polls)" and "0 < grace" and "alerting w"
    and "\<forall>p \<in> set polls. lastAlertAt w \<le> fst p"
  shows "sorted_wrt (\<lambda>a b. a + grace \<le> b) (lastAlertAt w # alert_times e grace polls w) \<and>
    (\<forall>p \<in> set polls. \<exists>a \<in> set (lastAlertAt w # alert_times e grace polls w). a \<le> fst p \<and> fst p < a + grace)"
  using assms
proof (induction polls arbitrary: w)
  case (Cons p polls)
  obtain now d where p: "p = (now, d)" by (cases p)
  have down: "\<not> healthy (evaluateSchedulerLiveness grace now d)" using Cons.prems(1) p by simp
  show ?case
  proof (cases "now - lastAlertAt w < grace")
    case True
    then have "watchdog_tick e grace now w d = (w, False, d)"
      using down Cons.prems(4) by (simp add: watchdog_tick_def Let_def)
    moreover have "sorted_wrt (\<lambda>a b. a + grace \<le> b) (lastAlertAt w # alert_times e grace polls w) \<and>
      (\<forall>p \<in> set polls. \<exists>a \<in> set (lastAlertAt w # alert_times e grace polls w). a \<le> fst p \<and> fst p < a + grace)"
      using Cons.prems by (intro Cons.IH) auto
    ultimately show ?thesis using True Cons.prems(5) p by auto
  next
    case False
    let ?w = "\<lparr>alerting = True, lastAlertAt = now\<rparr>"
    have tick: "watchdog_tick e grace now w d = (?w, True, fireWatchdogAlert e now (evaluateSchedulerLiveness grace now d) d)"
      using down False by (simp add: watchdog_tick_def Let_def)
    have ih: "sorted_wrt (\<lambda>a b. a + grace \<le> b) (lastAlertAt ?w # alert_times e grace polls ?w) \<and>
      (\<forall>p \<in> set polls. \<exists>a \<in> set (lastAlertAt ?w # alert_times e grace polls ?w). a \<le> fst p \<and> fst p < a + grace)"
      using Cons.prems p by (intro Cons.IH) auto
    have at: "alert_times e grace (p # polls) w = now # alert_times e grace polls ?w"
      using p tick by simp
    have "lastAlertAt w + grace \<le> now" using False by simp
    with ih Cons.prems(3) show ?thesis
      unfolding at using p by (auto intro: order.trans)
  qed
qed simp

text \<open>C29. While the scheduler stays down, the watchdog alerts at its first poll, two alerts are
  never closer than the grace period, and at every poll the latest alert is younger than the
  grace period: it is neither silent nor a storm.\<close>

theorem watchdog_alert_spacing:
  assumes "\<forall>p \<in> set ((t, d) # polls). \<not> healthy (evaluateSchedulerLiveness grace (fst p) (snd p))"
    and "sorted (t # map fst polls)" and "0 < grace"
  shows "\<exists>rest. alert_times e grace ((t, d) # polls) initial_watchdog = t # rest \<and>
    sorted_wrt (\<lambda>a b. a + grace \<le> b) (t # rest) \<and>
    (\<forall>p \<in> set ((t, d) # polls). \<exists>a \<in> set (t # rest). a \<le> fst p \<and> fst p < a + grace)"
proof -
  let ?w = "\<lparr>alerting = True, lastAlertAt = t\<rparr>"
  have "watchdog_tick e grace t initial_watchdog d = (?w, True, fireWatchdogAlert e t (evaluateSchedulerLiveness grace t d) d)"
    using assms(1) by (simp add: watchdog_tick_def Let_def initial_watchdog_def)
  moreover have "sorted_wrt (\<lambda>a b. a + grace \<le> b) (t # alert_times e grace polls ?w) \<and>
      (\<forall>p \<in> set polls. \<exists>a \<in> set (t # alert_times e grace polls ?w). a \<le> fst p \<and> fst p < a + grace)"
    using alert_times_down [of polls grace ?w e] assms by simp
  ultimately show ?thesis using assms(3) by (intro exI [of _ "alert_times e grace polls ?w"]) auto
qed

theorem watchdog_alert_spacing_witness:
  "\<exists>rest. alert_times default_env 30000 [(0, empty_db), (10000, empty_db), (40000, empty_db)] initial_watchdog = 0 # rest \<and>
     sorted_wrt (\<lambda>a b. a + 30000 \<le> b) (0 # rest)"
proof -
  have "\<not> healthy (evaluateSchedulerLiveness 30000 t empty_db)" for t
    by (simp add: evaluateSchedulerLiveness_def latestHeartbeat_def empty_db_def)
  then show ?thesis
    using watchdog_alert_spacing [of 0 empty_db "[(10000, empty_db), (40000, empty_db)]" 30000 default_env] by auto
qed

lemma watchdog_tick_inv: "db_inv d \<Longrightarrow> db_inv (snd (snd (watchdog_tick e grace now w d)))"
  by (simp add: watchdog_tick_def Let_def fireWatchdogAlert_def recordAlert_inv)

end
