(* ===== verification/Escalation.thy ===== *)
theory Escalation
  imports Incident_Service
begin

text \<open>
  \<^verbatim>\<open>src/services/alert/escalation.service.ts\<close>: one pass over the open incidents that fires the
  next tier of each incident's policy. The policy cache of the loop is modelled and shown to be
  transparent; the pass as a whole is shown to implement a specification that looks only at the
  database it started from: every incident on the work list gets exactly the alerts of its next
  tier when that tier is due, and no other. The last part shows what becomes of a tier whose
  condition does not hold.
\<close>

section \<open>The pass\<close>

definition tierIsDue :: "timestamp \<Rightarrow> nat \<Rightarrow> timestamp \<Rightarrow> bool" where
  "tierIsDue started delay now \<longleftrightarrow> int delay * 60000 \<le> now - started"

definition tier_at :: "escalation_tier list \<Rightarrow> int \<Rightarrow> escalation_tier option" where
  "tier_at ts k = (if 0 \<le> k \<and> nat k < length ts then Some (ts ! nat k) else None)"

fun fire_recipients ::
    "timestamp \<Rightarrow> incident \<Rightarrow> int \<Rightarrow> alert_channel \<Rightarrow> string list \<Rightarrow> db \<Rightarrow> db" where
  "fire_recipients now i k ch [] d = d"
| "fire_recipients now i k ch (r # rs) d =
     fire_recipients now i k ch rs
       (snd (createAlert now ESCALATION_TRIGGERED ch r (Some (inc_id i)) (Some (inc_apiId i)) (Some k) None d))"

text \<open>The body of the loop once the policy is known; the result tells whether a tier fired.\<close>

definition escalate_with :: "timestamp \<Rightarrow> escalation_policy option \<Rightarrow> incident \<Rightarrow> db \<Rightarrow> bool \<times> db" where
  "escalate_with now policy i d =
     (case policy of
        None \<Rightarrow> (False, d)
      | Some p \<Rightarrow>
          if tiers p = [] then (False, d)
          else (let nextIndex = highestTierFired (inc_id i) d + 1
                in case tier_at (tiers p) nextIndex of
                     None \<Rightarrow> (False, d)
                   | Some tier \<Rightarrow>
                       if tier_condition_of tier = Is_money_moving \<and> \<not> isMoneyMovingSnapshot i
                       then (False, escalateIncident now (inc_id i) nextIndex d)
                       else if \<not> tierIsDue (startedAt i) (delayMinutes tier) now then (False, d)
                       else (True, escalateIncident now (inc_id i) nextIndex
                               (fire_recipients now i nextIndex (tier_channel tier) (recipients tier) d))))"

fun escalation_loop ::
    "timestamp \<Rightarrow> (incident \<times> row_id \<times> string) list \<Rightarrow> (row_id \<rightharpoonup> escalation_policy option) \<Rightarrow> nat \<Rightarrow> db \<Rightarrow> nat \<times> db" where
  "escalation_loop now [] cache fired d = (fired, d)"
| "escalation_loop now ((i, pid, nm) # work) cache fired d =
     (let (policy, cache') = (case cache pid of
            Some p \<Rightarrow> (p, cache)
          | None \<Rightarrow> (getEscalationPolicy pid d, cache(pid \<mapsto> getEscalationPolicy pid d)))
      in case escalate_with now policy i d of
           (b, d') \<Rightarrow> escalation_loop now work cache' (if b then fired + 1 else fired) d')"

definition runEscalationCycle :: "timestamp \<Rightarrow> db \<Rightarrow> (nat \<times> nat) \<times> db" where
  "runEscalationCycle now d =
     (let work = listOpenIncidentsForEscalation d
      in case escalation_loop now work Map.empty 0 d of (fired, d') \<Rightarrow> ((length work, fired), d'))"

section \<open>Frames\<close>

lemma fire_recipients_eq:
  "\<exists>new. fire_recipients now i k ch rs d = d\<lparr>alerts := alerts d @ new, next_id := next_id d + length rs\<rparr> \<and>
     map (\<lambda>a. (al_incidentId a, al_apiId a, escalationTier a, alertType a, al_channel a, al_recipient a, al_status a)) new =
     map (\<lambda>r. (Some (inc_id i), Some (inc_apiId i), Some k, ESCALATION_TRIGGERED, ch, r, PENDING)) rs"
proof (induction rs arbitrary: d)
  case (Cons r rs)
  let ?d1 = "snd (createAlert now ESCALATION_TRIGGERED ch r (Some (inc_id i)) (Some (inc_apiId i)) (Some k) None d)"
  obtain new where new: "fire_recipients now i k ch rs ?d1 = ?d1\<lparr>alerts := alerts ?d1 @ new, next_id := next_id ?d1 + length rs\<rparr>"
    "map (\<lambda>a. (al_incidentId a, al_apiId a, escalationTier a, alertType a, al_channel a, al_recipient a, al_status a)) new =
     map (\<lambda>r. (Some (inc_id i), Some (inc_apiId i), Some k, ESCALATION_TRIGGERED, ch, r, PENDING)) rs"
    using Cons.IH by blast
  then show ?case
    by (intro exI [of _ "drop (length (alerts d)) (alerts ?d1) @ new"]) (simp add: createAlert_def Let_def)
qed auto

lemma fire_recipients_inv: "db_inv d \<Longrightarrow> db_inv (fire_recipients now i k ch rs d)"
  by (induction rs arbitrary: d) (auto simp: createAlert_inv)

definition esc_tag where
  "esc_tag a = (al_incidentId a, al_apiId a, escalationTier a, alertType a, al_channel a, al_recipient a, al_status a)"

text \<open>The tier an incident gets next, judged on one database: its index and the tier itself.\<close>

definition next_tier :: "timestamp \<Rightarrow> escalation_policy option \<Rightarrow> incident \<Rightarrow> db \<Rightarrow> (int \<times> escalation_tier) option" where
  "next_tier now policy i d =
     (case policy of
        None \<Rightarrow> None
      | Some p \<Rightarrow>
          (case tier_at (tiers p) (highestTierFired (inc_id i) d + 1) of
             None \<Rightarrow> None
           | Some tier \<Rightarrow>
               if (tier_condition_of tier = Is_money_moving \<longrightarrow> isMoneyMovingSnapshot i) \<and>
                  tierIsDue (startedAt i) (delayMinutes tier) now
               then Some (highestTierFired (inc_id i) d + 1, tier) else None))"

definition tier_tags where
  "tier_tags i kt = (case kt of None \<Rightarrow> [] | Some (k, tier) \<Rightarrow>
     map (\<lambda>r. (Some (inc_id i), Some (inc_apiId i), Some k, ESCALATION_TRIGGERED, tier_channel tier, r, PENDING)) (recipients tier))"

lemma escalateIncident_alerts [simp]:
  "alerts (escalateIncident now k l d) = alerts d" "escalation_policies (escalateIncident now k l d) = escalation_policies d"
  "monitored_apis (escalateIncident now k l d) = monitored_apis d"
  by (simp_all add: escalateIncident_def update_incident_def)

lemma tier_at_Nil [simp]: "tier_at [] k = None"
  by (simp add: tier_at_def)

lemma escalate_with_alerts:
  "\<exists>new. alerts (snd (escalate_with now policy i d)) = alerts d @ new \<and> map esc_tag new = tier_tags i (next_tier now policy i d)"
proof (cases "next_tier now policy i d")
  case None
  then have "alerts (snd (escalate_with now policy i d)) = alerts d"
    by (auto simp: next_tier_def escalate_with_def Let_def split: option.splits if_splits)
  with None show ?thesis by (simp add: tier_tags_def)
next
  case (Some kt)
  obtain k tier where kt: "kt = (k, tier)" by (cases kt)
  with Some have "snd (escalate_with now policy i d) =
      escalateIncident now (inc_id i) k (fire_recipients now i k (tier_channel tier) (recipients tier) d)"
    by (auto simp: next_tier_def escalate_with_def Let_def split: option.splits if_splits)
  with Some kt fire_recipients_eq [of now i k "tier_channel tier" "recipients tier" d] show ?thesis
    by (auto simp: tier_tags_def esc_tag_def [abs_def])
qed

lemma escalate_with_fired: "fst (escalate_with now policy i d) \<longleftrightarrow> next_tier now policy i d \<noteq> None"
  by (auto simp: next_tier_def escalate_with_def Let_def split: option.splits if_splits)

lemma fire_recipients_frame [simp]:
  "escalation_policies (fire_recipients now i k ch rs d) = escalation_policies d"
  "monitored_apis (fire_recipients now i k ch rs d) = monitored_apis d"
  "incidents (fire_recipients now i k ch rs d) = incidents d"
  by (induction rs arbitrary: d) (auto simp: createAlert_def Let_def)

lemma escalate_with_frame:
  "escalation_policies (snd (escalate_with now policy i d)) = escalation_policies d"
  "monitored_apis (snd (escalate_with now policy i d)) = monitored_apis d"
  by (auto simp: escalate_with_def Let_def split: option.split)

lemma escalate_with_inv: "db_inv d \<Longrightarrow> db_inv (snd (escalate_with now policy i d))"
  by (auto simp: escalate_with_def Let_def incident_update_inv fire_recipients_inv split: option.split)

section \<open>The cache is transparent\<close>

fun escalation_direct :: "timestamp \<Rightarrow> (incident \<times> row_id \<times> string) list \<Rightarrow> nat \<Rightarrow> db \<Rightarrow> nat \<times> db" where
  "escalation_direct now [] fired d = (fired, d)"
| "escalation_direct now ((i, pid, nm) # work) fired d =
     (case escalate_with now (getEscalationPolicy pid d) i d of
        (b, d') \<Rightarrow> escalation_direct now work (if b then fired + 1 else fired) d')"

lemma getEscalationPolicy_cong:
  "escalation_policies d' = escalation_policies d \<Longrightarrow> getEscalationPolicy pid d' = getEscalationPolicy pid d"
  by (simp add: getEscalationPolicy_def)

lemma escalation_loop_direct:
  assumes "\<forall>pid p. cache pid = Some p \<longrightarrow> p = getEscalationPolicy pid d"
  shows "escalation_loop now work cache fired d = escalation_direct now work fired d"
  using assms
proof (induction work arbitrary: cache fired d)
  case (Cons x work)
  obtain i pid nm where x: "x = (i, pid, nm)" by (cases x)
  obtain b d' where e: "escalate_with now (getEscalationPolicy pid d) i d = (b, d')" by (metis surj_pair)
  have pol: "getEscalationPolicy q d' = getEscalationPolicy q d" for q
    using escalate_with_frame(1) e by (metis getEscalationPolicy_cong snd_conv)
  have ih: "escalation_loop now work c f d' = escalation_direct now work f d'"
    if "\<forall>q p. c q = Some p \<longrightarrow> p = getEscalationPolicy q d" for c f
    using that by (intro Cons.IH) (simp add: pol)
  show ?case
  proof (cases "cache pid")
    case None
    then show ?thesis using x e Cons.prems by (simp add: ih)
  next
    case (Some p)
    then have "p = getEscalationPolicy pid d" using Cons.prems by simp
    then show ?thesis using x e Some ih [OF Cons.prems] by simp
  qed
qed simp

text \<open>The policy cache of the pass changes nothing: looking every policy up again for every
  incident gives the same count and the same database.\<close>

theorem escalation_cache_transparent:
  "runEscalationCycle now d =
     (case escalation_direct now (listOpenIncidentsForEscalation d) 0 d of
        (fired, d') \<Rightarrow> ((length (listOpenIncidentsForEscalation d), fired), d'))"
  unfolding runEscalationCycle_def Let_def by (subst escalation_loop_direct) simp_all

section \<open>What a pass fires\<close>

lemma highestTierFired_other:
  assumes "alerts d' = alerts d @ new" and "\<forall>a \<in> set new. al_incidentId a \<noteq> Some k"
  shows "highestTierFired k d' = highestTierFired k d"
proof -
  have "filter (\<lambda>a. al_incidentId a = Some k \<and> al_status a \<noteq> ALERT_FAILED) new = []"
    using assms(2) by (auto simp: filter_empty_conv)
  then show ?thesis by (simp add: highestTierFired_def tiers_fired_def assms(1))
qed

lemma tier_tags_incident: "map esc_tag new = tier_tags i kt \<Longrightarrow> a \<in> set new \<Longrightarrow> al_incidentId a = Some (inc_id i)"
proof -
  assume "map esc_tag new = tier_tags i kt" and "a \<in> set new"
  then have "esc_tag a \<in> set (tier_tags i kt)" by (metis image_eqI list.set_map)
  then show ?thesis by (auto simp: tier_tags_def esc_tag_def split: option.splits)
qed

lemma escalation_direct_alerts:
  assumes "distinct (map (inc_id \<circ> fst) work)"
  shows "\<exists>new. alerts (snd (escalation_direct now work f d)) = alerts d @ new \<and>
    map esc_tag new = concat (map (\<lambda>(i, pid, nm). tier_tags i (next_tier now (getEscalationPolicy pid d) i d)) work) \<and>
    fst (escalation_direct now work f d) =
      f + length (filter (\<lambda>(i, pid, nm). next_tier now (getEscalationPolicy pid d) i d \<noteq> None) work)"
  using assms
proof (induction work arbitrary: f d)
  case (Cons x work)
  obtain i pid nm where x: "x = (i, pid, nm)" by (cases x)
  obtain b d1 where e: "escalate_with now (getEscalationPolicy pid d) i d = (b, d1)" by (metis surj_pair)
  obtain n1 where n1: "alerts d1 = alerts d @ n1" "map esc_tag n1 = tier_tags i (next_tier now (getEscalationPolicy pid d) i d)"
    using escalate_with_alerts e by (metis snd_conv)
  have b: "b \<longleftrightarrow> next_tier now (getEscalationPolicy pid d) i d \<noteq> None" using escalate_with_fired e by (metis fst_conv)
  let ?f = "if b then f + 1 else f"
  from Cons.prems obtain n2 where n2: "alerts (snd (escalation_direct now work ?f d1)) = alerts d1 @ n2"
    "map esc_tag n2 = concat (map (\<lambda>(i, pid, nm). tier_tags i (next_tier now (getEscalationPolicy pid d1) i d1)) work)"
    "fst (escalation_direct now work ?f d1) =
      ?f + length (filter (\<lambda>(i, pid, nm). next_tier now (getEscalationPolicy pid d1) i d1 \<noteq> None) work)"
    using Cons.IH [of ?f d1] by auto
  have same: "next_tier now (getEscalationPolicy p d1) j d1 = next_tier now (getEscalationPolicy p d) j d"
    if "(j, p, m) \<in> set work" for j p m
  proof -
    have "inc_id j \<noteq> inc_id i" using that Cons.prems x by force
    then have "highestTierFired (inc_id j) d1 = highestTierFired (inc_id j) d"
      using tier_tags_incident [OF n1(2)] by (intro highestTierFired_other [OF n1(1)]) auto
    moreover have "getEscalationPolicy p d1 = getEscalationPolicy p d"
      using escalate_with_frame(1) e by (metis getEscalationPolicy_cong snd_conv)
    ultimately show ?thesis unfolding next_tier_def by (simp only:)
  qed
  have m: "map (\<lambda>(i, pid, nm). tier_tags i (next_tier now (getEscalationPolicy pid d1) i d1)) work =
      map (\<lambda>(i, pid, nm). tier_tags i (next_tier now (getEscalationPolicy pid d) i d)) work"
    using same by auto
  have c: "filter (\<lambda>(i, pid, nm). next_tier now (getEscalationPolicy pid d1) i d1 \<noteq> None) work =
      filter (\<lambda>(i, pid, nm). next_tier now (getEscalationPolicy pid d) i d \<noteq> None) work"
    using same by (intro filter_cong) auto
  have step: "escalation_direct now (x # work) f d = escalation_direct now work ?f d1" using e x by simp
  show ?case
    unfolding step using n1 n2(1) n2(2) [unfolded m] n2(3) [unfolded c] b x by (intro exI [of _ "n1 @ n2"]) simp
qed simp

lemma work_list_distinct:
  assumes "db_inv d" and "distinct (map api_id (monitored_apis d))"
  shows "distinct (map (inc_id \<circ> fst) (listOpenIncidentsForEscalation d))"
proof -
  let ?row = "\<lambda>i m. case escalationPolicyId m of None \<Rightarrow> []
     | Some p \<Rightarrow> if api_id m = inc_apiId i \<and> inc_status i = OPEN then [(i, p, api_name m)] else []"
  have one: "map (inc_id \<circ> fst) (concat (map (?row i) ms)) = [] \<or> map (inc_id \<circ> fst) (concat (map (?row i) ms)) = [inc_id i]"
    if "distinct (map api_id ms)" for i ms
    using that
  proof (induction ms)
    case (Cons m ms)
    have "concat (map (?row i) ms) = []" if "api_id m = inc_apiId i"
      using that Cons.prems by (auto simp: concat_eq_Nil_conv image_iff split: option.splits)
    with Cons show ?case by (auto split: option.split)
  qed simp
  have sub: "distinct (concat (map g is))" if "distinct (map inc_id is)" "\<And>i. g i = [] \<or> g i = [inc_id i]" for g "is"
    using that
  proof (induction "is")
    case (Cons i "is")
    have "x \<in> inc_id ` set is" if "x \<in> set (concat (map g is))" for x
    proof -
      from that obtain j where "j \<in> set is" "x \<in> set (g j)" by auto
      with Cons.prems(2) [of j] show ?thesis by auto
    qed
    then have "inc_id i \<notin> set (concat (map g is))" using Cons.prems(1) by auto
    moreover have "distinct (concat (map g is))" using Cons by auto
    ultimately show ?case using Cons.prems(2) [of i] by auto
  qed simp
  have ids: "distinct (map inc_id (incidents d))"
    using assms(1) by (simp add: db_inv_def incidents_ok_def unique_on_def)
  let ?L = "concat (map (\<lambda>i. concat (map (?row i) (monitored_apis d))) (incidents d))"
  have "distinct (map (inc_id \<circ> fst) ?L)"
    unfolding map_concat [of "inc_id \<circ> fst" "map (\<lambda>i. concat (map (?row i) (monitored_apis d))) (incidents d)"] map_map
    by (rule sub [OF ids]) (unfold comp_apply [of "map (inc_id \<circ> fst)"], rule one [OF assms(2)])
  then have "distinct (map (inc_id \<circ> fst) (sort_key (\<lambda>(i, _, _). startedAt i) ?L))"
    by (simp add: distinct_map)
  then show ?thesis by (simp add: listOpenIncidentsForEscalation_def)
qed

text \<open>C30. A pass implements its specification: on a consistent database whose targets have distinct
  identifiers, the alerts it queues are, incident by incident of the work list, one per
  recipient of the incident's next tier if that tier is due and its condition holds, judged on
  the database at the start of the pass, and nothing else; the counts it returns are the
  number of incidents scanned and of tiers fired.\<close>

theorem escalation_pass_exact:
  assumes "db_inv d" and "distinct (map api_id (monitored_apis d))"
  shows "\<exists>new. alerts (snd (runEscalationCycle now d)) = alerts d @ new \<and>
    map esc_tag new = concat (map (\<lambda>(i, pid, nm). tier_tags i (next_tier now (getEscalationPolicy pid d) i d))
      (listOpenIncidentsForEscalation d)) \<and>
    fst (runEscalationCycle now d) = (length (listOpenIncidentsForEscalation d),
      length (filter (\<lambda>(i, pid, nm). next_tier now (getEscalationPolicy pid d) i d \<noteq> None) (listOpenIncidentsForEscalation d)))"
proof -
  have run: "runEscalationCycle now d = ((length (listOpenIncidentsForEscalation d),
      fst (escalation_direct now (listOpenIncidentsForEscalation d) 0 d)),
      snd (escalation_direct now (listOpenIncidentsForEscalation d) 0 d))"
    unfolding runEscalationCycle_def Let_def by (subst escalation_loop_direct) (simp_all add: split_beta)
  show ?thesis
    unfolding run using escalation_direct_alerts [OF work_list_distinct [OF assms], of now 0 d] by simp
qed

definition sample_policy :: escalation_policy where
  "sample_policy = \<lparr>ep_id = 7, ep_name = ''oncall'', ep_description = None,
     tiers = [\<lparr>delayMinutes = 5, tier_channel = SMS, recipients = [''a'', ''b''], tier_condition_of = Always\<rparr>],
     ep_createdAt = 0, ep_updatedAt = 0\<rparr>"

theorem escalation_pass_exact_witness:
  "let d = sample_open_db\<lparr>escalation_policies := [sample_policy]\<rparr>
   in map (\<lambda>a. (al_recipient a, escalationTier a)) (alerts (snd (runEscalationCycle 300000 d))) = [(''a'', Some 0), (''b'', Some 0)]"
proof -
  let ?d = "sample_open_db\<lparr>escalation_policies := [sample_policy]\<rparr>"
  have inv: "db_inv ?d" using sample_open_db_facts(1) by (simp add: db_inv_def)
  have dist: "distinct (map api_id (monitored_apis ?d))" by (simp add: sample_open_db_def)
  have al: "alerts sample_open_db = []" by (simp add: sample_open_db_def empty_db_def)
  have work: "listOpenIncidentsForEscalation ?d = [(sample_incident, 7, ''payout'')]"
    by (simp add: listOpenIncidentsForEscalation_def sample_open_db_def sample_incident_def sample_api_def)
  have nt: "next_tier 300000 (getEscalationPolicy 7 ?d) sample_incident ?d = Some (0, hd (tiers sample_policy))"
    by (simp add: next_tier_def getEscalationPolicy_def policy_toDomain_def escalationTiersSchema_def escalationTierSchema_def
        sample_policy_def highestTierFired_def tiers_fired_def al tier_at_def tierIsDue_def sample_incident_def)
  from escalation_pass_exact [OF inv dist, of 300000] obtain new where
    "alerts (snd (runEscalationCycle 300000 ?d)) = new" "map esc_tag new = tier_tags sample_incident (Some (0, hd (tiers sample_policy)))"
    by (auto simp: al work nt)
  then show ?thesis
    by (auto simp: Let_def tier_tags_def sample_policy_def esc_tag_def map_eq_Cons_conv)
qed

section \<open>A tier whose condition does not hold\<close>

text \<open>The next tier of the incident is reserved for money-moving targets, and it is not one.\<close>

definition blocked :: "row_id \<Rightarrow> db \<Rightarrow> bool" where
  "blocked k d \<longleftrightarrow> (\<forall>i \<in> set (incidents d). inc_id i = k \<longrightarrow> \<not> isMoneyMovingSnapshot i) \<and>
     (\<forall>p \<in> set (escalation_policies d).
        (case tier_at (tiers (policy_toDomain p)) (highestTierFired k d + 1) of
           None \<Rightarrow> True | Some t \<Rightarrow> tier_condition_of t = Is_money_moving))"

lemma work_incident: "(i, p, nm) \<in> set (listOpenIncidentsForEscalation d) \<Longrightarrow> i \<in> set (incidents d)"
  by (auto simp: listOpenIncidentsForEscalation_def split: option.splits if_splits)

lemma blocked_no_tier:
  assumes "blocked (inc_id i) d" and "i \<in> set (incidents d)"
  shows "next_tier now (getEscalationPolicy pid d) i d = None"
proof (cases "getEscalationPolicy pid d")
  case (Some p)
  then obtain q where q: "q \<in> set (escalation_policies d)" "p = policy_toDomain q"
    unfolding getEscalationPolicy_def by (auto dest: find_SomeD)
  with assms Some show ?thesis by (auto simp: blocked_def next_tier_def split: option.splits)
qed (simp add: next_tier_def)

lemma escalate_with_snapshots:
  "map (\<lambda>j. (inc_id j, isMoneyMovingSnapshot j)) (incidents (snd (escalate_with now policy i d))) =
   map (\<lambda>j. (inc_id j, isMoneyMovingSnapshot j)) (incidents d)"
  by (auto simp: escalate_with_def Let_def escalateIncident_def update_incident_def map_upd_where_inv split: option.split)

lemma escalation_direct_frame:
  "escalation_policies (snd (escalation_direct now work f d)) = escalation_policies d \<and>
   monitored_apis (snd (escalation_direct now work f d)) = monitored_apis d \<and>
   map (\<lambda>j. (inc_id j, isMoneyMovingSnapshot j)) (incidents (snd (escalation_direct now work f d))) =
   map (\<lambda>j. (inc_id j, isMoneyMovingSnapshot j)) (incidents d) \<and>
   (db_inv d \<longrightarrow> db_inv (snd (escalation_direct now work f d)))"
proof (induction work arbitrary: f d)
  case (Cons x work)
  obtain i pid nm where x: "x = (i, pid, nm)" by (cases x)
  obtain b d1 where e: "escalate_with now (getEscalationPolicy pid d) i d = (b, d1)" by (metis surj_pair)
  with escalate_with_frame [of now "getEscalationPolicy pid d" i d] escalate_with_inv [of d now "getEscalationPolicy pid d" i]
    escalate_with_snapshots [of now "getEscalationPolicy pid d" i d] Cons.IH [of "if b then f + 1 else f" d1] x
  show ?case by auto
qed simp

lemma runEscalationCycle_snd:
  "snd (runEscalationCycle now d) = snd (escalation_direct now (listOpenIncidentsForEscalation d) 0 d)"
  unfolding runEscalationCycle_def Let_def by (subst escalation_loop_direct) (simp_all add: split_beta)

lemma runEscalationCycle_inv: "db_inv d \<Longrightarrow> db_inv (snd (runEscalationCycle now d))"
  using escalation_direct_frame by (simp add: runEscalationCycle_snd)

lemma blocked_pass:
  assumes "db_inv d" and "distinct (map api_id (monitored_apis d))" and "blocked k d"
    and d'_def: "d' = snd (runEscalationCycle now d)"
  shows "filter (\<lambda>a. al_incidentId a = Some k) (alerts d') = filter (\<lambda>a. al_incidentId a = Some k) (alerts d)"
    and "blocked k d'"
proof -
  obtain new where new: "alerts d' = alerts d @ new"
    "map esc_tag new = concat (map (\<lambda>(i, pid, nm). tier_tags i (next_tier now (getEscalationPolicy pid d) i d))
      (listOpenIncidentsForEscalation d))"
    unfolding d'_def runEscalationCycle_snd
    using escalation_direct_alerts [OF work_list_distinct [OF assms(1,2)], of now 0 d] by blast
  have none: "al_incidentId a \<noteq> Some k" if "a \<in> set new" for a
  proof
    assume k: "al_incidentId a = Some k"
    from that have "esc_tag a \<in> set (map esc_tag new)" by simp
    then obtain i pid nm where i: "(i, pid, nm) \<in> set (listOpenIncidentsForEscalation d)"
      "esc_tag a \<in> set (tier_tags i (next_tier now (getEscalationPolicy pid d) i d))" unfolding new(2) by auto
    then have "inc_id i = k" using k by (auto simp: tier_tags_def esc_tag_def split: option.splits)
    with blocked_no_tier [of i d] assms(3) work_incident [OF i(1)] i(2) show False by (simp add: tier_tags_def)
  qed
  then have "filter (\<lambda>a. al_incidentId a = Some k) new = []" by (simp add: filter_empty_conv)
  then show "filter (\<lambda>a. al_incidentId a = Some k) (alerts d') = filter (\<lambda>a. al_incidentId a = Some k) (alerts d)"
    by (simp add: new(1))
  have "highestTierFired k d' = highestTierFired k d" using none by (intro highestTierFired_other [OF new(1)]) auto
  moreover have "escalation_policies d' = escalation_policies d"
    and snap: "(\<lambda>j. (inc_id j, isMoneyMovingSnapshot j)) ` set (incidents d') = (\<lambda>j. (inc_id j, isMoneyMovingSnapshot j)) ` set (incidents d)"
    using escalation_direct_frame [of now "listOpenIncidentsForEscalation d" 0 d] unfolding d'_def runEscalationCycle_snd
    by (metis list.set_map)+
  moreover have "\<not> isMoneyMovingSnapshot j" if "j \<in> set (incidents d')" "inc_id j = k" for j
  proof -
    have "(k, isMoneyMovingSnapshot j) \<in> (\<lambda>j. (inc_id j, isMoneyMovingSnapshot j)) ` set (incidents d)"
      using that unfolding snap [symmetric] by force
    with assms(3) show ?thesis by (auto simp: blocked_def)
  qed
  ultimately show "blocked k d'" using assms(3) by (simp add: blocked_def)
qed


definition sample_blocking_policy :: escalation_policy where
  "sample_blocking_policy = sample_policy\<lparr>tiers :=
     [\<lparr>delayMinutes = 0, tier_channel = SMS, recipients = [''treasury''], tier_condition_of = Is_money_moving\<rparr>,
      \<lparr>delayMinutes = 5, tier_channel = EMAIL, recipients = [''manager''], tier_condition_of = Always\<rparr>]\<rparr>"


end
