(* ===== verification/Delivery.thy ===== *)
theory Delivery
  imports Escalation Js_Number
begin

text \<open>
  \<^verbatim>\<open>src/services/alert/delivery.service.ts\<close> and \<^verbatim>\<open>src/services/alert/alert-runner.ts\<close>: the cycle
  that sends pending alerts through their channels, and its combination with the escalation
  pass. A channel is an argument (\<open>send\<close>): its transports report failure as a value and do not
  throw. The current latency of a target and the stored root-cause analysis that enrich the
  text are arguments too, with \<open>None\<close> when they are missing or their lookup fails.
\<close>

section \<open>Texts\<close>

definition humanDuration :: "rat \<Rightarrow> string" where
  "humanDuration seconds =
     (if seconds < 60 then show_int (Math_round seconds) @ ''s''
      else let m = Math_round (fl (seconds / 60))
           in if m < 60 then show_int m @ '' min''
              else show_int (m div 60) @ ''h '' @ show_int (m mod 60) @ ''m'')"

fun show_alert_type :: "alert_type \<Rightarrow> string" where
  "show_alert_type API_DOWN = ''API_DOWN''"
| "show_alert_type API_RECOVERED = ''API_RECOVERED''"
| "show_alert_type API_DEGRADED = ''API_DEGRADED''"
| "show_alert_type HIGH_LATENCY = ''HIGH_LATENCY''"
| "show_alert_type AUTHENTICATION_FAILURE = ''AUTHENTICATION_FAILURE''"
| "show_alert_type REPEATED_FAILURE = ''REPEATED_FAILURE''"
| "show_alert_type FLAPPING_DETECTED = ''FLAPPING_DETECTED''"
| "show_alert_type ESCALATION_TRIGGERED = ''ESCALATION_TRIGGERED''"
| "show_alert_type SLA_BREACH_WARNING = ''SLA_BREACH_WARNING''"
| "show_alert_type SCHEDULER_HEARTBEAT_MISSED = ''SCHEDULER_HEARTBEAT_MISSED''"
| "show_alert_type JOB_EXECUTION_FAILURE = ''JOB_EXECUTION_FAILURE''"

definition subjectFor :: "alert \<Rightarrow> string option \<Rightarrow> string option \<Rightarrow> string" where
  "subjectFor a incNumber targetName =
     (let who = (case targetName of None \<Rightarrow> ''a target''
            | Some n \<Rightarrow> if n = [] then ''a target'' else dquote @ n @ dquote);
          suffix = (case incNumber of None \<Rightarrow> [] | Some n \<Rightarrow> if n = [] then [] else '' ('' @ n @ '')'')
      in case alertType a of
           API_DOWN \<Rightarrow> who @ '' is DOWN'' @ suffix
         | API_DEGRADED \<Rightarrow> who @ '' is DEGRADED'' @ suffix
         | API_RECOVERED \<Rightarrow> who @ '' has RECOVERED'' @ suffix
         | FLAPPING_DETECTED \<Rightarrow> who @ '' is FLAPPING'' @ suffix
         | ESCALATION_TRIGGERED \<Rightarrow> ''Escalation tier '' @
             (case escalationTier a of Some t \<Rightarrow> show_int t | None \<Rightarrow> ''?'') @ '' for '' @
             (case incNumber of Some n \<Rightarrow> n | None \<Rightarrow> who)
         | SCHEDULER_HEARTBEAT_MISSED \<Rightarrow> ''Scheduler missed a run''
         | JOB_EXECUTION_FAILURE \<Rightarrow> ''Health check failed to execute for '' @ who
         | t \<Rightarrow> show_alert_type t @ '' '' @ utf8_em_dash @ '' '' @ who)"

text \<open>The probable cause and the impact of a stored analysis.\<close>

type_synonym stored_rca = "string \<times> string"

definition incident_body :: "timestamp \<Rightarrow> (row_id \<Rightarrow> stored_rca option) \<Rightarrow> incident \<Rightarrow> string" where
  "incident_body now rcaOf i =
     join '' ''
       ([''Service '' @ (if incidentType i = DEGRADATION then ''degraded'' else ''unavailable'') @
           '' for '' @ humanDuration (fl (of_int (now - startedAt i) / 1000)) @ ''.'',
         (case inc_failureType i of Some f \<Rightarrow> show_failure_type f @ '' detected.'' | None \<Rightarrow> ''Failure detected.'')] @
        (case rcaOf (inc_id i) of
           Some (cause, impact) \<Rightarrow> [''Probable cause: '' @ cause, ''Impact: '' @ impact]
         | None \<Rightarrow> if 1 < failureCount i then [''Failures so far: '' @ show_nat (failureCount i) @ ''.''] else []) @
        [''Check the dashboard for details.''])"

definition composeBody ::
    "timestamp \<Rightarrow> (target_id \<Rightarrow> string option) \<Rightarrow> (row_id \<Rightarrow> stored_rca option) \<Rightarrow>
     alert \<Rightarrow> incident option \<Rightarrow> monitored_api option \<Rightarrow> string" where
  "composeBody now latencyOf rcaOf a inc target =
     (case (inc, target) of
        (Some i, Some m) \<Rightarrow>
          if alertType a = API_RECOVERED
          then ''Service restored after '' @
                 humanDuration (of_int (case durationSeconds i of Some s \<Rightarrow> s | None \<Rightarrow> 0)) @ ''.'' @
                 (case latencyOf (api_id m) of None \<Rightarrow> [] | Some l \<Rightarrow> '' Current latency: '' @ l @ '' ms.'') @
                 '' Monitoring resumed.''
          else incident_body now rcaOf i
      | (Some i, None) \<Rightarrow> incident_body now rcaOf i
      | (None, _) \<Rightarrow> ''See the dashboard for detail.'')"

section \<open>The delivery cycle\<close>

record notification =
  n_alertType :: alert_type
  n_severity :: string
  n_subject :: string
  n_body :: string
  n_recipient :: string
  n_incidentNumber :: "string option"
  n_targetName :: "string option"

record delivery_result =
  delivered :: nat
  suppressed :: nat
  failed :: nat

definition notification_for ::
    "timestamp \<Rightarrow> (target_id \<Rightarrow> string option) \<Rightarrow> (row_id \<Rightarrow> stored_rca option) \<Rightarrow> alert \<Rightarrow> db \<Rightarrow> notification" where
  "notification_for now latencyOf rcaOf a d =
     (let inc = (case al_incidentId a of None \<Rightarrow> None | Some k \<Rightarrow> getIncident k d);
          target = (case al_apiId a of None \<Rightarrow> None | Some t \<Rightarrow> findTargetById t d)
      in \<lparr>n_alertType = alertType a,
          n_severity = (case inc of Some i \<Rightarrow> show_severity (inc_severity i)
             | None \<Rightarrow> if alertType a = API_RECOVERED then ''INFO'' else ''HIGH''),
          n_subject = subjectFor a (map_option incidentNumber inc) (map_option api_name target),
          n_body = composeBody now latencyOf rcaOf a inc target, n_recipient = al_recipient a,
          n_incidentNumber = map_option incidentNumber inc, n_targetName = map_option api_name target\<rparr>)"

datatype delivery_step = Suppress string | Deliver bool string

text \<open>What happens to one pending alert: suppressed by a window, or the outcome of its channel.\<close>

definition delivery_decision ::
    "timestamp \<Rightarrow> (alert_channel \<Rightarrow> notification \<Rightarrow> bool \<times> string) \<Rightarrow> (target_id \<Rightarrow> string option) \<Rightarrow>
     (row_id \<Rightarrow> stored_rca option) \<Rightarrow> alert \<Rightarrow> db \<Rightarrow> delivery_step" where
  "delivery_decision now send latencyOf rcaOf a d =
     (case (case al_apiId a of
              None \<Rightarrow> None
            | Some t \<Rightarrow> if alertType a = API_RECOVERED then None else activeWindowForTarget t now d) of
        Some w \<Rightarrow> Suppress (''maintenance window: '' @ mw_reason w)
      | None \<Rightarrow> (case send (al_channel a) (notification_for now latencyOf rcaOf a d) of (ok, detail) \<Rightarrow> Deliver ok detail))"

definition apply_delivery :: "timestamp \<Rightarrow> alert \<Rightarrow> delivery_step \<Rightarrow> delivery_result \<Rightarrow> db \<Rightarrow> delivery_result \<times> db" where
  "apply_delivery now a step res d =
     (case step of
        Suppress detail \<Rightarrow> (res\<lparr>suppressed := suppressed res + 1\<rparr>, markAlert now (al_id a) SUPPRESSED (Some detail) d)
      | Deliver ok detail \<Rightarrow>
          if ok then (res\<lparr>delivered := delivered res + 1\<rparr>, markAlert now (al_id a) SENT (Some detail) d)
          else (res\<lparr>failed := failed res + 1\<rparr>, markAlert now (al_id a) ALERT_FAILED (Some detail) d))"

fun delivery_loop ::
    "timestamp \<Rightarrow> (alert_channel \<Rightarrow> notification \<Rightarrow> bool \<times> string) \<Rightarrow> (target_id \<Rightarrow> string option) \<Rightarrow>
     (row_id \<Rightarrow> stored_rca option) \<Rightarrow> alert list \<Rightarrow> delivery_result \<Rightarrow> db \<Rightarrow> delivery_result \<times> db" where
  "delivery_loop now send lat rcaOf [] res d = (res, d)"
| "delivery_loop now send lat rcaOf (a # as) res d =
     (case apply_delivery now a (delivery_decision now send lat rcaOf a d) res d of
        (res', d') \<Rightarrow> delivery_loop now send lat rcaOf as res' d')"

definition runDeliveryCycle ::
    "timestamp \<Rightarrow> (alert_channel \<Rightarrow> notification \<Rightarrow> bool \<times> string) \<Rightarrow> (target_id \<Rightarrow> string option) \<Rightarrow>
     (row_id \<Rightarrow> stored_rca option) \<Rightarrow> db \<Rightarrow> delivery_result \<times> db" where
  "runDeliveryCycle now send lat rcaOf d =
     delivery_loop now send lat rcaOf (listPendingAlerts 200 d) \<lparr>delivered = 0, suppressed = 0, failed = 0\<rparr> d"

section \<open>The alert runner\<close>

text \<open>The throttle of the anomaly scan: whether it runs now, and the new time of the last scan.\<close>

definition maybeScanAnomalies :: "timestamp \<Rightarrow> timestamp \<Rightarrow> bool \<times> timestamp" where
  "maybeScanAnomalies now lastScan = (if now - lastScan < 5 * 60000 then (False, lastScan) else (True, now))"

definition alert_cycle ::
    "timestamp \<Rightarrow> (alert_channel \<Rightarrow> notification \<Rightarrow> bool \<times> string) \<Rightarrow> (target_id \<Rightarrow> string option) \<Rightarrow>
     (row_id \<Rightarrow> stored_rca option) \<Rightarrow> timestamp \<Rightarrow> db \<Rightarrow> (bool \<times> timestamp) \<times> db" where
  "alert_cycle now send lat rcaOf lastScan d =
     (maybeScanAnomalies now lastScan, snd (runDeliveryCycle now send lat rcaOf (snd (runEscalationCycle now d))))"

section \<open>Every pending alert is settled\<close>

fun step_status :: "delivery_step \<Rightarrow> alert_status" where
  "step_status (Suppress _) = SUPPRESSED"
| "step_status (Deliver ok _) = (if ok then SENT else ALERT_FAILED)"

fun step_detail :: "delivery_step \<Rightarrow> string" where
  "step_detail (Suppress t) = t"
| "step_detail (Deliver _ t) = t"

lemma apply_delivery_snd:
  "snd (apply_delivery now a step res d) = markAlert now (al_id a) (step_status step) (Some (step_detail step)) d"
  by (cases step) (auto simp: apply_delivery_def)

lemma apply_delivery_count:
  "delivered (fst (apply_delivery now a step res d)) + suppressed (fst (apply_delivery now a step res d)) +
     failed (fst (apply_delivery now a step res d)) = Suc (delivered res + suppressed res + failed res)"
  by (cases step) (auto simp: apply_delivery_def)

lemma markAlert_frame [simp]:
  "incidents (markAlert now k st m d) = incidents d" "monitored_apis (markAlert now k st m d) = monitored_apis d"
  "maintenance_windows (markAlert now k st m d) = maintenance_windows d"
  by (simp_all add: markAlert_def)

lemma delivery_decision_cong:
  "incidents d' = incidents d \<Longrightarrow> monitored_apis d' = monitored_apis d \<Longrightarrow> maintenance_windows d' = maintenance_windows d \<Longrightarrow>
   delivery_decision now send lat rcaOf a d' = delivery_decision now send lat rcaOf a d"
  unfolding delivery_decision_def notification_for_def getIncident_def findTargetById_def activeWindowForTarget_def
  by (simp only:)

lemma delivery_loop_inv: "db_inv d \<Longrightarrow> db_inv (snd (delivery_loop now send lat rcaOf as res d))"
proof (induction as arbitrary: res d)
  case (Cons a as)
  obtain res' d' where s: "apply_delivery now a (delivery_decision now send lat rcaOf a d) res d = (res', d')" by (metis surj_pair)
  then have "db_inv d'" using Cons.prems apply_delivery_snd markAlert_inv by (metis snd_conv)
  with Cons.IH s show ?case by simp
qed simp

text \<open>The update of one row, given the decisions taken on the database at the start.\<close>

definition settle :: "timestamp \<Rightarrow> (alert \<Rightarrow> delivery_step) \<Rightarrow> alert list \<Rightarrow> alert \<Rightarrow> alert" where
  "settle now dec as x =
     (case find (\<lambda>a. al_id a = al_id x) as of
        None \<Rightarrow> x
      | Some a \<Rightarrow> x\<lparr>al_status := step_status (dec a),
                   al_sentAt := (if step_status (dec a) = SENT then Some now else al_sentAt x),
                   al_errorMessage := Some (step_detail (dec a))\<rparr>)"

lemma settle_Nil [simp]: "settle now dec [] x = x"
  by (simp add: settle_def)

lemma map_settle_Nil [simp]: "map (settle now dec []) xs = xs"
  by (induction xs) simp_all

lemma delivery_loop_alerts:
  assumes "distinct (map al_id as)"
  shows "alerts (snd (delivery_loop now send lat rcaOf as res d)) =
      map (settle now (\<lambda>a. delivery_decision now send lat rcaOf a d) as) (alerts d) \<and>
    (let r = fst (delivery_loop now send lat rcaOf as res d)
     in delivered r + suppressed r + failed r = delivered res + suppressed res + failed res + length as)"
  using assms
proof (induction as arbitrary: res d)
  case (Cons a as)
  let ?st = "delivery_decision now send lat rcaOf a d"
  obtain res' d' where s: "apply_delivery now a ?st res d = (res', d')" by (metis surj_pair)
  have d': "d' = markAlert now (al_id a) (step_status ?st) (Some (step_detail ?st)) d"
    using apply_delivery_snd s by (metis snd_conv)
  have dec: "delivery_decision now send lat rcaOf x d' = delivery_decision now send lat rcaOf x d" for x
    by (rule delivery_decision_cong) (simp_all add: d')
  have notin: "find (\<lambda>x. al_id x = al_id a) as = None" using Cons.prems by (auto simp: find_eq_None image_iff)
  have row: "settle now (\<lambda>a. delivery_decision now send lat rcaOf a d) as
       (if al_id x = al_id a then x\<lparr>al_status := step_status ?st,
          al_sentAt := (if step_status ?st = SENT then Some now else al_sentAt x),
          al_errorMessage := Some (step_detail ?st)\<rparr> else x) =
     settle now (\<lambda>a. delivery_decision now send lat rcaOf a d) (a # as) x" for x
    using notin by (auto simp: settle_def)
  have "alerts d' = map (\<lambda>x. if al_id x = al_id a then x\<lparr>al_status := step_status ?st,
          al_sentAt := (if step_status ?st = SENT then Some now else al_sentAt x),
          al_errorMessage := Some (step_detail ?st)\<rparr> else x) (alerts d)"
    by (simp add: d' markAlert_def upd_where_def)
  then have "map (settle now (\<lambda>a. delivery_decision now send lat rcaOf a d) as) (alerts d') =
      map (settle now (\<lambda>a. delivery_decision now send lat rcaOf a d) (a # as)) (alerts d)"
    by (simp add: row)
  moreover have "delivered res' + suppressed res' + failed res' = Suc (delivered res + suppressed res + failed res)"
    using apply_delivery_count [of now a ?st res d] s by simp
  ultimately show ?case using Cons.IH [of res' d'] Cons.prems s by (simp add: dec Let_def)
qed simp

lemma pending_distinct: "db_inv d \<Longrightarrow> distinct (map al_id (listPendingAlerts n d))"
proof -
  assume "db_inv d"
  then have "distinct (map al_id (filter (\<lambda>a. al_status a = PENDING) (alerts d)))"
    by (auto simp: db_inv_def alerts_ok_def unique_on_def intro: distinct_map_filter)
  then have "distinct (map al_id (sort_key al_createdAt (filter (\<lambda>a. al_status a = PENDING) (alerts d))))"
    by (simp add: distinct_map)
  then show ?thesis by (simp add: listPendingAlerts_def take_map [symmetric])
qed

text \<open>C31. A delivery cycle settles each of the (at most 200 oldest) pending alerts exactly once,
  judged on the database at its start: suppressed when a maintenance window of its target, or a
  global one, is active and the alert is not a recovery, otherwise sent or failed as its channel
  reported. Every other alert keeps its row, and the three counts add up to the number of
  alerts handled.\<close>

theorem delivery_settles_pending:
  assumes "db_inv d"
  shows "alerts (snd (runDeliveryCycle now send lat rcaOf d)) =
      map (settle now (\<lambda>a. delivery_decision now send lat rcaOf a d) (listPendingAlerts 200 d)) (alerts d) \<and>
    (let r = fst (runDeliveryCycle now send lat rcaOf d) in delivered r + suppressed r + failed r = length (listPendingAlerts 200 d)) \<and>
    (length (filter (\<lambda>a. al_status a = PENDING) (alerts d)) \<le> 200 \<longrightarrow>
       (\<forall>x \<in> set (alerts (snd (runDeliveryCycle now send lat rcaOf d))). al_status x \<noteq> PENDING))"
proof -
  let ?as = "listPendingAlerts 200 d" and ?dec = "\<lambda>a. delivery_decision now send lat rcaOf a d"
  note l = delivery_loop_alerts [OF pending_distinct [OF assms, of 200], of now send lat rcaOf
      "\<lparr>delivered = 0, suppressed = 0, failed = 0\<rparr>" d]
  have "al_status (settle now ?dec ?as x) \<noteq> PENDING"
    if "length (filter (\<lambda>a. al_status a = PENDING) (alerts d)) \<le> 200" "x \<in> set (alerts d)" for x
  proof (cases "find (\<lambda>a. al_id a = al_id x) ?as")
    case None
    have "set ?as = {a \<in> set (alerts d). al_status a = PENDING}" using that(1) by (auto simp: listPendingAlerts_def)
    with None that(2) have "al_status x \<noteq> PENDING" by (auto simp: find_eq_None)
    with None show ?thesis by (simp add: settle_def)
  next
    case (Some a)
    have "step_status s \<noteq> PENDING" for s by (cases s) auto
    with Some show ?thesis by (simp add: settle_def)
  qed
  with l show ?thesis by (auto simp: runDeliveryCycle_def Let_def)
qed

definition sample_pending_db :: db where
  "sample_pending_db =
     empty_db\<lparr>monitored_apis := [sample_api], next_id := 3,
       alerts := [\<lparr>al_id = 0, al_incidentId = None, al_apiId = Some ''t1'', alertType = API_DOWN, al_channel = EMAIL,
           al_recipient = ''ops'', al_status = PENDING, escalationTier = None, al_sentAt = None,
           al_errorMessage = None, al_createdAt = 10\<rparr>,
         \<lparr>al_id = 1, al_incidentId = None, al_apiId = Some ''t1'', alertType = API_RECOVERED, al_channel = SMS,
           al_recipient = ''ops'', al_status = PENDING, escalationTier = None, al_sentAt = None,
           al_errorMessage = None, al_createdAt = 5\<rparr>],
       maintenance_windows := [\<lparr>mw_id = 2, mw_targetId = None, mw_startsAt = 0, mw_endsAt = 1000, mw_reason = ''deploy'',
           mw_ticketRef = None, mw_createdBy = None, mw_createdAt = 0\<rparr>]\<rparr>"

theorem delivery_settles_pending_witness:
  "map al_status (alerts (snd (runDeliveryCycle 500 (\<lambda>_ _. (True, ''ok'')) (\<lambda>_. None) (\<lambda>_. None) sample_pending_db))) =
     [SUPPRESSED, SENT]"
proof -
  let ?send = "\<lambda>_ _. (True, ''ok'')"
  have inv: "db_inv sample_pending_db"
    by (simp add: db_inv_def table_ok_defs unique_on_def sample_pending_db_def empty_db_def)
  let ?e = "(alerts sample_pending_db) ! 0" and ?r = "(alerts sample_pending_db) ! 1"
  have al: "alerts sample_pending_db = [?e, ?r]" by (simp add: sample_pending_db_def)
  have pend: "listPendingAlerts 200 sample_pending_db = [?r, ?e]"
    by (simp add: listPendingAlerts_def sample_pending_db_def)
  have ids: "al_id ?e = 0" "al_id ?r = 1" by (simp_all add: sample_pending_db_def)
  have dec: "step_status (delivery_decision 500 ?send (\<lambda>_. None) (\<lambda>_. None) ?e sample_pending_db) = SUPPRESSED"
    "step_status (delivery_decision 500 ?send (\<lambda>_. None) (\<lambda>_. None) ?r sample_pending_db) = SENT"
    by (simp_all add: delivery_decision_def activeWindowForTarget_def sample_pending_db_def)
  have "alerts (snd (runDeliveryCycle 500 ?send (\<lambda>_. None) (\<lambda>_. None) sample_pending_db)) =
      map (settle 500 (\<lambda>a. delivery_decision 500 ?send (\<lambda>_. None) (\<lambda>_. None) a sample_pending_db) [?r, ?e]) [?e, ?r]"
    using delivery_settles_pending [OF inv, of 500 ?send "\<lambda>_. None" "\<lambda>_. None"] by (simp only: pend al [symmetric])
  then show ?thesis using dec ids by (simp add: settle_def)
qed

text \<open>Recoveries are never suppressed, and suppression is never silent about its cause: an alert
  is suppressed only if it concerns a target, is not a recovery and a window covering that
  target (or all targets) is active now, and it always is in that case.\<close>

theorem suppressed_iff_window:
  "(\<exists>r. delivery_decision now send lat rcaOf a d = Suppress r) \<longleftrightarrow>
     alertType a \<noteq> API_RECOVERED \<and>
     (\<exists>t. al_apiId a = Some t \<and> (\<exists>w \<in> set (maintenance_windows d). (mw_targetId w = Some t \<or> mw_targetId w = None) \<and>
        mw_startsAt w \<le> now \<and> now < mw_endsAt w))"
proof -
  have w: "(\<exists>w \<in> set (maintenance_windows d). (mw_targetId w = Some t \<or> mw_targetId w = None) \<and>
      mw_startsAt w \<le> now \<and> now < mw_endsAt w) \<longleftrightarrow> activeWindowForTarget t now d \<noteq> None" for t
    using activeWindowForTarget_None_iff [of t now d] by auto
  show ?thesis
    unfolding w by (auto simp: delivery_decision_def split: option.splits prod.splits)
qed

end
