(* ===== verification/Policy_Service.thy ===== *)
theory Policy_Service
  imports Delivery
begin

text \<open>
  \<^verbatim>\<open>src/services/alert/policy.service.ts\<close>: administration of escalation policies and of
  maintenance windows, each change with its audit row and its errors as values. An input that
  is not valid JSON of the schema's shape is \<open>None\<close>, as is a string that is not a timestamp.
\<close>

section \<open>Escalation policies\<close>

definition policy_not_found :: "row_id \<Rightarrow> app_error" where
  "policy_not_found polId = NotFoundError (''Escalation policy '' @ show_nat polId @ '' not found'')"

definition getEscalationPolicyById :: "row_id \<Rightarrow> db \<Rightarrow> app_error + escalation_policy" where
  "getEscalationPolicyById polId d =
     (case getEscalationPolicy polId d of None \<Rightarrow> Inl (policy_not_found polId) | Some p \<Rightarrow> Inr p)"

definition parse_tiers :: "escalation_tier list option \<Rightarrow> app_error + escalation_tier list" where
  "parse_tiers ts =
     (case ts of
        None \<Rightarrow> Inl (ZodError ''tiers'')
      | Some xs \<Rightarrow> if escalationTiersSchema xs then Inr xs else Inl (ZodError ''tiers''))"

definition createEscalationPolicy ::
    "timestamp \<Rightarrow> string \<Rightarrow> string option \<Rightarrow> escalation_tier list option \<Rightarrow> audit_actor \<Rightarrow> db \<Rightarrow>
     (app_error + escalation_policy) \<times> db" where
  "createEscalationPolicy now nm desc ts actor d =
     (case parse_tiers ts of
        Inl e \<Rightarrow> (Inl e, d)
      | Inr xs \<Rightarrow>
          (case createEscalationPolicy_row now nm desc xs d of
             (Inl e, d1) \<Rightarrow> (Inl (DbError e), d1)
           | (Inr p, d1) \<Rightarrow>
               (Inr p, recordAudit actor ''escalation_policy.created'' ''escalation_policy'' (Some (Row (ep_id p)))
                  (Some (''Created escalation policy '' @ dquote @ ep_name p @ dquote @ '' ('' @
                     show_nat (length xs) @ '' tiers)'')) d1)))"

text \<open>The tiers of the update: \<open>None\<close> when the field is absent, \<open>Some None\<close> when it is malformed.\<close>

definition updateEscalationPolicy ::
    "timestamp \<Rightarrow> row_id \<Rightarrow> string option \<Rightarrow> string option \<Rightarrow> escalation_tier list option option \<Rightarrow>
     audit_actor \<Rightarrow> db \<Rightarrow> (app_error + escalation_policy) \<times> db" where
  "updateEscalationPolicy now polId nm desc ts actor d =
     (case (case ts of None \<Rightarrow> Inr None | Some raw \<Rightarrow> map_sum (\<lambda>e. e) Some (parse_tiers raw)) of
        Inl e \<Rightarrow> (Inl e, d)
      | Inr newTiers \<Rightarrow>
          (case updateEscalationPolicy_row now polId nm desc newTiers d of
             (Inl e, d1) \<Rightarrow> (Inl (DbError e), d1)
           | (Inr None, d1) \<Rightarrow> (Inl (policy_not_found polId), d1)
           | (Inr (Some p), d1) \<Rightarrow>
               (Inr p, recordAudit actor ''escalation_policy.updated'' ''escalation_policy'' (Some (Row polId))
                  (Some (''Updated escalation policy '' @ dquote @ ep_name p @ dquote)) d1)))"

section \<open>Maintenance windows\<close>

definition thirty_days_ms :: int where
  "thirty_days_ms = 30 * 24 * 60 * 60 * 1000"

definition createMaintenanceWindow ::
    "timestamp \<Rightarrow> target_id option \<Rightarrow> timestamp option \<Rightarrow> timestamp option \<Rightarrow> string \<Rightarrow> string option \<Rightarrow>
     audit_actor \<Rightarrow> db \<Rightarrow> (app_error + maintenance_window) \<times> db" where
  "createMaintenanceWindow now targetId startsAt endsAt reason ticketRef actor d =
     (case (startsAt, endsAt) of
        (Some s, Some e) \<Rightarrow>
          if e \<le> s then (Inl (ValidationError ''endsAt must be after startsAt''), d)
          else if thirty_days_ms < e - s
          then (Inl (ValidationError (''A maintenance window may not exceed 30 days '' @ utf8_em_dash @ '' it must expire'')), d)
          else if targetId = Some [] then (Inl (DbError (Check_violation ''uuid'')), d)
          else if \<exists>t. targetId = Some t \<and> findTargetById t d = None
          then (Inl (NotFoundError (''Target '' @ the targetId @ '' not found'')), d)
          else (case createMaintenanceWindow_row now targetId s e reason ticketRef (actor_userId actor) d of
                  (w, d1) \<Rightarrow>
                    (Inr w, recordAudit actor ''maintenance_window.created'' ''maintenance_window'' (Some (Row (mw_id w)))
                       (Some (''Maintenance window '' @ (if mw_targetId w \<noteq> None then ''for a target'' else ''(global)'') @
                          '': '' @ mw_reason w)) d1))
      | _ \<Rightarrow> (Inl (ValidationError ''startsAt and endsAt must be valid timestamps''), d))"

definition deleteMaintenanceWindow :: "row_id \<Rightarrow> audit_actor \<Rightarrow> db \<Rightarrow> (app_error + unit) \<times> db" where
  "deleteMaintenanceWindow winId actor d =
     (case deleteMaintenanceWindow_row winId d of
        (removed, d1) \<Rightarrow>
          if \<not> removed then (Inl (NotFoundError (''Maintenance window '' @ show_nat winId @ '' not found'')), d1)
          else (Inr (), recordAudit actor ''maintenance_window.deleted'' ''maintenance_window'' (Some (Row winId))
                  (Some ''Maintenance window ended early'') d1))"

section \<open>Invariants\<close>

lemma createEscalationPolicy_inv:
  assumes "db_inv d" shows "db_inv (snd (createEscalationPolicy now nm ds ts act d))"
proof (cases "parse_tiers ts")
  case (Inr xs)
  with policy_window_inv(1) [OF assms, of now nm ds xs] show ?thesis
    by (auto simp: createEscalationPolicy_def timeline_inv split: sum.splits prod.splits)
qed (simp add: createEscalationPolicy_def assms)

lemma updateEscalationPolicy_inv:
  assumes "db_inv d" shows "db_inv (snd (updateEscalationPolicy now k nm ds ts act d))"
proof (cases "case ts of None \<Rightarrow> Inr None | Some raw \<Rightarrow> map_sum (\<lambda>e. e) Some (parse_tiers raw)")
  case (Inr newTiers)
  with policy_window_inv(2) [OF assms, of now k nm ds newTiers] show ?thesis
    by (auto simp: updateEscalationPolicy_def timeline_inv split: sum.splits prod.splits option.splits)
qed (simp add: updateEscalationPolicy_def assms)

lemma createMaintenanceWindow_inv:
  "db_inv d \<Longrightarrow> db_inv (snd (createMaintenanceWindow now t s e r tk act d))"
  using policy_window_inv(3) [of d now t "the s" "the e" r tk "actor_userId act"]
  by (auto simp: createMaintenanceWindow_def timeline_inv split: prod.splits option.splits)

lemma deleteMaintenanceWindow_inv: "db_inv d \<Longrightarrow> db_inv (snd (deleteMaintenanceWindow k act d))"
  using policy_window_inv(4) [of d k]
  by (auto simp: deleteMaintenanceWindow_def timeline_inv split: prod.splits)

lemmas policy_service_inv =
  createEscalationPolicy_inv updateEscalationPolicy_inv createMaintenanceWindow_inv deleteMaintenanceWindow_inv

definition window_ok :: "maintenance_window \<Rightarrow> bool" where
  "window_ok w \<longleftrightarrow> mw_startsAt w < mw_endsAt w \<and> mw_endsAt w - mw_startsAt w \<le> thirty_days_ms"

definition policies_ok :: "db \<Rightarrow> bool" where
  "policies_ok d \<longleftrightarrow> unique_on (\<lambda>_. True) ep_name (escalation_policies d) \<and>
     unique_on (\<lambda>_. True) ep_id (escalation_policies d) \<and>
     (\<forall>p \<in> set (escalation_policies d). escalationTiersSchema (tiers p) \<and> ep_id p < next_id d)"

datatype policy_op =
    Op_create_policy string "string option" "escalation_tier list option"
  | Op_update_policy row_id "string option" "string option" "escalation_tier list option option"
  | Op_create_window "target_id option" "timestamp option" "timestamp option" string "string option"
  | Op_delete_window row_id

fun policy_step :: "audit_actor \<Rightarrow> timestamp \<times> policy_op \<Rightarrow> db \<Rightarrow> db" where
  "policy_step act (now, Op_create_policy nm ds ts) d = snd (createEscalationPolicy now nm ds ts act d)"
| "policy_step act (now, Op_update_policy k nm ds ts) d = snd (updateEscalationPolicy now k nm ds ts act d)"
| "policy_step act (now, Op_create_window t s e r tk) d = snd (createMaintenanceWindow now t s e r tk act d)"
| "policy_step act (now, Op_delete_window k) d = snd (deleteMaintenanceWindow k act d)"

lemma recordAudit_frame [simp]:
  "maintenance_windows (recordAudit act a et k s d) = maintenance_windows d"
  "escalation_policies (recordAudit act a et k s d) = escalation_policies d"
  by (simp_all add: recordAudit_def)

lemma createMaintenanceWindow_ok:
  "list_all window_ok (maintenance_windows d) \<Longrightarrow>
   list_all window_ok (maintenance_windows (snd (createMaintenanceWindow now t s e r tk act d)))"
  by (auto simp: createMaintenanceWindow_def createMaintenanceWindow_row_def Let_def window_ok_def split: option.splits)

lemma policy_step_windows:
  assumes "list_all window_ok (maintenance_windows d)"
  shows "list_all window_ok (maintenance_windows (policy_step act (now, po) d))"
proof (cases po)
  case (Op_create_policy nm ds ts)
  then show ?thesis using assms
    by (auto simp: createEscalationPolicy_def createEscalationPolicy_row_def Let_def split: sum.splits)
next
  case (Op_update_policy k nm ds ts)
  then show ?thesis using assms
    by (auto simp: updateEscalationPolicy_def updateEscalationPolicy_row_def Let_def split: sum.splits option.splits)
next
  case (Op_create_window t s e r tk)
  then show ?thesis using assms by (simp add: createMaintenanceWindow_ok)
next
  case (Op_delete_window k)
  then show ?thesis using assms
    by (auto simp: deleteMaintenanceWindow_def deleteMaintenanceWindow_row_def list_all_iff)
qed

lemma parse_tiers_InrD: "parse_tiers ts = Inr xs \<Longrightarrow> escalationTiersSchema xs"
  by (auto simp: parse_tiers_def split: option.splits if_splits)

text \<open>Parsed tiers survive the round trip through the table.\<close>

lemma policy_toDomain_id: "escalationTiersSchema (tiers p) \<Longrightarrow> policy_toDomain p = p"
  by (simp add: policy_toDomain_def)

lemma unique_name_upd:
  assumes "unique_on (\<lambda>_. True) ep_name ps" and "unique_on (\<lambda>_. True) ep_id ps"
    and "\<And>n. nm = Some n \<Longrightarrow> \<forall>q \<in> set ps. ep_id q \<noteq> k \<longrightarrow> ep_name q \<noteq> n"
    and "\<And>p. ep_name (f p) = (case nm of Some n \<Rightarrow> n | None \<Rightarrow> ep_name p)"
  shows "unique_on (\<lambda>_. True) ep_name (upd_where (\<lambda>p. ep_id p = k) f ps)"
  using assms(1-3)
proof (induction ps)
  case (Cons p ps)
  then have IH: "unique_on (\<lambda>_. True) ep_name (upd_where (\<lambda>p. ep_id p = k) f ps)" by (auto simp: unique_on_def)
  have "ep_name (if ep_id p = k then f p else p) \<notin> ep_name ` set (upd_where (\<lambda>p. ep_id p = k) f ps)"
    using Cons.prems by (cases nm) (auto simp: unique_on_def set_upd_where image_iff assms(4))
  with IH show ?case by (auto simp: unique_on_def)
qed simp

lemma recordAudit_next_id [simp]: "next_id (recordAudit act a et k s d) = next_id d"
  by (simp add: recordAudit_def)

lemma createEscalationPolicy_ok:
  assumes "policies_ok d" shows "policies_ok (snd (createEscalationPolicy now nm ds ts act d))"
proof (cases "parse_tiers ts")
  case (Inr xs)
  have "ep_id p \<noteq> next_id d" if "p \<in> set (escalation_policies d)" for p
    using assms that by (auto simp: policies_ok_def)
  with assms Inr parse_tiers_InrD [OF Inr] show ?thesis
    by (auto simp: createEscalationPolicy_def createEscalationPolicy_row_def Let_def policies_ok_def unique_on_snoc
        less_Suc_eq)
qed (simp add: createEscalationPolicy_def assms)

lemma updateEscalationPolicy_ok:
  assumes "policies_ok d" shows "policies_ok (snd (updateEscalationPolicy now k nm ds ts act d))"
proof (cases "case ts of None \<Rightarrow> Inr None | Some raw \<Rightarrow> map_sum (\<lambda>e. e) Some (parse_tiers raw)")
  case (Inr newTiers)
  have valid: "escalationTiersSchema xs" if "newTiers = Some xs" for xs
    using Inr that by (cases "parse_tiers (the ts)") (auto split: option.splits dest: parse_tiers_InrD)
  let ?f = "\<lambda>p. p\<lparr>ep_name := (case nm of Some n \<Rightarrow> n | None \<Rightarrow> ep_name p),
        ep_description := (case ds of Some x \<Rightarrow> Some x | None \<Rightarrow> ep_description p),
        tiers := (case newTiers of Some x \<Rightarrow> x | None \<Rightarrow> tiers p), ep_updatedAt := now\<rparr>"
  let ?ps = "upd_where (\<lambda>p. ep_id p = k) ?f (escalation_policies d)"
  have ids: "unique_on (\<lambda>_. True) ep_id ?ps"
    using assms by (simp add: unique_on_upd_inv [where k = ep_id] policies_ok_def)
  have tr: "\<forall>p \<in> set ?ps. escalationTiersSchema (tiers p) \<and> ep_id p < next_id d"
    using assms valid by (auto simp: policies_ok_def set_upd_where split: option.splits)
  have "unique_on (\<lambda>_. True) ep_name ?ps"
    if "\<not> ((\<exists>p \<in> set (escalation_policies d). ep_id p = k) \<and>
      (\<exists>n. nm = Some n \<and> (\<exists>q \<in> set (escalation_policies d). ep_id q \<noteq> k \<and> ep_name q = n)))"
  proof (cases "\<exists>p \<in> set (escalation_policies d). ep_id p = k")
    case True
    then show ?thesis using that assms by (intro unique_name_upd [where nm = nm]) (auto simp: policies_ok_def)
  next
    case False
    then show ?thesis using assms by (subst upd_where_none) (auto simp: policies_ok_def)
  qed
  with ids tr assms Inr show ?thesis
    by (auto simp: updateEscalationPolicy_def updateEscalationPolicy_row_def Let_def policies_ok_def
        split: option.splits if_splits)
qed (simp add: updateEscalationPolicy_def assms)

lemma policy_step_policies:
  assumes "policies_ok d" shows "policies_ok (policy_step act (now, po) d)"
proof (cases po)
  case (Op_create_window t s e r tk)
  then show ?thesis using assms
    by (auto simp: createMaintenanceWindow_def createMaintenanceWindow_row_def Let_def policies_ok_def split: option.splits)
next
  case (Op_delete_window k)
  then show ?thesis using assms
    by (auto simp: deleteMaintenanceWindow_def deleteMaintenanceWindow_row_def policies_ok_def)
qed (simp_all add: assms createEscalationPolicy_ok updateEscalationPolicy_ok)

lemma policy_steps_ok:
  assumes "policies_ok d" and "list_all window_ok (maintenance_windows d)"
  shows "policies_ok (fold (policy_step act) ops d) \<and> list_all window_ok (maintenance_windows (fold (policy_step act) ops d))"
  using assms
proof (induction ops arbitrary: d)
  case (Cons po ops)
  then show ?case by (cases po) (simp add: policy_step_policies policy_step_windows)
qed simp

text \<open>Whatever sequence of administrative operations runs, maintenance always expires and
  policies stay usable: a window that suppresses alerts at some moment ends within thirty days
  of that moment, and every policy in the table is read back with the tiers that were stored,
  all of them valid, so that the fallback to an empty list never hides a policy.\<close>

theorem administration_stays_bounded:
  assumes "policies_ok d" and "list_all window_ok (maintenance_windows d)"
  shows "(\<forall>t when w. activeWindowForTarget t when (fold (policy_step act) ops d) = Some w \<longrightarrow>
       when < mw_endsAt w \<and> mw_endsAt w \<le> when + thirty_days_ms) \<and>
     (\<forall>k p. find (\<lambda>p. ep_id p = k) (escalation_policies (fold (policy_step act) ops d)) = Some p \<longrightarrow>
       getEscalationPolicyById k (fold (policy_step act) ops d) = Inr p \<and> escalationTiersSchema (tiers p))"
proof -
  let ?d = "fold (policy_step act) ops d"
  note ok = policy_steps_ok [OF assms, of act ops]
  have "when < mw_endsAt w \<and> mw_endsAt w \<le> when + thirty_days_ms"
    if "activeWindowForTarget t when ?d = Some w" for t "when" w
  proof -
    from activeWindowForTarget_SomeD [OF that] ok have "window_ok w" "mw_startsAt w \<le> when" "when < mw_endsAt w"
      by (auto simp: list_all_iff)
    then show ?thesis by (simp add: window_ok_def)
  qed
  moreover have "getEscalationPolicyById k ?d = Inr p \<and> escalationTiersSchema (tiers p)"
    if "find (\<lambda>p. ep_id p = k) (escalation_policies ?d) = Some p" for k p
  proof -
    from find_SomeD [OF that] ok have "escalationTiersSchema (tiers p)" by (auto simp: policies_ok_def)
    with that show ?thesis by (simp add: getEscalationPolicyById_def getEscalationPolicy_def policy_toDomain_id)
  qed
  ultimately show ?thesis by blast
qed

definition sample_actor :: audit_actor where
  "sample_actor = \<lparr>actor_userId = Some 1, actor_label = None\<rparr>"

theorem administration_stays_bounded_witness:
  "activeWindowForTarget ''t1'' 50 (policy_step sample_actor (0, Op_create_window None (Some 10) (Some 100) ''x'' None) empty_db) \<noteq> None \<and>
   activeWindowForTarget ''t1'' thirty_days_ms
     (fold (policy_step sample_actor) [(0, Op_create_window None (Some 10) (Some 100) ''x'' None)] empty_db) = None"
proof -
  let ?ops = "[(0, Op_create_window None (Some 10) (Some 100) ''x'' None)]"
  let ?d = "fold (policy_step sample_actor) ?ops empty_db"
  have w: "maintenance_windows ?d = [\<lparr>mw_id = 0, mw_targetId = None, mw_startsAt = 10, mw_endsAt = 100, mw_reason = ''x'',
       mw_ticketRef = None, mw_createdBy = Some 1, mw_createdAt = 0\<rparr>]"
    by (simp add: createMaintenanceWindow_def createMaintenanceWindow_row_def Let_def thirty_days_ms_def empty_db_def sample_actor_def)
  have "policies_ok empty_db" "list_all window_ok (maintenance_windows empty_db)"
    by (simp_all add: policies_ok_def empty_db_def unique_on_def)
  from administration_stays_bounded [OF this, of sample_actor ?ops]
  have "thirty_days_ms < mw_endsAt v" if "activeWindowForTarget ''t1'' thirty_days_ms ?d = Some v" for v
    using that by blast
  then have "activeWindowForTarget ''t1'' thirty_days_ms ?d \<noteq> Some v" if "mw_endsAt v = 100" for v
    using that by (fastforce simp: thirty_days_ms_def)
  moreover have "activeWindowForTarget ''t1'' 50 ?d \<noteq> None"
    using w by (auto simp: activeWindowForTarget_None_iff simp del: fold_simps)
  ultimately show ?thesis
    using activeWindowForTarget_SomeD [of "''t1''" thirty_days_ms ?d] w
    by (cases "activeWindowForTarget ''t1'' thirty_days_ms ?d") auto
qed

lemma activeWindow_snoc:
  "maintenance_windows d' = maintenance_windows d @ [w] \<Longrightarrow>
   activeWindowForTarget u m d' \<noteq> None \<longleftrightarrow> activeWindowForTarget u m d \<noteq> None \<or>
     (mw_targetId w = None \<or> mw_targetId w = Some u) \<and> mw_startsAt w \<le> m \<and> m < mw_endsAt w"
  by (auto simp: activeWindowForTarget_None_iff simp del: not_None_eq)

lemma createMaintenanceWindow_cases:
  assumes "createMaintenanceWindow now t s e r tk act d = (res, d')"
  obtains (error) err where "res = Inl err" "d' = d"
      "s = None \<or> e = None \<or> the e \<le> the s \<or> thirty_days_ms < the e - the s \<or> t = Some [] \<or>
        (t \<noteq> None \<and> findTargetById (the t) d = None)"
  | (created) w where "res = Inr w" "s = Some (mw_startsAt w)" "e = Some (mw_endsAt w)" "window_ok w" "mw_targetId w = t"
      "t = None \<or> t \<noteq> Some [] \<and> findTargetById (the t) d \<noteq> None"
      "maintenance_windows d' = maintenance_windows d @ [w]" "length (audit_logs d') = Suc (length (audit_logs d))"
      "incidents d' = incidents d" "alerts d' = alerts d"
proof (cases "s = None \<or> e = None \<or> the e \<le> the s \<or> thirty_days_ms < the e - the s \<or> t = Some [] \<or>
        (t \<noteq> None \<and> findTargetById (the t) d = None)")
  case True
  then show ?thesis using assms error
    by (cases s; cases e) (auto simp: createMaintenanceWindow_def split: if_splits)
next
  case False
  then obtain a b where "s = Some a" "e = Some b" by auto
  with False show ?thesis using assms
      created [of "\<lparr>mw_id = next_id d, mw_targetId = t, mw_startsAt = a, mw_endsAt = b, mw_reason = r,
        mw_ticketRef = tk, mw_createdBy = actor_userId act, mw_createdAt = now\<rparr>"]
    by (auto simp: createMaintenanceWindow_def createMaintenanceWindow_row_def Let_def recordAudit_def window_ok_def
        split: if_splits)
qed

text \<open>Creating a maintenance window fails, without any change to the database, exactly when a
  timestamp is invalid, the range is empty or longer than thirty days, or the target does not
  exist; otherwise one window and one audit row are added, and what is suppressed afterwards is
  what was suppressed before and the new window's target from its start until its end.\<close>

theorem window_creation_exact:
  "case createMaintenanceWindow now t s e r tk act d of
      (Inl err, d') \<Rightarrow> d' = d \<and>
        (s = None \<or> e = None \<or> the e \<le> the s \<or> thirty_days_ms < the e - the s \<or> t = Some [] \<or>
          (t \<noteq> None \<and> findTargetById (the t) d = None))
    | (Inr w, d') \<Rightarrow>
        s = Some (mw_startsAt w) \<and> e = Some (mw_endsAt w) \<and> window_ok w \<and>
        (t = None \<or> t \<noteq> Some [] \<and> findTargetById (the t) d \<noteq> None) \<and>
        length (audit_logs d') = Suc (length (audit_logs d)) \<and> incidents d' = incidents d \<and> alerts d' = alerts d \<and>
        (\<forall>u when. activeWindowForTarget u when d' \<noteq> None \<longleftrightarrow> activeWindowForTarget u when d \<noteq> None \<or>
           (t = None \<or> t = Some u) \<and> mw_startsAt w \<le> when \<and> when < mw_endsAt w)"
proof -
  obtain res d' where c: "createMaintenanceWindow now t s e r tk act d = (res, d')" by (metis surj_pair)
  then show ?thesis
  proof (cases rule: createMaintenanceWindow_cases)
    case (created w)
    then show ?thesis using c activeWindow_snoc [of d' d w] by auto
  qed (simp add: c)
qed


theorem window_creation_exact_witness:
  "activeWindowForTarget ''t1'' 99 (snd (createMaintenanceWindow 0 None (Some 10) (Some 100) ''x'' None sample_actor empty_db)) \<noteq> None \<and>
   snd (createMaintenanceWindow 0 (Some ''t9'') (Some 10) (Some 100) ''x'' None sample_actor empty_db) = empty_db"
proof
  obtain w d' where c: "createMaintenanceWindow 0 None (Some 10) (Some 100) ''x'' None sample_actor empty_db = (Inr w, d')"
    by (simp add: createMaintenanceWindow_def createMaintenanceWindow_row_def Let_def thirty_days_ms_def)
  from window_creation_exact [where now = 0 and t = None and s = "Some 10" and e = "Some 100" and r = "''x''" and tk = None
      and act = sample_actor and d = empty_db] c
  show "activeWindowForTarget ''t1'' 99 (snd (createMaintenanceWindow 0 None (Some 10) (Some 100) ''x'' None sample_actor empty_db)) \<noteq> None"
    by simp
  have "findTargetById ''t9'' empty_db = None" by (simp add: findTargetById_def empty_db_def)
  with window_creation_exact [where now = 0 and t = "Some ''t9''" and s = "Some 10" and e = "Some 100" and r = "''x''" and tk = None
      and act = sample_actor and d = empty_db]
  show "snd (createMaintenanceWindow 0 (Some ''t9'') (Some 10) (Some 100) ''x'' None sample_actor empty_db) = empty_db"
    by (auto split: prod.splits sum.splits)
qed

end
