(* ===== verification/System.thy ===== *)
theory System
  imports Job_Runner Scheduler Watchdog Policy_Service
begin

text \<open>
  The monitoring service as a whole: every operation its processes and its operators perform on
  the shared database is a step of one relation. The schema's constraints hold in every
  reachable database, and incidents only ever move forward, whatever the interleaving.
\<close>

section \<open>Incidents under every operation\<close>

lemma repo_incidents [simp]:
  "incidents (recordAlert now ty ch rc i a m d) = incidents d"
  "incidents (bumpMissedRunCount now t cnt d) = incidents d"
  "incidents (completeJobRun now c cst d) = incidents d"
  "incidents (recordSkippedRun now t s j w sst d) = incidents d"
  "incidents (writeHeartbeat now inst n q d) = incidents d"
  "incidents (releaseLock key h d) = incidents d"
  by (simp_all add: recordAlert_def bumpMissedRunCount_def completeJobRun_def recordSkippedRun_def writeHeartbeat_def
      releaseLock_def Let_def)

lemma repo_incidents_snd [simp]:
  "incidents (snd (claimJobRun now tid s j w n d)) = incidents d"
  "incidents (snd (acquireLock t k h ttl d)) = incidents d"
  "incidents (snd (pruneHeartbeats now keep d)) = incidents d"
  "incidents (snd (pruneExpiredLocks now d)) = incidents d"
  "incidents (snd (insertHealthCheckResult tid j oc d)) = incidents d"
  "incidents (snd (recordRunOutcome now tid s st d)) = incidents d"
  by (auto simp: claimJobRun_def acquireLock_def pruneHeartbeats_def pruneExpiredLocks_def insertHealthCheckResult_def
      recordRunOutcome_def Let_def split: option.splits)

lemma tick_loop_incidents: "incidents (snd (snd (snd (tick_loop C now mx es running d)))) = incidents d"
proof (induction C now mx es running d rule: tick_loop.induct)
  case (2 C now mx k en es running d)
  have e: "incidents d1 = incidents d" if "tick_entry C now mx en running d = Some (a, d1)" for a d1
    using that by (auto simp: tick_entry_def Let_def split: option.splits if_splits)
  show ?case
  proof (cases "tick_entry C now mx en running d")
    case (Some x)
    obtain a d1 where x: "x = (a, d1)" by (cases x)
    then show ?thesis using 2 Some e by (cases a) (auto simp: split_beta)
  qed simp
qed simp

lemma detectMissedRuns_incidents: "incidents (snd (detectMissedRuns C now ts d)) = incidents d"
proof (induction ts arbitrary: d)
  case (Cons t ts)
  show ?case
  proof (cases "missed_run_of C now t d")
    case (Some x)
    obtain iv m where x: "x = (iv, m)" by (cases x)
    show ?thesis
    proof (cases m)
      case None
      with Some x Cons.IH show ?thesis by simp
    next
      case m: (Some mr)
      let ?d1 = "recordAlert now SCHEDULER_HEARTBEAT_MISSED WEBHOOK ''ops'' None (Some (api_id t))
          (Some (missed_message t mr iv)) (bumpMissedRunCount now (api_id t) 1 d)"
      obtain r d2 where "detectMissedRuns C now ts ?d1 = (r, d2)" by (metis surj_pair)
      moreover from this have "incidents d2 = incidents d" using Cons.IH [of ?d1] by simp
      ultimately show ?thesis using Some x m by (cases r) (simp_all add: Let_def)
    qed
  qed simp
qed simp

lemma heartbeat_incidents: "incidents (heartbeat C now i s d) = incidents d"
proof -
  let ?d1 = "writeHeartbeat now i (length (inFlight s)) 0 d"
  obtain r d2 where "detectMissedRuns C now (map (en_target \<circ> snd) (entries s)) ?d1 = (r, d2)" by (metis surj_pair)
  moreover from this have "incidents d2 = incidents d" using detectMissedRuns_incidents [of C now _ ?d1] by (metis repo_incidents(5) snd_conv)
  ultimately show ?thesis by (cases r) (simp_all add: heartbeat_def Let_def)
qed

lemma watchdog_incidents: "incidents (snd (snd (watchdog_tick e grace now w d))) = incidents d"
  by (simp add: watchdog_tick_def fireWatchdogAlert_def Let_def split: option.splits)

lemma delivery_incidents: "incidents (snd (delivery_loop now send lat rcaOf as res d)) = incidents d"
proof (induction as arbitrary: res d)
  case (Cons a as)
  obtain res' d' where s: "apply_delivery now a (delivery_decision now send lat rcaOf a d) res d = (res', d')" by (metis surj_pair)
  then have "incidents d' = incidents d" using apply_delivery_snd by (metis markAlert_frame(1) snd_conv)
  with Cons.IH s show ?case by simp
qed simp

lemma policy_step_incidents: "incidents (policy_step act (now, po) d) = incidents d"
  by (cases po)
    (auto simp: createEscalationPolicy_def createEscalationPolicy_row_def updateEscalationPolicy_def updateEscalationPolicy_row_def
      createMaintenanceWindow_def createMaintenanceWindow_row_def deleteMaintenanceWindow_def deleteMaintenanceWindow_row_def
      recordAudit_def Let_def split: sum.splits option.splits)

section \<open>Escalation\<close>

lemma escalateIncident_evolve:
  "(\<And>j. j \<in> set (incidents d) \<Longrightarrow> inc_id j = k \<Longrightarrow> inc_status j \<noteq> RESOLVED) \<Longrightarrow> incidents_evolve d (escalateIncident now k l d)"
  unfolding escalateIncident_def by (rule update_incident_evolve) (auto simp: incident_evolves_def)

lemma escalate_with_states:
  "map (\<lambda>j. (inc_id j, inc_status j)) (incidents (snd (escalate_with now policy i d))) = map (\<lambda>j. (inc_id j, inc_status j)) (incidents d)"
  by (auto simp: escalate_with_def Let_def escalateIncident_def update_incident_def upd_where_def split: option.split)

lemma escalate_with_evolve:
  assumes "\<And>j. j \<in> set (incidents d) \<Longrightarrow> inc_id j = inc_id i \<Longrightarrow> inc_status j \<noteq> RESOLVED"
  shows "incidents_evolve d (snd (escalate_with now policy i d))"
proof -
  have e: "incidents_evolve d (escalateIncident now (inc_id i) k d')" if "incidents d' = incidents d" for k d'
    using escalateIncident_evolve [of d' "inc_id i" now k] incidents_evolve_same [OF that] assms that incidents_evolve_trans by metis
  show ?thesis by (auto simp: escalate_with_def Let_def e split: option.split)
qed

lemma escalation_direct_evolve:
  assumes "\<And>i pid nm. (i, pid, nm) \<in> set work \<Longrightarrow> (inc_id i, RESOLVED) \<notin> set (map (\<lambda>j. (inc_id j, inc_status j)) (incidents d))"
  shows "incidents_evolve d (snd (escalation_direct now work fired d))"
  using assms
proof (induction work arbitrary: fired d)
  case (Cons x work)
  obtain i pid nm where x: "x = (i, pid, nm)" by (cases x)
  obtain b d' where s: "escalate_with now (getEscalationPolicy pid d) i d = (b, d')" by (metis surj_pair)
  have states: "map (\<lambda>j. (inc_id j, inc_status j)) (incidents d') = map (\<lambda>j. (inc_id j, inc_status j)) (incidents d)"
    using escalate_with_states s by (metis snd_conv)
  have "(inc_id i, RESOLVED) \<notin> set (map (\<lambda>j. (inc_id j, inc_status j)) (incidents d))" using Cons.prems x by (meson list.set_intros(1))
  then have "incidents_evolve d d'"
    using escalate_with_evolve [of d i now "getEscalationPolicy pid d"] s by (force simp: image_iff)
  moreover have "(inc_id i', RESOLVED) \<notin> set (map (\<lambda>j. (inc_id j, inc_status j)) (incidents d'))"
    if "(i', pid', nm') \<in> set work" for i' pid' nm'
    unfolding states using Cons.prems that by (meson list.set_intros(2))
  then have "incidents_evolve d' (snd (escalation_direct now work f d'))" for f by (rule Cons.IH)
  ultimately show ?case using x s incidents_evolve_trans by simp
qed simp

lemma runEscalationCycle_evolve:
  assumes "db_inv d" shows "incidents_evolve d (snd (runEscalationCycle now d))"
  unfolding runEscalationCycle_snd
proof (rule escalation_direct_evolve)
  fix i pid nm
  assume "(i, pid, nm) \<in> set (listOpenIncidentsForEscalation d)"
  then have "i \<in> set (incidents d)" "inc_status i = OPEN"
    by (auto simp: listOpenIncidentsForEscalation_def split: option.splits if_splits)
  moreover have "unique_on (\<lambda>_. True) inc_id (incidents d)" using assms by (simp add: db_inv_def incidents_ok_def)
  ultimately have "inc_status j = OPEN" if "j \<in> set (incidents d)" "inc_id j = inc_id i" for j
    using unique_onD [of "\<lambda>_. True" inc_id "incidents d" j i] that by simp
  then show "(inc_id i, RESOLVED) \<notin> set (map (\<lambda>j. (inc_id j, inc_status j)) (incidents d))" by force
qed

section \<open>A scheduled check\<close>

lemma record_outcome_evolve:
  assumes "db_inv d" and "record_outcome e now target slot cid oc d = (r, d')"
  shows "incidents_evolve d d'"
  using assms(2)
proof (cases rule: record_outcome_cases)
  case (1 err)
  then show ?thesis using repo_incidents_snd(5) by (metis incidents_evolve_same snd_conv)
next
  case (2 checkId d1 d2 d3 q d4)
  have "incidents d3 = incidents d" using 2(1,3,5) repo_incidents_snd(5,6) by (metis snd_conv)
  moreover have "db_inv d3" using 2(1,4,5) assms(1) insertHealthCheckResult_inv recordRunOutcome_inv by (metis snd_conv)
  then have "incidents_evolve d3 d4" using process_check_evolve 2(6) by (metis snd_conv)
  ultimately have "incidents_evolve d d4" using incidents_evolve_same incidents_evolve_trans by metis
  moreover have "incidents d' = incidents d4" using 2(8) by (auto split: sum.splits)
  ultimately show ?thesis using incidents_evolve_same incidents_evolve_trans by metis
qed

lemma events_only_incidents: "events_only d d' \<Longrightarrow> incidents d' = incidents d"
  by (auto simp: events_only_def)

lemma run_claimed_evolve:
  assumes "db_inv d" shows "incidents_evolve d (snd (run_claimed e now rca ex target slot cid d))"
proof (cases ex)
  case (Inl m)
  then show ?thesis by (simp add: run_claimed_def dead_letter_def incidents_evolve_same)
next
  case (Inr oc)
  obtain r d' where rec: "record_outcome e now target slot cid oc d = (r, d')" by (metis surj_pair)
  show ?thesis
  proof (cases r)
    case (Inl err)
    with rec Inr show ?thesis by (simp add: run_claimed_def withTransaction_def dead_letter_def incidents_evolve_same)
  next
    case (Inr tr)
    have "incidents (refreshRcaFor now rca tr d') = incidents d'" by (rule events_only_incidents [OF refreshRcaFor_frame])
    then have "incidents_evolve d (refreshRcaFor now rca tr d')"
      using record_outcome_evolve [OF assms rec] incidents_evolve_same incidents_evolve_trans by metis
    with rec \<open>ex = Inr oc\<close> Inr show ?thesis by (simp add: run_claimed_def withTransaction_def)
  qed
qed

lemma runScheduledCheck_evolve:
  assumes "db_inv d" shows "incidents_evolve d (snd (runScheduledCheck e t0 t1 rca ex w target slot d))"
proof -
  let ?k = "lockKey (api_id target) slot" and ?j = "jobRunId (api_id target) slot"
  obtain b d1 where l: "acquireLock t0 ?k w (lock_ttl e target) d = (b, d1)" by (metis surj_pair)
  obtain c d2 where c: "claimJobRun t0 (api_id target) slot ?j w 1 d1 = (c, d2)" by (metis surj_pair)
  have i1: "incidents d1 = incidents d" using repo_incidents_snd(2) l by (metis snd_conv)
  then have i2: "incidents d2 = incidents d" using repo_incidents_snd(1) c by (metis snd_conv)
  have "db_inv d1" using lock_inv(1) [OF assms] l by (metis snd_conv)
  then have "db_inv d2" using claimJobRun_inv c by (metis snd_conv)
  then have run: "incidents_evolve d (snd (run_claimed e t1 rca (ex target) target slot cid d2))" for cid
    using run_claimed_evolve incidents_evolve_same [OF i2] incidents_evolve_trans by metis
  have rel: "incidents_evolve d (releaseLock ?k w d')" if "incidents_evolve d d'" for d'
    using that incidents_evolve_same [of "releaseLock ?k w d'" d'] incidents_evolve_trans by (metis repo_incidents(6))
  show ?thesis
    using i1 i2 run by (cases b; cases c) (auto simp: runScheduledCheck_def Let_def l c split_beta incidents_evolve_same intro!: rel
        simp del: One_nat_def)
qed

section \<open>The system\<close>

inductive system_step :: "env \<Rightarrow> cron_parser \<Rightarrow> db \<Rightarrow> db \<Rightarrow> bool" for e C where
  check: "system_step e C d (snd (runScheduledCheck e t0 t1 rca ex w target slot d))"
| schedule: "system_step e C d (snd (snd (tick C now mx s d)))"
| beat: "system_step e C d (heartbeat C now i s d)"
| watch: "system_step e C d (snd (snd (watchdog_tick e grace now w d)))"
| alerting: "system_step e C d (snd (alert_cycle now send lat rcaOf lastScan d))"
| acknowledge: "system_step e C d (snd (acknowledgeIncident now k act d))"
| resolve: "system_step e C d (snd (resolveIncidentManually now k rsn act d))"
| root_cause: "system_step e C d (snd (setIncidentRootCause now k rsn act d))"
| administer: "system_step e C d (policy_step act (now, po) d)"

lemma policy_step_inv: "db_inv d \<Longrightarrow> db_inv (policy_step act (now, po) d)"
  by (cases po) (simp_all add: policy_service_inv)

lemma alert_cycle_step:
  assumes "db_inv d"
  shows "db_inv (snd (alert_cycle now send lat rcaOf ls d)) \<and> incidents_evolve d (snd (alert_cycle now send lat rcaOf ls d))"
proof -
  let ?d1 = "snd (runEscalationCycle now d)"
  have "incidents (snd (alert_cycle now send lat rcaOf ls d)) = incidents ?d1"
    by (simp add: alert_cycle_def runDeliveryCycle_def delivery_incidents)
  then have "incidents_evolve d (snd (alert_cycle now send lat rcaOf ls d))"
    using runEscalationCycle_evolve [OF assms] incidents_evolve_same incidents_evolve_trans by metis
  moreover have "db_inv (snd (alert_cycle now send lat rcaOf ls d))"
    by (simp add: alert_cycle_def runDeliveryCycle_def delivery_loop_inv runEscalationCycle_inv assms)
  ultimately show ?thesis by simp
qed

lemma system_step_ok:
  assumes "system_step e C d d'" and "db_inv d"
  shows "db_inv d' \<and> incidents_evolve d d'"
  using assms
proof (cases rule: system_step.cases)
  case (schedule now mx s)
  have "incidents (snd (snd (tick C now mx s d))) = incidents d"
    using tick_loop_incidents [of C now mx "entries s" "inFlight s" d] by (simp add: tick_def split_beta)
  then show ?thesis using schedule tick_inv [OF assms(2)] by (simp add: incidents_evolve_same)
next
  case (alerting now send lat rcaOf lastScan)
  then show ?thesis using alert_cycle_step [OF assms(2)] by simp
qed (use assms(2) in \<open>simp_all add: runScheduledCheck_inv runScheduledCheck_evolve heartbeat_cycle_inv heartbeat_incidents incidents_evolve_same
    watchdog_tick_inv watchdog_incidents incident_service_inv incident_service_evolve policy_step_inv policy_step_incidents\<close>)

text \<open>C6. In every database the service can reach, whatever the order in which checks, ticks, heartbeats,
  watchdog polls, alert cycles, operators and administrators act on it: the schema's constraints
  hold (at most one unresolved incident per target, one run per slot, unique results), and every
  incident kept its identity and only moved forward, a resolved one keeping everything but its
  root cause.\<close>

theorem system_invariant:
  assumes "(system_step e C)\<^sup>*\<^sup>* d d'" and "db_inv d"
  shows "db_inv d' \<and> incidents_evolve d d'"
  using assms
proof (induction rule: rtranclp_induct)
  case (step d1 d2)
  then show ?case using system_step_ok incidents_evolve_trans by blast
qed simp

theorem system_invariant_witness:
  "incidents_evolve sample_open_db (snd (resolveIncidentManually 9000 0 ''fixed'' sample_actor
     (snd (acknowledgeIncident 5000 0 sample_actor sample_open_db))))"
proof -
  have "(system_step default_env every_minute)\<^sup>*\<^sup>* sample_open_db (snd (resolveIncidentManually 9000 0 ''fixed'' sample_actor
     (snd (acknowledgeIncident 5000 0 sample_actor sample_open_db))))"
    by (rule rtranclp.rtrancl_into_rtrancl [OF rtranclp.rtrancl_into_rtrancl]) (rule rtranclp.rtrancl_refl system_step.intros)+
  from system_invariant [OF this sample_open_db_facts(1)] show ?thesis by simp
qed

end
