(* ===== verification/Validator.thy ===== *)
theory Validator
  imports Database
begin

text \<open>
  \<^verbatim>\<open>src/services/health-check/validator.service.ts\<close>: the rules a response has to satisfy. A rule
  that asks for keys of a body that is no object raises; the error is its message (\<open>Inl\<close>). The
  notation of numbers \<open>nt\<close> is an argument, see \<open>Json\<close>.
\<close>

record response_facts =
  f_httpStatus :: int
  f_bodyText :: string
  f_json :: js_value

definition show_op :: "numeric_op \<Rightarrow> string" where
  "show_op r = (case r of Op_lt \<Rightarrow> ''<'' | Op_le \<Rightarrow> ''<='' | Op_gt \<Rightarrow> ''>'' | Op_ge \<Rightarrow> ''>='' | Op_eq \<Rightarrow> ''=='')"

definition num_holds :: "numeric_op \<Rightarrow> js_num \<Rightarrow> rat \<Rightarrow> bool" where
  "num_holds r n v =
     (case n of
        Nan \<Rightarrow> False
      | Fin a \<Rightarrow> (case r of Op_lt \<Rightarrow> a < v | Op_le \<Rightarrow> a \<le> v | Op_gt \<Rightarrow> v < a | Op_ge \<Rightarrow> v \<le> a | Op_eq \<Rightarrow> a = v)
      | Infinite pos \<Rightarrow> (case r of Op_lt \<Rightarrow> \<not> pos | Op_le \<Rightarrow> \<not> pos | Op_gt \<Rightarrow> pos | Op_ge \<Rightarrow> pos | Op_eq \<Rightarrow> False))"

definition deepEqual :: "(rat \<Rightarrow> string) \<Rightarrow> js_value \<Rightarrow> json option \<Rightarrow> bool" where
  "deepEqual nt a b \<longleftrightarrow> stringify_value nt a = map_option (stringify nt) b"

definition text_or_undefined :: "string option \<Rightarrow> string" where
  "text_or_undefined t = (case t of Some s \<Rightarrow> s | None \<Rightarrow> ''undefined'')"

definition in_error :: "(rat \<Rightarrow> string) \<Rightarrow> string \<Rightarrow> json \<Rightarrow> string" where
  "in_error nt k j = ''Cannot use 'in' operator to search for '' @ [CHR 39] @ k @ [CHR 39] @ '' in '' @ json_string nt j"

fun missing_keys :: "(rat \<Rightarrow> string) \<Rightarrow> json \<Rightarrow> string list \<Rightarrow> string + string list" where
  "missing_keys nt j [] = Inr []"
| "missing_keys nt j (k # ks) =
     (case js_in k j of
        None \<Rightarrow> Inl (in_error nt k j)
      | Some b \<Rightarrow> map_sum id (\<lambda>ms. if b then ms else k # ms) (missing_keys nt j ks))"

definition json_rule :: "(rat \<Rightarrow> string) \<Rightarrow> response_facts \<Rightarrow> string \<Rightarrow> json option \<Rightarrow> rule_result" where
  "json_rule nt f path eq =
     (let l = getByPath (f_json f) path; passed = (case l of Some v \<Rightarrow> deepEqual nt v eq | None \<Rightarrow> False)
      in \<lparr>rr_rule = path @ '' == '' @ text_or_undefined (map_option (stringify nt) eq), rr_passed = passed,
          rr_detail = (if passed then None
                       else case l of Some v \<Rightarrow> Some (''got '' @ text_or_undefined (stringify_value nt v)) | None \<Rightarrow> Some ''path not found'')\<rparr>)"

definition numeric_rule :: "(rat \<Rightarrow> string) \<Rightarrow> response_facts \<Rightarrow> string \<Rightarrow> numeric_op \<Rightarrow> rat \<Rightarrow> rule_result" where
  "numeric_rule nt f path r v =
     (let l = getByPath (f_json f) path; passed = (case l of Some x \<Rightarrow> num_holds r (js_number nt x) v | None \<Rightarrow> False)
      in \<lparr>rr_rule = path @ '' '' @ show_op r @ '' '' @ nt v, rr_passed = passed,
          rr_detail = (if passed then None
                       else case l of Some x \<Rightarrow> Some (''got '' @ js_string nt x) | None \<Rightarrow> Some ''path not found'')\<rparr>)"

definition schema_rule :: "(rat \<Rightarrow> string) \<Rightarrow> response_facts \<Rightarrow> (string \<times> json) list \<Rightarrow> string + rule_result" where
  "schema_rule nt f schema =
     (let obj = (case f_json f of Val j \<Rightarrow> if j = Jnull then Jobj [] else j | _ \<Rightarrow> Jobj [])
      in case missing_keys nt obj (map fst schema) of
           Inl e \<Rightarrow> Inl e
         | Inr ms \<Rightarrow> Inr \<lparr>rr_rule = ''body matches declared schema'', rr_passed = (ms = []),
                        rr_detail = (if ms = [] then None else Some (''missing keys: '' @ join_names ms))\<rparr>)"

fun evaluate :: "(rat \<Rightarrow> string) \<Rightarrow> response_facts \<Rightarrow> validation_rule \<Rightarrow> string + rule_result"
  and evaluate_all :: "(rat \<Rightarrow> string) \<Rightarrow> response_facts \<Rightarrow> validation_rule list \<Rightarrow> string + rule_result list" where
  "evaluate nt f (R_status n) =
     Inr \<lparr>rr_rule = ''status == '' @ show_int n, rr_passed = (f_httpStatus f = n),
          rr_detail = (if f_httpStatus f = n then None else Some (''got '' @ show_int (f_httpStatus f)))\<rparr>"
| "evaluate nt f (R_json_equals path eq) = Inr (json_rule nt f path eq)"
| "evaluate nt f (R_json_path_equals path eq) = Inr (json_rule nt f path eq)"
| "evaluate nt f (R_contains v negate) =
     (let has = has_part v (f_bodyText f)
      in Inr \<lparr>rr_rule = ''body '' @ (if negate then ''excludes'' else ''contains'') @ '' '' @ dquote @ v @ dquote,
              rr_passed = (if negate then \<not> has else has), rr_detail = None\<rparr>)"
| "evaluate nt f (R_numeric path r v) = Inr (numeric_rule nt f path r v)"
| "evaluate nt f (R_json_schema schema) = schema_rule nt f schema"
| "evaluate nt f (R_composite every rules) =
     (case evaluate_all nt f rules of
        Inl e \<Rightarrow> Inl e
      | Inr sub \<Rightarrow> Inr \<lparr>rr_rule = (if every then ''all'' else ''any'') @ '' of ['' @ join_names (map rr_rule sub) @ '']'',
                        rr_passed = (if every then list_all rr_passed sub else list_ex rr_passed sub), rr_detail = None\<rparr>)"
| "evaluate_all nt f [] = Inr []"
| "evaluate_all nt f (r # rs) =
     (case evaluate nt f r of
        Inl e \<Rightarrow> Inl e
      | Inr x \<Rightarrow> map_sum id ((#) x) (evaluate_all nt f rs))"

definition validateResponse ::
    "(rat \<Rightarrow> string) \<Rightarrow> validation_rule option \<Rightarrow> int option \<Rightarrow> response_facts \<Rightarrow> string + (bool \<times> rule_result list)" where
  "validateResponse nt rule expStatus f =
     (case evaluate_all nt f ((case expStatus of Some n \<Rightarrow> [R_status n] | None \<Rightarrow> []) @ (case rule of Some r \<Rightarrow> [r] | None \<Rightarrow> [])) of
        Inl e \<Rightarrow> Inl e
      | Inr rs \<Rightarrow>
          let results = (if rs = [] then [\<lparr>rr_rule = ''status is 2xx (implicit)'',
                rr_passed = (200 \<le> f_httpStatus f \<and> f_httpStatus f < 300), rr_detail = None\<rparr>] else rs)
          in Inr (list_all rr_passed results, results))"

section \<open>Comparing values\<close>

text \<open>Expected values are compared exactly: a JSON value found in the body equals the expected one by
  \<open>deepEqual\<close> iff it is the same value, objects with the same properties in the same order.\<close>

theorem deepEqual_exact: "number_text nt \<Longrightarrow> deepEqual nt (Val a) (Some b) \<longleftrightarrow> a = b"
  by (simp add: deepEqual_def stringify_value_def stringify_inject)

text \<open>A notation of numbers that satisfies the promises: numerator and denominator.\<close>

definition fraction_text :: "rat \<Rightarrow> string" where
  "fraction_text r = (case quotient_of r of (p, q) \<Rightarrow> show_int p @ ''e'' @ show_int q)"

lemma show_int_chars: "c \<in> set (show_int i) \<Longrightarrow> is_digit c \<or> c = CHR ''-''"
  using show_nat_digits by (auto simp: show_int_def split: if_splits)

lemma fraction_text_ok: "number_text fraction_text"
proof -
  have e: "CHR ''e'' \<notin> set (show_int i)" for i using show_int_chars [of "CHR ''e''" i] by (auto simp: is_digit_def)
  have ne: "show_int i \<noteq> []" for i by (simp add: show_int_def)
  have "inj fraction_text"
  proof (rule injI)
    fix x y assume t: "fraction_text x = fraction_text y"
    obtain p q p' q' where q: "quotient_of x = (p, q)" "quotient_of y = (p', q')" by (metis surj_pair)
    with t have "show_int p @ CHR ''e'' # show_int q = show_int p' @ CHR ''e'' # show_int q'" by (simp add: fraction_text_def)
    from split_at_last_sep [OF this e e] have "quotient_of x = quotient_of y" by (simp add: q)
    then show "x = y" by (rule quotient_of_inject)
  qed
  moreover have "fraction_text n \<noteq> [] \<and> list_all num_char (fraction_text n) \<and> hd (fraction_text n) \<noteq> CHR ''e''" for n
  proof -
    obtain p q where "quotient_of n = (p, q)" by (metis surj_pair)
    then have f: "fraction_text n = show_int p @ ''e'' @ show_int q" by (simp add: fraction_text_def)
    have "list_all num_char (fraction_text n)" unfolding f using show_int_chars by (auto simp: list_all_iff num_char_def)
    moreover have "hd (fraction_text n) \<noteq> CHR ''e''" unfolding f using e [of p] ne [of p] by (metis hd_append2 hd_in_set)
    ultimately show ?thesis by (simp add: f)
  qed
  ultimately show ?thesis by (simp add: number_text_def)
qed

theorem deepEqual_exact_witness:
  "deepEqual fraction_text (Val (Jobj [(''a'', Jnum 1), (''b'', Jnull)])) (Some (Jobj [(''b'', Jnull), (''a'', Jnum 1)])) = False"
  using deepEqual_exact [OF fraction_text_ok, of "Jobj [(''a'', Jnum 1), (''b'', Jnull)]" "Jobj [(''b'', Jnull), (''a'', Jnum 1)]"] by simp

end
