(* ===== verification/Ssrf.thy ===== *)
theory Ssrf
  imports Json "HOL-Library.Word"
begin

unbundle bit_operations_syntax

text \<open>
  \<^verbatim>\<open>src/lib/ssrf.ts\<close>: which addresses a check may reach. Addresses of version 4 are 32-bit words, as
  the code's \<open>>>> 0\<close> makes them. Node's test for version 6 (\<open>isIPv6\<close>), the URL parser (protocol
  with its colon and host name) and DNS are arguments; a lookup that fails is \<open>None\<close>.
\<close>

section \<open>Addresses of version 4\<close>

definition octet :: "string \<Rightarrow> bool" where
  "octet s \<longleftrightarrow> s \<noteq> [] \<and> list_all is_digit s \<and> length s \<le> 3 \<and> (length s = 1 \<or> hd s \<noteq> CHR ''0'') \<and> nat_of_digits s 0 < 256"

definition isIPv4 :: "string \<Rightarrow> bool" where
  "isIPv4 s \<longleftrightarrow> length (split_on (CHR ''.'') s) = 4 \<and> list_all octet (split_on (CHR ''.'') s)"

definition part :: "string list \<Rightarrow> nat \<Rightarrow> 32 word" where
  "part ps i = (if i < length ps then (case parseInt (ps ! i) of Some n \<Rightarrow> word_of_int n | None \<Rightarrow> 0) else 0)"

definition ipv4ToInt :: "string \<Rightarrow> 32 word" where
  "ipv4ToInt ip =
     (let ps = split_on (CHR ''.'') ip
      in push_bit 24 (part ps 0) OR push_bit 16 (part ps 1) OR push_bit 8 (part ps 2) OR part ps 3)"

definition inCidr :: "string \<Rightarrow> string \<Rightarrow> nat \<Rightarrow> bool" where
  "inCidr ip base maskBits =
     (let mask = (if maskBits = 0 then 0 else push_bit (32 - maskBits) (- 1)) :: 32 word
      in ipv4ToInt ip AND mask = ipv4ToInt base AND mask)"

definition BLOCKED_V4 :: "(string \<times> nat) list" where
  "BLOCKED_V4 = [(''0.0.0.0'', 8), (''10.0.0.0'', 8), (''100.64.0.0'', 10), (''127.0.0.0'', 8), (''169.254.0.0'', 16),
     (''172.16.0.0'', 12), (''192.0.0.0'', 24), (''192.168.0.0'', 16), (''198.18.0.0'', 15), (''224.0.0.0'', 4), (''240.0.0.0'', 4)]"

section \<open>The policy\<close>

definition mapped_v4 :: "string \<Rightarrow> string option" where
  "mapped_v4 v =
     (let r = drop 7 v; ps = split_on (CHR ''.'') r
      in if take 7 v = ''::ffff:'' \<and> length ps = 4 \<and> list_all (\<lambda>p. p \<noteq> [] \<and> list_all is_digit p) ps then Some r else None)"

lemma mapped_v4_shorter: "mapped_v4 v = Some r \<Longrightarrow> length r < length v"
  by (cases v) (auto simp: mapped_v4_def Let_def split: if_splits)

lemma length_toLowerCase: "length (toLowerCase s) \<le> length s"
  by (induction s rule: toLowerCase.induct) auto

function isBlockedIp :: "(string \<Rightarrow> bool) \<Rightarrow> string \<Rightarrow> bool" where
  "isBlockedIp isIPv6 ip =
     (if isIPv4 ip then \<exists>(base, bits) \<in> set BLOCKED_V4. inCidr ip base bits
      else if isIPv6 ip then
        (let v = toLowerCase ip
         in if v = ''::1'' \<or> v = ''::'' \<or> v = ''::ffff:0:0'' then True
            else if take 4 v = ''fe80'' \<or> take 2 v = ''fc'' \<or> take 2 v = ''fd'' then True
            else case mapped_v4 v of Some m \<Rightarrow> isBlockedIp isIPv6 m | None \<Rightarrow> False)
      else False)"
  by auto

termination
proof (relation "measure (\<lambda>(_, ip). length ip)", goal_cases)
  case (2 isIPv6 ip v m)
  then show ?case using mapped_v4_shorter [of v m] length_toLowerCase [of ip] by simp
qed simp

declare isBlockedIp.simps [simp del]

definition ends_with :: "string \<Rightarrow> string \<Rightarrow> bool" where
  "ends_with suf s \<longleftrightarrow> length suf \<le> length s \<and> drop (length s - length suf) s = suf"

definition blocked :: "string \<Rightarrow> string" where
  "blocked reason = ''Target URL blocked by SSRF policy: '' @ reason"

text \<open>\<open>None\<close> lets the URL pass, \<open>Some\<close> is the message of the error raised.\<close>

definition assertUrlAllowed ::
    "(string \<Rightarrow> bool) \<Rightarrow> (string \<Rightarrow> (string \<times> string) option) \<Rightarrow> (string \<Rightarrow> string list option) \<Rightarrow> bool \<Rightarrow> string \<Rightarrow> string option" where
  "assertUrlAllowed isIPv6 parseUrl resolve allowPrivate rawUrl =
     (case parseUrl rawUrl of
        None \<Rightarrow> Some (blocked ''not a valid URL'')
      | Some (protocol, hostname) \<Rightarrow>
          if protocol \<noteq> ''http:'' \<and> protocol \<noteq> ''https:''
          then Some (blocked (''unsupported protocol '' @ dquote @ protocol @ dquote))
          else let host = toLowerCase hostname
          in if allowPrivate then None
          else if host = ''localhost'' \<or> ends_with ''.localhost'' host \<or> ends_with ''.internal'' host
          then Some (blocked (''hostname '' @ dquote @ host @ dquote @ '' is internal''))
          else case (if isIPv4 host \<or> isIPv6 host then Some [host] else resolve host) of
                 None \<Rightarrow> Some (blocked (''could not resolve '' @ dquote @ host @ dquote))
               | Some addresses \<Rightarrow>
                   if addresses = [] then Some (blocked (dquote @ host @ dquote @ '' resolved to no addresses''))
                   else (case find (isBlockedIp isIPv6) addresses of
                           Some a \<Rightarrow> Some (blocked (''resolves to blocked address '' @ a))
                         | None \<Rightarrow> None))"

section \<open>Ranges\<close>

definition dotted :: "nat \<Rightarrow> nat \<Rightarrow> nat \<Rightarrow> nat \<Rightarrow> string" where
  "dotted a b c d = show_nat a @ ''.'' @ show_nat b @ ''.'' @ show_nat c @ ''.'' @ show_nat d"

text \<open>The ranges the platform must never reach, octet by octet.\<close>

definition reserved :: "nat \<Rightarrow> nat \<Rightarrow> nat \<Rightarrow> bool" where
  "reserved a b c \<longleftrightarrow> a = 0 \<or> a = 10 \<or> a = 100 \<and> 64 \<le> b \<and> b < 128 \<or> a = 127 \<or> a = 169 \<and> b = 254 \<or>
     a = 172 \<and> 16 \<le> b \<and> b < 32 \<or> a = 192 \<and> b = 0 \<and> c = 0 \<or> a = 192 \<and> b = 168 \<or> a = 198 \<and> (b = 18 \<or> b = 19) \<or> 224 \<le> a"

lemma split_dotted: "split_on (CHR ''.'') (dotted a b c d) = [show_nat a, show_nat b, show_nat c, show_nat d]"
proof -
  have "CHR ''.'' \<notin> set (show_nat n)" for n
    using show_nat_digits [of "CHR ''.''" n] by (auto simp: is_digit_def)
  then show ?thesis by (simp add: dotted_def split_on_append split_on_single)
qed

lemma takeWhile_show_nat: "takeWhile is_digit (show_nat n) = show_nat n"
  using show_nat_digits by (simp add: takeWhile_eq_all_conv)

lemma parseInt_show_nat: "parseInt (show_nat n) = Some (int n)"
proof -
  have d: "is_digit (hd (show_nat n))" using show_nat_digits [of "hd (show_nat n)" n] by (simp add: hd_in_set)
  have h: "take 1 (show_nat n) = [hd (show_nat n)]" by (cases "show_nat n") (use show_nat_nonempty [of n] in auto)
  have "printable (show_nat n)"
    unfolding printable_def list_all_iff using show_nat_digits [of _ n] unfolding is_digit_def by force
  then show ?thesis using d h
    by (auto simp: parseInt_def Let_def trimStart_printable takeWhile_show_nat nat_of_digits_show is_digit_def)
qed

lemma part_show: "i < length ns \<Longrightarrow> part (map show_nat ns) i = of_nat (ns ! i)"
  by (simp add: part_def parseInt_show_nat)

lemma bit_small: "n < 256 \<Longrightarrow> bit (of_nat n :: 32 word) i \<Longrightarrow> i < 8"
proof (rule ccontr)
  assume n: "n < 256" and b: "bit (of_nat n :: 32 word) i" and "\<not> i < 8"
  then have "(2 :: nat) ^ 8 \<le> 2 ^ i" by (intro power_increasing) auto
  with n have "n div 2 ^ i = 0" by simp
  with b show False by (simp add: bit_of_nat_iff) (simp add: bit_iff_odd)
qed

lemma ipv4ToInt_dotted:
  assumes "a < 256" "b < 256" "c < 256" "d < 256"
  shows "ipv4ToInt (dotted a b c d) = of_nat (a * 2 ^ 24 + b * 2 ^ 16 + c * 2 ^ 8 + d)"
proof -
  let ?w = "of_nat :: nat \<Rightarrow> 32 word"
  have s: "push_bit n (?w m) = ?w (m * 2 ^ n)" for n m by (simp add: push_bit_eq_mult)
  have d1: "push_bit 8 (?w c) OR ?w d = push_bit 8 (?w c) + ?w d"
    using bit_small [OF assms(4)] by (intro disjunctive_add [symmetric]) (force simp: bit_push_bit_iff)
  have d2: "push_bit 16 (?w b) OR (push_bit 8 (?w c) OR ?w d) = push_bit 16 (?w b) + (push_bit 8 (?w c) OR ?w d)"
    using bit_small [OF assms(4)] bit_small [OF assms(3)] by (intro disjunctive_add [symmetric]) (force simp: bit_push_bit_iff bit_or_iff)
  have d3: "push_bit 24 (?w a) OR (push_bit 16 (?w b) OR (push_bit 8 (?w c) OR ?w d)) =
      push_bit 24 (?w a) + (push_bit 16 (?w b) OR (push_bit 8 (?w c) OR ?w d))"
    using bit_small [OF assms(4)] bit_small [OF assms(3)] bit_small [OF assms(2)]
    by (intro disjunctive_add [symmetric]) (force simp: bit_push_bit_iff bit_or_iff)
  have p: "part [show_nat a, show_nat b, show_nat c, show_nat d] i = ?w ([a, b, c, d] ! i)" if "i < 4" for i
    using part_show [of i "[a, b, c, d]"] that by simp
  have "ipv4ToInt (dotted a b c d) = push_bit 24 (?w a) OR (push_bit 16 (?w b) OR (push_bit 8 (?w c) OR ?w d))"
    unfolding ipv4ToInt_def split_dotted Let_def using p [of 0] p [of 1] p [of 2] p [of 3] by (simp only: or.assoc) simp
  also have "\<dots> = push_bit 24 (?w a) + (push_bit 16 (?w b) + (push_bit 8 (?w c) + ?w d))"
    by (subst d3, subst d2, subst d1) (rule refl)
  finally show ?thesis unfolding s by (simp only: of_nat_add add.assoc)
qed

lemma masked_eq_iff: "x AND push_bit m (- 1) = y AND push_bit m (- 1) \<longleftrightarrow> unat x div 2 ^ m = unat y div 2 ^ m" for x y :: "32 word"
proof -
  have m: "w AND push_bit m (- 1) = push_bit m (drop_bit m w)" for w :: "32 word"
    by (rule bit_eqI) (auto simp: bit_and_iff bit_push_bit_iff bit_drop_bit_eq bit_not_iff bit_mask_iff)
  have d: "drop_bit m (push_bit m (drop_bit m w)) = drop_bit m w" for w :: "32 word"
    by (rule bit_eqI) (auto simp: bit_push_bit_iff bit_drop_bit_eq dest: bit_imp_le_length)
  have "x AND push_bit m (- 1) = y AND push_bit m (- 1) \<longleftrightarrow> drop_bit m x = drop_bit m y"
    unfolding m using d by metis
  also have "\<dots> \<longleftrightarrow> unat (drop_bit m x) = unat (drop_bit m y)" by (rule word_unat_eq_iff)
  finally show ?thesis by (simp only: unat_drop_bit_eq drop_bit_eq_div [where 'a = nat])
qed

lemma unat_dotted:
  assumes "a < 256" "b < 256" "c < 256" "d < 256"
  shows "unat (ipv4ToInt (dotted a b c d)) = a * 2 ^ 24 + b * 2 ^ 16 + c * 2 ^ 8 + d"
proof -
  have "a * 2 ^ 24 + b * 2 ^ 16 + c * 2 ^ 8 + d < 2 ^ 32" using assms by simp
  then show ?thesis unfolding ipv4ToInt_dotted [OF assms] by (simp only: unat_of_nat) simp
qed

lemma inCidr_dotted:
  assumes "a < 256" "b < 256" "c < 256" "d < 256" "a' < 256" "b' < 256" "c' < 256" "d' < 256" "0 < k"
  shows "inCidr (dotted a b c d) (dotted a' b' c' d') k \<longleftrightarrow>
    (a * 2 ^ 24 + b * 2 ^ 16 + c * 2 ^ 8 + d) div 2 ^ (32 - k) = (a' * 2 ^ 24 + b' * 2 ^ 16 + c' * 2 ^ 8 + d') div 2 ^ (32 - k)"
proof -
  have "k \<noteq> 0" using assms(9) by simp
  then show ?thesis
    unfolding inCidr_def Let_def
    by (simp only: if_False masked_eq_iff unat_dotted [OF assms(1-4)] unat_dotted [OF assms(5-8)])
qed

lemma octet_show: assumes "n < 256" shows "octet (show_nat n)"
proof -
  have l: "length (show_nat n) \<le> 3" using assms by (simp add: show_nat.simps [of n] show_nat.simps [of "n div 10"] show_nat.simps [of "n div 10 div 10"])
  have z: "char_of (48 + m) \<noteq> CHR ''0''" if "m < 10" "0 < m" for m :: nat
  proof
    assume "char_of (48 + m) = CHR ''0''"
    then have "of_char (char_of (48 + m) :: char) = (48 :: nat)" by simp
    with of_char_digit [OF that(1)] that(2) show False by simp
  qed
  have h: "length (show_nat n) = 1 \<or> hd (show_nat n) \<noteq> CHR ''0''"
    using assms z by (simp add: show_nat.simps [of n] show_nat.simps [of "n div 10"] show_nat.simps [of "n div 10 div 10"])
  show ?thesis unfolding octet_def using l h assms show_nat_digits by (simp add: list_all_iff nat_of_digits_show)
qed

lemma isIPv4_dotted: "a < 256 \<Longrightarrow> b < 256 \<Longrightarrow> c < 256 \<Longrightarrow> d < 256 \<Longrightarrow> isIPv4 (dotted a b c d)"
  by (simp add: isIPv4_def split_dotted octet_show)

lemma BLOCKED_V4_dotted:
  "BLOCKED_V4 = [(dotted 0 0 0 0, 8), (dotted 10 0 0 0, 8), (dotted 100 64 0 0, 10), (dotted 127 0 0 0, 8), (dotted 169 254 0 0, 16),
     (dotted 172 16 0 0, 12), (dotted 192 0 0 0, 24), (dotted 192 168 0 0, 16), (dotted 198 18 0 0, 15), (dotted 224 0 0 0, 4), (dotted 240 0 0 0, 4)]"
  by code_simp

lemma digit_eq: "x < k \<Longrightarrow> y < k \<Longrightarrow> m * k + x = n * k + y \<longleftrightarrow> m = n \<and> x = y" for x k :: nat
  by (metis add.commute div_mult_self1_is_m div_mult_self3 div_less add_0 mod_mult_self3 mod_less less_nat_zero_code gr0I)

lemma div_eq_range: "x div numeral k = q \<longleftrightarrow> q * numeral k \<le> x \<and> x < Suc q * numeral k" for x :: nat
proof -
  have "x div numeral k = q \<longleftrightarrow> q \<le> x div numeral k \<and> x div numeral k < Suc q" by auto
  then show ?thesis by (simp only: less_eq_div_iff_mult_less_eq [OF zero_less_numeral] div_less_iff_less_mult [OF zero_less_numeral])
qed

lemma blocked_dotted:
  assumes "a < 256" "b < 256" "c < 256" "d < 256"
  shows "isBlockedIp v6 (dotted a b c d) \<longleftrightarrow> reserved a b c"
proof -
  let ?n = "a * 2 ^ 24 + b * 2 ^ 16 + c * 2 ^ 8 + d"
  have q: "?n div 2 ^ 28 = a div 16" "?n div 2 ^ 24 = a" "?n div 2 ^ 22 = a * 4 + b div 64" "?n div 2 ^ 20 = a * 16 + b div 16"
    "?n div 2 ^ 17 = a * 128 + b div 2" "?n div 2 ^ 16 = a * 256 + b" "?n div 2 ^ 8 = a * 65536 + b * 256 + c"
    using assms by simp_all
  have "a * 4 + b div 64 = 100 * 4 + 1 \<longleftrightarrow> a = 100 \<and> b div 64 = 1" "a * 16 + b div 16 = 172 * 16 + 1 \<longleftrightarrow> a = 172 \<and> b div 16 = 1"
    "a * 128 + b div 2 = 198 * 128 + 9 \<longleftrightarrow> a = 198 \<and> b div 2 = 9" "a * 256 + b = 169 * 256 + 254 \<longleftrightarrow> a = 169 \<and> b = 254"
    "a * 256 + b = 192 * 256 + 168 \<longleftrightarrow> a = 192 \<and> b = 168" "a * 256 + b = 192 * 256 + 0 \<longleftrightarrow> a = 192 \<and> b = 0"
    "(a * 256 + b) * 256 + c = (192 * 256) * 256 + 0 \<longleftrightarrow> a * 256 + b = 192 * 256 \<and> c = 0"
    using assms by (intro digit_eq; simp)+
  moreover have "b div 64 = 1 \<longleftrightarrow> 64 \<le> b \<and> b < 128" "b div 16 = 1 \<longleftrightarrow> 16 \<le> b \<and> b < 32" "b div 2 = 9 \<longleftrightarrow> b = 18 \<or> b = 19"
    "a div 16 = 14 \<or> a div 16 = 15 \<longleftrightarrow> 224 \<le> a"
    using assms(1) by (auto simp: div_eq_range)
  ultimately have r: "a * 4 + b div 64 = 401 \<longleftrightarrow> a = 100 \<and> 64 \<le> b \<and> b < 128" "a * 16 + b div 16 = 2753 \<longleftrightarrow> a = 172 \<and> 16 \<le> b \<and> b < 32"
    "a * 128 + b div 2 = 25353 \<longleftrightarrow> a = 198 \<and> (b = 18 \<or> b = 19)" "a * 256 + b = 43518 \<longleftrightarrow> a = 169 \<and> b = 254"
    "a * 256 + b = 49320 \<longleftrightarrow> a = 192 \<and> b = 168" "a * 65536 + b * 256 + c = 12582912 \<longleftrightarrow> a = 192 \<and> b = 0 \<and> c = 0"
    "a div 16 = 14 \<or> a div 16 = 15 \<longleftrightarrow> 224 \<le> a"
    by (simp_all add: mult.commute [of a 65536])
  have "isBlockedIp v6 (dotted a b c d) \<longleftrightarrow> (\<exists>(base, bits) \<in> set BLOCKED_V4. inCidr (dotted a b c d) base bits)"
    by (subst isBlockedIp.simps) (simp add: isIPv4_dotted [OF assms])
  also have "\<dots> \<longleftrightarrow> reserved a b c"
    unfolding BLOCKED_V4_dotted reserved_def using r by (simp add: inCidr_dotted [OF assms] q [simplified])
  finally show ?thesis .
qed

lemma toLowerCase_id: "list_all (\<lambda>c. (of_char c :: nat) < 65 \<or> 90 < (of_char c :: nat) \<and> (of_char c :: nat) < 128) s \<Longrightarrow> toLowerCase s = s"
  by (induction s rule: toLowerCase.induct) auto

lemma dotted_chars: "x \<in> set (dotted a b c d) \<Longrightarrow> is_digit x \<or> x = CHR ''.''"
  using show_nat_digits by (auto simp: dotted_def)

lemma mapped_blocked:
  assumes "a < 256" "b < 256" "c < 256" "d < 256" and "v6 (''::ffff:'' @ dotted a b c d)"
  shows "isBlockedIp v6 (''::ffff:'' @ dotted a b c d) \<longleftrightarrow> reserved a b c"
proof -
  let ?m = "''::ffff:'' @ dotted a b c d"
  have low: "toLowerCase (dotted a b c d) = dotted a b c d"
    by (rule toLowerCase_id) (use dotted_chars in \<open>fastforce simp: list_all_iff is_digit_def\<close>)
  have "\<not> isIPv4 ?m"
  proof -
    have "split_on (CHR ''.'') ?m = [''::ffff:'' @ show_nat a, show_nat b, show_nat c, show_nat d]"
      using split_dotted [of a b c d] by (simp add: split: list.splits)
    then show ?thesis by (simp add: isIPv4_def octet_def is_digit_def)
  qed
  moreover have "mapped_v4 ?m = Some (dotted a b c d)"
    using show_nat_digits by (auto simp: mapped_v4_def split_dotted list_all_iff)
  moreover have "?m \<noteq> ''::ffff:0:0''"
    using dotted_chars [of "CHR '':''" a b c d] by (auto simp: is_digit_def)
  ultimately show ?thesis
    using assms(5) blocked_dotted [OF assms(1-4), of v6] by (subst isBlockedIp.simps) (simp add: low Let_def)
qed



text \<open>Link-local addresses of version 6 are recognised by the text \<open>fe80\<close> alone, so the rest of their
  range (\<open>fe80::/10\<close> ends at \<open>febf\<close>) passes.\<close>

lemma link_local_gap: "v6 ''fe90::1'' \<Longrightarrow> \<not> isBlockedIp v6 ''fe90::1''"
  by (subst isBlockedIp.simps) (simp add: isIPv4_def mapped_v4_def)

end
