(* ===== verification/Masking.thy ===== *)
theory Masking
  imports Json
begin

text \<open>
  \<^verbatim>\<open>src/lib/pci.ts\<close> and \<^verbatim>\<open>src/lib/masking.ts\<close>: what is removed from stored requests and responses. The
  regular expressions are matched as the engine does, from left to right and with the greedy
  alternative first. Arguments are \<open>JSON.parse\<close> (\<open>parseJson\<close>), the notation of numbers (\<open>nt\<close>), and
  the URL library (\<open>setParams\<close>: the URL with every query parameter whose key satisfies a predicate
  set to a value, \<open>None\<close> if it does not parse).
\<close>

section \<open>Word boundaries\<close>

definition word_char :: "char \<Rightarrow> bool" where
  "word_char c \<longleftrightarrow> (let n = (of_char c :: nat) in 48 \<le> n \<and> n \<le> 57 \<or> 65 \<le> n \<and> n \<le> 90 \<or> 97 \<le> n \<and> n \<le> 122 \<or> n = 95)"

text \<open>A position is given by the character before it, if any, and the rest of the text.\<close>

definition word_before :: "char option \<Rightarrow> bool" where
  "word_before p = (case p of Some c \<Rightarrow> word_char c | None \<Rightarrow> False)"

definition word_after :: "string \<Rightarrow> bool" where
  "word_after s = (case s of c # _ \<Rightarrow> word_char c | [] \<Rightarrow> False)"

definition boundary :: "char option \<Rightarrow> string \<Rightarrow> bool" where
  "boundary p s \<longleftrightarrow> word_before p \<noteq> word_after s"

section \<open>Card and account numbers\<close>

text \<open>The repetitions of \<open>(?:\d[ -]?){13,19}\b\<close>: at least \<open>lo\<close> and at most \<open>hi\<close> more.\<close>

fun pan_reps :: "nat \<Rightarrow> nat \<Rightarrow> char option \<Rightarrow> string \<Rightarrow> (char option \<times> string) option" where
  "pan_reps lo 0 p s = (if lo = 0 \<and> boundary p s then Some (p, s) else None)"
| "pan_reps lo (Suc hi) p s =
     (case (case s of
              d # t \<Rightarrow>
                if is_digit d
                then (case (case t of
                              c # t' \<Rightarrow> if c = CHR '' '' \<or> c = CHR ''-'' then pan_reps (lo - 1) hi (Some c) t' else None
                            | [] \<Rightarrow> None) of
                        Some r \<Rightarrow> Some r
                      | None \<Rightarrow> pan_reps (lo - 1) hi (Some d) t)
                else None
            | [] \<Rightarrow> None) of
        Some r \<Rightarrow> Some r
      | None \<Rightarrow> if lo = 0 \<and> boundary p s then Some (p, s) else None)"

definition pan_match :: "char option \<Rightarrow> string \<Rightarrow> (char option \<times> string) option" where
  "pan_match p s = (if boundary p s then pan_reps 13 19 p s else None)"

lemma pan_reps_suffix: "pan_reps lo hi p s = Some (q, r) \<Longrightarrow> length r + lo \<le> length s"
proof (induction hi arbitrary: lo p s q r)
  case 0
  then show ?case by (simp split: if_splits)
next
  case (Suc hi)
  from Suc.prems consider (sep) d c t where "s = d # c # t" "pan_reps (lo - 1) hi (Some c) t = Some (q, r)"
    | (dig) d t where "s = d # t" "pan_reps (lo - 1) hi (Some d) t = Some (q, r)" | (stop) "lo = 0" "r = s"
    by (simp split: list.splits option.splits if_splits)
  then show ?case
  proof cases
    case sep
    then show ?thesis using Suc.IH [OF sep(2)] by simp
  next
    case dig
    then show ?thesis using Suc.IH [OF dig(2)] by simp
  qed simp
qed

lemma pan_match_shorter: "pan_match p s = Some (q, r) \<Longrightarrow> length r < length s"
  using pan_reps_suffix [of 13 19 p s q r] by (simp add: pan_match_def split: if_splits)

function scrub_pans :: "char option \<Rightarrow> string \<Rightarrow> string" where
  "scrub_pans p s =
     (case pan_match p s of
        Some (q, r) \<Rightarrow> ''[REDACTED_PAN]'' @ scrub_pans q r
      | None \<Rightarrow> (case s of [] \<Rightarrow> [] | c # cs \<Rightarrow> c # scrub_pans (Some c) cs))"
  by auto

termination
  by (relation "measure (\<lambda>(p, s). length s)") (auto dest: pan_match_shorter)

declare scrub_pans.simps [simp del]

text \<open>\<open>\b\d{10,}\b\<close>: no boundary lies between two digits, so the whole run matches or nothing.\<close>

definition number_match :: "char option \<Rightarrow> string \<Rightarrow> string option" where
  "number_match p s =
     (let ds = takeWhile is_digit s; r = dropWhile is_digit s
      in if boundary p s \<and> 10 \<le> length ds \<and> boundary (Some (last ds)) r then Some r else None)"

lemma number_match_shorter: "number_match p s = Some r \<Longrightarrow> length r < length s"
proof -
  assume "number_match p s = Some r"
  then have "length r = length (dropWhile is_digit s)" "10 \<le> length (takeWhile is_digit s)" by (auto simp: number_match_def Let_def split: if_splits)
  moreover have "length s = length (takeWhile is_digit s) + length (dropWhile is_digit s)"
    by (metis length_append takeWhile_dropWhile_id)
  ultimately show ?thesis by linarith
qed

function scrub_numbers :: "char option \<Rightarrow> string \<Rightarrow> string" where
  "scrub_numbers p s =
     (case number_match p s of
        Some r \<Rightarrow> ''[REDACTED_NUMBER]'' @ scrub_numbers (Some (last (takeWhile is_digit s))) r
      | None \<Rightarrow> (case s of [] \<Rightarrow> [] | c # cs \<Rightarrow> c # scrub_numbers (Some c) cs))"
  by auto

termination
  by (relation "measure (\<lambda>(p, s). length s)") (auto dest: number_match_shorter)

declare scrub_numbers.simps [simp del]

definition scrubPci :: "string \<Rightarrow> string" where
  "scrubPci s = scrub_numbers None (scrub_pans None s)"

definition responseSample :: "string \<Rightarrow> string" where
  "responseSample s =
     (let scrubbed = scrubPci s
      in if 4096 < js_length scrubbed then js_take 4096 scrubbed @ utf8_ellipsis @ ''[truncated]'' else scrubbed)"

section \<open>No long number survives\<close>

lemma digit_word: "is_digit c \<Longrightarrow> word_char c"
  by (simp add: is_digit_def word_char_def Let_def)

text \<open>A run of ten or more digits that stands alone at a position.\<close>

definition standalone :: "char option \<Rightarrow> string \<Rightarrow> bool" where
  "standalone p s \<longleftrightarrow> \<not> word_before p \<and> 10 \<le> length (takeWhile is_digit s) \<and> \<not> word_after (dropWhile is_digit s)"

fun clean :: "char option \<Rightarrow> string \<Rightarrow> bool" where
  "clean p [] = True"
| "clean p (c # cs) = (\<not> standalone p (c # cs) \<and> clean (Some c) cs)"

lemma number_match_iff: "number_match p s = (if standalone p s then Some (dropWhile is_digit s) else None)"
proof -
  have h: "is_digit (hd s)" "s \<noteq> []" if "10 \<le> length (takeWhile is_digit s)"
  proof -
    show "s \<noteq> []" using that by auto
    then show "is_digit (hd s)" using that by (cases s) (auto split: if_splits)
  qed
  have "word_after s" if "10 \<le> length (takeWhile is_digit s)"
    using h [OF that] by (cases s) (auto simp: word_after_def digit_word)
  moreover have "is_digit (last (takeWhile is_digit s))" if "10 \<le> length (takeWhile is_digit s)"
  proof -
    have "takeWhile is_digit s \<noteq> []" using that by auto
    then have "last (takeWhile is_digit s) \<in> set (takeWhile is_digit s)" by (rule last_in_set)
    then show ?thesis by (blast dest: set_takeWhileD)
  qed
  ultimately show ?thesis
    by (auto simp: number_match_def standalone_def boundary_def Let_def word_before_def digit_word)
qed

lemma scrub_numbers_nondigit:
  "\<not> is_digit c \<Longrightarrow> scrub_numbers p (c # cs) = c # scrub_numbers (Some c) cs"
  by (subst scrub_numbers.simps) (simp add: number_match_iff standalone_def)

lemma scrub_numbers_Nil [simp]: "scrub_numbers p [] = []"
  by (subst scrub_numbers.simps) (simp add: number_match_iff standalone_def)

lemma scrub_numbers_in_word:
  "word_before p \<Longrightarrow> scrub_numbers p (c # cs) = c # scrub_numbers (Some c) cs"
  by (subst scrub_numbers.simps) (simp add: number_match_iff standalone_def)

lemma scrub_run:
  assumes "word_before p"
  shows "takeWhile is_digit (scrub_numbers p s) = takeWhile is_digit s \<and>
    word_after (dropWhile is_digit (scrub_numbers p s)) = word_after (dropWhile is_digit s)"
  using assms
proof (induction s arbitrary: p)
  case (Cons c cs)
  show ?case
  proof (cases "is_digit c")
    case True
    then show ?thesis using Cons.IH [of "Some c"] scrub_numbers_in_word [OF Cons.prems] by (simp add: word_before_def digit_word)
  next
    case False
    then show ?thesis by (simp add: scrub_numbers_nondigit word_after_def)
  qed
qed simp

lemma clean_nonword: "\<not> word_after t \<Longrightarrow> clean p t = clean q t"
  by (cases t) (auto simp: standalone_def word_after_def digit_word dest: digit_word)

lemma clean_marker: "list_all (\<lambda>c. \<not> is_digit c) xs \<Longrightarrow> xs \<noteq> [] \<Longrightarrow> clean p (xs @ t) = clean (Some (last xs)) t"
proof (induction xs arbitrary: p)
  case (Cons x xs)
  then show ?case by (cases xs) (auto simp: standalone_def)
qed simp

lemma clean_scrub_numbers: "clean p (scrub_numbers p s)"
proof (induction p s rule: scrub_numbers.induct)
  case (1 p s)
  show ?case
  proof (cases "standalone p s")
    case True
    let ?r = "dropWhile is_digit s" and ?l = "Some (last (takeWhile is_digit s))"
    have m: "number_match p s = Some ?r" using True by (simp add: number_match_iff)
    have nw: "\<not> word_after (scrub_numbers ?l ?r)"
    proof (cases ?r)
      case (Cons c cs)
      then have "\<not> is_digit c" by (metis dropWhile_eq_Cons_conv)
      with Cons True show ?thesis by (simp add: scrub_numbers_nondigit word_after_def standalone_def)
    next
      case Nil
      then show ?thesis by (simp only: scrub_numbers_Nil) (simp add: word_after_def)
    qed
    have "clean ?l (scrub_numbers ?l ?r)" using 1(2) [OF m] by simp
    then have "clean (Some (CHR '']'')) (scrub_numbers ?l ?r)" using clean_nonword [OF nw] by metis
    moreover have "clean p (''[REDACTED_NUMBER]'' @ scrub_numbers ?l ?r) = clean (Some (CHR '']'')) (scrub_numbers ?l ?r)"
      by (subst clean_marker) (simp_all add: is_digit_def)
    ultimately show ?thesis by (subst scrub_numbers.simps) (simp only: m option.case)
  next
    case False
    then have m: "number_match p s = None" by (simp add: number_match_iff)
    show ?thesis
    proof (cases s)
      case (Cons c cs)
      have out: "scrub_numbers p s = c # scrub_numbers (Some c) cs" by (subst scrub_numbers.simps) (use m Cons in simp)
      have "\<not> standalone p (c # scrub_numbers (Some c) cs)"
      proof (cases "is_digit c")
        case True
        then show ?thesis
          using False scrub_run [of "Some c" cs] by (simp add: standalone_def Cons word_before_def digit_word)
      qed (simp add: standalone_def)
      moreover have "clean (Some c) (scrub_numbers (Some c) cs)" using 1(1) [OF m] Cons by simp
      ultimately show ?thesis by (simp add: out)
    qed simp
  qed
qed

lemma clean_suffix: "clean p (xs @ ys) \<Longrightarrow> clean (if xs = [] then p else Some (last xs)) ys"
  by (induction xs arbitrary: p) (auto split: if_splits)

text \<open>No account number survives: in scrubbed text, no run of ten or more digits stands between
  characters that are not letters, digits or underscores, or at an end of the text.\<close>

theorem scrub_leaves_no_number:
  assumes "scrubPci s = a @ ds @ b" and "list_all is_digit ds" and "10 \<le> length ds"
  shows "a \<noteq> [] \<and> word_char (last a) \<or> b \<noteq> [] \<and> word_char (hd b)"
proof (rule ccontr)
  assume neg: "\<not> ?thesis"
  obtain d ds' where ds: "ds = d # ds'" using assms(3) by (cases ds) auto
  have "clean None (a @ ds @ b)" using clean_scrub_numbers [of None "scrub_pans None s"] assms(1) by (simp only: scrubPci_def)
  then have "clean (if a = [] then None else Some (last a)) (ds @ b)" by (rule clean_suffix)
  then have no: "\<not> standalone (if a = [] then None else Some (last a)) (ds @ b)" by (simp add: ds)
  have run: "takeWhile is_digit (ds @ b) = ds @ takeWhile is_digit b" "dropWhile is_digit (ds @ b) = dropWhile is_digit b"
    using assms(2) by (simp_all add: list_all_iff takeWhile_append2 dropWhile_append2)
  have "dropWhile is_digit b = b" using neg by (cases b) (auto dest: digit_word)
  moreover have "\<not> word_after b" using neg by (cases b) (auto simp: word_after_def)
  moreover have "\<not> word_before (if a = [] then None else Some (last a))" using neg by (auto simp: word_before_def)
  ultimately have "standalone (if a = [] then None else Some (last a)) (ds @ b)"
    unfolding standalone_def run using assms(3) by simp
  with no show False by contradiction
qed

lemma sample_scrub: "scrubPci ''acct 1234567890x end'' = ''acct 1234567890x end''" "scrubPci ''acct 1234567890, pan 4111 1111-1111 1111.'' = ''acct [REDACTED_NUMBER], pan [REDACTED_PAN].''"
  by code_simp+

theorem scrub_leaves_no_number_witness: "scrubPci ''acct 1234567890x end'' = ''acct '' @ ''1234567890'' @ ''x end'' \<and> word_char (hd ''x end'')"
  using scrub_leaves_no_number [of "''acct 1234567890x end''" "''acct ''" "''1234567890''" "''x end''"]
  by (simp add: sample_scrub is_digit_def word_char_def)

section \<open>Names of secrets\<close>

definition MASK :: string where
  "MASK = ''***MASKED***''"

text \<open>Matching without case folds the letters A to Z only.\<close>

definition lower :: "string \<Rightarrow> string" where
  "lower = map (\<lambda>c. if 65 \<le> (of_char c :: nat) \<and> (of_char c :: nat) \<le> 90 then char_of ((of_char c :: nat) + 32) else c)"

definition joined :: "string \<Rightarrow> string \<Rightarrow> string list" where
  "joined a b = [a @ b, a @ ''_'' @ b, a @ ''-'' @ b]"

definition SECRET_HEADER_NAMES :: "string list" where
  "SECRET_HEADER_NAMES = [''authorization'', ''proxy-authorization'', ''cookie'', ''set-cookie'', ''x-api-key'', ''api-key'', ''apikey'',
     ''x-api-secret'', ''x-auth-token'', ''x-access-token'', ''x-session-token'', ''x-amz-security-token'', ''x-goog-api-key'',
     ''x-secret'', ''x-signature'', ''x-hub-signature'', ''x-hub-signature-256'']"

definition SAFE_HEADER_NAMES :: "string list" where
  "SAFE_HEADER_NAMES = [''content-type'', ''content-length'', ''content-encoding'', ''accept'', ''accept-encoding'', ''accept-language'',
     ''user-agent'', ''date'', ''server'', ''connection'', ''cache-control'', ''etag'', ''vary'', ''api-version'', ''x-api-version'',
     ''x-request-id'', ''x-correlation-id'', ''x-trace-id'', ''x-ratelimit-limit'', ''x-ratelimit-remaining'', ''x-ratelimit-reset'',
     ''retry-after'']"

definition FUZZY_SECRET_HEADER :: "string \<Rightarrow> bool" where
  "FUZZY_SECRET_HEADER name \<longleftrightarrow> list_ex (\<lambda>p. has_part p (lower name))
     ([''auth'', ''token'', ''secret''] @ joined ''api'' ''key'' @ [''credential'', ''password'', ''signature'', ''bearer''])"

definition SECRET_KEY :: "string \<Rightarrow> bool" where
  "SECRET_KEY key \<longleftrightarrow> list_ex (\<lambda>p. has_part p (lower key))
     ([''password'', ''passwd'', ''pwd'', ''secret'', ''pin'', ''otp'', ''cvv'', ''cvc'', ''cav'', ''token''] @ joined ''access'' ''key'' @
      joined ''api'' ''key'' @ [''apikey''] @ joined ''client'' ''secret'' @ joined ''private'' ''key'' @ joined ''encryption'' ''key'' @
      joined ''signing'' ''key'' @ [''authorization''] @ joined ''auth'' ''token'' @ joined ''session'' ''id'' @ joined ''card'' ''number'' @
      [''cardnumber'', ''pan''] @ joined ''account'' ''number'' @ [''iban'', ''ssn''] @ joined ''national'' ''id'')"

section \<open>Secrets inside text\<close>

function skip_ws :: "string \<Rightarrow> string \<times> string" where
  "skip_ws s = (let n = ws_len s in if n = 0 then ([], s) else case skip_ws (drop n s) of (w, r) \<Rightarrow> (take n s @ w, r))"
  by auto

termination
proof (relation "measure length")
  fix s :: string and n assume "n = ws_len s" "n \<noteq> 0"
  then have "s \<noteq> []" by auto
  with \<open>n \<noteq> 0\<close> show "(drop n s, s) \<in> measure length" by (simp add: length_greater_0_conv)
qed simp

declare skip_ws.simps [simp del]

definition bearer_char :: "char \<Rightarrow> bool" where
  "bearer_char c \<longleftrightarrow> c \<noteq> CHR ''_'' \<and> word_char c \<or> c \<in> {CHR ''.'', CHR ''_'', CHR ''~'', CHR ''+'', CHR ''/'', CHR ''-''}"

text \<open>\<open>(bearer\s+)[A-Za-z0-9._~+/-]{8,}=*\<close>: the part that is kept and the rest after the match.\<close>

definition match_bearer :: "string \<Rightarrow> (string \<times> string) option" where
  "match_bearer s =
     (if lower (take 6 s) = ''bearer''
      then (case skip_ws (drop 6 s) of
              (w, r) \<Rightarrow>
                if w \<noteq> [] \<and> 8 \<le> length (takeWhile bearer_char r)
                then Some (take 6 s @ w, dropWhile (\<lambda>c. c = CHR ''='') (dropWhile bearer_char r)) else None)
      else None)"

definition inline_names :: "string list" where
  "inline_names = joined ''api'' ''key'' @ [''apikey'', ''token''] @ joined ''access'' ''token'' @ joined ''client'' ''secret'' @
     [''password'', ''secret'', ''pin'', ''otp'', ''signature'']"

text \<open>The longest prefix of characters that are no quote, no ampersand and no white space.\<close>

function value_len :: "string \<Rightarrow> nat" where
  "value_len s =
     (case s of
        [] \<Rightarrow> 0
      | c # cs \<Rightarrow> if c = CHR 34 \<or> c = CHR 39 \<or> c = CHR ''&'' \<or> 0 < ws_len s then 0 else Suc (value_len cs))"
  by auto

termination
  by (relation "measure length") auto

declare value_len.simps [simp del]

definition value_match :: "string \<Rightarrow> (string \<times> string) option" where
  "value_match r =
     (let q = (case r of c # _ \<Rightarrow> if c = CHR 34 \<or> c = CHR 39 then [c] else [] | [] \<Rightarrow> []);
          v = drop (length q) r; n = value_len v
      in if 4 \<le> js_length (take n v) \<and> take (length q) (drop n v) = q then Some (q, drop (n + length q) v) else None)"

definition match_named :: "string \<Rightarrow> string \<Rightarrow> (string \<times> string) option" where
  "match_named nm s =
     (if lower (take (length nm) s) = nm
      then (case skip_ws (drop (length nm) s) of
              (w1, r1) \<Rightarrow>
                (case r1 of
                   c # r2 \<Rightarrow>
                     if c = CHR ''='' \<or> c = CHR '':''
                     then (case skip_ws r2 of
                             (w2, r3) \<Rightarrow> map_option (\<lambda>(q, r). (take (length nm) s @ w1 @ [c] @ w2 @ q @ MASK @ q, r)) (value_match r3))
                     else None
                 | [] \<Rightarrow> None))
      else None)"

fun first_some :: "('a \<Rightarrow> 'b option) \<Rightarrow> 'a list \<Rightarrow> 'b option" where
  "first_some f [] = None"
| "first_some f (x # xs) = (case f x of Some y \<Rightarrow> Some y | None \<Rightarrow> first_some f xs)"

definition inline_match :: "string \<Rightarrow> (string \<times> string) option" where
  "inline_match s =
     (case match_bearer s of
        Some (kept, r) \<Rightarrow> Some (kept @ MASK, r)
      | None \<Rightarrow> first_some (\<lambda>nm. match_named nm s) inline_names)"

lemma skip_ws_append: "skip_ws s = (w, r) \<Longrightarrow> s = w @ r"
proof (induction s arbitrary: w r rule: skip_ws.induct)
  case (1 s)
  show ?case
  proof (cases "ws_len s = 0")
    case True
    then show ?thesis using 1(2) by (simp add: skip_ws.simps [of s])
  next
    case False
    obtain w' r' where d: "skip_ws (drop (ws_len s) s) = (w', r')" by (metis surj_pair)
    then have "drop (ws_len s) s = w' @ r'" using 1(1) False by simp
    moreover have "w = take (ws_len s) s @ w'" "r = r'" using 1(2) False d by (simp_all add: skip_ws.simps [of s])
    ultimately show ?thesis by (metis append.assoc append_take_drop_id)
  qed
qed

lemma value_match_shorter: "value_match r = Some (q, r') \<Longrightarrow> length r' \<le> length r"
  by (auto simp: value_match_def Let_def split: if_splits)

lemma match_named_shorter: "match_named nm s = Some (out, r) \<Longrightarrow> nm \<noteq> [] \<Longrightarrow> length r < length s"
proof -
  assume m: "match_named nm s = Some (out, r)" and n: "nm \<noteq> []"
  then obtain w1 c r2 w2 r3 q where "skip_ws (drop (length nm) s) = (w1, c # r2)" "skip_ws r2 = (w2, r3)" "value_match r3 = Some (q, r)"
    by (auto simp: match_named_def split: if_splits prod.splits list.splits)
  then have "drop (length nm) s = w1 @ c # w2 @ r3" "length r \<le> length r3"
    using skip_ws_append value_match_shorter by blast+
  then have "length r < length (drop (length nm) s)" by simp
  then show ?thesis by simp
qed

lemma match_bearer_shorter: "match_bearer s = Some (kept, r) \<Longrightarrow> length r < length s"
proof -
  assume m: "match_bearer s = Some (kept, r)"
  obtain w r1 where w: "skip_ws (drop 6 s) = (w, r1)" by (metis surj_pair)
  with m have r: "r = dropWhile (\<lambda>c. c = CHR ''='') (dropWhile bearer_char r1)" "w \<noteq> []"
    by (auto simp: match_bearer_def split: if_splits)
  have "drop 6 s = w @ r1" using skip_ws_append [OF w] .
  then have "length r1 < length (drop 6 s)" using r(2) by simp
  moreover have "length r \<le> length r1" unfolding r(1) by (meson length_dropWhile_le order_trans)
  ultimately show ?thesis by simp
qed

lemma first_some_SomeD: "first_some f xs = Some y \<Longrightarrow> \<exists>x \<in> set xs. f x = Some y"
  by (induction xs) (auto split: option.splits)

lemma inline_names_nonempty: "nm \<in> set inline_names \<Longrightarrow> nm \<noteq> []"
  by (auto simp: inline_names_def joined_def)

lemma inline_match_shorter: "inline_match s = Some (out, r) \<Longrightarrow> length r < length s"
  by (auto simp: inline_match_def split: option.splits dest!: first_some_SomeD
      dest: match_bearer_shorter match_named_shorter inline_names_nonempty)

function maskInlineSecrets :: "string \<Rightarrow> string" where
  "maskInlineSecrets s =
     (case inline_match s of
        Some (out, r) \<Rightarrow> out @ maskInlineSecrets r
      | None \<Rightarrow> (case s of [] \<Rightarrow> [] | c # cs \<Rightarrow> c # maskInlineSecrets cs))"
  by auto

termination
  by (relation "measure length") (auto dest: inline_match_shorter)

declare maskInlineSecrets.simps [simp del]

section \<open>Headers, URLs and bodies\<close>

definition mask_header :: "string \<Rightarrow> string \<Rightarrow> string" where
  "mask_header name v =
     (if name \<in> set SAFE_HEADER_NAMES then scrubPci v
      else if name \<in> set SECRET_HEADER_NAMES \<or> FUZZY_SECRET_HEADER name then MASK
      else scrubPci (maskInlineSecrets v))"

text \<open>Assigning to a property keeps its place when it exists; \<open>__proto__\<close> never becomes one.\<close>

definition put :: "string \<Rightarrow> 'v \<Rightarrow> (string \<times> 'v) list \<Rightarrow> (string \<times> 'v) list" where
  "put k v kvs =
     (if k = ''__proto__'' then kvs
      else if k \<in> fst ` set kvs then map (\<lambda>(a, b). if a = k then (a, v) else (a, b)) kvs else kvs @ [(k, v)])"

definition maskHeaders :: "(string \<times> string) list \<Rightarrow> (string \<times> string) list" where
  "maskHeaders hs = fold (\<lambda>(n, v). put (toLowerCase n) (mask_header (toLowerCase n) v)) hs []"

definition maskUrl :: "((string \<Rightarrow> bool) \<Rightarrow> string \<Rightarrow> string \<Rightarrow> string option) \<Rightarrow> string \<Rightarrow> string" where
  "maskUrl setParams url = (case setParams SECRET_KEY MASK url of Some u \<Rightarrow> u | None \<Rightarrow> maskInlineSecrets url)"

function maskJson :: "nat \<Rightarrow> json \<Rightarrow> json" where
  "maskJson depth v =
     (if 12 < depth then v
      else case v of
             Jarr xs \<Rightarrow> Jarr (map (maskJson (Suc depth)) xs)
           | Jobj kvs \<Rightarrow>
               Jobj (filter (\<lambda>kv. fst kv \<noteq> ''__proto__'') (map (\<lambda>kv. (fst kv,
                 if SECRET_KEY (fst kv) then Jstr MASK
                 else case snd kv of Jstr s \<Rightarrow> Jstr (scrubPci s) | _ \<Rightarrow> maskJson (Suc depth) (snd kv))) kvs))
           | Jstr s \<Rightarrow> Jstr (scrubPci s)
           | _ \<Rightarrow> v)"
  by auto

termination
  by (relation "measure (\<lambda>(d, v). 13 - d)") auto

declare maskJson.simps [simp del]

definition maskBody ::
    "(rat \<Rightarrow> string) \<Rightarrow> (string \<Rightarrow> json option) \<Rightarrow> string option \<Rightarrow> string option" where
  "maskBody nt parseJson text =
     (case text of
        None \<Rightarrow> None
      | Some [] \<Rightarrow> None
      | Some t \<Rightarrow>
          let clipped = (if 65536 < js_length t then js_take 65536 t @ utf8_ellipsis @ ''[truncated]'' else t)
          in Some (case parseJson clipped of
                     Some j \<Rightarrow> stringify nt (maskJson 0 j)
                   | None \<Rightarrow> scrubPci (maskInlineSecrets clipped)))"

section \<open>No named secret survives\<close>

text \<open>The values under secret keys within the first \<open>n\<close> levels.\<close>

fun secrets :: "nat \<Rightarrow> json \<Rightarrow> json list" where
  "secrets (Suc n) (Jarr xs) = concat (map (secrets n) xs)"
| "secrets (Suc n) (Jobj kvs) = concat (map (\<lambda>kv. if SECRET_KEY (fst kv) then [snd kv] else secrets n (snd kv)) kvs)"
| "secrets _ _ = []"

lemma secrets_Jstr [simp]: "secrets n (Jstr s) = []"
  by (cases n) auto

lemma maskJson_secrets: "n + depth = 13 \<Longrightarrow> set (secrets n (maskJson depth v)) \<subseteq> {Jstr MASK}"
proof (induction n arbitrary: depth v)
  case (Suc n)
  then have d: "\<not> 12 < depth" and IH: "\<And>w. set (secrets n (maskJson (Suc depth) w)) \<subseteq> {Jstr MASK}" by simp_all
  show ?case
  proof (cases v)
    case (Jarr xs)
    then show ?thesis using IH by (simp add: maskJson.simps [of depth] d) blast
  next
    case (Jobj kvs)
    let ?f = "\<lambda>kv. (fst kv, if SECRET_KEY (fst kv) then Jstr MASK
      else case snd kv of Jstr s \<Rightarrow> Jstr (scrubPci s) | _ \<Rightarrow> maskJson (Suc depth) (snd kv))"
    let ?g = "\<lambda>kv. if SECRET_KEY (fst kv) then [snd kv] else secrets n (snd kv)"
    have g: "set (?g (?f kv)) \<subseteq> {Jstr MASK}" for kv :: "string \<times> json"
      using IH by (cases "snd kv") auto
    have "maskJson depth v = Jobj (filter (\<lambda>kv. fst kv \<noteq> ''__proto__'') (map ?f kvs))"
      by (simp add: maskJson.simps [of depth] d Jobj)
    then have "set (secrets (Suc n) (maskJson depth v)) \<subseteq> (\<Union>kv \<in> set kvs. set (?g (?f kv)))"
      by (simp only: secrets.simps set_concat set_map set_filter) blast
    also have "\<dots> \<subseteq> {Jstr MASK}" using g by (intro UN_least) blast
    finally show ?thesis .
  qed (simp_all add: maskJson.simps [of depth] d)
qed simp

lemma put_entries: "(n, v) \<in> set (put k x kvs) \<Longrightarrow> (n, v) \<in> set kvs \<or> n = k \<and> v = x"
  by (auto simp: put_def split: if_splits)

lemma maskHeaders_entries:
  "(n, v) \<in> set (fold (\<lambda>(n, v). put (toLowerCase n) (mask_header (toLowerCase n) v)) hs acc) \<Longrightarrow>
   (n, v) \<in> set acc \<or> (\<exists>raw. v = mask_header n raw)"
proof (induction hs arbitrary: acc)
  case (Cons h hs)
  then show ?case by (cases h) (fastforce dest: put_entries)
qed simp


lemma sample_headers: "maskHeaders [(''X-Session'', ''abc''), (''Authorization'', ''Bearer abcdefgh'')] =
    [(''x-session'', ''abc''), (''authorization'', MASK)]"
  by code_simp


text \<open>Below that depth nothing is masked: a password inside thirteen nested arrays stays readable.\<close>

fun nest :: "nat \<Rightarrow> json \<Rightarrow> json" where
  "nest 0 j = j"
| "nest (Suc n) j = Jarr [nest n j]"

lemma deep_secret_kept: "n + depth = 13 \<Longrightarrow> maskJson depth (nest n j) = nest n j"
proof (induction n arbitrary: depth)
  case 0
  then show ?case by (subst maskJson.simps) simp
next
  case (Suc n)
  then show ?case by (subst maskJson.simps) simp
qed

end
