(* ===== verification/Health_Check.thy ===== *)
theory Health_Check
  imports Validator Ssrf Masking
begin

text \<open>
  \<^verbatim>\<open>src/services/health-check/\<close>: the authentication material (\<^verbatim>\<open>auth.ts\<close>), the classification of
  failures (\<^verbatim>\<open>failure-classifier.ts\<close>) and the execution of a check with its retries
  (\<^verbatim>\<open>executor.service.ts\<close>). The outside world is a record of arguments: the language's parsers
  and notation of numbers, the URL library, DNS, the OAuth2 token cache, and the HTTP client,
  which for every attempt answers the request it is given. The encrypted raw copy of a trace is left out.
\<close>

section \<open>Authentication\<close>

type_synonym fields = "(string \<times> string) list"

definition b64_char :: "nat \<Rightarrow> char" where
  "b64_char n = (if n < 26 then char_of (65 + n) else if n < 52 then char_of (71 + n) else if n < 62 then char_of (n - 4)
     else if n = 62 then CHR ''+'' else CHR ''/'')"

fun base64 :: "nat list \<Rightarrow> string" where
  "base64 [] = []"
| "base64 [a] = [b64_char (a div 4), b64_char (a mod 4 * 16), CHR ''='', CHR ''='']"
| "base64 [a, b] = [b64_char (a div 4), b64_char (a mod 4 * 16 + b div 16), b64_char (b mod 16 * 4), CHR ''='']"
| "base64 (a # b # c # cs) =
     [b64_char (a div 4), b64_char (a mod 4 * 16 + b div 16), b64_char (b mod 16 * 4 + c div 64), b64_char (c mod 64)] @ base64 cs"

text \<open>\<open>creds[k]\<close>, and whether it is there and not empty.\<close>

definition truthy :: "string \<Rightarrow> fields \<Rightarrow> bool" where
  "truthy k cs = (case map_of cs k of Some v \<Rightarrow> v \<noteq> [] | None \<Rightarrow> False)"

fun first_of :: "string list \<Rightarrow> fields \<Rightarrow> string option" where
  "first_of [] cs = None"
| "first_of (k # ks) cs = (case map_of cs k of Some v \<Rightarrow> Some v | None \<Rightarrow> first_of ks cs)"

definition or_empty :: "string option \<Rightarrow> string" where
  "or_empty v = (case v of Some s \<Rightarrow> s | None \<Rightarrow> [])"

text \<open>Headers and query parameters; the token handshake may fail with the message of its error.\<close>

definition buildAuthMaterial ::
    "(fields \<Rightarrow> string + string) \<Rightarrow> auth_type \<Rightarrow> fields option \<Rightarrow> string + (fields \<times> fields)" where
  "buildAuthMaterial getToken ty creds =
     (case creds of
        None \<Rightarrow> Inr ([], [])
      | Some cs \<Rightarrow>
          (case ty of
             A_NONE \<Rightarrow> Inr ([], [])
           | A_OAUTH2 \<Rightarrow>
               if \<not> truthy ''tokenUrl'' cs \<or> \<not> truthy ''tokenUsername'' cs \<or> \<not> truthy ''tokenPassword'' cs then Inr ([], [])
               else map_sum id (\<lambda>tok. ([(''Authorization'', ''Bearer '' @ tok)], [])) (getToken cs)
           | A_API_KEY \<Rightarrow>
               if truthy ''apiId'' cs \<and> truthy ''apiSecret'' cs
               then Inr ([(''apiId'', or_empty (map_of cs ''apiId'')), (''apiSecret'', or_empty (map_of cs ''apiSecret''))], [])
               else let v = or_empty (first_of [''value'', ''apiKey'', ''key''] cs)
               in if v = [] then Inr ([], [])
               else if truthy ''query'' cs then Inr ([], [(or_empty (map_of cs ''query''), v)])
               else Inr ([(case map_of cs ''header'' of Some h \<Rightarrow> h | None \<Rightarrow> ''X-API-Key'', v)], [])
           | A_BEARER \<Rightarrow>
               let tok = or_empty (first_of [''token'', ''accessToken''] cs)
               in if tok = [] then Inr ([], []) else Inr ([(''Authorization'', ''Bearer '' @ tok)], [])
           | A_BASIC \<Rightarrow>
               Inr ([(''Authorization'', ''Basic '' @
                  base64 (map of_char (or_empty (map_of cs ''username'') @ '':'' @ or_empty (map_of cs ''password''))))], [])
           | A_CUSTOM_HEADER \<Rightarrow>
               let nm = or_empty (first_of [''name'', ''header''] cs); v = or_empty (map_of cs ''value'')
               in if nm \<noteq> [] \<and> v \<noteq> [] then Inr ([(nm, v)], []) else Inr ([], [])))"

section \<open>Classification of failures\<close>

definition RETRYABLE_FAILURES :: "check_failure_type list" where
  "RETRYABLE_FAILURES = [TIMEOUT, DNS_ERROR, CONNECTION_ERROR, TLS_ERROR, HTTP_5XX, RATE_LIMITED]"

record transport_error =
  e_name :: string
  e_code :: "string option"
  e_causeCode :: "string option"
  e_message :: string

definition classifyTransportError :: "transport_error \<Rightarrow> check_failure_type" where
  "classifyTransportError e =
     (let code = (case e_code e of Some c \<Rightarrow> c | None \<Rightarrow> or_empty (e_causeCode e)); message = toLowerCase (e_message e)
      in if e_name e \<in> {''AbortError'', ''TimeoutError''} \<or> code \<in> {''UND_ERR_HEADERS_TIMEOUT'', ''UND_ERR_BODY_TIMEOUT'', ''UND_ERR_CONNECT_TIMEOUT''}
         then TIMEOUT
         else if code \<in> {''ENOTFOUND'', ''EAI_AGAIN''} \<or> has_part ''getaddrinfo'' message then DNS_ERROR
         else if take 7 code = ''ERR_TLS'' \<or> code \<in> {''CERT_HAS_EXPIRED'', ''DEPTH_ZERO_SELF_SIGNED_CERT'', ''UNABLE_TO_VERIFY_LEAF_SIGNATURE''} \<or>
                 has_part ''certificate'' message \<or> has_part ''tls'' message
         then TLS_ERROR
         else if code \<in> {''ECONNREFUSED'', ''ECONNRESET'', ''EHOSTUNREACH'', ''ENETUNREACH'', ''EPIPE'', ''UND_ERR_SOCKET''} then CONNECTION_ERROR
         else UNKNOWN_FAILURE)"

definition classifyHttpStatus :: "int \<Rightarrow> check_failure_type" where
  "classifyHttpStatus st =
     (if st = 401 \<or> st = 403 then AUTHENTICATION_ERROR else if st = 429 then RATE_LIMITED
      else if 500 \<le> st then HTTP_5XX else if 400 \<le> st then HTTP_4XX else VALIDATION_ERROR)"

section \<open>The world of a check\<close>

record http_request =
  rq_method :: target_method
  rq_url :: string
  rq_headers :: fields
  rq_body :: "string option"

text \<open>An answer with its status, headers (a repeated one with all its values), text, the time it
  took, and the time when the error was caught if validating it raises.\<close>

datatype http_result =
    Answer int "(string \<times> string list) list" string rat rat
  | Failed transport_error rat

record world =
  nt :: "rat \<Rightarrow> string"
  parseJson :: "string \<Rightarrow> json option"
  isIPv6 :: "string \<Rightarrow> bool"
  parseUrl :: "string \<Rightarrow> (string \<times> string) option"
  resolve :: "string \<Rightarrow> string list option"
  setParams :: "(string \<Rightarrow> bool) \<Rightarrow> string \<Rightarrow> string \<Rightarrow> string option"
  addQuery :: "string \<Rightarrow> fields \<Rightarrow> string option"
  getToken :: "fields \<Rightarrow> string + string"
  http :: "nat \<Rightarrow> http_request \<Rightarrow> http_result"
  pw :: "rat \<Rightarrow> nat \<Rightarrow> rat"

fun show_target_method :: "target_method \<Rightarrow> string" where
  "show_target_method M_GET = ''GET''" | "show_target_method M_POST = ''POST''" | "show_target_method M_PUT = ''PUT''"
| "show_target_method M_PATCH = ''PATCH''" | "show_target_method M_DELETE = ''DELETE''" | "show_target_method M_HEAD = ''HEAD''"

definition buildTrace :: "world \<Rightarrow> http_request \<Rightarrow> int option \<Rightarrow> (int \<times> fields \<times> string) option \<Rightarrow> req_resp_trace" where
  "buildTrace w sent responseTime response =
     (let resHeaders = (case response of Some (_, h, _) \<Rightarrow> h | None \<Rightarrow> []); resBody = (case response of Some (_, _, b) \<Rightarrow> Some b | None \<Rightarrow> None)
      in \<lparr>requestMethod = show_target_method (rq_method sent), requestUrlMasked = maskUrl (setParams w) (rq_url sent),
          requestHeadersMasked = maskHeaders (rq_headers sent), requestBodyMasked = maskBody (nt w) (parseJson w) (rq_body sent),
          responseStatus = map_option fst response, responseHeadersMasked = maskHeaders resHeaders,
          responseBodyMasked = maskBody (nt w) (parseJson w) resBody, responseBytes = map_option length resBody,
          responseContentType = map_of resHeaders ''content-type'', trace_responseTimeMs = responseTime\<rparr>)"

definition flattenHeaders :: "(string \<times> string list) list \<Rightarrow> fields" where
  "flattenHeaders hs = fold (\<lambda>(k, vs). put (toLowerCase k) (join_names vs)) hs []"

definition buildUrl :: "world \<Rightarrow> string \<Rightarrow> fields \<Rightarrow> string option" where
  "buildUrl w base query = (if query = [] then Some base else addQuery w base query)"

definition preflightSsrf :: "world \<Rightarrow> monitored_api \<Rightarrow> check_failure_type option" where
  "preflightSsrf w target =
     (case assertUrlAllowed (isIPv6 w) (parseUrl w) (resolve w) (allowPrivateNetwork target) (api_url target) of
        None \<Rightarrow> None
      | Some message \<Rightarrow> Some (if has_part ''could not resolve'' message \<or> has_part ''no addresses'' message then DNS_ERROR else UNKNOWN_FAILURE))"

section \<open>One attempt\<close>

record attempt_result =
  at_status :: health_status
  at_httpStatus :: "int option"
  at_responseTimeMs :: "int option"
  at_failureType :: "check_failure_type option"
  at_errorMessage :: "string option"
  at_validation :: "(bool \<times> rule_result list) option"
  at_responseSample :: "string option"
  at_trace :: "req_resp_trace option"

text \<open>A later spread of properties overrides an earlier one.\<close>

definition spread :: "fields \<Rightarrow> fields \<Rightarrow> fields" where
  "spread new old = fold (\<lambda>(k, v). put k v) new old"

definition request_of :: "world \<Rightarrow> monitored_api \<Rightarrow> string \<Rightarrow> string \<Rightarrow> fields \<Rightarrow> http_request" where
  "request_of w target runId url authHeaders =
     (let base = spread authHeaders (spread (api_headers target) [(''accept'', ''application/json, text/plain;q=0.9, */*;q=0.5''),
            (''user-agent'', ''fintech-cron-monitor/health-check'')]);
          body = (if api_method target = M_GET \<or> api_method target = M_HEAD then None
                  else case requestBody target of
                         None \<Rightarrow> None
                       | Some Jnull \<Rightarrow> None
                       | Some j \<Rightarrow> Some (case substituteUuid runId j of Jstr s \<Rightarrow> s | t \<Rightarrow> stringify (nt w) t))
      in \<lparr>rq_method = api_method target, rq_url = url,
          rq_headers = (if body \<noteq> None \<and> map_of base ''content-type'' = None then put ''content-type'' ''application/json'' base else base),
          rq_body = body\<rparr>)"

definition failed_rules :: "rule_result list \<Rightarrow> string list" where
  "failed_rules rs = map rr_rule (filter (\<lambda>r. \<not> rr_passed r) rs)"

definition failure_message :: "int \<Rightarrow> rule_result list \<Rightarrow> string" where
  "failure_message st rs =
     (case find (\<lambda>r. \<not> rr_passed r) rs of
        Some r \<Rightarrow> if rr_detail r \<noteq> None \<and> rr_detail r \<noteq> Some [] then ''Validation failed: '' @ join ''; '' (failed_rules rs)
                  else ''Unexpected response (HTTP '' @ show_int st @ '')''
      | None \<Rightarrow> ''Unexpected response (HTTP '' @ show_int st @ '')'')"

definition transport_failure :: "world \<Rightarrow> http_request \<Rightarrow> transport_error \<Rightarrow> rat \<Rightarrow> attempt_result" where
  "transport_failure w sent e elapsed =
     \<lparr>at_status = DOWN, at_httpStatus = None, at_responseTimeMs = Some (Math_round elapsed),
      at_failureType = Some (classifyTransportError e), at_errorMessage = Some (e_message e), at_validation = None,
      at_responseSample = None, at_trace = Some (buildTrace w sent (Some (Math_round elapsed)) None)\<rparr>"

definition judge :: "world \<Rightarrow> monitored_api \<Rightarrow> http_request \<Rightarrow> int \<Rightarrow> fields \<Rightarrow> string \<Rightarrow> int \<Rightarrow> rat \<Rightarrow> attempt_result" where
  "judge w target sent st hs bodyText ms caught =
     (let json = (case parseJson w bodyText of Some j \<Rightarrow> Val j | None \<Rightarrow> Undefined);
          tr = Some (buildTrace w sent (Some ms) (Some (st, hs, bodyText)));
          res = (\<lambda>hs' ft msg v. \<lparr>at_status = hs', at_httpStatus = Some st, at_responseTimeMs = Some ms, at_failureType = ft,
                   at_errorMessage = msg, at_validation = Some v, at_responseSample = Some (responseSample bodyText), at_trace = tr\<rparr>)
      in case validateResponse (nt w) (expectedResponse target) (expectedStatus target)
                \<lparr>f_httpStatus = st, f_bodyText = bodyText, f_json = json\<rparr> of
           Inl m \<Rightarrow> transport_failure w sent \<lparr>e_name = ''TypeError'', e_code = None, e_causeCode = None, e_message = m\<rparr> caught
         | Inr (passed, results) \<Rightarrow>
             if st = 429 then res UNKNOWN (Some RATE_LIMITED) (Some ''Target returned HTTP 429'') (passed, results)
             else if passed
             then (if fl (of_int (timeoutMs target) * fl (8 / 10)) < of_int ms
                   then res DEGRADED None (Some (''Latency '' @ show_int ms @ ''ms near the '' @ show_int (timeoutMs target) @ ''ms timeout'')) (passed, results)
                   else res UP None None (passed, results))
             else res DOWN (Some (if 200 \<le> st \<and> st < 300 then VALIDATION_ERROR else classifyHttpStatus st))
                    (Some (failure_message st results)) (passed, results))"

definition blocked_result :: "world \<Rightarrow> monitored_api \<Rightarrow> http_request \<Rightarrow> check_failure_type \<Rightarrow> attempt_result" where
  "blocked_result w target sent ft =
     \<lparr>at_status = (if ft = DNS_ERROR then DOWN else UNKNOWN), at_httpStatus = None, at_responseTimeMs = None, at_failureType = Some ft,
      at_errorMessage = Some (if ft = DNS_ERROR then ''DNS resolution failed for '' @ api_url target else ''Target URL blocked by SSRF policy''),
      at_validation = None, at_responseSample = None, at_trace = Some (buildTrace w sent None None)\<rparr>"

text \<open>The \<open>n\<close>-th attempt; \<open>Inl\<close> is the message of an error that is not caught.\<close>

definition attempt :: "world \<Rightarrow> monitored_api \<Rightarrow> fields option \<Rightarrow> string \<Rightarrow> nat \<Rightarrow> string + attempt_result" where
  "attempt w target creds runId n =
     (case buildAuthMaterial (getToken w) (authenticationType target) creds of
        Inl e \<Rightarrow> Inl e
      | Inr (authHeaders, query) \<Rightarrow>
     (case buildUrl w (api_url target) query of
        None \<Rightarrow> Inl ''Invalid URL''
      | Some url \<Rightarrow>
          let sent = request_of w target runId url authHeaders
          in case preflightSsrf w target of
               Some ft \<Rightarrow> Inr (blocked_result w target sent ft)
             | None \<Rightarrow>
                 (case http w n sent of
                    Failed e elapsed \<Rightarrow> Inr (transport_failure w sent e elapsed)
                  | Answer st hs raw elapsed caught \<Rightarrow>
                      Inr (judge w target sent st (flattenHeaders hs) (if 262144 < js_length raw then js_take 262144 raw else raw)
                             (Math_round elapsed) caught))))"

section \<open>Retries\<close>

definition again :: "attempt_result \<Rightarrow> bool" where
  "again r \<longleftrightarrow> (at_status r = DOWN \<or> at_status r = UNKNOWN) \<and> (case at_failureType r of Some f \<Rightarrow> f \<in> set RETRYABLE_FAILURES | None \<Rightarrow> False)"

definition retry_delay :: "world \<Rightarrow> retry_config \<Rightarrow> nat \<Rightarrow> rat" where
  "retry_delay w rc n = min (fl (of_int (baseDelayMs rc) * pw w (backoffMultiplier rc) (n - 1))) (of_int (maxDelayMs rc))"

text \<open>The attempts from the \<open>n\<close>-th on, with \<open>left\<close> retries to go: the last result, its number, and
  the delays slept.\<close>

fun attempts_from ::
    "world \<Rightarrow> monitored_api \<Rightarrow> fields option \<Rightarrow> string \<Rightarrow> nat \<Rightarrow> nat \<Rightarrow> (string + attempt_result \<times> nat) \<times> rat list" where
  "attempts_from w target creds runId n 0 = (map_sum id (\<lambda>r. (r, n)) (attempt w target creds runId n), [])"
| "attempts_from w target creds runId n (Suc left) =
     (case attempt w target creds runId n of
        Inl e \<Rightarrow> (Inl e, [])
      | Inr r \<Rightarrow>
          if again r
          then (case attempts_from w target creds runId (Suc n) left of
                  (x, ds) \<Rightarrow> (x, retry_delay w (api_retry target) n # ds))
          else (Inr (r, n), []))"

definition executeCheck ::
    "world \<Rightarrow> fields option \<Rightarrow> string \<Rightarrow> timestamp \<Rightarrow> monitored_api \<Rightarrow> (string + health_check_outcome) \<times> rat list" where
  "executeCheck w creds runId now target =
     (case attempts_from w target creds runId 1 (retry_count (api_retry target)) of
        (Inl e, ds) \<Rightarrow> (Inl e, ds)
      | (Inr (r, n), ds) \<Rightarrow>
          (Inr \<lparr>out_status = at_status r, out_httpStatus = at_httpStatus r, out_responseTimeMs = at_responseTimeMs r,
                out_failureType = at_failureType r, out_errorMessage = at_errorMessage r, out_validation = at_validation r,
                out_attempts = n, out_responseSample = at_responseSample r, out_trace = at_trace r, out_checkedAt = now\<rparr>, ds))"

section \<open>What the retries do\<close>

lemma attempts_from_spec:
  assumes "attempts_from w t c run n left = (Inr (r, m), ds)"
  shows "n \<le> m \<and> m \<le> n + left \<and> attempt w t c run m = Inr r \<and> length ds = m - n \<and>
    (\<forall>i. n \<le> i \<and> i < m \<longrightarrow> (\<exists>q. attempt w t c run i = Inr q \<and> again q)) \<and> (again r \<longrightarrow> m = n + left) \<and>
    (\<forall>d \<in> set ds. d \<le> of_int (maxDelayMs (api_retry t)))"
  using assms
proof (induction left arbitrary: n ds)
  case 0
  then show ?case by (cases "attempt w t c run n") auto
next
  case (Suc left)
  from Suc.prems obtain q where q: "attempt w t c run n = Inr q" by (auto split: sum.splits)
  show ?case
  proof (cases "again q")
    case True
    from Suc.prems obtain ds' where rest: "attempts_from w t c run (Suc n) left = (Inr (r, m), ds')"
      and ds: "ds = retry_delay w (api_retry t) n # ds'"
      using q True by (auto split: prod.splits)
    note ih = Suc.IH [OF rest]
    have "\<exists>q. attempt w t c run i = Inr q \<and> again q" if "n \<le> i" "i < m" for i
      using ih that q True by (cases "i = n") auto
    moreover have "retry_delay w (api_retry t) n \<le> of_int (maxDelayMs (api_retry t))" by (simp add: retry_delay_def)
    ultimately show ?thesis using ih by (auto simp: ds)
  next
    case False
    with Suc.prems q show ?thesis by auto
  qed
qed

definition outcome_of :: "attempt_result \<Rightarrow> nat \<Rightarrow> timestamp \<Rightarrow> health_check_outcome" where
  "outcome_of r n now = \<lparr>out_status = at_status r, out_httpStatus = at_httpStatus r, out_responseTimeMs = at_responseTimeMs r,
     out_failureType = at_failureType r, out_errorMessage = at_errorMessage r, out_validation = at_validation r,
     out_attempts = n, out_responseSample = at_responseSample r, out_trace = at_trace r, out_checkedAt = now\<rparr>"

lemma executeCheck_attempt:
  assumes "executeCheck w c run now t = (Inr out, ds)"
  obtains r where "attempts_from w t c run 1 (retry_count (api_retry t)) = (Inr (r, out_attempts out), ds)"
    "attempt w t c run (out_attempts out) = Inr r" "out = outcome_of r (out_attempts out) now"
proof -
  obtain r n where l: "attempts_from w t c run 1 (retry_count (api_retry t)) = (Inr (r, n), ds)" and o: "out = outcome_of r n now"
    using assms by (auto simp: executeCheck_def outcome_of_def split: sum.splits prod.splits)
  then have "out_attempts out = n" by (simp add: outcome_of_def)
  with l o attempts_from_spec [OF l] that show ?thesis by simp
qed


lemma judge_UP:
  assumes "at_status (judge w t sent st hs b ms caught) = UP"
  shows "st \<noteq> 429 \<and> of_int ms \<le> fl (of_int (timeoutMs t) * fl (8 / 10)) \<and>
    (\<exists>rs. validateResponse (nt w) (expectedResponse t) (expectedStatus t)
      \<lparr>f_httpStatus = st, f_bodyText = b, f_json = (case parseJson w b of Some j \<Rightarrow> Val j | None \<Rightarrow> Undefined)\<rparr> = Inr (True, rs))"
  using assms unfolding judge_def Let_def
  by (auto simp: transport_failure_def not_less split: sum.splits if_splits)

text \<open>C21. \<open>UP\<close> means what it says: a check that reports it received an answer to its own request, at an
  address the policy allows, which was no rate limit, satisfied every rule of the target and came
  within four fifths of the timeout.\<close>

theorem up_means_validated:
  assumes "executeCheck w c run now t = (Inr out, ds)" and "out_status out = UP"
  shows "\<exists>sent st hs raw elapsed caught rs.
    rq_method sent = api_method t \<and> http w (out_attempts out) sent = Answer st hs raw elapsed caught \<and>
    assertUrlAllowed (isIPv6 w) (parseUrl w) (resolve w) (allowPrivateNetwork t) (api_url t) = None \<and>
    st \<noteq> 429 \<and> of_int (Math_round elapsed) \<le> fl (of_int (timeoutMs t) * fl (8 / 10)) \<and>
    (let b = (if 262144 < js_length raw then js_take 262144 raw else raw) in
     validateResponse (nt w) (expectedResponse t) (expectedStatus t)
       \<lparr>f_httpStatus = st, f_bodyText = b, f_json = (case parseJson w b of Some j \<Rightarrow> Val j | None \<Rightarrow> Undefined)\<rparr> = Inr (True, rs))"
proof -
  obtain r where r: "attempt w t c run (out_attempts out) = Inr r" "out = outcome_of r (out_attempts out) now"
    using executeCheck_attempt [OF assms(1)] by blast
  have up: "at_status r = UP" using r(2) assms(2) by (metis outcome_of_def health_check_outcome.select_convs(1))
  obtain ah q url where m: "buildAuthMaterial (getToken w) (authenticationType t) c = Inr (ah, q)" "buildUrl w (api_url t) q = Some url"
    using r(1) by (auto simp: attempt_def split: sum.splits option.splits)
  let ?sent = "request_of w t run url ah"
  have pre: "preflightSsrf w t = None"
    using r(1) m up by (auto simp: attempt_def blocked_result_def Let_def split: option.splits if_splits)
  obtain st hs raw el ca where a: "http w (out_attempts out) ?sent = Answer st hs raw el ca"
    using r(1) m pre up by (auto simp: attempt_def Let_def transport_failure_def split: http_result.splits)
  have "r = judge w t ?sent st (flattenHeaders hs) (if 262144 < js_length raw then js_take 262144 raw else raw) (Math_round el) ca"
    using r(1) m pre a by (simp add: attempt_def Let_def)
  with up have "at_status (judge w t ?sent st (flattenHeaders hs) (if 262144 < js_length raw then js_take 262144 raw else raw) (Math_round el) ca) = UP" by simp
  from judge_UP [OF this] obtain rs where j: "st \<noteq> 429" "of_int (Math_round el) \<le> fl (of_int (timeoutMs t) * fl (8 / 10))"
    "let b = (if 262144 < js_length raw then js_take 262144 raw else raw) in
     validateResponse (nt w) (expectedResponse t) (expectedStatus t)
       \<lparr>f_httpStatus = st, f_bodyText = b, f_json = (case parseJson w b of Some j \<Rightarrow> Val j | None \<Rightarrow> Undefined)\<rparr> = Inr (True, rs)"
    unfolding Let_def by blast
  have "assertUrlAllowed (isIPv6 w) (parseUrl w) (resolve w) (allowPrivateNetwork t) (api_url t) = None"
    using pre by (simp add: preflightSsrf_def split: option.splits)
  moreover have "rq_method ?sent = api_method t" by (simp add: request_of_def Let_def)
  ultimately show ?thesis using a j by blast
qed

section \<open>A check that succeeds at its second attempt\<close>

definition sample_net :: world where
  "sample_net = \<lparr>nt = fraction_text, parseJson = (\<lambda>_. None), isIPv6 = (\<lambda>_. False), parseUrl = (\<lambda>_. Some (''https:'', ''pay.example'')),
     resolve = (\<lambda>_. Some [''203.0.113.7'']), setParams = (\<lambda>_ _ u. Some u), addQuery = (\<lambda>u _. Some u), getToken = (\<lambda>_. Inl ''unused''),
     http = (\<lambda>n _. if n = 1 then Answer 503 [] ''busy'' 40 41 else Answer 200 [] ''ok'' 120 121), pw = (\<lambda>x n. x ^ n)\<rparr>"

lemma sample_policy: "assertUrlAllowed (\<lambda>_. False) (\<lambda>_. Some (''https:'', ''pay.example'')) (\<lambda>_. Some [''203.0.113.7'']) False u = None"
proof -
  have d: "dotted 203 0 113 7 = ''203.0.113.7''" by code_simp
  have "\<not> isBlockedIp (\<lambda>_. False) ''203.0.113.7''" using blocked_dotted [of 203 0 113 7 "\<lambda>_. False"] by (simp add: d reserved_def)
  then show ?thesis by (simp add: assertUrlAllowed_def ends_with_def isIPv4_def Let_def)
qed

lemma sample_latency: "120 \<le> fl (5000 * fl (8 / 10))"
proof -
  have "8 / 10 * (1 - 1 / 2 ^ 53) \<le> fl (8 / 10)" by (rule js.rnd_lower) simp
  then have "of_int 120 \<le> 5000 * fl (8 / 10)" by simp
  then have "of_int 120 \<le> fl (5000 * fl (8 / 10))" by (intro js.rnd_ge_int) simp_all
  then show ?thesis by simp
qed

lemma sample_target: "api_retry sample_api = \<lparr>retry_count = 2, baseDelayMs = 1000, backoffMultiplier = 2, maxDelayMs = 30000\<rparr>"
  "authenticationType sample_api = A_NONE" "expectedStatus sample_api = Some 200" "expectedResponse sample_api = None" "allowPrivateNetwork sample_api = False"
  by (simp_all add: sample_api_def)

lemma sample_attempt:
  "attempt sample_net sample_api None run n = Inr (judge sample_net sample_api (request_of sample_net sample_api run (api_url sample_api) [])
     (if n = 1 then 503 else 200) [] (if n = 1 then ''busy'' else ''ok'') (if n = 1 then 40 else 120) (if n = 1 then 41 else 121))"
  using sample_policy [of "api_url sample_api"] Math_round_of_int [of 40] Math_round_of_int [of 120]
  by (simp add: attempt_def buildAuthMaterial_def buildUrl_def preflightSsrf_def sample_net_def sample_target Let_def js_length_def flattenHeaders_def)

lemma sample_judge:
  "again (judge sample_net sample_api sent 503 hs b ms ca)" "at_status (judge sample_net sample_api sent 200 hs b 120 ca) = UP"
  "\<not> again (judge sample_net sample_api sent 200 hs b 120 ca)"
  using sample_latency
  by (simp_all add: again_def judge_def Let_def validateResponse_def sample_target classifyHttpStatus_def RETRYABLE_FAILURES_def split: option.split)

lemma sample_check:
  "\<exists>out. executeCheck sample_net None ''run'' now sample_api = (Inr out, [1000]) \<and> out_status out = UP \<and> out_attempts out = 2"
proof -
  let ?r = "judge sample_net sample_api (request_of sample_net sample_api ''run'' (api_url sample_api) []) 200 [] ''ok'' 120 121"
  have "retry_delay sample_net (api_retry sample_api) 1 = 1000"
    using fl_of_int [of 1000] by (simp add: retry_delay_def sample_net_def sample_target)
  then have "attempts_from sample_net sample_api None ''run'' 1 (Suc (Suc 0)) = (Inr (?r, 2), [1000])"
    using sample_judge by (simp add: sample_attempt numeral_2_eq_2)
  then show ?thesis using sample_judge(2) by (simp add: executeCheck_def numeral_2_eq_2)
qed


theorem up_means_validated_witness:
  "\<exists>sent st hs raw elapsed caught. http sample_net 2 sent = Answer st hs raw elapsed caught \<and> st \<noteq> 429 \<and> rq_method sent = M_GET"
proof -
  obtain out ds where o: "executeCheck sample_net None ''run'' 0 sample_api = (Inr out, ds)" "out_status out = UP" "out_attempts out = 2"
    using sample_check by blast
  have "api_method sample_api = M_GET" by (simp add: sample_api_def)
  then show ?thesis using up_means_validated [OF o(1,2)] o(3) by metis
qed

end
