(* ===== verification/Check_Run.thy ===== *)
theory Check_Run
  imports System Health_Check
begin

text \<open>
  The scheduler's run of a slot with the executor of \<open>Health_Check\<close> as its check function, which is
  the default of \<open>runScheduledCheck\<close> in \<^verbatim>\<open>src/services/scheduler/job-runner.service.ts\<close>. Shown: an address
  the policy refuses is never contacted and touches no incident, and how the time to live of the
  run's lock relates to the time the check may take.
\<close>

section \<open>Checks performed by the executor\<close>

text \<open>The run of a slot with the executor as its check function, the default of
  \<open>runScheduledCheck\<close>.\<close>

abbreviation executor :: "world \<Rightarrow> fields option \<Rightarrow> string \<Rightarrow> timestamp \<Rightarrow> monitored_api \<Rightarrow> string + health_check_outcome" where
  "executor net creds run at_time target \<equiv> fst (executeCheck net creds run at_time target)"

lemma quiet_run_incidents:
  assumes "runScheduledCheck e t0 t1 rca ex w target slot d = (r, d')"
    and "\<And>out. ex target = Inr out \<Longrightarrow> out_status out = UNKNOWN"
  shows "incidents d' = incidents d"
proof (cases r)
  case (Executed oc)
  with assms(1) have "runScheduledCheck e t0 t1 rca ex w target slot d = (Executed oc, d')" by simp
  then obtain checkId d2 d3 d4 tr where x: "ex target = Inr oc" "incidents d3 = incidents d"
    "processCheckOutcome e t1 target (out_status oc) (out_failureType oc) checkId
       (fst (fst (recordRunOutcome t1 (api_id target) slot (out_status oc) d2))) d3 = (Inr tr, d4)" "incidents d' = incidents d4"
    by (rule run_executed) blast
  with assms(2) show ?thesis by (auto simp: processCheckOutcome_quiet)
next
  case (Dead_lettered m)
  with assms(1) have "runScheduledCheck e t0 t1 rca ex w target slot d = (Dead_lettered m, d')" by simp
  then show ?thesis
  proof (cases rule: runScheduledCheck_cases)
    case (4 d1 d2 d3 c ls ls')
    have "incidents d2 = incidents d" using 4(2,4) by (auto simp: claimJobRun_def split: if_splits)
    then show ?thesis using run_claimed_dead_letter [OF 4(5)] dead_letter_effect 4(6) by fastforce
  qed simp_all
next
  case (Skipped q)
  have eq: "incidents b = incidents a" if "claimJobRun t0 i s j x n a = (c, b)" for i s j x n a b c
    using repo_incidents_snd(1) that by (metis snd_conv)
  have eq2: "incidents b = incidents a" if "acquireLock t0 k x ttl a = (c, b)" for k x ttl a b c
    using repo_incidents_snd(2) that by (metis snd_conv)
  show ?thesis using assms(1) Skipped
    by (auto simp: runScheduledCheck_def Let_def run_claimed_def dead_letter_def dest!: eq eq2
        split: if_splits prod.splits bool.splits option.splits sum.splits)
qed

lemma blocked_attempts:
  assumes "preflightSsrf net target = Some UNKNOWN_FAILURE"
  shows "attempts_from net target creds run n left =
    (map_sum id (\<lambda>r. (r, n)) (attempt net target creds run n), [])"
    and "attempt net target creds run n = Inr r \<Longrightarrow> at_status r = UNKNOWN"
proof -
  have "\<not> again r \<and> at_status r = UNKNOWN" if "attempt net target creds run n = Inr r" for r
    using that assms
    by (auto simp: attempt_def Let_def again_def blocked_result_def RETRYABLE_FAILURES_def split: sum.splits option.splits)
  then show "attempts_from net target creds run n left = (map_sum id (\<lambda>r. (r, n)) (attempt net target creds run n), [])"
    and "attempt net target creds run n = Inr r \<Longrightarrow> at_status r = UNKNOWN"
    by (cases left; cases "attempt net target creds run n"; auto)+
qed

lemma http_fields:
  "nt (net\<lparr>http := any\<rparr>) = nt net" "parseJson (net\<lparr>http := any\<rparr>) = parseJson net" "setParams (net\<lparr>http := any\<rparr>) = setParams net"
  "addQuery (net\<lparr>http := any\<rparr>) = addQuery net" "getToken (net\<lparr>http := any\<rparr>) = getToken net"
  by simp_all

lemma http_irrelevant:
  "request_of (net\<lparr>http := any\<rparr>) = request_of net" "buildUrl (net\<lparr>http := any\<rparr>) = buildUrl net"
  "blocked_result (net\<lparr>http := any\<rparr>) = blocked_result net"
  unfolding fun_eq_iff request_of_def buildUrl_def blocked_result_def buildTrace_def http_fields by simp_all

text \<open>C22. A target whose address the policy refuses is never contacted: whatever the HTTP client would
  answer, the check is the same, it is made once without waiting, and a run of the slot touches
  no incident.\<close>

theorem blocked_target_never_contacted:
  assumes "preflightSsrf net target = Some UNKNOWN_FAILURE"
  shows "executeCheck (net\<lparr>http := any\<rparr>) creds run at_time target = executeCheck net creds run at_time target \<and>
    snd (executeCheck net creds run at_time target) = [] \<and>
    incidents (snd (runScheduledCheck e t0 t1 rca (executor net creds run at_time) w target slot d)) = incidents d"
proof -
  have pre: "preflightSsrf (net\<lparr>http := any\<rparr>) target = Some UNKNOWN_FAILURE" using assms by (simp add: preflightSsrf_def)
  have "attempt (net\<lparr>http := any\<rparr>) target creds run 1 = attempt net target creds run 1"
    unfolding attempt_def http_irrelevant http_fields pre assms Let_def option.case by (rule refl)
  then have "executeCheck (net\<lparr>http := any\<rparr>) creds run at_time target = executeCheck net creds run at_time target"
    using blocked_attempts(1) [OF assms] blocked_attempts(1) [OF pre] by (simp add: executeCheck_def)
  moreover have "snd (executeCheck net creds run at_time target) = []"
    using blocked_attempts(1) [OF assms] by (simp add: executeCheck_def split: sum.splits prod.splits)
  moreover have "out_status out = UNKNOWN" if "executor net creds run at_time target = Inr out" for out
    using that blocked_attempts(1,2) [OF assms] by (auto simp: executeCheck_def map_sum_def split: sum.splits prod.splits)
  ultimately show ?thesis using quiet_run_incidents by (metis prod.collapse)
qed

definition internal_net :: world where
  "internal_net = sample_net\<lparr>resolve := (\<lambda>_. Some [''169.254.169.254''])\<rparr>"

theorem blocked_target_never_contacted_witness:
  "incidents (snd (runScheduledCheck default_env 60000 60200 (\<lambda>_ _. None) (executor internal_net None ''run'' 60000) ''w1'' sample_api 60000 sample_open_db)) =
     incidents sample_open_db"
proof -
  have d: "dotted 169 254 169 254 = ''169.254.169.254''" by code_simp
  have "isBlockedIp (\<lambda>_. False) ''169.254.169.254''" using blocked_dotted [of 169 254 169 254 "\<lambda>_. False"] by (simp add: d reserved_def)
  then have "preflightSsrf internal_net sample_api = Some UNKNOWN_FAILURE"
    by (simp add: preflightSsrf_def internal_net_def sample_net_def sample_target assertUrlAllowed_def ends_with_def isIPv4_def Let_def blocked_def)
  from blocked_target_never_contacted [OF this] show ?thesis by blast
qed

section \<open>The lock and the duration of a check\<close>

text \<open>The lock of a run outlives its check when the delays between the attempts fit in the margin of
  five seconds: if every attempt ends within the target's timeout, the attempts and the delays
  together are no longer than the time to live the run asked for.\<close>

theorem lock_outlives_check:
  assumes "executeCheck net creds run now target = (Inr out, ds)" and "0 \<le> timeoutMs target" and "sum_list ds \<le> 5000"
  shows "of_nat (out_attempts out) * of_int (timeoutMs target) + sum_list ds \<le> (of_int (lock_ttl e target) :: rat)"
proof -
  let ?n = "retry_count (api_retry target) + 1"
  obtain r where l: "attempts_from net target creds run 1 (retry_count (api_retry target)) = (Inr (r, out_attempts out), ds)"
    using executeCheck_attempt [OF assms(1)] by blast
  have "out_attempts out \<le> ?n" using attempts_from_spec [OF l] by simp
  then have "int (out_attempts out) * timeoutMs target \<le> int ?n * timeoutMs target"
    by (intro mult_right_mono) (use assms(2) in auto)
  then have "int (out_attempts out) * timeoutMs target + 5000 \<le> lock_ttl e target"
    by (simp add: lock_ttl_def algebra_simps)
  then have "of_int (int (out_attempts out) * timeoutMs target + 5000) \<le> (of_int (lock_ttl e target) :: rat)"
    by (simp only: of_int_le_iff)
  then show ?thesis using assms(3) by simp
qed

text \<open>With longer delays it does not: six attempts of ten seconds with the default back-off take 91
  seconds while the lock expires after 65.\<close>

definition slow_net :: world where
  "slow_net = sample_net\<lparr>http := (\<lambda>_ _. Failed \<lparr>e_name = ''TimeoutError'', e_code = None, e_causeCode = None, e_message = ''timed out''\<rparr> 10000)\<rparr>"

definition slow_api :: monitored_api where
  "slow_api = sample_api\<lparr>timeoutMs := 10000, api_retry := (api_retry sample_api)\<lparr>retry_count := 5\<rparr>\<rparr>"

lemma slow_attempt:
  "\<exists>r. attempt slow_net slow_api None run n = Inr r \<and> again r"
  using sample_policy [of "api_url sample_api"]
  by (simp add: attempt_def buildAuthMaterial_def buildUrl_def preflightSsrf_def slow_net_def slow_api_def sample_net_def sample_target Let_def
      transport_failure_def again_def classifyTransportError_def RETRYABLE_FAILURES_def)

lemma slow_delays:
  "retry_delay slow_net (api_retry slow_api) 1 = 1000" "retry_delay slow_net (api_retry slow_api) 2 = 2000" "retry_delay slow_net (api_retry slow_api) 3 = 4000"
  "retry_delay slow_net (api_retry slow_api) 4 = 8000" "retry_delay slow_net (api_retry slow_api) 5 = 16000"
  using fl_of_int [of 1000] fl_of_int [of 2000] fl_of_int [of 4000] fl_of_int [of 8000] fl_of_int [of 16000]
  by (simp_all add: retry_delay_def slow_net_def slow_api_def sample_net_def sample_target)

lemma check_can_outlast_lock:
  "\<exists>out ds. executeCheck slow_net None ''run'' 0 slow_api = (Inr out, ds) \<and>
     of_int (lock_ttl default_env slow_api) < of_nat (out_attempts out) * of_int (timeoutMs slow_api) + sum_list ds"
proof -
  have step: "attempts_from slow_net slow_api None ''run'' n (Suc k) =
      (case attempts_from slow_net slow_api None ''run'' (Suc n) k of (x, ds) \<Rightarrow> (x, retry_delay slow_net (api_retry slow_api) n # ds))" for n k
    using slow_attempt [of "''run''" n] by auto
  obtain r where r: "attempt slow_net slow_api None ''run'' 6 = Inr r" using slow_attempt by blast
  have "attempts_from slow_net slow_api None ''run'' 6 0 = (Inr (r, 6), [])" using r by simp
  then have "attempts_from slow_net slow_api None ''run'' 1 5 = (Inr (r, 6), [1000, 2000, 4000, 8000, 16000])"
    using step [of 1 4] step [of 2 3] step [of 3 2] step [of 4 1] step [of 5 0] slow_delays
    by (simp del: attempts_from.simps add: eval_nat_numeral)
  moreover have "retry_count (api_retry slow_api) = 5" "timeoutMs slow_api = 10000" by (simp_all add: slow_api_def)
  ultimately show ?thesis by (simp add: executeCheck_def lock_ttl_def default_env_def)
qed

theorem lock_outlives_check_witness:
  "\<exists>out ds. executeCheck sample_net None ''run'' 0 sample_api = (Inr out, ds) \<and>
     of_nat (out_attempts out) * of_int 5000 + sum_list ds \<le> (of_int (lock_ttl default_env sample_api) :: rat)"
proof -
  obtain out ds where o: "executeCheck sample_net None ''run'' 0 sample_api = (Inr out, ds)" "ds = [1000]"
    using sample_check by blast
  then show ?thesis using lock_outlives_check [OF o(1)] sample_api_simps by simp
qed

end
