(* ===== verification/Target_Service.thy ===== *)
theory Target_Service
  imports Health_Check Job_Runner Cron
begin

text \<open>
  \<^verbatim>\<open>src/services/target/\<close> (\<^verbatim>\<open>target.validation.ts\<close>, \<^verbatim>\<open>target.service.ts\<close>, \<^verbatim>\<open>config-request.service.ts\<close>) with
  \<^verbatim>\<open>src/repositories/monitored-apis.repo.ts\<close> and \<^verbatim>\<open>config-requests.repo.ts\<close>: registration and change of
  monitored targets, with the approval of a second person for targets that move money.

  The input is a typed record (a field that is absent is \<open>None\<close>, one that may also be null has two
  levels of \<open>option\<close>). What the code takes from outside is the record \<open>libs\<close>: the cron package, the network,
  \<open>z.string().url()\<close>, the cipher, and PostgreSQL's coercion of a number to \<open>numeric(p, s)\<close>, which
  fails when it does not fit. The order of the keys of a stored JSON object is not modelled.
\<close>

section \<open>Tables and libraries\<close>

record target_write_model =
  m_name :: string
  m_description :: "string option"
  m_environment :: environment
  m_endpointClass :: endpoint_class
  m_severityDefault :: severity
  m_isMoneyMoving :: bool
  m_url :: string
  m_method :: target_method
  m_authenticationType :: auth_type
  m_encryptedCredentials :: "string option"
  m_headers :: fields
  m_requestBody :: "json option"
  m_expectedStatus :: "int option"
  m_expectedResponse :: "validation_rule option"
  m_timeoutMs :: int
  m_frequencyCron :: string
  m_retry :: retry_config
  m_slaTargetPercent :: rat
  m_ownerId :: "row_id option"
  m_teamId :: "row_id option"
  m_escalationPolicyId :: "row_id option"
  m_tags :: "string list"
  m_isActive :: bool
  m_allowPrivateNetwork :: bool
  m_bypassMinIntervalFloor :: bool

datatype config_request_status = CR_PENDING | CR_APPROVED | CR_REJECTED | CR_APPLIED | CR_FAILED

datatype config_request_kind = Target_create | Target_update

record config_change_request =
  cr_id :: row_id
  cr_kind :: config_request_kind
  cr_targetId :: "target_id option"
  cr_status :: config_request_status
  cr_payload :: target_write_model
  cr_summary :: string
  cr_proposedBy :: row_id
  cr_reviewedBy :: "row_id option"
  cr_reviewNote :: "string option"
  cr_reviewedAt :: "timestamp option"
  cr_appliedAt :: "timestamp option"
  cr_error :: "string option"
  cr_createdAt :: timestamp
  cr_updatedAt :: timestamp

text \<open>The monitoring database, the column \<open>encrypted_credentials\<close> of its targets, the proposed changes,
  the keys of the tables \<open>users\<close> and \<open>teams\<close>, and the column \<open>changes\<close> of the audit rows (before and after).\<close>

record config_state =
  cdb :: db
  encrypted_credentials :: "(target_id \<times> string) list"
  config_change_requests :: "config_change_request list"
  user_ids :: "row_id list"
  team_ids :: "row_id list"
  audit_changes :: "(string \<times> target_id \<times> monitored_api option \<times> monitored_api option) list"

record libs =
  lib_cron :: cron_parser
  lib_cron_cause :: "string \<Rightarrow> string"
  lib_net :: world
  lib_isUrl :: "string \<Rightarrow> bool"
  lib_encrypt :: "fields \<Rightarrow> string"
  lib_numeric :: "nat \<Rightarrow> nat \<Rightarrow> rat \<Rightarrow> rat option"

record target_env =
  AUTH_ENABLED :: bool
  DEFAULT_CHECK_TIMEOUT_MS :: int

section \<open>Validation of the input\<close>

record partial_retry =
  pr_count :: "int option"
  pr_baseDelayMs :: "int option"
  pr_backoffMultiplier :: "rat option"
  pr_maxDelayMs :: "int option"

text \<open>The payload of a creation or of an update; a creation must have a name, a class, a URL and a schedule.\<close>

record target_payload =
  p_name :: "string option"
  p_description :: "string option option"
  p_environment :: "environment option"
  p_endpointClass :: "endpoint_class option"
  p_severityDefault :: "severity option"
  p_isMoneyMoving :: "bool option"
  p_url :: "string option"
  p_method :: "target_method option"
  p_authenticationType :: "auth_type option"
  p_credentials :: "fields option option"
  p_headers :: "fields option"
  p_requestBody :: "json option"
  p_expectedStatus :: "int option option"
  p_expectedResponse :: "validation_rule option option"
  p_timeoutMs :: "int option"
  p_frequencyCron :: "string option"
  p_retry :: "partial_retry option"
  p_slaTargetPercent :: "rat option"
  p_ownerId :: "row_id option option"
  p_teamId :: "row_id option option"
  p_escalationPolicyId :: "row_id option option"
  p_tags :: "string list option"
  p_isActive :: "bool option"
  p_allowPrivateNetwork :: "bool option"
  p_bypassMinIntervalFloor :: "bool option"

definition empty_payload :: target_payload where
  "empty_payload = \<lparr>p_name = None, p_description = None, p_environment = None, p_endpointClass = None, p_severityDefault = None,
     p_isMoneyMoving = None, p_url = None, p_method = None, p_authenticationType = None, p_credentials = None, p_headers = None,
     p_requestBody = None, p_expectedStatus = None, p_expectedResponse = None, p_timeoutMs = None, p_frequencyCron = None,
     p_retry = None, p_slaTargetPercent = None, p_ownerId = None, p_teamId = None, p_escalationPolicyId = None, p_tags = None,
     p_isActive = None, p_allowPrivateNetwork = None, p_bypassMinIntervalFloor = None\<rparr>"

definition present :: "('a \<Rightarrow> bool) \<Rightarrow> 'a option \<Rightarrow> bool" where
  "present p v = (case v of None \<Rightarrow> True | Some x \<Rightarrow> p x)"

definition str_between :: "nat \<Rightarrow> nat \<Rightarrow> string \<Rightarrow> bool" where
  "str_between lo hi s \<longleftrightarrow> lo \<le> js_length s \<and> js_length s \<le> hi"

fun validationRule :: "validation_rule \<Rightarrow> bool" where
  "validationRule (R_json_equals p _) = (p \<noteq> [])"
| "validationRule (R_json_path_equals p _) = (p \<noteq> [])"
| "validationRule (R_contains v _) = (v \<noteq> [])"
| "validationRule (R_numeric p _ _) = (p \<noteq> [])"
| "validationRule (R_composite _ rs) = (rs \<noteq> [] \<and> list_all validationRule rs)"
| "validationRule _ = True"

definition retryConfig :: "partial_retry \<Rightarrow> bool" where
  "retryConfig r \<longleftrightarrow> present (\<lambda>c. 0 \<le> c \<and> c \<le> 10) (pr_count r) \<and> present (\<lambda>b. 0 \<le> b \<and> b \<le> 60000) (pr_baseDelayMs r) \<and>
     present (\<lambda>b. 1 \<le> b \<and> b \<le> 10) (pr_backoffMultiplier r) \<and> present (\<lambda>b. 0 \<le> b \<and> b \<le> 120000) (pr_maxDelayMs r)"

definition updateTargetSchema :: "libs \<Rightarrow> target_payload \<Rightarrow> bool" where
  "updateTargetSchema L p \<longleftrightarrow>
     present (str_between 1 200) (p_name p) \<and> present (present (\<lambda>s. js_length s \<le> 2000)) (p_description p) \<and>
     present (\<lambda>u. lib_isUrl L u \<and> js_length u \<le> 2048) (p_url p) \<and>
     present (present (\<lambda>st. 100 \<le> st \<and> st \<le> 599)) (p_expectedStatus p) \<and>
     present (present validationRule) (p_expectedResponse p) \<and> present (\<lambda>t. 100 \<le> t \<and> t \<le> 120000) (p_timeoutMs p) \<and>
     present (str_between 1 120) (p_frequencyCron p) \<and> present retryConfig (p_retry p) \<and>
     present (\<lambda>x. 0 < x \<and> x \<le> 100) (p_slaTargetPercent p) \<and>
     present (\<lambda>ts. length ts \<le> 50 \<and> list_all (str_between 1 64) ts) (p_tags p)"

definition createTargetSchema :: "libs \<Rightarrow> target_payload \<Rightarrow> bool" where
  "createTargetSchema L p \<longleftrightarrow> updateTargetSchema L p \<and>
     p_name p \<noteq> None \<and> p_endpointClass p \<noteq> None \<and> p_url p \<noteq> None \<and> p_frequencyCron p \<noteq> None"

section \<open>The write model\<close>

definition fourEyesRequired :: "target_env \<Rightarrow> bool \<Rightarrow> bool" where
  "fourEyesRequired e moneyMoving \<longleftrightarrow> moneyMoving \<and> AUTH_ENABLED e"

definition or_else :: "'a option \<Rightarrow> 'a \<Rightarrow> 'a" where
  "or_else v d = (case v of Some x \<Rightarrow> x | None \<Rightarrow> d)"

definition DEFAULT_RETRY :: retry_config where
  "DEFAULT_RETRY = \<lparr>retry_count = 2, baseDelayMs = 1000, backoffMultiplier = 2, maxDelayMs = 5000\<rparr>"

text \<open>The double nearest to 99.95.\<close>

definition DEFAULT_SLA_TARGET_PERCENT :: rat where
  "DEFAULT_SLA_TARGET_PERCENT = fl (9995 / 100)"

definition mergeRetry :: "retry_config \<Rightarrow> partial_retry option \<Rightarrow> retry_config" where
  "mergeRetry base patch =
     (case patch of
        None \<Rightarrow> base
      | Some r \<Rightarrow> \<lparr>retry_count = (case pr_count r of Some c \<Rightarrow> nat c | None \<Rightarrow> retry_count base),
          baseDelayMs = or_else (pr_baseDelayMs r) (baseDelayMs base),
          backoffMultiplier = or_else (pr_backoffMultiplier r) (backoffMultiplier base),
          maxDelayMs = or_else (pr_maxDelayMs r) (maxDelayMs base)\<rparr>)"

text \<open>\<open>None\<close> leaves the credentials as they are, \<open>Some None\<close> clears them.\<close>

definition resolveCredentials :: "libs \<Rightarrow> fields option option \<Rightarrow> string option option" where
  "resolveCredentials L c =
     (case c of
        None \<Rightarrow> None
      | Some None \<Rightarrow> Some None
      | Some (Some kvs) \<Rightarrow> if kvs = [] then Some None else Some (Some (lib_encrypt L kvs)))"

definition buildCreateModel :: "target_env \<Rightarrow> libs \<Rightarrow> target_payload \<Rightarrow> target_write_model" where
  "buildCreateModel e L p =
     (let cls = the (p_endpointClass p)
      in \<lparr>m_name = the (p_name p), m_description = or_else (p_description p) None,
          m_environment = or_else (p_environment p) Env_production, m_endpointClass = cls,
          m_severityDefault = or_else (p_severityDefault p) (DEFAULT_SEVERITY_BY_CLASS cls),
          m_isMoneyMoving = or_else (p_isMoneyMoving p) False, m_url = the (p_url p), m_method = or_else (p_method p) M_GET,
          m_authenticationType = or_else (p_authenticationType p) A_NONE,
          m_encryptedCredentials = or_else (resolveCredentials L (p_credentials p)) None,
          m_headers = or_else (p_headers p) [], m_requestBody = p_requestBody p,
          m_expectedStatus = or_else (p_expectedStatus p) None, m_expectedResponse = or_else (p_expectedResponse p) None,
          m_timeoutMs = or_else (p_timeoutMs p) (DEFAULT_CHECK_TIMEOUT_MS e), m_frequencyCron = the (p_frequencyCron p),
          m_retry = mergeRetry DEFAULT_RETRY (p_retry p),
          m_slaTargetPercent = or_else (p_slaTargetPercent p) DEFAULT_SLA_TARGET_PERCENT,
          m_ownerId = or_else (p_ownerId p) None, m_teamId = or_else (p_teamId p) None,
          m_escalationPolicyId = or_else (p_escalationPolicyId p) None, m_tags = or_else (p_tags p) [],
          m_isActive = or_else (p_isActive p) True, m_allowPrivateNetwork = or_else (p_allowPrivateNetwork p) False,
          m_bypassMinIntervalFloor = or_else (p_bypassMinIntervalFloor p) False\<rparr>)"

definition mergeUpdateModel :: "libs \<Rightarrow> monitored_api \<Rightarrow> string option \<Rightarrow> target_payload \<Rightarrow> target_write_model" where
  "mergeUpdateModel L x envelope p =
     \<lparr>m_name = or_else (p_name p) (api_name x), m_description = or_else (p_description p) (api_description x),
      m_environment = or_else (p_environment p) (api_environment x), m_endpointClass = or_else (p_endpointClass p) (endpointClass x),
      m_severityDefault = or_else (p_severityDefault p) (severityDefault x),
      m_isMoneyMoving = or_else (p_isMoneyMoving p) (isMoneyMoving x), m_url = or_else (p_url p) (api_url x),
      m_method = or_else (p_method p) (api_method x),
      m_authenticationType = or_else (p_authenticationType p) (authenticationType x),
      m_encryptedCredentials = or_else (resolveCredentials L (p_credentials p)) envelope,
      m_headers = or_else (p_headers p) (api_headers x),
      m_requestBody = (case p_requestBody p of None \<Rightarrow> requestBody x | Some j \<Rightarrow> Some j),
      m_expectedStatus = or_else (p_expectedStatus p) (expectedStatus x),
      m_expectedResponse = or_else (p_expectedResponse p) (expectedResponse x),
      m_timeoutMs = or_else (p_timeoutMs p) (timeoutMs x), m_frequencyCron = or_else (p_frequencyCron p) (frequencyCron x),
      m_retry = mergeRetry (api_retry x) (p_retry p), m_slaTargetPercent = or_else (p_slaTargetPercent p) (slaTargetPercent x),
      m_ownerId = or_else (p_ownerId p) (ownerId x), m_teamId = or_else (p_teamId p) (teamId x),
      m_escalationPolicyId = or_else (p_escalationPolicyId p) (escalationPolicyId x), m_tags = or_else (p_tags p) (api_tags x),
      m_isActive = or_else (p_isActive p) (isActive x), m_allowPrivateNetwork = or_else (p_allowPrivateNetwork p) (allowPrivateNetwork x),
      m_bypassMinIntervalFloor = or_else (p_bypassMinIntervalFloor p) (bypassMinIntervalFloor x)\<rparr>"

definition MONEY_MOVING_MIN_INTERVAL_SECONDS :: int where
  "MONEY_MOVING_MIN_INTERVAL_SECONDS = 300"

text \<open>The checks return the error they raise.\<close>

definition assertScheduleAllowed :: "libs \<Rightarrow> timestamp \<Rightarrow> string \<Rightarrow> bool \<Rightarrow> bool \<Rightarrow> app_error option" where
  "assertScheduleAllowed L now expr moneyMoving bypassFloor =
     (if \<not> assertValidCron (lib_cron L) expr now
      then Some (ValidationError (''Invalid cron expression '' @ dquote @ expr @ dquote @ '': '' @ lib_cron_cause L expr))
      else if moneyMoving \<and> \<not> bypassFloor
      then (case intervalSeconds (lib_cron L) expr now of
              None \<Rightarrow> Some (PlainError (lib_cron_cause L expr))
            | Some seconds \<Rightarrow>
                if MONEY_MOVING_MIN_INTERVAL_SECONDS < seconds
                then Some (ValidationError (''Money-moving targets must be checked at least every 300s (spec Rule 16); '' @ dquote @ expr @ dquote @
                       '' runs every '' @ show_int seconds @ ''s. Set bypassMinIntervalFloor to override (audited, still requires four-eyes approval for money-moving targets).''))
                else None)
      else None)"

definition assertUrlAllowedOrThrow :: "libs \<Rightarrow> string \<Rightarrow> bool \<Rightarrow> app_error option" where
  "assertUrlAllowedOrThrow L url allow =
     map_option ValidationError (assertUrlAllowed (isIPv6 (lib_net L)) (parseUrl (lib_net L)) (resolve (lib_net L)) allow url)"

text \<open>Both checks, in the order of the code.\<close>

definition model_refused :: "libs \<Rightarrow> timestamp \<Rightarrow> target_write_model \<Rightarrow> app_error option" where
  "model_refused L now m =
     (case assertScheduleAllowed L now (m_frequencyCron m) (m_isMoneyMoving m) (m_bypassMinIntervalFloor m) of
        Some err \<Rightarrow> Some err
      | None \<Rightarrow> assertUrlAllowedOrThrow L (m_url m) (m_allowPrivateNetwork m))"

section \<open>The table of targets\<close>

text \<open>The row a write leaves behind, as it is read back: the JSON \<open>null\<close> of a request body is read as
  the absence of a body, and two columns have a fixed number of decimals.\<close>

definition row_of :: "target_id \<Rightarrow> timestamp \<Rightarrow> timestamp \<Rightarrow> rat \<Rightarrow> rat \<Rightarrow> target_write_model \<Rightarrow> monitored_api" where
  "row_of tid created now backoff sla m =
     \<lparr>api_id = tid, api_name = m_name m, api_description = m_description m, api_environment = m_environment m,
      endpointClass = m_endpointClass m, severityDefault = m_severityDefault m, isMoneyMoving = m_isMoneyMoving m,
      api_url = m_url m, api_method = m_method m, authenticationType = m_authenticationType m,
      hasCredentials = (m_encryptedCredentials m \<noteq> None), api_headers = m_headers m,
      requestBody = (if m_requestBody m = Some Jnull then None else m_requestBody m),
      expectedStatus = m_expectedStatus m, expectedResponse = m_expectedResponse m, timeoutMs = m_timeoutMs m,
      frequencyCron = m_frequencyCron m, api_retry = (m_retry m)\<lparr>backoffMultiplier := backoff\<rparr>, slaTargetPercent = sla,
      ownerId = m_ownerId m, teamId = m_teamId m, escalationPolicyId = m_escalationPolicyId m, api_tags = m_tags m,
      isActive = m_isActive m, allowPrivateNetwork = m_allowPrivateNetwork m,
      bypassMinIntervalFloor = m_bypassMinIntervalFloor m, api_createdAt = created, api_updatedAt = now\<rparr>"

text \<open>The \<open>CHECK\<close> constraints of the table, each with its name, and the foreign keys.\<close>

definition row_checks :: "monitored_api \<Rightarrow> (string \<times> bool) list" where
  "row_checks a =
     [(''monitored_apis_backoff_valid'', 1 \<le> backoffMultiplier (api_retry a)),
      (''monitored_apis_expected_status_range'', present (\<lambda>st. 100 \<le> st \<and> st \<le> 599) (expectedStatus a)),
      (''monitored_apis_retry_count_valid'', retry_count (api_retry a) \<le> 10),
      (''monitored_apis_retry_delays_valid'', 0 \<le> baseDelayMs (api_retry a) \<and> baseDelayMs (api_retry a) \<le> maxDelayMs (api_retry a)),
      (''monitored_apis_sla_range'', 0 < slaTargetPercent a \<and> slaTargetPercent a \<le> 100),
      (''monitored_apis_timeout_positive'', 0 < timeoutMs a)]"

definition row_refs :: "config_state \<Rightarrow> monitored_api \<Rightarrow> (string \<times> bool) list" where
  "row_refs s a =
     [(''monitored_apis_owner_id_fkey'', present (\<lambda>u. u \<in> set (user_ids s)) (ownerId a)),
      (''monitored_apis_team_id_fkey'', present (\<lambda>t. t \<in> set (team_ids s)) (teamId a)),
      (''monitored_apis_escalation_policy_id_fkey'', present (\<lambda>k. k \<in> ep_id ` set (escalation_policies (cdb s))) (escalationPolicyId a))]"

definition write_row ::
    "libs \<Rightarrow> target_id \<Rightarrow> timestamp \<Rightarrow> timestamp \<Rightarrow> target_write_model \<Rightarrow> config_state \<Rightarrow> db_error + monitored_api" where
  "write_row L tid created now m s =
     (case (lib_numeric L 4 2 (backoffMultiplier (m_retry m)), lib_numeric L 6 4 (m_slaTargetPercent m)) of
        (Some backoff, Some sla) \<Rightarrow>
          let a = row_of tid created now backoff sla m
          in (case find (\<lambda>c. \<not> snd c) (row_checks a) of
                Some c \<Rightarrow> Inl (Check_violation (fst c))
              | None \<Rightarrow>
                  if \<exists>x \<in> set (monitored_apis (cdb s)). api_id x \<noteq> tid \<and> api_name x = api_name a \<and> api_environment x = api_environment a
                  then Inl (Unique_violation ''monitored_apis_name_env_unique'')
                  else (case find (\<lambda>c. \<not> snd c) (row_refs s a) of
                          Some c \<Rightarrow> Inl (Foreign_key_violation (fst c))
                        | None \<Rightarrow> Inr a))
      | _ \<Rightarrow> Inl Numeric_overflow)"

definition set_envelope :: "target_id \<Rightarrow> string option \<Rightarrow> (target_id \<times> string) list \<Rightarrow> (target_id \<times> string) list" where
  "set_envelope tid env es = filter (\<lambda>x. fst x \<noteq> tid) es @ (case env of Some v \<Rightarrow> [(tid, v)] | None \<Rightarrow> [])"

definition createTarget_row :: "libs \<Rightarrow> timestamp \<Rightarrow> target_write_model \<Rightarrow> config_state \<Rightarrow> (db_error + monitored_api) \<times> config_state" where
  "createTarget_row L now m s =
     (let tid = show_nat (next_id (cdb s)); s1 = s\<lparr>cdb := (cdb s)\<lparr>next_id := Suc (next_id (cdb s))\<rparr>\<rparr>
      in case write_row L tid now now m s of
           Inl err \<Rightarrow> (Inl err, s1)
         | Inr a \<Rightarrow> (Inr a, s1\<lparr>cdb := (cdb s1)\<lparr>monitored_apis := monitored_apis (cdb s) @ [a]\<rparr>,
                          encrypted_credentials := set_envelope tid (m_encryptedCredentials m) (encrypted_credentials s)\<rparr>))"

definition updateTarget_row ::
    "libs \<Rightarrow> timestamp \<Rightarrow> target_id \<Rightarrow> target_write_model \<Rightarrow> config_state \<Rightarrow> (db_error + monitored_api option) \<times> config_state" where
  "updateTarget_row L now tid m s =
     (case findTargetById tid (cdb s) of
        None \<Rightarrow> (Inr None, s)
      | Some x \<Rightarrow>
          (case write_row L tid (api_createdAt x) now m s of
             Inl err \<Rightarrow> (Inl err, s)
           | Inr a \<Rightarrow> (Inr (Some a), s\<lparr>cdb := (cdb s)\<lparr>monitored_apis := upd_where (\<lambda>y. api_id y = tid) (\<lambda>_. a) (monitored_apis (cdb s))\<rparr>,
                               encrypted_credentials := set_envelope tid (m_encryptedCredentials m) (encrypted_credentials s)\<rparr>)))"

definition findTargetCredentialEnvelope :: "target_id \<Rightarrow> config_state \<Rightarrow> string option" where
  "findTargetCredentialEnvelope tid s = map_of (encrypted_credentials s) tid"

record list_target_filters =
  lf_environment :: "environment option"
  lf_endpointClass :: "endpoint_class option"
  lf_isActive :: "bool option"
  lf_isMoneyMoving :: "bool option"
  lf_teamId :: "row_id option"
  lf_tag :: "string option"
  lf_limit :: "nat option"
  lf_offset :: "nat option"

definition listTargets :: "list_target_filters \<Rightarrow> config_state \<Rightarrow> monitored_api list" where
  "listTargets f s =
     (let rows = filter (\<lambda>a. matches (lf_environment f) (api_environment a) \<and> matches (lf_endpointClass f) (endpointClass a) \<and>
            matches (lf_isActive f) (isActive a) \<and> matches (lf_isMoneyMoving f) (isMoneyMoving a) \<and>
            (lf_teamId f = None \<or> teamId a = lf_teamId f) \<and>
            present (\<lambda>t. t = [] \<or> t \<in> set (api_tags a)) (lf_tag f)) (monitored_apis (cdb s));
          n = min (or_else (lf_limit f) 100) 500
      in take n (drop (or_else (lf_offset f) 0) (sort_key (\<lambda>a. - api_createdAt a) rows)))"

definition setTargetActive :: "timestamp \<Rightarrow> target_id \<Rightarrow> bool \<Rightarrow> config_state \<Rightarrow> monitored_api option \<times> config_state" where
  "setTargetActive now tid active s =
     (let s' = s\<lparr>cdb := (cdb s)\<lparr>monitored_apis := upd_where (\<lambda>y. api_id y = tid) (\<lambda>y. y\<lparr>isActive := active, api_updatedAt := now\<rparr>)
                  (monitored_apis (cdb s))\<rparr>\<rparr>
      in (findTargetById tid (cdb s'), s'))"

text \<open>Deleting a target deletes or detaches the rows that refer to it, as the foreign keys say.\<close>

definition cascade_target :: "target_id \<Rightarrow> db \<Rightarrow> db" where
  "cascade_target tid d =
     (let gone = map inc_id (filter (\<lambda>i. inc_apiId i = tid) (incidents d));
          checks = map hcr_id (filter (\<lambda>r. hcr_apiId r = tid) (health_check_results d))
      in d\<lparr>monitored_apis := filter (\<lambda>a. api_id a \<noteq> tid) (monitored_apis d),
           cron_job_runs := filter (\<lambda>r. cjr_targetId r \<noteq> tid) (cron_job_runs d),
           health_check_results := filter (\<lambda>r. hcr_apiId r \<noteq> tid) (health_check_results d),
           health_check_traces := filter (\<lambda>r. tr_apiId r \<noteq> tid \<and> tr_checkId r \<notin> set checks) (health_check_traces d),
           target_schedule_state := filter (\<lambda>r. ss_targetId r \<noteq> tid) (target_schedule_state d),
           incidents := map (\<lambda>i. if \<exists>c \<in> set checks. detectedByCheckId i = Some c then i\<lparr>detectedByCheckId := None\<rparr> else i)
             (filter (\<lambda>i. inc_apiId i \<noteq> tid) (incidents d)),
           incident_events := filter (\<lambda>v. ev_incidentId v \<notin> set gone) (incident_events d),
           alerts := map (\<lambda>a. if al_apiId a = Some tid then a\<lparr>al_apiId := None\<rparr> else a)
             (filter (\<lambda>a. \<not> (\<exists>k \<in> set gone. al_incidentId a = Some k)) (alerts d)),
           maintenance_windows := filter (\<lambda>w. mw_targetId w \<noteq> Some tid) (maintenance_windows d)\<rparr>)"

definition deleteTarget_row :: "target_id \<Rightarrow> config_state \<Rightarrow> config_state" where
  "deleteTarget_row tid s =
     s\<lparr>cdb := cascade_target tid (cdb s), encrypted_credentials := set_envelope tid None (encrypted_credentials s),
       config_change_requests := filter (\<lambda>r. cr_targetId r \<noteq> Some tid) (config_change_requests s)\<rparr>"

section \<open>Requests for a change\<close>

definition createConfigRequest ::
    "timestamp \<Rightarrow> config_request_kind \<Rightarrow> target_id option \<Rightarrow> target_write_model \<Rightarrow> string \<Rightarrow> row_id \<Rightarrow> config_state \<Rightarrow>
     (db_error + config_change_request) \<times> config_state" where
  "createConfigRequest now kind targetId payload summary proposedBy s =
     (let k = next_id (cdb s); s1 = s\<lparr>cdb := (cdb s)\<lparr>next_id := Suc k\<rparr>\<rparr>;
          r = \<lparr>cr_id = k, cr_kind = kind, cr_targetId = targetId, cr_status = CR_PENDING, cr_payload = payload, cr_summary = summary,
               cr_proposedBy = proposedBy, cr_reviewedBy = None, cr_reviewNote = None, cr_reviewedAt = None, cr_appliedAt = None,
               cr_error = None, cr_createdAt = now, cr_updatedAt = now\<rparr>
      in if \<not> present (\<lambda>t. findTargetById t (cdb s) \<noteq> None) targetId
         then (Inl (Foreign_key_violation ''config_change_requests_target_id_fkey''), s1)
         else if proposedBy \<notin> set (user_ids s) then (Inl (Foreign_key_violation ''config_change_requests_proposed_by_fkey''), s1)
         else (Inr r, s1\<lparr>config_change_requests := config_change_requests s @ [r]\<rparr>))"

definition getConfigRequest :: "row_id \<Rightarrow> config_state \<Rightarrow> config_change_request option" where
  "getConfigRequest k s = find (\<lambda>r. cr_id r = k) (config_change_requests s)"

definition listConfigRequests :: "config_request_status option \<Rightarrow> config_state \<Rightarrow> config_change_request list" where
  "listConfigRequests st s =
     take 200 (sort_key (\<lambda>r. - cr_createdAt r) (filter (\<lambda>r. matches st (cr_status r)) (config_change_requests s)))"

definition upd_request :: "(config_change_request \<Rightarrow> bool) \<Rightarrow> (config_change_request \<Rightarrow> config_change_request) \<Rightarrow> config_state \<Rightarrow> config_state" where
  "upd_request p f s = s\<lparr>config_change_requests := upd_where p f (config_change_requests s)\<rparr>"

definition markReviewed ::
    "timestamp \<Rightarrow> row_id \<Rightarrow> row_id \<Rightarrow> bool \<Rightarrow> string option \<Rightarrow> config_state \<Rightarrow>
     (db_error + config_change_request option) \<times> config_state" where
  "markReviewed now k reviewedBy approved rnote s =
     (case find (\<lambda>r. cr_id r = k \<and> cr_status r = CR_PENDING) (config_change_requests s) of
        None \<Rightarrow> (Inr None, s)
      | Some r \<Rightarrow>
          if reviewedBy = cr_proposedBy r then (Inl (Check_violation ''config_change_requests_four_eyes''), s)
          else if reviewedBy \<notin> set (user_ids s) then (Inl (Foreign_key_violation ''config_change_requests_reviewed_by_fkey''), s)
          else let s' = upd_request (\<lambda>r. cr_id r = k \<and> cr_status r = CR_PENDING)
                     (\<lambda>r. r\<lparr>cr_status := (if approved then CR_APPROVED else CR_REJECTED), cr_reviewedBy := Some reviewedBy,
                            cr_reviewNote := rnote, cr_reviewedAt := Some now, cr_updatedAt := now\<rparr>) s
               in (Inr (getConfigRequest k s'), s'))"

definition markApplied :: "timestamp \<Rightarrow> row_id \<Rightarrow> config_state \<Rightarrow> config_state" where
  "markApplied now k s =
     upd_request (\<lambda>r. cr_id r = k) (\<lambda>r. r\<lparr>cr_status := CR_APPLIED, cr_appliedAt := Some now, cr_updatedAt := now\<rparr>) s"

definition markFailed :: "timestamp \<Rightarrow> row_id \<Rightarrow> string \<Rightarrow> config_state \<Rightarrow> config_state" where
  "markFailed now k err s =
     upd_request (\<lambda>r. cr_id r = k) (\<lambda>r. r\<lparr>cr_status := CR_FAILED, cr_error := Some err, cr_updatedAt := now\<rparr>) s"

section \<open>The service\<close>

fun show_environment :: "environment \<Rightarrow> string" where
  "show_environment Env_production = ''production''" | "show_environment Env_staging = ''staging''"
| "show_environment Env_sandbox = ''sandbox''"

fun show_endpoint_class :: "endpoint_class \<Rightarrow> string" where
  "show_endpoint_class Payment_initiation = ''payment_initiation''" | "show_endpoint_class Payment_status = ''payment_status''"
| "show_endpoint_class Ledger = ''ledger''" | "show_endpoint_class Settlement = ''settlement''"
| "show_endpoint_class Psp_gateway = ''psp_gateway''" | "show_endpoint_class Kyc = ''kyc''" | "show_endpoint_class Auth_class = ''auth''"
| "show_endpoint_class Notification_class = ''notification''" | "show_endpoint_class Reporting = ''reporting''"
| "show_endpoint_class Internal = ''internal''" | "show_endpoint_class Utility_vending = ''utility_vending''"

definition secret_name :: "string \<Rightarrow> bool" where
  "secret_name k \<longleftrightarrow> (\<exists>p \<in> set [''auth'', ''key'', ''secret'', ''token'', ''cookie'']. has_part p (toLowerCase k))"

definition redact :: "monitored_api \<Rightarrow> monitored_api" where
  "redact a = a\<lparr>api_headers := map (\<lambda>(k, v). (k, if secret_name k then ''[REDACTED]'' else v)) (api_headers a)\<rparr>"

definition audit ::
    "audit_actor \<Rightarrow> string \<Rightarrow> target_id \<Rightarrow> string \<Rightarrow> monitored_api option \<Rightarrow> monitored_api option \<Rightarrow> config_state \<Rightarrow> config_state" where
  "audit actor action tid summary before after s =
     s\<lparr>cdb := recordAudit actor action ''monitored_api'' (Some (Target tid)) (Some summary) (cdb s),
       audit_changes := audit_changes s @ (if before = None \<and> after = None then [] else [(action, tid, map_option redact before, map_option redact after)])\<rparr>"

definition audit_request :: "audit_actor \<Rightarrow> string \<Rightarrow> row_id \<Rightarrow> string \<Rightarrow> config_state \<Rightarrow> config_state" where
  "audit_request actor action k summary s =
     s\<lparr>cdb := recordAudit actor action ''config_change_request'' (Some (Row k)) (Some summary) (cdb s)\<rparr>"

text \<open>A transaction on these tables: an error undoes everything but the identifiers drawn.\<close>

definition config_transaction ::
    "(config_state \<Rightarrow> (app_error + 'a) \<times> config_state) \<Rightarrow> config_state \<Rightarrow> (app_error + 'a) \<times> config_state" where
  "config_transaction fn s =
     (case fn s of
        (Inr r, s') \<Rightarrow> (Inr r, s')
      | (Inl err, s') \<Rightarrow> (Inl err, s\<lparr>cdb := (cdb s)\<lparr>next_id := next_id (cdb s')\<rparr>\<rparr>))"

definition with_note :: "string option \<Rightarrow> string" where
  "with_note n = (case n of Some t \<Rightarrow> if t = [] then [] else '' '' @ utf8_em_dash @ '' '' @ t | None \<Rightarrow> [])"

definition persistTargetCreate ::
    "libs \<Rightarrow> timestamp \<Rightarrow> target_write_model \<Rightarrow> audit_actor \<Rightarrow> string option \<Rightarrow> config_state \<Rightarrow> (app_error + monitored_api) \<times> config_state" where
  "persistTargetCreate L now m actor n =
     config_transaction (\<lambda>s.
       case createTarget_row L now m s of
         (Inl err, s1) \<Rightarrow> (Inl (DbError err), s1)
       | (Inr a, s1) \<Rightarrow>
           (Inr a, audit actor ''target.created'' (api_id a)
              (''Registered target '' @ dquote @ api_name a @ dquote @ '' ('' @ show_endpoint_class (endpointClass a) @ '', '' @
               show_environment (api_environment a) @ '')'' @ with_note n) None (Some a) s1))"

definition target_not_found :: "target_id \<Rightarrow> app_error" where
  "target_not_found tid = NotFoundError (''Target '' @ tid @ '' not found'')"

definition persistTargetUpdate ::
    "libs \<Rightarrow> timestamp \<Rightarrow> target_id \<Rightarrow> target_write_model \<Rightarrow> monitored_api \<Rightarrow> audit_actor \<Rightarrow> string option \<Rightarrow> config_state \<Rightarrow>
     (app_error + monitored_api) \<times> config_state" where
  "persistTargetUpdate L now tid m existing actor n =
     config_transaction (\<lambda>s.
       case updateTarget_row L now tid m s of
         (Inl err, s1) \<Rightarrow> (Inl (DbError err), s1)
       | (Inr None, s1) \<Rightarrow> (Inl (target_not_found tid), s1)
       | (Inr (Some a), s1) \<Rightarrow>
           (Inr a, audit actor ''target.updated'' tid (''Updated target '' @ dquote @ api_name a @ dquote @ with_note n)
              (Some existing) (Some a) s1))"

datatype mutation_result = Applied monitored_api | Pending_approval config_change_request

definition propose ::
    "timestamp \<Rightarrow> config_request_kind \<Rightarrow> target_id option \<Rightarrow> target_write_model \<Rightarrow> string \<Rightarrow> audit_actor \<Rightarrow> config_state \<Rightarrow>
     (app_error + mutation_result) \<times> config_state" where
  "propose now kind tid m summary actor s =
     (case actor_userId actor of
        None \<Rightarrow> (Inl (ValidationError ''A named user is required to propose this change''), s)
      | Some u \<Rightarrow>
          (case createConfigRequest now kind tid m summary u s of
             (Inl err, s1) \<Rightarrow> (Inl (DbError err), s1)
           | (Inr r, s1) \<Rightarrow> (Inr (Pending_approval r), audit_request actor ''config_request.proposed'' (cr_id r) (cr_summary r) s1)))"

definition createTarget ::
    "target_env \<Rightarrow> libs \<Rightarrow> timestamp \<Rightarrow> target_payload \<Rightarrow> audit_actor \<Rightarrow> config_state \<Rightarrow> (app_error + mutation_result) \<times> config_state" where
  "createTarget e L now p actor s =
     (if \<not> createTargetSchema L p then (Inl (ZodError ''target''), s)
      else let m = buildCreateModel e L p
      in case model_refused L now m of
           Some err \<Rightarrow> (Inl err, s)
         | None \<Rightarrow>
             if fourEyesRequired e (m_isMoneyMoving m)
             then propose now Target_create None m
                    (''Register money-moving target '' @ dquote @ m_name m @ dquote @ '' ('' @ show_endpoint_class (m_endpointClass m) @ '')'') actor s
             else (case persistTargetCreate L now m actor None s of (r, s1) \<Rightarrow> (map_sum id Applied r, s1)))"

definition getTarget :: "target_id \<Rightarrow> config_state \<Rightarrow> app_error + monitored_api" where
  "getTarget tid s = (case findTargetById tid (cdb s) of None \<Rightarrow> Inl (target_not_found tid) | Some a \<Rightarrow> Inr a)"

definition testTarget ::
    "libs \<Rightarrow> fields option \<Rightarrow> string \<Rightarrow> timestamp \<Rightarrow> target_id \<Rightarrow> audit_actor \<Rightarrow> config_state \<Rightarrow> (app_error + health_check_outcome) \<times> config_state" where
  "testTarget L creds runId now tid actor s =
     (case getTarget tid s of
        Inl err \<Rightarrow> (Inl err, s)
      | Inr a \<Rightarrow>
          (case executeCheck (lib_net L) creds runId now a of
             (Inl err, _) \<Rightarrow> (Inl (PlainError err), s)
           | (Inr out, _) \<Rightarrow>
               (Inr out, audit actor ''target.tested'' tid
                  (''Ad-hoc test of '' @ dquote @ api_name a @ dquote @ '' '' @ utf8_arrow @ '' '' @ show_health_status (out_status out) @ '' (HTTP '' @
                   (case out_httpStatus out of Some st \<Rightarrow> show_int st | None \<Rightarrow> ''n/a'') @ '', '' @ show_nat (out_attempts out) @ '' attempt(s))'')
                  None None s)))"

definition updateTarget ::
    "target_env \<Rightarrow> libs \<Rightarrow> timestamp \<Rightarrow> target_id \<Rightarrow> target_payload \<Rightarrow> audit_actor \<Rightarrow> config_state \<Rightarrow> (app_error + mutation_result) \<times> config_state" where
  "updateTarget e L now tid p actor s =
     (if \<not> updateTargetSchema L p then (Inl (ZodError ''target''), s)
      else case findTargetById tid (cdb s) of
             None \<Rightarrow> (Inl (target_not_found tid), s)
           | Some existing \<Rightarrow>
               let m = mergeUpdateModel L existing (findTargetCredentialEnvelope tid s) p
               in case model_refused L now m of
                    Some err \<Rightarrow> (Inl err, s)
                  | None \<Rightarrow>
                      if fourEyesRequired e (isMoneyMoving existing \<or> m_isMoneyMoving m)
                      then propose now Target_update (Some tid) m (''Change money-moving target '' @ dquote @ api_name existing @ dquote) actor s
                      else (case persistTargetUpdate L now tid m existing actor None s of (r, s1) \<Rightarrow> (map_sum id Applied r, s1)))"

definition setTargetEnabled :: "timestamp \<Rightarrow> target_id \<Rightarrow> bool \<Rightarrow> audit_actor \<Rightarrow> config_state \<Rightarrow> (app_error + monitored_api) \<times> config_state" where
  "setTargetEnabled now tid active actor =
     config_transaction (\<lambda>s.
       case setTargetActive now tid active s of
         (None, s1) \<Rightarrow> (Inl (target_not_found tid), s1)
       | (Some a, s1) \<Rightarrow>
           (Inr a, audit actor (if active then ''target.enabled'' else ''target.disabled'') tid
              ((if active then ''Enabled'' else ''Disabled'') @ '' monitoring for '' @ dquote @ api_name a @ dquote) None None s1))"

definition deleteTarget :: "target_id \<Rightarrow> audit_actor \<Rightarrow> config_state \<Rightarrow> (app_error + unit) \<times> config_state" where
  "deleteTarget tid actor s =
     (case findTargetById tid (cdb s) of
        None \<Rightarrow> (Inl (target_not_found tid), s)
      | Some existing \<Rightarrow>
          config_transaction (\<lambda>s. (Inr (), audit actor ''target.deleted'' tid (''Deleted target '' @ dquote @ api_name existing @ dquote)
             (Some existing) None (deleteTarget_row tid s))) s)"

section \<open>Review\<close>

definition request_not_found :: "row_id \<Rightarrow> app_error" where
  "request_not_found k = NotFoundError (''Config change request '' @ show_nat k @ '' not found'')"

fun show_request_status :: "config_request_status \<Rightarrow> string" where
  "show_request_status CR_PENDING = ''PENDING''" | "show_request_status CR_APPROVED = ''APPROVED''"
| "show_request_status CR_REJECTED = ''REJECTED''" | "show_request_status CR_APPLIED = ''APPLIED''"
| "show_request_status CR_FAILED = ''FAILED''"

definition getChangeRequest :: "row_id \<Rightarrow> config_state \<Rightarrow> app_error + config_change_request" where
  "getChangeRequest k s = (case getConfigRequest k s of None \<Rightarrow> Inl (request_not_found k) | Some r \<Rightarrow> Inr r)"

text \<open>The change of an approved request.\<close>

definition apply_request :: "libs \<Rightarrow> timestamp \<Rightarrow> config_change_request \<Rightarrow> audit_actor \<Rightarrow> config_state \<Rightarrow> (app_error + monitored_api) \<times> config_state" where
  "apply_request L now r actor s =
     (let n = Some (''via approval '' @ show_nat (cr_id r) @ '' (proposed by '' @ show_nat (cr_proposedBy r) @ '')'')
      in case cr_kind r of
           Target_create \<Rightarrow> persistTargetCreate L now (cr_payload r) actor n s
         | Target_update \<Rightarrow>
             (case cr_targetId r of
                None \<Rightarrow> (Inl (NotFoundError ''Target no longer exists''), s)
              | Some tid \<Rightarrow>
                  (case findTargetById tid (cdb s) of
                     None \<Rightarrow> (Inl (NotFoundError ''Target no longer exists''), s)
                   | Some existing \<Rightarrow> persistTargetUpdate L now tid (cr_payload r) existing actor n s)))"

text \<open>The \<open>try\<close> of the review: a change that cannot be applied is recorded on the request.\<close>

definition apply_reviewed ::
    "libs \<Rightarrow> timestamp \<Rightarrow> row_id \<Rightarrow> config_change_request \<Rightarrow> audit_actor \<Rightarrow> config_state \<Rightarrow> config_change_request \<times> config_state" where
  "apply_reviewed L now k reviewed actor s =
     (case apply_request L now reviewed actor s of
        (Inr _, s1) \<Rightarrow> let s2 = markApplied now k s1 in (the (getConfigRequest k s2), s2)
      | (Inl err, s1) \<Rightarrow>
          let s2 = audit_request actor ''config_request.apply_failed'' k (''Failed to apply: '' @ app_error_message err)
                (markFailed now k (app_error_message err) s1)
          in (the (getConfigRequest k s2), s2))"

definition reviewChangeRequest ::
    "libs \<Rightarrow> timestamp \<Rightarrow> row_id \<Rightarrow> bool \<Rightarrow> string option \<Rightarrow> audit_actor \<Rightarrow> config_state \<Rightarrow> (app_error + config_change_request) \<times> config_state" where
  "reviewChangeRequest L now k approved rnote actor s =
     (case getConfigRequest k s of
        None \<Rightarrow> (Inl (request_not_found k), s)
      | Some r \<Rightarrow>
          if cr_status r \<noteq> CR_PENDING then (Inl (ValidationError (''Request is already '' @ show_request_status (cr_status r))), s)
          else case actor_userId actor of
            None \<Rightarrow> (Inl (ValidationError ''A named reviewer is required''), s)
          | Some u \<Rightarrow>
              if u = cr_proposedBy r then (Inl (ForbiddenError ''The proposer cannot approve their own change (four-eyes)''), s)
              else case markReviewed now k u approved rnote s of
                (Inl err, s1) \<Rightarrow> (Inl (DbError err), s1)
              | (Inr None, s1) \<Rightarrow> (Inl (ValidationError ''Request could not be reviewed (already actioned?)''), s1)
              | (Inr (Some reviewed), s1) \<Rightarrow>
                  let s2 = audit_request actor (if approved then ''config_request.approved'' else ''config_request.rejected'') k
                        ((if approved then ''APPROVED'' else ''REJECTED'') @ '' '' @ utf8_em_dash @ '' '' @ cr_summary reviewed @
                         (case rnote of Some t \<Rightarrow> if t = [] then [] else '' ('' @ t @ '')'' | None \<Rightarrow> [])) s1
                  in if \<not> approved then (Inr reviewed, s2)
                     else (case apply_reviewed L now k reviewed actor s2 of (r', s3) \<Rightarrow> (Inr r', s3)))"

end
