(* ===== verification/Target_Config.thy ===== *)
theory Target_Config
  imports Target_Service
begin

text \<open>
  What the administration of targets guarantees, over the operations of \<open>Target_Service\<close> as steps of
  one state machine: the constraints of the tables, that a target which moves money is changed by
  two people only, that a review is final and its change is applied whole or not at all, and that
  an update changes only the fields it names.
\<close>

section \<open>The operations as steps\<close>

datatype config_op =
    Op_create target_payload
  | Op_update target_id target_payload
  | Op_enable target_id bool
  | Op_delete target_id
  | Op_review row_id bool "string option"
  | Op_test target_id "fields option" string

fun config_step :: "target_env \<Rightarrow> libs \<Rightarrow> timestamp \<times> audit_actor \<times> config_op \<Rightarrow> config_state \<Rightarrow> config_state" where
  "config_step e L (now, actor, Op_create p) s = snd (createTarget e L now p actor s)"
| "config_step e L (now, actor, Op_update tid p) s = snd (updateTarget e L now tid p actor s)"
| "config_step e L (now, actor, Op_enable tid b) s = snd (setTargetEnabled now tid b actor s)"
| "config_step e L (now, actor, Op_delete tid) s = snd (deleteTarget tid actor s)"
| "config_step e L (now, actor, Op_review k b rnote) s = snd (reviewChangeRequest L now k b rnote actor s)"
| "config_step e L (now, actor, Op_test tid creds run) s = snd (testTarget L creds run now tid actor s)"

section \<open>The constraints of the tables\<close>

definition row_ok :: "(target_id \<times> string) list \<Rightarrow> monitored_api \<Rightarrow> bool" where
  "row_ok es a \<longleftrightarrow> list_all snd (row_checks a) \<and> requestBody a \<noteq> Some Jnull \<and>
     (hasCredentials a \<longleftrightarrow> map_of es (api_id a) \<noteq> None)"

definition targets_ok :: "nat \<Rightarrow> monitored_api list \<Rightarrow> (target_id \<times> string) list \<Rightarrow> bool" where
  "targets_ok n as es \<longleftrightarrow> distinct (map api_id as) \<and> distinct (map (\<lambda>a. (api_name a, api_environment a)) as) \<and>
     (\<forall>a \<in> set as. row_ok es a \<and> (\<forall>k. api_id a = show_nat k \<longrightarrow> k < n))"

definition request_ok :: "config_change_request \<Rightarrow> bool" where
  "request_ok r \<longleftrightarrow> (cr_reviewedBy r = None \<longleftrightarrow> cr_status r = CR_PENDING) \<and> cr_reviewedBy r \<noteq> Some (cr_proposedBy r)"

definition requests_ok :: "nat \<Rightarrow> config_change_request list \<Rightarrow> bool" where
  "requests_ok n rs \<longleftrightarrow> distinct (map cr_id rs) \<and> (\<forall>r \<in> set rs. request_ok r \<and> cr_id r < n)"

definition hidden :: "monitored_api \<Rightarrow> bool" where
  "hidden a \<longleftrightarrow> (\<forall>(k, v) \<in> set (api_headers a). secret_name k \<longrightarrow> v = ''[REDACTED]'')"

definition changes_ok :: "(string \<times> target_id \<times> monitored_api option \<times> monitored_api option) list \<Rightarrow> bool" where
  "changes_ok cs \<longleftrightarrow> (\<forall>(_, _, before, after) \<in> set cs. pred_option hidden before \<and> pred_option hidden after)"

definition cfg_inv :: "config_state \<Rightarrow> bool" where
  "cfg_inv s \<longleftrightarrow> targets_ok (next_id (cdb s)) (monitored_apis (cdb s)) (encrypted_credentials s) \<and>
     requests_ok (next_id (cdb s)) (config_change_requests s) \<and> changes_ok (audit_changes s)"

lemma hidden_redact: "hidden (redact a)"
  by (auto simp: hidden_def redact_def split: if_splits)

lemma ok_more:
  "targets_ok n as es \<Longrightarrow> n \<le> m \<Longrightarrow> targets_ok m as es" "requests_ok n rs \<Longrightarrow> n \<le> m \<Longrightarrow> requests_ok m rs"
  by (auto simp: targets_ok_def requests_ok_def intro: less_le_trans)

lemma audit_effect [simp]:
  "cdb (audit act an t sm b a s) = recordAudit act an ''monitored_api'' (Some (Target t)) (Some sm) (cdb s)"
  "encrypted_credentials (audit act an t sm b a s) = encrypted_credentials s"
  "config_change_requests (audit act an t sm b a s) = config_change_requests s" "user_ids (audit act an t sm b a s) = user_ids s"
  "cdb (audit_request act an k sm s) = recordAudit act an ''config_change_request'' (Some (Row k)) (Some sm) (cdb s)"
  "encrypted_credentials (audit_request act an k sm s) = encrypted_credentials s" "user_ids (audit_request act an k sm s) = user_ids s"
  "config_change_requests (audit_request act an k sm s) = config_change_requests s" "audit_changes (audit_request act an k sm s) = audit_changes s"
  by (simp_all add: audit_def audit_request_def)

lemma recordAudit_targets [simp]:
  "monitored_apis (recordAudit act a et k sm d) = monitored_apis d" "next_id (recordAudit act a et k sm d) = next_id d"
  "findTargetById t (recordAudit act a et k sm d) = findTargetById t d"
  by (simp_all add: recordAudit_def findTargetById_def)

lemma changes_audit [simp]: "changes_ok (audit_changes (audit act an t sm b a s)) = changes_ok (audit_changes s)"
  by (auto simp: audit_def changes_ok_def hidden_redact option.pred_map pred_option_def)

lemma map_of_set_envelope: "map_of (set_envelope t v es) u = (if u = t then v else map_of es u)"
  by (induction es) (auto simp: set_envelope_def map_add_def split: option.splits)

lemma write_row_ok:
  assumes "write_row L t c now m s = Inr a"
  shows "\<exists>b sla. lib_numeric L 4 2 (backoffMultiplier (m_retry m)) = Some b \<and> lib_numeric L 6 4 (m_slaTargetPercent m) = Some sla \<and>
      a = row_of t c now b sla m"
    and "list_all snd (row_checks a)" and "api_id a = t" and "requestBody a \<noteq> Some Jnull" and "hasCredentials a \<longleftrightarrow> m_encryptedCredentials m \<noteq> None"
    and "\<forall>x \<in> set (monitored_apis (cdb s)). api_id x \<noteq> t \<longrightarrow> (api_name x, api_environment x) \<noteq> (api_name a, api_environment a)"
proof -
  obtain b sla where n: "lib_numeric L 4 2 (backoffMultiplier (m_retry m)) = Some b" "lib_numeric L 6 4 (m_slaTargetPercent m) = Some sla"
    using assms by (auto simp: write_row_def split: option.splits)
  let ?a = "row_of t c now b sla m"
  have c: "find (\<lambda>c. \<not> snd c) (row_checks ?a) = None" and u: "a = ?a"
    and x: "\<not> (\<exists>x \<in> set (monitored_apis (cdb s)). api_id x \<noteq> t \<and> api_name x = api_name ?a \<and> api_environment x = api_environment ?a)"
    using assms n by (auto simp: write_row_def Let_def split: option.splits if_splits)
  show "\<exists>b sla. lib_numeric L 4 2 (backoffMultiplier (m_retry m)) = Some b \<and> lib_numeric L 6 4 (m_slaTargetPercent m) = Some sla \<and>
      a = row_of t c now b sla m" using n u by blast
  show "list_all snd (row_checks a)" using c u by (auto simp: find_eq_None list_all_iff)
  show "api_id a = t" "requestBody a \<noteq> Some Jnull" "hasCredentials a \<longleftrightarrow> m_encryptedCredentials m \<noteq> None"
    by (simp_all add: u row_of_def)
  show "\<forall>x \<in> set (monitored_apis (cdb s)). api_id x \<noteq> t \<longrightarrow> (api_name x, api_environment x) \<noteq> (api_name a, api_environment a)"
    using x u by auto
qed

text \<open>Replacing the one row of a key by a row whose image no other row has.\<close>

lemma distinct_upd_where:
  assumes "distinct (map f xs)" and "distinct (map g xs)" and "\<forall>x \<in> set xs. f x \<noteq> t \<longrightarrow> g x \<noteq> g a"
  shows "distinct (map g (upd_where (\<lambda>y. f y = t) (\<lambda>_. a) xs))"
  using assms
proof (induction xs)
  case (Cons x xs)
  show ?case
  proof (cases "f x = t")
    case True
    have other: "f y \<noteq> t" if "y \<in> set xs" for y
      using Cons.prems(1) True that by (metis distinct.simps(2) imageI list.simps(9) list.set_map)
    then have "upd_where (\<lambda>y. f y = t) (\<lambda>_. a) xs = xs" by (intro upd_where_none) auto
    moreover have "g a \<notin> g ` set xs" using Cons.prems(3) other by (auto simp: image_iff)
    ultimately show ?thesis using Cons.prems(2) True by simp
  next
    case False
    then have "g x \<notin> g ` set (upd_where (\<lambda>y. f y = t) (\<lambda>_. a) xs)"
      using Cons.prems by (auto simp: set_upd_where)
    then show ?thesis using Cons False by simp
  qed
qed simp

lemma createTarget_row_ok:
  assumes "createTarget_row L now m s = (Inr a, s1)" and "targets_ok (next_id (cdb s)) (monitored_apis (cdb s)) (encrypted_credentials s)"
  shows "targets_ok (next_id (cdb s1)) (monitored_apis (cdb s1)) (encrypted_credentials s1)"
proof -
  let ?t = "show_nat (next_id (cdb s))" and ?as = "monitored_apis (cdb s)"
  have w: "write_row L ?t now now m s = Inr a"
    and s1: "monitored_apis (cdb s1) = ?as @ [a]" "encrypted_credentials s1 = set_envelope ?t (m_encryptedCredentials m) (encrypted_credentials s)"
      "next_id (cdb s1) = Suc (next_id (cdb s))"
    using assms(1) by (auto simp: createTarget_row_def Let_def split: sum.splits)
  note a = write_row_ok [OF w]
  have fresh: "\<forall>x \<in> set ?as. api_id x \<noteq> ?t" using assms(2) by (fastforce simp: targets_ok_def)
  then have "row_ok (encrypted_credentials s1) x" if "x \<in> set ?as" for x
    using assms(2) that by (auto simp: targets_ok_def row_ok_def s1 map_of_set_envelope)
  moreover have "row_ok (encrypted_credentials s1) a" using a(2-5) by (simp add: row_ok_def s1 map_of_set_envelope)
  ultimately show ?thesis using assms(2) a(3,6) fresh by (fastforce simp: targets_ok_def s1)
qed

lemma updateTarget_row_ok:
  assumes "updateTarget_row L now t m s = (Inr (Some a), s1)" and "targets_ok (next_id (cdb s)) (monitored_apis (cdb s)) (encrypted_credentials s)"
  shows "targets_ok (next_id (cdb s1)) (monitored_apis (cdb s1)) (encrypted_credentials s1)"
proof -
  let ?as = "monitored_apis (cdb s)"
  obtain x where x: "findTargetById t (cdb s) = Some x" and w: "write_row L t (api_createdAt x) now m s = Inr a"
    and s1: "monitored_apis (cdb s1) = upd_where (\<lambda>y. api_id y = t) (\<lambda>_. a) ?as"
      "encrypted_credentials s1 = set_envelope t (m_encryptedCredentials m) (encrypted_credentials s)" "next_id (cdb s1) = next_id (cdb s)"
    using assms(1) by (auto simp: updateTarget_row_def split: sum.splits option.splits)
  note a = write_row_ok [OF w]
  have ids: "map api_id (monitored_apis (cdb s1)) = map api_id ?as" unfolding s1 using a(3) by (intro map_upd_where_inv) auto
  have "row_ok (encrypted_credentials s1) y" if "y \<in> set (monitored_apis (cdb s1))" for y
    using that a(2-5) assms(2) by (auto simp: s1 set_upd_where targets_ok_def row_ok_def map_of_set_envelope split: if_splits)
  moreover have "distinct (map (\<lambda>a. (api_name a, api_environment a)) (monitored_apis (cdb s1)))"
    unfolding s1 using a(6) assms(2) by (intro distinct_upd_where) (auto simp: targets_ok_def)
  moreover have "\<forall>k. api_id y = show_nat k \<longrightarrow> k < next_id (cdb s)" if "y \<in> set (monitored_apis (cdb s1))" for y
  proof -
    have "api_id y \<in> set (map api_id ?as)" using that ids by (metis imageI list.set_map)
    then show ?thesis using assms(2) by (auto simp: targets_ok_def)
  qed
  ultimately show ?thesis using assms(2) ids by (simp add: targets_ok_def s1(3))
qed

text \<open>What the transactions leave behind: the row written, or nothing.\<close>

definition same_targets :: "config_state \<Rightarrow> config_state \<Rightarrow> bool" where
  "same_targets s s' \<longleftrightarrow> monitored_apis (cdb s') = monitored_apis (cdb s) \<and> encrypted_credentials s' = encrypted_credentials s"

lemma bump_inv: "cfg_inv s \<Longrightarrow> next_id (cdb s) \<le> n \<Longrightarrow> cfg_inv (s\<lparr>cdb := (cdb s)\<lparr>next_id := n\<rparr>\<rparr>)"
  by (auto simp: cfg_inv_def intro: ok_more)

lemma audit_inv:
  "cfg_inv (audit act an t sm b a s) = cfg_inv s" "cfg_inv (audit_request act an k sm s) = cfg_inv s"
  by (simp_all add: cfg_inv_def)

lemma row_frames:
  "config_change_requests (snd (createTarget_row L now m s)) = config_change_requests s"
  "audit_changes (snd (createTarget_row L now m s)) = audit_changes s" "user_ids (snd (createTarget_row L now m s)) = user_ids s"
  "next_id (cdb s) \<le> next_id (cdb (snd (createTarget_row L now m s)))"
  "config_change_requests (snd (updateTarget_row L now t m s)) = config_change_requests s"
  "audit_changes (snd (updateTarget_row L now t m s)) = audit_changes s" "user_ids (snd (updateTarget_row L now t m s)) = user_ids s"
  "next_id (cdb (snd (updateTarget_row L now t m s))) = next_id (cdb s)"
  by (auto simp: createTarget_row_def updateTarget_row_def Let_def split: sum.split option.split)

lemma persistTargetCreate_cases:
  assumes "persistTargetCreate L now m act n s = (r, s')"
  obtains (ok) a where "r = Inr a" "write_row L (show_nat (next_id (cdb s))) now now m s = Inr a"
      "monitored_apis (cdb s') = monitored_apis (cdb s) @ [a]" "config_change_requests s' = config_change_requests s" "cfg_inv s \<Longrightarrow> cfg_inv s'"
  | (fail) err where "r = Inl err" "same_targets s s'" "config_change_requests s' = config_change_requests s" "cfg_inv s \<Longrightarrow> cfg_inv s'"
proof -
  obtain q s1 where q: "createTarget_row L now m s = (q, s1)" by (metis surj_pair)
  note fr = row_frames(1-4) [where L = L and now = now and m = m and s = s, unfolded q snd_conv]
  show thesis
  proof (cases q)
    case (Inl err)
    with assms q have "r = Inl (DbError err)" "s' = s\<lparr>cdb := (cdb s)\<lparr>next_id := next_id (cdb s1)\<rparr>\<rparr>"
      by (auto simp: persistTargetCreate_def config_transaction_def)
    then show thesis using fr(4) bump_inv [of s "next_id (cdb s1)"] by (intro fail) (auto simp: same_targets_def)
  next
    case (Inr a)
    obtain sm where s': "r = Inr a" "s' = audit act ''target.created'' (api_id a) sm None (Some a) s1"
      using assms q Inr by (auto simp: persistTargetCreate_def config_transaction_def)
    have w: "write_row L (show_nat (next_id (cdb s))) now now m s = Inr a" "monitored_apis (cdb s1) = monitored_apis (cdb s) @ [a]"
      using q Inr by (auto simp: createTarget_row_def Let_def split: sum.splits)
    have "cfg_inv s \<Longrightarrow> cfg_inv s1"
      using createTarget_row_ok [OF q [unfolded Inr]] fr by (auto simp: cfg_inv_def intro: ok_more(2))
    then show thesis using s' w fr(1) by (intro ok) (simp_all add: audit_inv)
  qed
qed

lemma persistTargetUpdate_cases:
  assumes "persistTargetUpdate L now t m x act n s = (r, s')"
  obtains (ok) a y where "r = Inr a" "findTargetById t (cdb s) = Some y" "write_row L t (api_createdAt y) now m s = Inr a"
      "monitored_apis (cdb s') = upd_where (\<lambda>y. api_id y = t) (\<lambda>_. a) (monitored_apis (cdb s))"
      "config_change_requests s' = config_change_requests s" "cfg_inv s \<Longrightarrow> cfg_inv s'"
  | (fail) err where "r = Inl err" "same_targets s s'" "config_change_requests s' = config_change_requests s" "cfg_inv s \<Longrightarrow> cfg_inv s'"
proof -
  obtain q s1 where q: "updateTarget_row L now t m s = (q, s1)" by (metis surj_pair)
  note fr = row_frames(5-8) [where L = L and now = now and t = t and m = m and s = s, unfolded q snd_conv]
  consider "\<exists>a. q = Inr (Some a)" | err where "r = Inl err" "s' = s\<lparr>cdb := (cdb s)\<lparr>next_id := next_id (cdb s1)\<rparr>\<rparr>"
    using assms q by (auto simp: persistTargetUpdate_def config_transaction_def split: sum.splits option.splits)
  then show thesis
  proof cases
    case 1
    then obtain a where a: "q = Inr (Some a)" by blast
    obtain sm where s': "r = Inr a" "s' = audit act ''target.updated'' t sm (Some x) (Some a) s1"
      using assms q a by (auto simp: persistTargetUpdate_def config_transaction_def)
    obtain y where w: "findTargetById t (cdb s) = Some y" "write_row L t (api_createdAt y) now m s = Inr a"
      "monitored_apis (cdb s1) = upd_where (\<lambda>y. api_id y = t) (\<lambda>_. a) (monitored_apis (cdb s))"
      using q a by (auto simp: updateTarget_row_def split: sum.splits option.splits)
    have "cfg_inv s \<Longrightarrow> cfg_inv s1" using updateTarget_row_ok [OF q [unfolded a]] fr by (simp add: cfg_inv_def)
    then show thesis using s' w fr(1) by (intro ok) (simp_all add: audit_inv)
  next
    case 2
    then show thesis using fr(4) by (intro fail) (auto simp: same_targets_def)
  qed
qed

lemma requests_ok_snoc: "requests_ok k rs \<Longrightarrow> request_ok r \<Longrightarrow> cr_id r = k \<Longrightarrow> requests_ok (Suc k) (rs @ [r])"
  by (fastforce simp: requests_ok_def)

lemma propose_effect:
  assumes "propose now kind t m sm act s = (r, s')"
  shows "same_targets s s' \<and> (cfg_inv s \<longrightarrow> cfg_inv s')"
proof -
  have "createConfigRequest now kind t m sm u s = (q, s1) \<Longrightarrow> same_targets s s1 \<and> (cfg_inv s \<longrightarrow> cfg_inv s1)" for u q s1
    by (auto simp: createConfigRequest_def Let_def same_targets_def cfg_inv_def request_ok_def split: if_splits
        intro: ok_more intro!: requests_ok_snoc)
  then show ?thesis using assms
    by (fastforce simp: propose_def audit_inv same_targets_def split: option.splits prod.splits sum.splits)
qed

section \<open>Every operation keeps the constraints\<close>

lemma request_update_ok:
  assumes "requests_ok n rs" and "\<And>r. r \<in> set rs \<Longrightarrow> p r \<Longrightarrow> request_ok (f r) \<and> cr_id (f r) = cr_id r"
  shows "requests_ok n (upd_where p f rs)"
proof -
  have "map cr_id (upd_where p f rs) = map cr_id rs" using assms(2) by (induction rs) auto
  then show ?thesis using assms by (auto simp: requests_ok_def set_upd_where)
qed

lemma upd_request_inv:
  assumes "cfg_inv s" and "\<And>r. r \<in> set (config_change_requests s) \<Longrightarrow> p r \<Longrightarrow> request_ok (f r) \<and> cr_id (f r) = cr_id r"
  shows "cfg_inv (upd_request p f s)"
  using assms request_update_ok [of "next_id (cdb s)" "config_change_requests s" p f] by (simp add: cfg_inv_def upd_request_def)

lemma setTargetEnabled_effect:
  assumes "setTargetEnabled now t b act s = (r, s')"
  shows "monitored_apis (cdb s') = upd_where (\<lambda>y. api_id y = t) (\<lambda>y. y\<lparr>isActive := b, api_updatedAt := now\<rparr>) (monitored_apis (cdb s)) \<and>
    encrypted_credentials s' = encrypted_credentials s \<and> config_change_requests s' = config_change_requests s \<and>
    next_id (cdb s') = next_id (cdb s) \<and> changes_ok (audit_changes s') = changes_ok (audit_changes s)"
proof -
  let ?f = "\<lambda>y :: monitored_api. y\<lparr>isActive := b, api_updatedAt := now\<rparr>"
  let ?as = "upd_where (\<lambda>y. api_id y = t) ?f (monitored_apis (cdb s))"
  let ?s1 = "s\<lparr>cdb := (cdb s)\<lparr>monitored_apis := ?as\<rparr>\<rparr>"
  have act: "setTargetActive now t b s = (findTargetById t (cdb ?s1), ?s1)" by (simp add: setTargetActive_def Let_def)
  show ?thesis
  proof (cases "findTargetById t (cdb ?s1)")
    case None
    have "api_id y \<noteq> t" if "y \<in> set (monitored_apis (cdb s))" for y
    proof -
      have "(if api_id y = t then ?f y else y) \<in> set ?as" using that unfolding set_upd_where by (rule imageI)
      then show ?thesis using None by (auto simp: findTargetById_def find_eq_None split: if_splits)
    qed
    then have "?as = monitored_apis (cdb s)" by (rule upd_where_none)
    moreover have "s' = s\<lparr>cdb := (cdb s)\<lparr>next_id := next_id (cdb ?s1)\<rparr>\<rparr>"
      using assms None by (simp add: setTargetEnabled_def config_transaction_def act)
    ultimately show ?thesis by simp
  next
    case (Some a)
    obtain an sm where "s' = audit act an t sm None None ?s1"
      using assms Some by (simp add: setTargetEnabled_def config_transaction_def act) metis
    then show ?thesis by simp
  qed
qed

lemma enable_inv: "cfg_inv s \<Longrightarrow> cfg_inv (snd (setTargetEnabled now t b act s))"
proof -
  let ?f = "\<lambda>y :: monitored_api. y\<lparr>isActive := b, api_updatedAt := now\<rparr>" and ?as = "monitored_apis (cdb s)"
  assume inv: "cfg_inv s"
  have "map g (upd_where (\<lambda>y. api_id y = t) ?f ?as) = map g ?as" if "\<And>y. g (?f y) = g y" for g :: "monitored_api \<Rightarrow> 'x"
    using that by (intro map_upd_where_inv) auto
  from this [of api_id] this [of "\<lambda>a. (api_name a, api_environment a)"]
  have "targets_ok (next_id (cdb s)) (upd_where (\<lambda>y. api_id y = t) ?f ?as) (encrypted_credentials s)"
    using inv by (auto simp: cfg_inv_def targets_ok_def set_upd_where row_ok_def row_checks_def)
  with inv show ?thesis using setTargetEnabled_effect [of now t b act s] by (cases "setTargetEnabled now t b act s") (simp add: cfg_inv_def)
qed

lemma delete_inv: "cfg_inv s \<Longrightarrow> cfg_inv (snd (deleteTarget t act s))"
proof -
  assume inv: "cfg_inv s"
  let ?as = "filter (\<lambda>a. api_id a \<noteq> t) (monitored_apis (cdb s))"
  have "targets_ok (next_id (cdb s)) ?as (set_envelope t None (encrypted_credentials s))"
    using inv by (auto simp: cfg_inv_def targets_ok_def distinct_map_filter row_ok_def map_of_set_envelope)
  moreover have "requests_ok (next_id (cdb s)) (filter (\<lambda>r. cr_targetId r \<noteq> Some t) (config_change_requests s))"
    using inv by (auto simp: cfg_inv_def requests_ok_def distinct_map_filter)
  ultimately have "cfg_inv (deleteTarget_row t s)"
    using inv by (simp add: cfg_inv_def deleteTarget_row_def cascade_target_def Let_def)
  then show ?thesis using inv by (auto simp: deleteTarget_def config_transaction_def audit_inv split: option.split)
qed

lemma createTarget_cases:
  assumes "createTarget e L now p act s = (r, s')"
  obtains (refused) "s' = s"
  | (proposed) "same_targets s s'" "cfg_inv s \<Longrightarrow> cfg_inv s'"
  | (written) m q where "\<not> fourEyesRequired e (m_isMoneyMoving m)" "persistTargetCreate L now m act None s = (q, s')"
proof (cases "createTargetSchema L p \<and> model_refused L now (buildCreateModel e L p) = None")
  case True
  let ?m = "buildCreateModel e L p"
  show thesis
  proof (cases "fourEyesRequired e (m_isMoneyMoving ?m)")
    case four: True
    then obtain sm where "propose now Target_create None ?m sm act s = (r, s')"
      using assms True by (simp add: createTarget_def Let_def)
    then show thesis using propose_effect proposed by blast
  next
    case False
    then have "\<exists>q. persistTargetCreate L now ?m act None s = (q, s')"
      using assms True by (auto simp: createTarget_def Let_def split: prod.splits)
    then show thesis using False written by blast
  qed
next
  case False
  then show thesis using assms refused by (auto simp: createTarget_def Let_def split: option.splits if_splits)
qed

lemma updateTarget_cases:
  assumes "updateTarget e L now t p act s = (r, s')"
  obtains (refused) "s' = s"
  | (proposed) "same_targets s s'" "cfg_inv s \<Longrightarrow> cfg_inv s'"
  | (written) x m q where "findTargetById t (cdb s) = Some x" "\<not> fourEyesRequired e (isMoneyMoving x \<or> m_isMoneyMoving m)"
      "persistTargetUpdate L now t m x act None s = (q, s')"
proof (cases "findTargetById t (cdb s)")
  case (Some x)
  let ?m = "mergeUpdateModel L x (findTargetCredentialEnvelope t s) p"
  show thesis
  proof (cases "updateTargetSchema L p \<and> model_refused L now ?m = None")
    case True
    show thesis
    proof (cases "fourEyesRequired e (isMoneyMoving x \<or> m_isMoneyMoving ?m)")
      case four: True
      then obtain sm where "propose now Target_update (Some t) ?m sm act s = (r, s')"
        using assms True Some by (simp add: updateTarget_def Let_def)
      then show thesis using propose_effect proposed by blast
    next
      case False
      then have "\<exists>q. persistTargetUpdate L now t ?m x act None s = (q, s')"
        using assms True Some by (auto simp: updateTarget_def Let_def split: prod.splits)
      then show thesis using False Some written by blast
    qed
  next
    case False
    then show thesis using assms Some refused by (auto simp: updateTarget_def Let_def split: option.splits if_splits)
  qed
next
  case None
  then show thesis using assms refused by (auto simp: updateTarget_def split: if_splits)
qed

lemma create_inv: "cfg_inv s \<Longrightarrow> createTarget e L now p act s = (r, s') \<Longrightarrow> cfg_inv s'"
  by (erule createTarget_cases) (auto elim!: persistTargetCreate_cases)

lemma update_inv: "cfg_inv s \<Longrightarrow> updateTarget e L now t p act s = (r, s') \<Longrightarrow> cfg_inv s'"
  by (erule updateTarget_cases) (auto elim!: persistTargetUpdate_cases)

section \<open>Review\<close>

definition reviewed_by :: "timestamp \<Rightarrow> row_id \<Rightarrow> bool \<Rightarrow> string option \<Rightarrow> config_change_request \<Rightarrow> config_change_request" where
  "reviewed_by now u approved rnote r = r\<lparr>cr_status := (if approved then CR_APPROVED else CR_REJECTED), cr_reviewedBy := Some u,
     cr_reviewNote := rnote, cr_reviewedAt := Some now, cr_updatedAt := now\<rparr>"

lemma find_request_upd:
  assumes "getConfigRequest k s = Some r" and "p r" and "\<And>x. cr_id (f x) = cr_id x"
    and "\<And>x. p x \<Longrightarrow> cr_id x = k"
  shows "getConfigRequest k (upd_request p f s) = Some (f r)"
proof -
  have "find (\<lambda>r. cr_id r = k) (upd_where p f rs) = Some (f r)" if "find (\<lambda>r. cr_id r = k) rs = Some r" for rs
    using that assms(2-4) by (induction rs) (auto split: if_splits)
  with assms(1) show ?thesis by (simp add: getConfigRequest_def upd_request_def)
qed

lemma find_narrow: "find q xs = Some x \<Longrightarrow> p x \<Longrightarrow> (\<And>y. p y \<Longrightarrow> q y) \<Longrightarrow> find p xs = Some x"
  by (induction xs) (auto split: if_splits)

text \<open>The branches of a review: an error that changes nothing, or the request marked, then rejected
  or applied.\<close>

lemma review_cases:
  assumes "reviewChangeRequest L now k approved rnote act s = (res, s')"
  obtains (refused) err where "res = Inl err" "s' = s"
  | (marked) r u s1 r' where "getConfigRequest k s = Some r" "cr_status r = CR_PENDING" "actor_userId act = Some u" "u \<noteq> cr_proposedBy r"
      "\<exists>an sm. s1 = audit_request act an k sm (upd_request (\<lambda>r. cr_id r = k \<and> cr_status r = CR_PENDING) (reviewed_by now u approved rnote) s)"
      "getConfigRequest k s1 = Some (reviewed_by now u approved rnote r)" "res = Inr r'"
      "(if approved then apply_reviewed L now k (reviewed_by now u approved rnote r) act s1 else (reviewed_by now u approved rnote r, s1)) = (r', s')"
proof (cases "\<exists>r u. getConfigRequest k s = Some r \<and> cr_status r = CR_PENDING \<and> actor_userId act = Some u \<and> u \<noteq> cr_proposedBy r")
  case True
  then obtain r u where r: "getConfigRequest k s = Some r" "cr_status r = CR_PENDING" "actor_userId act = Some u" "u \<noteq> cr_proposedBy r"
    by blast
  let ?p = "\<lambda>r. cr_id r = k \<and> cr_status r = CR_PENDING" and ?f = "reviewed_by now u approved rnote"
  have k: "cr_id r = k" using find_SomeD [OF r(1) [unfolded getConfigRequest_def]] by simp
  have x: "find ?p (config_change_requests s) = Some r"
    by (rule find_narrow [OF r(1) [unfolded getConfigRequest_def]]) (simp_all add: k r(2))
  let ?s0 = "upd_request ?p ?f s"
  have got: "getConfigRequest k ?s0 = Some (?f r)" by (rule find_request_upd [OF r(1)]) (simp_all add: k r(2) reviewed_by_def)
  have mark: "markReviewed now k u approved rnote s =
      (if u \<in> set (user_ids s) then (Inr (Some (?f r)), ?s0) else (Inl (Foreign_key_violation ''config_change_requests_reviewed_by_fkey''), s))"
    using got r(4) by (simp add: markReviewed_def x Let_def reviewed_by_def [abs_def])
  show thesis
  proof (cases "u \<in> set (user_ids s)")
    case True
    define s1 where "s1 = audit_request act (if approved then ''config_request.approved'' else ''config_request.rejected'') k
      ((if approved then ''APPROVED'' else ''REJECTED'') @ '' '' @ utf8_em_dash @ '' '' @ cr_summary (?f r) @
       (case rnote of Some t \<Rightarrow> if t = [] then [] else '' ('' @ t @ '')'' | None \<Rightarrow> [])) ?s0"
    have got1: "getConfigRequest k s1 = Some (?f r)" using got by (simp add: s1_def getConfigRequest_def)
    have "reviewChangeRequest L now k approved rnote act s =
        (if \<not> approved then (Inr (?f r), s1) else (case apply_reviewed L now k (?f r) act s1 of (r', s3) \<Rightarrow> (Inr r', s3)))"
      unfolding reviewChangeRequest_def r option.case mark if_P [OF True] prod.case sum.case Let_def s1_def [symmetric]
      using r(2,4) by simp
    then obtain r' where "res = Inr r'" "(if approved then apply_reviewed L now k (?f r) act s1 else (?f r, s1)) = (r', s')"
      using assms by (cases approved) (auto split: prod.splits)
    with s1_def show thesis by (intro marked [OF r _ got1]) blast+
  next
    case False
    then show thesis using assms r refused by (auto simp: reviewChangeRequest_def mark)
  qed
next
  case False
  then show thesis using assms refused by (auto simp: reviewChangeRequest_def split: option.splits if_splits)
qed

text \<open>What the attempt to apply does to the targets: one row written from the payload, or nothing.\<close>

lemma apply_request_cases:
  assumes "apply_request L now r act s = (q, s')"
  obtains (created) a where "q = Inr a" "write_row L (show_nat (next_id (cdb s))) now now (cr_payload r) s = Inr a"
      "monitored_apis (cdb s') = monitored_apis (cdb s) @ [a]" "config_change_requests s' = config_change_requests s" "cfg_inv s \<Longrightarrow> cfg_inv s'"
  | (updated) a t y where "q = Inr a" "findTargetById t (cdb s) = Some y" "write_row L t (api_createdAt y) now (cr_payload r) s = Inr a"
      "monitored_apis (cdb s') = upd_where (\<lambda>y. api_id y = t) (\<lambda>_. a) (monitored_apis (cdb s))"
      "config_change_requests s' = config_change_requests s" "cfg_inv s \<Longrightarrow> cfg_inv s'"
  | (failed) err where "q = Inl err" "same_targets s s'" "config_change_requests s' = config_change_requests s" "cfg_inv s \<Longrightarrow> cfg_inv s'"
proof (cases "cr_kind r")
  case Target_create
  then obtain n where "persistTargetCreate L now (cr_payload r) act n s = (q, s')" using assms by (simp add: apply_request_def Let_def)
  then show thesis by (cases rule: persistTargetCreate_cases) (auto intro: created failed)
next
  case Target_update
  show thesis
  proof (cases "\<exists>t x. cr_targetId r = Some t \<and> findTargetById t (cdb s) = Some x")
    case True
    then obtain t x n where "persistTargetUpdate L now t (cr_payload r) x act n s = (q, s')"
      using assms Target_update by (auto simp: apply_request_def Let_def)
    then show thesis by (cases rule: persistTargetUpdate_cases) (auto intro: updated failed)
  next
    case False
    then show thesis using assms Target_update failed
      by (auto simp: apply_request_def Let_def same_targets_def split: option.splits)
  qed
qed

lemma request_unique:
  assumes "requests_ok n (config_change_requests s)" and "getConfigRequest k s = Some r" and "x \<in> set (config_change_requests s)" and "cr_id x = k"
  shows "x = r"
proof -
  have "r \<in> set (config_change_requests s)" "cr_id r = k"
    using find_SomeD [OF assms(2) [unfolded getConfigRequest_def]] by simp_all
  then show ?thesis using assms(1,3,4) inj_onD unfolding requests_ok_def distinct_map by metis
qed

text \<open>A request that was reviewed by another person may be marked as applied or failed.\<close>

lemma mark_inv:
  assumes "cfg_inv s" and "getConfigRequest k s = Some r" and "cr_reviewedBy r \<noteq> None"
  shows "cfg_inv (markApplied now k s)" and "cfg_inv (markFailed now k m s)"
proof -
  have "requests_ok (next_id (cdb s)) (config_change_requests s)" using assms(1) by (simp add: cfg_inv_def)
  note u = request_unique [OF this assms(2)]
  have ok: "request_ok r" "cr_id r = k"
    using assms(1) find_SomeD [OF assms(2) [unfolded getConfigRequest_def]] by (auto simp: cfg_inv_def requests_ok_def)
  show "cfg_inv (markApplied now k s)" "cfg_inv (markFailed now k m s)"
    unfolding markApplied_def markFailed_def using ok assms(3)
    by (auto intro!: upd_request_inv [OF assms(1)] dest!: u simp: request_ok_def)
qed

lemma same_requests_get: "config_change_requests s' = config_change_requests s \<Longrightarrow> getConfigRequest k s' = getConfigRequest k s"
  by (simp add: getConfigRequest_def)

lemma apply_reviewed_inv:
  assumes "apply_reviewed L now k r act s = (r', s')" and "cfg_inv s" and "getConfigRequest k s = Some r" and "cr_reviewedBy r \<noteq> None"
  shows "cfg_inv s'"
proof -
  obtain q s1 where q: "apply_request L now r act s = (q, s1)" by (metis surj_pair)
  from q have "config_change_requests s1 = config_change_requests s \<and> (cfg_inv s \<longrightarrow> cfg_inv s1)"
    by (cases rule: apply_request_cases) blast+
  then have i: "cfg_inv s1" "getConfigRequest k s1 = Some r" using assms(2,3) same_requests_get [of s1 s] by simp_all
  show ?thesis using assms(1) mark_inv [OF i assms(4)]
    by (cases q) (auto simp: apply_reviewed_def q Let_def audit_inv)
qed

lemma review_inv:
  assumes "cfg_inv s" and "reviewChangeRequest L now k b rnote act s = (res, s')"
  shows "cfg_inv s'"
  using assms(2)
proof (cases rule: review_cases)
  case refused
  with assms(1) show ?thesis by simp
next
  case (marked r u s1 r')
  have ok: "requests_ok (next_id (cdb s)) (config_change_requests s)" using assms(1) by (simp add: cfg_inv_def)
  have "cfg_inv (upd_request (\<lambda>r. cr_id r = k \<and> cr_status r = CR_PENDING) (reviewed_by now u b rnote) s)"
    using request_unique [OF ok marked(1)] marked(4)
    by (intro upd_request_inv [OF assms(1)]) (auto simp: reviewed_by_def request_ok_def)
  then have "cfg_inv s1" using marked(5) by (auto simp: audit_inv)
  moreover have "cr_reviewedBy (reviewed_by now u b rnote r) \<noteq> None" by (simp add: reviewed_by_def)
  ultimately show ?thesis using marked(6,8) apply_reviewed_inv by (cases b) auto
qed

text \<open>C25. Whatever sequence of registrations, updates, switches, deletions, reviews and tests is performed,
  by whomever: target identifiers and names within an environment stay unique, every row satisfies the
  table's checks and says truly whether it has credentials, no request is reviewed by its
  proposer, exactly the pending ones are without a reviewer, and no secret header is written to
  the audit log.\<close>

theorem config_invariant:
  assumes "cfg_inv s"
  shows "cfg_inv (fold (config_step e L) ops s)"
  using assms
proof (induction ops arbitrary: s)
  case (Cons x ops)
  obtain now act p where x: "x = (now, act, p)" by (metis prod_cases3)
  have "cfg_inv (config_step e L x s)"
  proof (cases p)
    case (Op_create pl)
    then show ?thesis using Cons.prems create_inv x by (metis config_step.simps(1) surjective_pairing)
  next
    case (Op_update t pl)
    then show ?thesis using Cons.prems update_inv x by (metis config_step.simps(2) surjective_pairing)
  next
    case (Op_review k b rnote)
    then show ?thesis using Cons.prems review_inv x by (metis config_step.simps(5) surjective_pairing)
  next
    case (Op_test t creds run)
    then show ?thesis using Cons.prems x by (auto simp: testTarget_def audit_inv split: sum.split prod.split)
  qed (use Cons.prems x enable_inv delete_inv in auto)
  with Cons.IH show ?case by simp
qed simp

section \<open>Two people for a target that moves money\<close>

lemma find_appended:
  assumes "monitored_apis d' = monitored_apis d @ [a]" and "findTargetById t d' = Some a'" and "findTargetById t d \<noteq> Some a'"
  shows "a' = a \<and> api_id a = t \<and> findTargetById t d = None"
  using assms by (auto simp: findTargetById_def find_append split: option.splits if_splits)

lemma find_replaced:
  assumes "monitored_apis d' = upd_where (\<lambda>y. api_id y = u) f (monitored_apis d)" and "\<And>y. api_id (f y) = api_id y \<or> api_id (f y) = u"
    and "findTargetById t d' = Some a'" and "findTargetById t d \<noteq> Some a'"
  shows "t = u \<and> (\<exists>x. findTargetById t d = Some x \<and> a' = f x)"
proof -
  have "t = u \<and> (\<exists>x. find (\<lambda>m. api_id m = t) as = Some x \<and> a' = f x)"
    if "find (\<lambda>m. api_id m = t) (upd_where (\<lambda>y. api_id y = u) f as) = Some a'" "find (\<lambda>m. api_id m = t) as \<noteq> Some a'" for as
    using that assms(2) by (induction as) (auto split: if_splits, metis+)
  then show ?thesis using assms(1,3,4) by (simp add: findTargetById_def)
qed

lemma written_row:
  assumes "write_row L t c now m s = Inr a"
  shows "api_id a = t" "isMoneyMoving a = m_isMoneyMoving m" "\<exists>b sla. a = row_of t c now b sla m"
  using write_row_ok(1) [OF assms] by (auto simp: row_of_def)

lemma same_targets_find: "same_targets s s' \<Longrightarrow> findTargetById t (cdb s') = findTargetById t (cdb s)"
  by (simp add: same_targets_def findTargetById_def)

lemma apply_request_changes:
  assumes "apply_request L now r act s = (q, s')" and "findTargetById t (cdb s') = Some a'" and "findTargetById t (cdb s) \<noteq> Some a'"
  shows "\<exists>c b sla. a' = row_of t c now b sla (cr_payload r)"
  using assms(1)
proof (cases rule: apply_request_cases)
  case (created a)
  then show ?thesis using find_appended [OF created(3) assms(2,3)] written_row [OF created(2)] by metis
next
  case (updated a u y)
  have "t = u \<and> a' = a"
    using find_replaced [OF updated(4) _ assms(2,3)] written_row(1) [OF updated(3)] by auto
  then show ?thesis using written_row(3) [OF updated(3)] by metis
next
  case (failed err)
  then show ?thesis using assms(2,3) same_targets_find by metis
qed

lemma review_changes:
  assumes "reviewChangeRequest L now k b rnote act s = (res, s')"
    and "findTargetById t (cdb s') = Some a'" and "findTargetById t (cdb s) \<noteq> Some a'"
  shows "b \<and> (\<exists>r u c bo sla. getConfigRequest k s = Some r \<and> cr_status r = CR_PENDING \<and> actor_userId act = Some u \<and>
    u \<noteq> cr_proposedBy r \<and> a' = row_of t c now bo sla (cr_payload r))"
  using assms(1)
proof (cases rule: review_cases)
  case refused
  with assms(2,3) show ?thesis by simp
next
  case (marked r u s1 r')
  have s1: "findTargetById t (cdb s1) = findTargetById t (cdb s)" using marked(5) by (auto simp: upd_request_def)
  have b: "b" using marked(8) assms(2,3) s1 by (cases b) auto
  obtain q s2 where q: "apply_request L now (reviewed_by now u True rnote r) act s1 = (q, s2)" by (metis surj_pair)
  have "findTargetById t (cdb s') = findTargetById t (cdb s2)"
    using marked(8) b by (cases q) (auto simp: apply_reviewed_def q Let_def markApplied_def markFailed_def upd_request_def)
  then have "\<exists>c bo sla. a' = row_of t c now bo sla (cr_payload (reviewed_by now u True rnote r))"
    using apply_request_changes [OF q] assms(2,3) s1 by simp
  then show ?thesis using b marked(1-4) by (auto simp: reviewed_by_def)
qed

lemma deleted_find:
  assumes "findTargetById t (cdb (snd (deleteTarget u act s))) = Some a"
  shows "findTargetById t (cdb s) = Some a"
proof (cases "findTargetById u (cdb s)")
  case None
  then show ?thesis using assms by (simp add: deleteTarget_def)
next
  case (Some x)
  then have f: "find (\<lambda>m. api_id m = t) (filter (\<lambda>a. api_id a \<noteq> u) (monitored_apis (cdb s))) = Some a"
    using assms by (simp add: deleteTarget_def config_transaction_def findTargetById_def deleteTarget_row_def cascade_target_def Let_def recordAudit_def audit_def)
  then have "t \<noteq> u" by (auto dest: find_SomeD)
  then have "find (\<lambda>m. api_id m = t) (filter (\<lambda>a. api_id a \<noteq> u) (monitored_apis (cdb s))) = find (\<lambda>m. api_id m = t) (monitored_apis (cdb s))"
    by (intro find_filter) auto
  with f show ?thesis by (simp add: findTargetById_def)
qed

lemma create_changes:
  assumes "createTarget e L now pl act s = (r, s')" and "AUTH_ENABLED e"
    and "findTargetById t (cdb s') = Some a'" and "findTargetById t (cdb s) \<noteq> Some a'"
  shows "\<not> isMoneyMoving a' \<and> findTargetById t (cdb s) = None"
  using assms(1)
proof (cases rule: createTarget_cases)
  case (written m q)
  from written(2) show ?thesis
  proof (cases rule: persistTargetCreate_cases)
    case (ok a)
    then show ?thesis using find_appended [OF ok(3) assms(3,4)] assms(2) written(1) written_row(2) [OF ok(2)] by (simp add: fourEyesRequired_def)
  qed (use assms(3,4) same_targets_find in metis)
qed (use assms(3,4) same_targets_find in auto)

lemma update_changes:
  assumes "updateTarget e L now u pl act s = (r, s')" and "AUTH_ENABLED e"
    and "findTargetById t (cdb s') = Some a'" and "findTargetById t (cdb s) \<noteq> Some a'"
  shows "\<not> isMoneyMoving a' \<and> (\<exists>x. findTargetById t (cdb s) = Some x \<and> \<not> isMoneyMoving x)"
  using assms(1)
proof (cases rule: updateTarget_cases)
  case (written x m q)
  from written(3) show ?thesis
  proof (cases rule: persistTargetUpdate_cases)
    case (ok a y)
    then have "a' = a \<and> t = u" using find_replaced [OF ok(4) _ assms(3,4)] written_row(1) [OF ok(3)] by auto
    then show ?thesis using assms(2) written(1,2) written_row(2) [OF ok(3)] by (simp add: fourEyesRequired_def)
  qed (use assms(3,4) same_targets_find in metis)
qed (use assms(3,4) same_targets_find in auto)

text \<open>C11. With authentication on, the row of a target that moves money, before or after, is changed in two
  ways only: by the approval of a pending request by a named person other than its proposer, and
  then to the row the request holds; or by switching the monitoring of the target on or off.\<close>

theorem money_moving_needs_two:
  assumes "AUTH_ENABLED e" and "findTargetById t (cdb (config_step e L (now, act, p) s)) = Some a'" and "findTargetById t (cdb s) \<noteq> Some a'"
    and "isMoneyMoving a' \<or> (\<exists>a. findTargetById t (cdb s) = Some a \<and> isMoneyMoving a)"
  shows "(\<exists>k rnote r u c b sla. p = Op_review k True rnote \<and> getConfigRequest k s = Some r \<and> cr_status r = CR_PENDING \<and>
      actor_userId act = Some u \<and> u \<noteq> cr_proposedBy r \<and> a' = row_of t c now b sla (cr_payload r)) \<or>
    (\<exists>a b. p = Op_enable t b \<and> findTargetById t (cdb s) = Some a \<and> a' = a\<lparr>isActive := b, api_updatedAt := now\<rparr>)"
proof -
  obtain s' where s': "config_step e L (now, act, p) s = s'" by simp
  note f = assms(2) [unfolded s'] assms(3)
  show ?thesis
  proof (cases p)
    case (Op_create pl)
    then obtain r where "createTarget e L now pl act s = (r, s')" using s' by (metis config_step.simps(1) prod.collapse)
    then show ?thesis using create_changes [OF _ assms(1) f] assms(4) by fastforce
  next
    case (Op_update u pl)
    then obtain r where "updateTarget e L now u pl act s = (r, s')" using s' by (metis config_step.simps(2) prod.collapse)
    then show ?thesis using update_changes [OF _ assms(1) f] assms(4) by fastforce
  next
    case (Op_enable u b)
    then obtain r where r: "setTargetEnabled now u b act s = (r, s')" using s' by (metis config_step.simps(3) prod.collapse)
    then show ?thesis using find_replaced [OF setTargetEnabled_effect [OF r, THEN conjunct1] _ f] Op_enable by auto
  next
    case (Op_delete u)
    then show ?thesis using deleted_find [of t u act s a'] s' f by simp
  next
    case (Op_review k b rnote)
    then obtain res where "reviewChangeRequest L now k b rnote act s = (res, s')" using s' by (metis config_step.simps(5) prod.collapse)
    from review_changes [OF this f] Op_review show ?thesis by (intro disjI1) fastforce
  next
    case (Op_test u creds run)
    then have "findTargetById t (cdb s') = findTargetById t (cdb s)"
      using s' by (auto simp: testTarget_def split: sum.splits prod.splits)
    then show ?thesis using f by simp
  qed
qed

section \<open>A review is final\<close>

lemma marked_get:
  assumes "getConfigRequest k s = Some r" and "\<And>x. cr_id (f x) = cr_id x"
  shows "getConfigRequest k (upd_request (\<lambda>r. cr_id r = k) f s) = Some (f r)"
  using find_SomeD [OF assms(1) [unfolded getConfigRequest_def]] by (intro find_request_upd [OF assms(1)]) (auto simp: assms(2))

lemma same_targets_mark: "same_targets s (upd_request p f s') = same_targets s s'" "same_targets s (audit_request act an k sm s') = same_targets s s'"
  by (simp_all add: same_targets_def upd_request_def)

lemma apply_reviewed_result:
  assumes "apply_reviewed L now k r act s = (r', s')" and "getConfigRequest k s = Some r"
  shows "getConfigRequest k s' = Some r' \<and> (cr_status r' = CR_APPLIED \<or> cr_status r' = CR_FAILED \<and> cr_error r' \<noteq> None \<and> same_targets s s')"
proof -
  obtain q s1 where q: "apply_request L now r act s = (q, s1)" by (metis surj_pair)
  from q have "config_change_requests s1 = config_change_requests s \<and> (\<forall>err. q = Inl err \<longrightarrow> same_targets s s1)"
    by (cases rule: apply_request_cases) auto
  then have g: "getConfigRequest k s1 = Some r" and f: "\<And>err. q = Inl err \<Longrightarrow> same_targets s s1"
    using assms(2) same_requests_get [of s1 s] by auto
  show ?thesis
  proof (cases q)
    case (Inr a)
    then have "s' = markApplied now k s1" "r' = the (getConfigRequest k s')" using assms(1) q by (auto simp: apply_reviewed_def Let_def)
    then show ?thesis using marked_get [OF g] by (simp add: markApplied_def)
  next
    case (Inl err)
    then obtain sm where "s' = audit_request act ''config_request.apply_failed'' k sm (markFailed now k (app_error_message err) s1)"
      "r' = the (getConfigRequest k s')" using assms(1) q by (auto simp: apply_reviewed_def Let_def)
    moreover have "getConfigRequest k s' = getConfigRequest k (markFailed now k (app_error_message err) s1)"
      unfolding calculation(1) by (simp add: getConfigRequest_def)
    ultimately show ?thesis using marked_get [OF g] f [OF Inl] by (simp add: markFailed_def same_targets_mark)
  qed
qed

text \<open>C26. A review that is accepted settles the request: it ends rejected, applied, or failed with the
  error on record; unless it was applied no target changed; and every later review of it is
  refused without any effect.\<close>

theorem review_is_final:
  assumes "reviewChangeRequest L now k b rnote act s = (Inr r', s')"
  shows "getConfigRequest k s' = Some r' \<and>
    (if b then cr_status r' = CR_APPLIED \<or> cr_status r' = CR_FAILED \<and> cr_error r' \<noteq> None else cr_status r' = CR_REJECTED) \<and>
    (cr_status r' \<noteq> CR_APPLIED \<longrightarrow> same_targets s s') \<and>
    (\<exists>err. reviewChangeRequest L2 now2 k b2 rnote2 act2 s' = (Inl err, s'))"
proof -
  from assms have *: "getConfigRequest k s' = Some r' \<and>
    (if b then cr_status r' = CR_APPLIED \<or> cr_status r' = CR_FAILED \<and> cr_error r' \<noteq> None else cr_status r' = CR_REJECTED) \<and>
    (cr_status r' \<noteq> CR_APPLIED \<longrightarrow> same_targets s s')"
  proof (cases rule: review_cases)
    case (marked r u s1 r2)
    have s1: "same_targets s s1" using marked(5) by (auto simp: same_targets_mark) (auto simp: same_targets_def)
    show ?thesis
    proof (cases b)
      case True
      then have "apply_reviewed L now k (reviewed_by now u b rnote r) act s1 = (r', s')" using marked(7,8) by simp
      from apply_reviewed_result [OF this marked(6)] show ?thesis using True s1 by (auto simp: same_targets_def)
    next
      case False
      then show ?thesis using marked(6,7,8) s1 by (auto simp: reviewed_by_def)
    qed
  qed simp
  moreover have "cr_status r' \<noteq> CR_PENDING" using * by (auto split: if_splits)
  ultimately show ?thesis by (auto simp: reviewChangeRequest_def)
qed

section \<open>An update changes what it names\<close>

lemma find_all_true: "list_all snd cs \<Longrightarrow> find (\<lambda>c. \<not> snd c) cs = None"
  by (auto simp: find_eq_None list_all_iff)

text \<open>Updating a target with an empty payload writes back the row that was read, credentials included:
  only the time of the update changes. The decimals of the two numeric columns were rounded when
  they were stored, so storing them again keeps them.\<close>

theorem empty_update_round_trip:
  assumes "cfg_inv s" and "findTargetById t (cdb s) = Some a" and "list_all snd (row_refs s a)"
    and "model_refused L now (mergeUpdateModel L a (findTargetCredentialEnvelope t s) empty_payload) = None"
    and "\<not> fourEyesRequired e (isMoneyMoving a)"
    and "lib_numeric L 4 2 (backoffMultiplier (api_retry a)) = Some (backoffMultiplier (api_retry a))"
    and "lib_numeric L 6 4 (slaTargetPercent a) = Some (slaTargetPercent a)"
  shows "\<exists>s'. updateTarget e L now t empty_payload act s = (Inr (Applied (a\<lparr>api_updatedAt := now\<rparr>)), s') \<and>
    findTargetCredentialEnvelope t s' = findTargetCredentialEnvelope t s \<and>
    monitored_apis (cdb s') = upd_where (\<lambda>y. api_id y = t) (\<lambda>y. y\<lparr>api_updatedAt := now\<rparr>) (monitored_apis (cdb s))"
proof -
  let ?m = "mergeUpdateModel L a (findTargetCredentialEnvelope t s) empty_payload" and ?a = "a\<lparr>api_updatedAt := now\<rparr>"
  have a: "a \<in> set (monitored_apis (cdb s))" "api_id a = t" using find_SomeD [OF assms(2) [unfolded findTargetById_def]] by simp_all
  have ok: "row_ok (encrypted_credentials s) a" using assms(1) a(1) by (simp add: cfg_inv_def targets_ok_def)
  have row: "row_of t (api_createdAt a) now (backoffMultiplier (api_retry a)) (slaTargetPercent a) ?m = ?a"
    using ok a(2) by (simp add: row_of_def mergeUpdateModel_def empty_payload_def or_else_def mergeRetry_def resolveCredentials_def row_ok_def findTargetCredentialEnvelope_def)
  have names: "\<not> (\<exists>x \<in> set (monitored_apis (cdb s)). api_id x \<noteq> t \<and> api_name x = api_name ?a \<and> api_environment x = api_environment ?a)"
    using assms(1) a by (auto simp: cfg_inv_def targets_ok_def distinct_map inj_on_def)
  have checks: "row_checks ?a = row_checks a" "row_refs s ?a = row_refs s a" by (simp_all add: row_checks_def row_refs_def)
  have "backoffMultiplier (m_retry ?m) = backoffMultiplier (api_retry a)" "m_slaTargetPercent ?m = slaTargetPercent a"
    by (simp_all add: mergeUpdateModel_def empty_payload_def or_else_def mergeRetry_def)
  then have w: "write_row L t (api_createdAt a) now ?m s = Inr ?a"
    using names ok assms(3) unfolding write_row_def by (simp add: assms(6,7) row Let_def checks find_all_true row_ok_def)
  let ?as = "upd_where (\<lambda>y. api_id y = t) (\<lambda>_. ?a) (monitored_apis (cdb s))"
  have as: "?as = upd_where (\<lambda>y. api_id y = t) (\<lambda>y. y\<lparr>api_updatedAt := now\<rparr>) (monitored_apis (cdb s))"
    using assms(1) a by (auto simp: upd_where_def cfg_inv_def targets_ok_def distinct_map inj_on_def)
  have env: "m_encryptedCredentials ?m = findTargetCredentialEnvelope t s" "m_isMoneyMoving ?m = isMoneyMoving a"
    by (simp_all add: mergeUpdateModel_def empty_payload_def or_else_def resolveCredentials_def)
  obtain sm where "persistTargetUpdate L now t ?m a act None s =
      (Inr ?a, audit act ''target.updated'' t sm (Some a) (Some ?a)
        (s\<lparr>cdb := (cdb s)\<lparr>monitored_apis := ?as\<rparr>, encrypted_credentials := set_envelope t (m_encryptedCredentials ?m) (encrypted_credentials s)\<rparr>))"
    unfolding persistTargetUpdate_def config_transaction_def updateTarget_row_def by (simp add: assms(2) w)
  moreover have "updateTarget e L now t empty_payload act s = (case persistTargetUpdate L now t ?m a act None s of (r, s1) \<Rightarrow> (map_sum id Applied r, s1))"
    using assms(4,5) env by (simp add: updateTarget_def assms(2) Let_def updateTargetSchema_def empty_payload_def present_def)
  ultimately show ?thesis using env as by (simp add: findTargetCredentialEnvelope_def map_of_set_envelope)
qed

section \<open>Examples\<close>

definition sample_libs :: libs where
  "sample_libs = \<lparr>lib_cron = every_minute, lib_cron_cause = (\<lambda>_. ''syntax''), lib_net = sample_net, lib_isUrl = (\<lambda>_. True),
     lib_encrypt = (\<lambda>_. ''sealed''), lib_numeric = (\<lambda>p sc x. if x < 10 ^ (p - sc) then Some x else None)\<rparr>"

definition sample_target_env :: target_env where
  "sample_target_env = \<lparr>AUTH_ENABLED = True, DEFAULT_CHECK_TIMEOUT_MS = 8000\<rparr>"

definition slow_model :: target_write_model where
  "slow_model = (mergeUpdateModel sample_libs (sample_api\<lparr>escalationPolicyId := None\<rparr>) None empty_payload)\<lparr>m_timeoutMs := 9000\<rparr>"

definition sample_change :: config_change_request where
  "sample_change = \<lparr>cr_id = 0, cr_kind = Target_update, cr_targetId = Some ''t1'', cr_status = CR_PENDING, cr_payload = slow_model,
     cr_summary = ''change'', cr_proposedBy = 1, cr_reviewedBy = None, cr_reviewNote = None, cr_reviewedAt = None, cr_appliedAt = None,
     cr_error = None, cr_createdAt = 0, cr_updatedAt = 0\<rparr>"

text \<open>One target that moves money and one that does not, and a pending change of the first.\<close>

definition plain_api :: monitored_api where
  "plain_api = sample_api\<lparr>api_id := ''t2'', api_name := ''status'', isMoneyMoving := False, escalationPolicyId := None\<rparr>"

definition sample_config :: config_state where
  "sample_config = \<lparr>cdb = empty_db\<lparr>monitored_apis := [sample_api\<lparr>escalationPolicyId := None\<rparr>, plain_api], next_id := 1\<rparr>,
     encrypted_credentials = [], config_change_requests = [sample_change], user_ids = [1, 2], team_ids = [], audit_changes = []\<rparr>"

definition second_person :: audit_actor where
  "second_person = \<lparr>actor_userId = Some 2, actor_label = None\<rparr>"

lemma show_nat_letter: "show_nat n \<noteq> c # cs" if "\<not> is_digit c"
  using show_nat_digits [of c n] that by auto

lemma sample_config_inv: "cfg_inv sample_config"
proof -
  have "''t1'' \<noteq> show_nat n \<and> ''t2'' \<noteq> show_nat n" for n
    using show_nat_letter [of "CHR ''t''" n "''1''"] show_nat_letter [of "CHR ''t''" n "''2''"] by (auto simp: is_digit_def)
  then show ?thesis
    by (simp add: cfg_inv_def sample_config_def targets_ok_def row_ok_def row_checks_def plain_api_def sample_api_def present_def
        requests_ok_def request_ok_def sample_change_def changes_ok_def empty_db_def)
qed

lemmas sample_eval = write_row_def sample_libs_def slow_model_def mergeUpdateModel_def empty_payload_def or_else_def mergeRetry_def
  resolveCredentials_def row_of_def row_checks_def row_refs_def present_def sample_config_def upd_request_def plain_api_def
  sample_api_def empty_db_def recordAudit_def Let_def getConfigRequest_def sample_change_def second_person_def markReviewed_def
  apply_reviewed_def apply_request_def findTargetById_def persistTargetUpdate_def config_transaction_def updateTarget_row_def
  markApplied_def

lemma sample_review:
  "findTargetById ''t1'' (cdb (config_step sample_target_env sample_libs (100, second_person, Op_review 0 True None) sample_config)) =
     Some (sample_api\<lparr>escalationPolicyId := None, timeoutMs := 9000, api_updatedAt := 100\<rparr>)"
  by (simp add: reviewChangeRequest_def sample_eval)

theorem money_moving_needs_two_witness:
  "\<exists>r. getConfigRequest 0 sample_config = Some r \<and> cr_status r = CR_PENDING \<and> cr_proposedBy r \<noteq> 2"
proof -
  have "findTargetById ''t1'' (cdb sample_config) = Some (sample_api\<lparr>escalationPolicyId := None\<rparr>)"
    by (simp add: sample_config_def findTargetById_def)
  then have "(\<exists>k rnote r u c b sla. Op_review 0 True None = Op_review k True rnote \<and> getConfigRequest k sample_config = Some r \<and>
      cr_status r = CR_PENDING \<and> actor_userId second_person = Some u \<and> u \<noteq> cr_proposedBy r \<and>
      sample_api\<lparr>escalationPolicyId := None, timeoutMs := 9000, api_updatedAt := 100\<rparr> = row_of ''t1'' c 100 b sla (cr_payload r)) \<or>
    (\<exists>a b. Op_review 0 True None = Op_enable ''t1'' b \<and> findTargetById ''t1'' (cdb sample_config) = Some a \<and>
      sample_api\<lparr>escalationPolicyId := None, timeoutMs := 9000, api_updatedAt := 100\<rparr> = a\<lparr>isActive := b, api_updatedAt := 100\<rparr>)"
    by (intro money_moving_needs_two [OF _ sample_review]) (simp_all add: sample_target_env_def sample_api_def)
  then show ?thesis by (auto simp: second_person_def)
qed

theorem config_invariant_witness:
  "cfg_inv (fold (config_step sample_target_env sample_libs) [(100, second_person, Op_review 0 True None), (200, second_person, Op_delete ''t1'')] sample_config)"
  by (rule config_invariant [OF sample_config_inv])

theorem review_is_final_witness:
  "\<exists>s' r' err. reviewChangeRequest sample_libs 100 0 False None second_person sample_config = (Inr r', s') \<and> cr_status r' = CR_REJECTED \<and>
     reviewChangeRequest sample_libs 200 0 True None second_person s' = (Inl err, s')"
proof -
  obtain r' s' where r: "reviewChangeRequest sample_libs 100 0 False None second_person sample_config = (Inr r', s')"
    by (simp add: reviewChangeRequest_def sample_eval)
  then show ?thesis using review_is_final [OF r, of sample_libs 200 True None second_person] by auto
qed

lemma sample_schedule: "assertScheduleAllowed sample_libs 0 ''* * * * *'' m b = None"
proof -
  have "Math_round (fl (60000 / 1000)) = 60" using fl_of_int [of 60] Math_round_of_int [of 60] by simp
  then show ?thesis
    by (simp add: assertScheduleAllowed_def sample_libs_def assertValidCron_def intervalSeconds_def every_minute_def MONEY_MOVING_MIN_INTERVAL_SECONDS_def)
qed

theorem empty_update_round_trip_witness:
  "\<exists>s'. updateTarget sample_target_env sample_libs 0 ''t2'' empty_payload second_person sample_config = (Inr (Applied plain_api), s')"
proof -
  let ?m = "mergeUpdateModel sample_libs plain_api (findTargetCredentialEnvelope ''t2'' sample_config) empty_payload"
  have f: "findTargetById ''t2'' (cdb sample_config) = Some plain_api"
    by (simp add: sample_config_def findTargetById_def plain_api_def sample_api_def)
  have refs: "list_all snd (row_refs sample_config plain_api)"
    by (simp add: row_refs_def plain_api_def sample_api_def present_def)
  have "assertUrlAllowedOrThrow sample_libs (m_url ?m) (m_allowPrivateNetwork ?m) = None"
    using sample_policy by (simp add: assertUrlAllowedOrThrow_def sample_libs_def sample_net_def mergeUpdateModel_def empty_payload_def or_else_def
        plain_api_def sample_api_def)
  moreover have "m_frequencyCron ?m = ''* * * * *''" by (simp add: mergeUpdateModel_def empty_payload_def or_else_def plain_api_def)
  ultimately have "model_refused sample_libs 0 ?m = None" by (simp add: model_refused_def sample_schedule)
  from empty_update_round_trip [OF sample_config_inv f refs this, of sample_target_env second_person]
  have "\<exists>s'. updateTarget sample_target_env sample_libs 0 ''t2'' empty_payload second_person sample_config = (Inr (Applied (plain_api\<lparr>api_updatedAt := 0\<rparr>)), s')"
    by (auto simp: fourEyesRequired_def plain_api_def sample_api_def sample_libs_def)
  then show ?thesis by (simp add: plain_api_def sample_api_def)
qed

text \<open>The schema admits a service level of 100 percent, the column \<open>numeric(6, 4)\<close> does not hold it.\<close>

lemma full_sla_refused:
  assumes "lib_numeric L 6 4 100 = None" and "m_slaTargetPercent m = 100"
  shows "fst (persistTargetCreate L now m act n s) = Inl (DbError Numeric_overflow)"
  using assms by (simp add: persistTargetCreate_def config_transaction_def createTarget_row_def write_row_def Let_def split: option.split)

end
