(* ===== verification/Sessions.thy ===== *)
theory Sessions
  imports Incidents_Repo
begin

text \<open>
  \<^verbatim>\<open>src/services/auth/auth.service.ts\<close>, \<^verbatim>\<open>src/repositories/users.repo.ts\<close>, \<^verbatim>\<open>src/lib/crypto/passwords.ts\<close> and
  \<^verbatim>\<open>src/http/middleware/auth.ts\<close>: signing in, the rotation of refresh tokens, signing out, and the
  check of roles. SHA-256, scrypt and the signature of access tokens are arguments (\<open>crypto\<close>); the random
  values drawn (the raw token, the family) are arguments of the operations that draw them.

  Shown: at most one token of a family is live, a replayed token kills its family for good,
  signing out ends every session, and what happens when two refreshes of one token interleave.
\<close>

section \<open>Tables and libraries\<close>

datatype rbac_role = ADMIN | OPERATOR | DEVELOPER | COMPLIANCE | MANAGEMENT | VIEWER

datatype user_status = User_active | User_disabled

record user =
  u_id :: row_id
  u_email :: string
  u_fullName :: string
  u_status :: user_status
  u_teamId :: "row_id option"
  u_roles :: "rbac_role list"
  u_createdAt :: timestamp

record user_row = user +
  u_passwordHash :: "string option"
  u_lastLoginAt :: "timestamp option"

record refresh_token =
  rt_id :: row_id
  rt_userId :: row_id
  rt_tokenHash :: string
  rt_familyId :: row_id
  rt_expiresAt :: timestamp
  rt_revokedAt :: "timestamp option"
  rt_replacedBy :: "row_id option"

record auth_state =
  adb :: db
  users :: "user_row list"
  refresh_tokens :: "refresh_token list"

record access_claims =
  c_sub :: row_id
  c_email :: string
  c_roles :: "rbac_role list"

record crypto =
  hashToken :: "string \<Rightarrow> string"
  scrypt_matches :: "string \<Rightarrow> string list \<Rightarrow> bool"
  signAccessToken :: "access_claims \<Rightarrow> string"
  verifyAccessToken :: "string \<Rightarrow> access_claims option"

record auth_env =
  REFRESH_TOKEN_TTL_DAYS :: int
  ACCESS_TOKEN_TTL_SECONDS :: int

section \<open>Passwords\<close>

text \<open>The parameters of the derivation, when the stored text has the format; without them nothing is
  derived and the answer is no.\<close>

definition scrypt_params :: "string \<Rightarrow> string list option" where
  "scrypt_params stored =
     (let parts = split_on (CHR ''$'') stored
      in if length parts \<noteq> 6 \<or> parts ! 0 \<noteq> ''scrypt'' then None else Some (drop 1 parts))"

definition verifyPassword :: "crypto \<Rightarrow> string \<Rightarrow> string \<Rightarrow> bool" where
  "verifyPassword K plain stored = (case scrypt_params stored of None \<Rightarrow> False | Some ps \<Rightarrow> scrypt_matches K plain ps)"

section \<open>The repository\<close>

definition toUser :: "user_row \<Rightarrow> user" where
  "toUser r = \<lparr>u_id = u_id r, u_email = u_email r, u_fullName = u_fullName r, u_status = u_status r, u_teamId = u_teamId r,
     u_roles = u_roles r, u_createdAt = u_createdAt r\<rparr>"

text \<open>The column \<open>email\<close> compares without regard to case.\<close>

definition findUserByEmail :: "string \<Rightarrow> auth_state \<Rightarrow> user_row option" where
  "findUserByEmail email s = find (\<lambda>r. toLowerCase (u_email r) = toLowerCase email) (users s)"

definition findUserById :: "row_id \<Rightarrow> auth_state \<Rightarrow> user option" where
  "findUserById k s = map_option toUser (find (\<lambda>r. u_id r = k) (users s))"

definition countUsers :: "auth_state \<Rightarrow> nat" where
  "countUsers s = length (users s)"

definition draw :: "auth_state \<Rightarrow> row_id \<times> auth_state" where
  "draw s = (next_id (adb s), s\<lparr>adb := (adb s)\<lparr>next_id := Suc (next_id (adb s))\<rparr>\<rparr>)"

definition createUser :: "timestamp \<Rightarrow> string \<Rightarrow> string \<Rightarrow> string \<Rightarrow> rbac_role list \<Rightarrow> auth_state \<Rightarrow> (db_error + user) \<times> auth_state" where
  "createUser now email fullName passwordHash roles s =
     (case draw s of
        (k, s1) \<Rightarrow>
          if findUserByEmail email s \<noteq> None then (Inl (Unique_violation ''users_email_key''), s1)
          else let r = \<lparr>u_id = k, u_email = email, u_fullName = fullName, u_status = User_active, u_teamId = None,
                        u_roles = remdups roles, u_createdAt = now, u_passwordHash = Some passwordHash, u_lastLoginAt = None\<rparr>
               in (Inr (toUser r), s1\<lparr>users := users s @ [r]\<rparr>))"

definition updateLastLogin :: "timestamp \<Rightarrow> row_id \<Rightarrow> auth_state \<Rightarrow> auth_state" where
  "updateLastLogin now k s = s\<lparr>users := upd_where (\<lambda>r. u_id r = k) (\<lambda>r. r\<lparr>u_lastLoginAt := Some now\<rparr>) (users s)\<rparr>"

definition storeRefreshToken ::
    "row_id \<Rightarrow> string \<Rightarrow> row_id \<Rightarrow> timestamp \<Rightarrow> auth_state \<Rightarrow> (db_error + row_id) \<times> auth_state" where
  "storeRefreshToken userId tokenHash familyId expiresAt s =
     (case draw s of
        (k, s1) \<Rightarrow>
          if \<exists>t \<in> set (refresh_tokens s). rt_tokenHash t = tokenHash then (Inl (Unique_violation ''refresh_tokens_token_hash_key''), s1)
          else (Inr k, s1\<lparr>refresh_tokens := refresh_tokens s @ [\<lparr>rt_id = k, rt_userId = userId, rt_tokenHash = tokenHash,
                   rt_familyId = familyId, rt_expiresAt = expiresAt, rt_revokedAt = None, rt_replacedBy = None\<rparr>]\<rparr>))"

definition findRefreshToken :: "string \<Rightarrow> auth_state \<Rightarrow> refresh_token option" where
  "findRefreshToken tokenHash s = find (\<lambda>t. rt_tokenHash t = tokenHash) (refresh_tokens s)"

definition upd_tokens :: "(refresh_token \<Rightarrow> bool) \<Rightarrow> (refresh_token \<Rightarrow> refresh_token) \<Rightarrow> auth_state \<Rightarrow> auth_state" where
  "upd_tokens p f s = s\<lparr>refresh_tokens := upd_where p f (refresh_tokens s)\<rparr>"

text \<open>The transaction of a rotation: the insertion is the only statement that can fail.\<close>

definition rotateRefreshToken ::
    "timestamp \<Rightarrow> row_id \<Rightarrow> row_id \<Rightarrow> string \<Rightarrow> row_id \<Rightarrow> timestamp \<Rightarrow> auth_state \<Rightarrow> (db_error + unit) \<times> auth_state" where
  "rotateRefreshToken now oldId userId tokenHash familyId expiresAt s =
     (case storeRefreshToken userId tokenHash familyId expiresAt s of
        (Inl err, s1) \<Rightarrow> (Inl err, s1)
      | (Inr k, s1) \<Rightarrow> (Inr (), upd_tokens (\<lambda>t. rt_id t = oldId) (\<lambda>t. t\<lparr>rt_revokedAt := Some now, rt_replacedBy := Some k\<rparr>) s1))"

definition revoke_token :: "timestamp \<Rightarrow> refresh_token \<Rightarrow> refresh_token" where
  "revoke_token now t = t\<lparr>rt_revokedAt := (case rt_revokedAt t of Some x \<Rightarrow> Some x | None \<Rightarrow> Some now)\<rparr>"

definition revokeTokenFamily :: "timestamp \<Rightarrow> row_id \<Rightarrow> auth_state \<Rightarrow> auth_state" where
  "revokeTokenFamily now fam s = upd_tokens (\<lambda>t. rt_familyId t = fam) (revoke_token now) s"

definition revokeUserTokens :: "timestamp \<Rightarrow> row_id \<Rightarrow> auth_state \<Rightarrow> auth_state" where
  "revokeUserTokens now userId s = upd_tokens (\<lambda>t. rt_userId t = userId) (revoke_token now) s"

text \<open>Deleting a token clears the references to it.\<close>

definition pruneExpiredRefreshTokens :: "timestamp \<Rightarrow> auth_state \<Rightarrow> auth_state" where
  "pruneExpiredRefreshTokens now s =
     (let gone = (\<lambda>t. rt_expiresAt t < now - 7 * 86400000);
          ids = map rt_id (filter gone (refresh_tokens s))
      in s\<lparr>refresh_tokens := upd_where (\<lambda>t. \<exists>k \<in> set ids. rt_replacedBy t = Some k) (\<lambda>t. t\<lparr>rt_replacedBy := None\<rparr>)
             (filter (\<lambda>t. \<not> gone t) (refresh_tokens s))\<rparr>)"

section \<open>The service\<close>

record auth_result =
  ar_user :: user
  ar_accessToken :: string
  ar_refreshToken :: string
  ar_expiresIn :: int

definition refreshExpiry :: "auth_env \<Rightarrow> timestamp \<Rightarrow> timestamp" where
  "refreshExpiry e now = now + REFRESH_TOKEN_TTL_DAYS e * 24 * 60 * 60 * 1000"

definition auth_result_of :: "crypto \<Rightarrow> auth_env \<Rightarrow> user \<Rightarrow> string \<Rightarrow> auth_result" where
  "auth_result_of K e u raw = \<lparr>ar_user = u,
     ar_accessToken = signAccessToken K \<lparr>c_sub = u_id u, c_email = u_email u, c_roles = u_roles u\<rparr>,
     ar_refreshToken = raw, ar_expiresIn = ACCESS_TOKEN_TTL_SECONDS e\<rparr>"

definition user_audit :: "row_id \<Rightarrow> string \<Rightarrow> string \<Rightarrow> auth_state \<Rightarrow> auth_state" where
  "user_audit k action summary s =
     s\<lparr>adb := recordAudit \<lparr>actor_userId = Some k, actor_label = None\<rparr> action ''user'' (Some (Row k)) (Some summary) (adb s)\<rparr>"

definition issue ::
    "crypto \<Rightarrow> auth_env \<Rightarrow> timestamp \<Rightarrow> string \<Rightarrow> user \<Rightarrow> row_id \<Rightarrow> auth_state \<Rightarrow> (app_error + auth_result) \<times> auth_state" where
  "issue K e now raw u fam s =
     (case storeRefreshToken (u_id u) (hashToken K raw) fam (refreshExpiry e now) s of
        (Inl err, s1) \<Rightarrow> (Inl (DbError err), s1)
      | (Inr _, s1) \<Rightarrow> (Inr (auth_result_of K e u raw), s1))"

definition login ::
    "crypto \<Rightarrow> auth_env \<Rightarrow> timestamp \<Rightarrow> string \<Rightarrow> string \<Rightarrow> string \<Rightarrow> auth_state \<Rightarrow> (app_error + auth_result) \<times> auth_state" where
  "login K e now raw email password s =
     (let rec = findUserByEmail (toLowerCase email) s;
          ok = (case rec of
                  Some r \<Rightarrow> (case u_passwordHash r of Some h \<Rightarrow> verifyPassword K password h
                             | None \<Rightarrow> (let _ = verifyPassword K password ''$scrypt$1$1$1$AA==$AA=='' in False))
                | None \<Rightarrow> (let _ = verifyPassword K password ''$scrypt$1$1$1$AA==$AA=='' in False))
      in case rec of
           None \<Rightarrow> (Inl (UnauthorizedError ''Invalid email or password''), s)
         | Some r \<Rightarrow>
             if \<not> ok \<or> u_status r \<noteq> User_active then (Inl (UnauthorizedError ''Invalid email or password''), s)
             else (case draw (user_audit (u_id r) ''auth.login'' (u_email r @ '' signed in'') (updateLastLogin now (u_id r) s)) of
                     (fam, s1) \<Rightarrow> issue K e now raw (toUser r) fam s1))"

text \<open>A refresh reads the token and its user first; what it then writes is decided by what it read.\<close>

datatype refresh_plan =
    Refuse string
  | Burn refresh_token
  | Rotate refresh_token user

definition refresh_read :: "crypto \<Rightarrow> timestamp \<Rightarrow> string \<Rightarrow> auth_state \<Rightarrow> refresh_plan" where
  "refresh_read K now rawToken s =
     (case findRefreshToken (hashToken K rawToken) s of
        None \<Rightarrow> Refuse ''Refresh token is invalid or expired''
      | Some t \<Rightarrow>
          if rt_expiresAt t < now then Refuse ''Refresh token is invalid or expired''
          else if rt_revokedAt t \<noteq> None then Burn t
          else case findUserById (rt_userId t) s of
                 None \<Rightarrow> Refuse ''Account is not active''
               | Some u \<Rightarrow> if u_status u \<noteq> User_active then Refuse ''Account is not active'' else Rotate t u)"

definition refresh_write ::
    "crypto \<Rightarrow> auth_env \<Rightarrow> timestamp \<Rightarrow> string \<Rightarrow> refresh_plan \<Rightarrow> auth_state \<Rightarrow> (app_error + auth_result) \<times> auth_state" where
  "refresh_write K e now raw plan s =
     (case plan of
        Refuse m \<Rightarrow> (Inl (UnauthorizedError m), s)
      | Burn t \<Rightarrow>
          (Inl (UnauthorizedError (''Session invalidated '' @ utf8_em_dash @ '' please sign in again'')),
           user_audit (rt_userId t) ''auth.token_reuse'' ''Refresh-token reuse detected; all sessions in the family revoked''
             (revokeTokenFamily now (rt_familyId t) s))
      | Rotate t u \<Rightarrow>
          (case rotateRefreshToken now (rt_id t) (u_id u) (hashToken K raw) (rt_familyId t) (refreshExpiry e now) s of
             (Inl err, s1) \<Rightarrow> (Inl (DbError err), s1)
           | (Inr _, s1) \<Rightarrow> (Inr (auth_result_of K e u raw), s1)))"

definition refresh ::
    "crypto \<Rightarrow> auth_env \<Rightarrow> timestamp \<Rightarrow> string \<Rightarrow> string \<Rightarrow> auth_state \<Rightarrow> (app_error + auth_result) \<times> auth_state" where
  "refresh K e now raw rawToken s = refresh_write K e now raw (refresh_read K now rawToken s) s"

definition logout :: "timestamp \<Rightarrow> row_id \<Rightarrow> auth_state \<Rightarrow> auth_state" where
  "logout now userId s = user_audit userId ''auth.logout'' ''Signed out (all refresh tokens revoked)'' (revokeUserTokens now userId s)"

definition getMe :: "row_id \<Rightarrow> auth_state \<Rightarrow> user option" where
  "getMe userId s = findUserById userId s"

text \<open>The first administrator: \<open>hashed\<close> is the hash of the configured or generated password.\<close>

definition bootstrapAdmin :: "timestamp \<Rightarrow> string option \<Rightarrow> string \<Rightarrow> auth_state \<Rightarrow> auth_state" where
  "bootstrapAdmin now email hashed s =
     (if 0 < countUsers s then s
      else case email of
             None \<Rightarrow> s
           | Some m \<Rightarrow> if m = [] then s else snd (createUser now (toLowerCase m) ''Bootstrap Admin'' hashed [ADMIN] s))"

section \<open>Access\<close>

datatype authed = Authed row_id string "rbac_role list"

definition authenticate :: "crypto \<Rightarrow> bool \<Rightarrow> authed \<Rightarrow> string option \<Rightarrow> app_error + authed" where
  "authenticate K enabled dev header =
     (if \<not> enabled then Inr dev
      else case header of
             None \<Rightarrow> Inl (UnauthorizedError ''Missing bearer token'')
           | Some h \<Rightarrow>
               if take 7 h \<noteq> ''Bearer '' then Inl (UnauthorizedError ''Missing bearer token'')
               else (case verifyAccessToken K (drop 7 h) of
                       None \<Rightarrow> Inl (UnauthorizedError ''Invalid or expired access token'')
                     | Some c \<Rightarrow> Inr (Authed (c_sub c) (c_email c) (c_roles c))))"

fun show_role :: "rbac_role \<Rightarrow> string" where
  "show_role ADMIN = ''ADMIN''" | "show_role OPERATOR = ''OPERATOR''" | "show_role DEVELOPER = ''DEVELOPER''"
| "show_role COMPLIANCE = ''COMPLIANCE''" | "show_role MANAGEMENT = ''MANAGEMENT''" | "show_role VIEWER = ''VIEWER''"

definition requireRole :: "rbac_role list \<Rightarrow> authed option \<Rightarrow> app_error option" where
  "requireRole roles who =
     (case who of
        None \<Rightarrow> Some (UnauthorizedError ''Authentication required'')
      | Some (Authed _ _ held) \<Rightarrow>
          if roles \<noteq> [] \<and> \<not> (\<exists>r \<in> set roles. r \<in> set held)
          then Some (ForbiddenError (''Requires one of: '' @ join_names (map show_role roles))) else None)"

section \<open>The state of the sessions\<close>

datatype session_op =
    S_login string string string
  | S_refresh string string
  | S_logout row_id
  | S_prune
  | S_bootstrap "string option" string

fun session_step :: "crypto \<Rightarrow> auth_env \<Rightarrow> timestamp \<times> session_op \<Rightarrow> auth_state \<Rightarrow> auth_state" where
  "session_step K e (now, S_login raw email pw) s = snd (login K e now raw email pw s)"
| "session_step K e (now, S_refresh raw tok) s = snd (refresh K e now raw tok s)"
| "session_step K e (now, S_logout u) s = logout now u s"
| "session_step K e (now, S_prune) s = pruneExpiredRefreshTokens now s"
| "session_step K e (now, S_bootstrap m h) s = bootstrapAdmin now m h s"

definition live :: "refresh_token \<Rightarrow> bool" where
  "live t \<longleftrightarrow> rt_revokedAt t = None"

text \<open>A family belongs to one user.\<close>

definition family_users :: "refresh_token list \<Rightarrow> bool" where
  "family_users ts \<longleftrightarrow> (\<exists>owner. \<forall>t \<in> set ts. rt_userId t = owner (rt_familyId t))"

definition tokens_ok :: "nat \<Rightarrow> refresh_token list \<Rightarrow> bool" where
  "tokens_ok n ts \<longleftrightarrow> distinct (map rt_id ts) \<and> distinct (map rt_tokenHash ts) \<and> unique_on live rt_familyId ts \<and>
     (\<forall>t \<in> set ts. rt_id t < n \<and> rt_familyId t < n) \<and> family_users ts"

definition users_ok :: "nat \<Rightarrow> user_row list \<Rightarrow> bool" where
  "users_ok n us \<longleftrightarrow> distinct (map u_id us) \<and> (\<forall>u \<in> set us. u_id u < n)"

definition sess_inv :: "auth_state \<Rightarrow> bool" where
  "sess_inv s \<longleftrightarrow> tokens_ok (next_id (adb s)) (refresh_tokens s) \<and> users_ok (next_id (adb s)) (users s)"

lemma ok_up: "tokens_ok n ts \<Longrightarrow> n \<le> m \<Longrightarrow> tokens_ok m ts" "users_ok n us \<Longrightarrow> n \<le> m \<Longrightarrow> users_ok m us"
  by (auto simp: tokens_ok_def users_ok_def intro: less_le_trans)

lemma user_audit_frame [simp]:
  "users (user_audit k a m s) = users s" "refresh_tokens (user_audit k a m s) = refresh_tokens s"
  "next_id (adb (user_audit k a m s)) = next_id (adb s)"
  by (simp_all add: user_audit_def recordAudit_def)

text \<open>Revoking more tokens, or forgetting who replaced one, keeps the table in order.\<close>

lemma tokens_ok_weaken:
  assumes "tokens_ok n ts"
    and "\<And>t. t \<in> set ts \<Longrightarrow> rt_id (f t) = rt_id t \<and> rt_tokenHash (f t) = rt_tokenHash t \<and> rt_familyId (f t) = rt_familyId t \<and>
      rt_userId (f t) = rt_userId t \<and> (live (f t) \<longrightarrow> live t)"
  shows "tokens_ok n (upd_where p f ts)"
proof -
  let ?g = "\<lambda>t. if p t then f t else t"
  have eqs: "map rt_id (upd_where p f ts) = map rt_id ts" "map rt_tokenHash (upd_where p f ts) = map rt_tokenHash ts"
    using assms(2) by (induction ts) auto
  have "distinct (map rt_familyId (filter live (map ?g ts)))" if "distinct (map rt_familyId (filter live ts))"
    using that assms(2)
  proof (induction ts)
    case (Cons t ts)
    have "rt_familyId ` set (filter live (map ?g ts)) \<subseteq> rt_familyId ` set (filter live ts)"
      using Cons.prems(2) by (auto split: if_splits)
    then show ?case using Cons by (auto split: if_splits)
  qed simp
  then have u: "unique_on live rt_familyId (upd_where p f ts)" using assms(1) by (simp add: upd_where_def tokens_ok_def unique_on_def)
  obtain owner where "\<forall>t \<in> set ts. rt_userId t = owner (rt_familyId t)" using assms(1) by (auto simp: tokens_ok_def family_users_def)
  then have "\<forall>t \<in> set (upd_where p f ts). rt_userId t = owner (rt_familyId t)" using assms(2) by (auto simp: set_upd_where)
  then have fam: "family_users (upd_where p f ts)" unfolding family_users_def by blast
  have "\<forall>t \<in> set (upd_where p f ts). rt_id t < n \<and> rt_familyId t < n"
    using assms unfolding set_upd_where ball_simps tokens_ok_def by (simp split: if_split)
  with eqs u fam assms(1) show ?thesis unfolding tokens_ok_def by simp
qed

lemma tokens_ok_filter: "tokens_ok n ts \<Longrightarrow> tokens_ok n (filter p ts)"
  by (auto simp: tokens_ok_def distinct_map_filter unique_on_filter family_users_def)

lemma tokens_ok_snoc:
  assumes "tokens_ok n ts" and "rt_tokenHash t \<notin> rt_tokenHash ` set ts" and "rt_id t = n" and "rt_familyId t < Suc n"
    and "\<And>x. x \<in> set ts \<Longrightarrow> rt_familyId x = rt_familyId t \<Longrightarrow> \<not> live x \<and> rt_userId x = rt_userId t"
  shows "tokens_ok (Suc n) (ts @ [t])"
proof -
  have "n \<notin> rt_id ` set ts" using assms(1) by (auto simp: tokens_ok_def)
  moreover have "rt_familyId t \<notin> rt_familyId ` set (filter live ts)" using assms(5) by auto
  moreover have "family_users (ts @ [t])"
  proof -
    obtain owner where "\<forall>x \<in> set ts. rt_userId x = owner (rt_familyId x)" using assms(1) by (auto simp: tokens_ok_def family_users_def)
    then have "\<forall>x \<in> set (ts @ [t]). rt_userId x = (owner(rt_familyId t := rt_userId t)) (rt_familyId x)" using assms(5) by auto
    then show ?thesis unfolding family_users_def by blast
  qed
  moreover have "\<forall>x \<in> set (ts @ [t]). rt_id x < Suc n \<and> rt_familyId x < Suc n" using assms(1,3,4) by (auto simp: tokens_ok_def less_Suc_eq)
  ultimately show ?thesis using assms(1-3) by (simp add: tokens_ok_def unique_on_def)
qed

section \<open>Every operation keeps the sessions in order\<close>

lemma draw_inv: "draw s = (k, s1) \<Longrightarrow> sess_inv s \<Longrightarrow> sess_inv s1 \<and> k = next_id (adb s) \<and> next_id (adb s1) = Suc k \<and>
    refresh_tokens s1 = refresh_tokens s \<and> users s1 = users s"
  by (auto simp: draw_def sess_inv_def intro: ok_up)

lemma store_cases:
  assumes "storeRefreshToken u h fam x s = (r, s1)"
  obtains (clash) err where "r = Inl err" "refresh_tokens s1 = refresh_tokens s" "users s1 = users s" "next_id (adb s1) = Suc (next_id (adb s))"
  | (stored) t where "r = Inr (rt_id t)" "rt_id t = next_id (adb s)" "h \<notin> rt_tokenHash ` set (refresh_tokens s)"
      "t = \<lparr>rt_id = next_id (adb s), rt_userId = u, rt_tokenHash = h, rt_familyId = fam, rt_expiresAt = x, rt_revokedAt = None, rt_replacedBy = None\<rparr>"
      "refresh_tokens s1 = refresh_tokens s @ [t]" "users s1 = users s" "next_id (adb s1) = Suc (next_id (adb s))"
proof (cases "h \<in> rt_tokenHash ` set (refresh_tokens s)")
  case True
  then have "\<exists>t \<in> set (refresh_tokens s). rt_tokenHash t = h" by auto
  then show thesis using assms clash by (auto simp: storeRefreshToken_def draw_def)
next
  case False
  then have "\<not> (\<exists>t \<in> set (refresh_tokens s). rt_tokenHash t = h)" by auto
  then show thesis using assms False by (intro stored [OF _ _ False refl]) (auto simp: storeRefreshToken_def draw_def)
qed

lemma upd_tokens_frame [simp]:
  "refresh_tokens (upd_tokens p f s) = upd_where p f (refresh_tokens s)" "users (upd_tokens p f s) = users s" "adb (upd_tokens p f s) = adb s"
  by (simp_all add: upd_tokens_def)

lemma revoke_token_facts [simp]:
  "rt_id (revoke_token now t) = rt_id t" "rt_tokenHash (revoke_token now t) = rt_tokenHash t" "rt_familyId (revoke_token now t) = rt_familyId t"
  "rt_userId (revoke_token now t) = rt_userId t" "\<not> live (revoke_token now t)"
  by (simp_all add: revoke_token_def live_def split: option.split)

lemma revoke_tokens_inv: "sess_inv s \<Longrightarrow> sess_inv (upd_tokens p (revoke_token now) s)"
  by (auto simp: sess_inv_def intro!: tokens_ok_weaken)

lemma audit_sess [simp]: "sess_inv (user_audit k a m s) = sess_inv s"
  by (simp add: sess_inv_def)

lemma users_ok_login: "users_ok n us \<Longrightarrow> users_ok n (upd_where p (\<lambda>r. r\<lparr>u_lastLoginAt := x\<rparr>) us)"
proof -
  have "map u_id (upd_where p (\<lambda>r. r\<lparr>u_lastLoginAt := x\<rparr>) us) = map u_id us" by (rule map_upd_where_inv) simp
  then show "users_ok n us \<Longrightarrow> users_ok n (upd_where p (\<lambda>r. r\<lparr>u_lastLoginAt := x\<rparr>) us)"
    by (auto simp: users_ok_def set_upd_where)
qed

lemma login_cases:
  assumes "login K e now raw email pw s = (r, s')"
  obtains (denied) "s' = s" "r = Inl (UnauthorizedError ''Invalid email or password'')"
  | (allowed) u h s1 where "findUserByEmail (toLowerCase email) s = Some u" "u_passwordHash u = Some h" "verifyPassword K pw h" "u_status u = User_active"
      "s1 = user_audit (u_id u) ''auth.login'' (u_email u @ '' signed in'') (updateLastLogin now (u_id u) s)"
      "issue K e now raw (toUser u) (next_id (adb s)) (snd (draw s1)) = (r, s')"
proof (cases "findUserByEmail (toLowerCase email) s")
  case None
  then show thesis using assms denied by (simp add: login_def)
next
  case (Some u)
  show thesis
  proof (cases "\<exists>h. u_passwordHash u = Some h \<and> verifyPassword K pw h \<and> u_status u = User_active")
    case True
    then obtain h where h: "u_passwordHash u = Some h" "verifyPassword K pw h" "u_status u = User_active" by blast
    have "issue K e now raw (toUser u) (next_id (adb s))
        (snd (draw (user_audit (u_id u) ''auth.login'' (u_email u @ '' signed in'') (updateLastLogin now (u_id u) s)))) = (r, s')"
      using assms Some h by (simp add: login_def draw_def updateLastLogin_def)
    from allowed [OF Some h refl this] show thesis .
  next
    case False
    then show thesis using assms denied Some by (auto simp: login_def split: option.splits if_splits)
  qed
qed

lemma login_inv:
  assumes "sess_inv s" and "login K e now raw email pw s = (r, s')"
  shows "sess_inv s' \<and> (\<forall>t \<in> set (refresh_tokens s'). t \<in> set (refresh_tokens s) \<or> rt_familyId t = next_id (adb s)) \<and>
    next_id (adb s) \<le> next_id (adb s')"
  using assms(2)
proof (cases rule: login_cases)
  case (allowed u h s1)
  have s1: "sess_inv (snd (draw s1))" "refresh_tokens (snd (draw s1)) = refresh_tokens s" "next_id (adb (snd (draw s1))) = Suc (next_id (adb s))"
    using assms(1) allowed(5) by (auto simp: draw_def sess_inv_def updateLastLogin_def intro: ok_up users_ok_login)
  obtain q s2 where q: "storeRefreshToken (u_id (toUser u)) (hashToken K raw) (next_id (adb s)) (refreshExpiry e now) (snd (draw s1)) = (q, s2)"
    by (metis surj_pair)
  then have s': "s' = s2" using allowed(6) by (auto simp: issue_def split: sum.splits)
  from q show ?thesis
  proof (cases rule: store_cases)
    case (clash err)
    then show ?thesis using s1 s' by (auto simp: sess_inv_def intro: ok_up)
  next
    case (stored t)
    have "tokens_ok (Suc (next_id (adb (snd (draw s1))))) (refresh_tokens (snd (draw s1)) @ [t])"
      using s1 stored(2-4) assms(1) by (intro tokens_ok_snoc) (auto simp: sess_inv_def tokens_ok_def)
    then show ?thesis using s1 s' stored by (auto simp: sess_inv_def intro: ok_up)
  qed
qed (simp add: assms(1))

text \<open>Replacing the live token of a family by a new one.\<close>

lemma tokens_ok_rotate:
  assumes ok: "tokens_ok k ts" and t: "t \<in> set ts" "live t"
    and n: "rt_id n = k" "rt_tokenHash n \<notin> rt_tokenHash ` set ts" "rt_familyId n = rt_familyId t" "rt_userId n = rt_userId t"
  shows "tokens_ok (Suc k) (upd_where (\<lambda>x. rt_id x = rt_id t) (\<lambda>x. x\<lparr>rt_revokedAt := Some now, rt_replacedBy := r\<rparr>) ts @ [n])"
proof -
  let ?f = "\<lambda>x. x\<lparr>rt_revokedAt := Some now, rt_replacedBy := r\<rparr>" and ?p = "\<lambda>x. rt_id x = rt_id t"
  have only: "x = t" if "x \<in> set ts" "live x" "rt_familyId x = rt_familyId t" for x
    using that t ok unique_onD [of live rt_familyId ts] by (auto simp: tokens_ok_def)
  obtain owner where ow: "\<forall>x \<in> set ts. rt_userId x = owner (rt_familyId x)"
    using ok by (auto simp: tokens_ok_def family_users_def)
  have old: "tokens_ok k (upd_where ?p ?f ts)" using ok by (intro tokens_ok_weaken) (auto simp: live_def)
  show ?thesis
  proof (rule tokens_ok_snoc [OF old _ n(1)])
    show "rt_tokenHash n \<notin> rt_tokenHash ` set (upd_where ?p ?f ts)" using n(2) by (auto simp: set_upd_where image_iff split: if_splits)
    show "rt_familyId n < Suc k" using t(1) ok n(3) by (auto simp: tokens_ok_def less_Suc_eq)
    show "\<not> live x \<and> rt_userId x = rt_userId n" if "x \<in> set (upd_where ?p ?f ts)" "rt_familyId x = rt_familyId n" for x
      using that only t ow n(3,4) by (auto simp: set_upd_where live_def split: if_splits)
  qed
qed

lemma rotate_inv:
  assumes "sess_inv s" and "refresh_read K now tok s = Rotate t u" and "refresh_write K e now raw (Rotate t u) s = (r, s')"
  shows "sess_inv s' \<and> next_id (adb s) \<le> next_id (adb s') \<and> (\<forall>x \<in> set (refresh_tokens s'). rt_familyId x \<noteq> rt_familyId t \<longrightarrow> x \<in> set (refresh_tokens s))"
proof -
  have t: "t \<in> set (refresh_tokens s)" "live t" "u_id u = rt_userId t"
    using assms(2) by (auto simp: refresh_read_def findRefreshToken_def findUserById_def live_def toUser_def
        dest!: find_SomeD split: option.splits if_splits)
  obtain q s1 where q: "storeRefreshToken (u_id u) (hashToken K raw) (rt_familyId t) (refreshExpiry e now) s = (q, s1)" by (metis surj_pair)
  from q show ?thesis
  proof (cases rule: store_cases)
    case (clash err)
    then have "s' = s1" using assms(3) q by (simp add: refresh_write_def rotateRefreshToken_def)
    then show ?thesis using clash assms(1) by (auto simp: sess_inv_def intro: ok_up)
  next
    case (stored n)
    let ?f = "\<lambda>x. x\<lparr>rt_revokedAt := Some now, rt_replacedBy := Some (rt_id n)\<rparr>" and ?p = "\<lambda>x. rt_id x = rt_id t"
    have s': "s' = upd_tokens ?p ?f s1" using assms(3) q stored(1) by (simp add: refresh_write_def rotateRefreshToken_def)
    have "rt_id n \<noteq> rt_id t" using stored(2) t(1) assms(1) by (auto simp: sess_inv_def tokens_ok_def)
    then have ts: "refresh_tokens s' = upd_where ?p ?f (refresh_tokens s) @ [n]" by (simp add: s' stored(5))
    have "tokens_ok (Suc (next_id (adb s))) (refresh_tokens s')"
      unfolding ts using assms(1) t stored(2-4) by (intro tokens_ok_rotate) (auto simp: sess_inv_def)
    moreover have "users_ok (Suc (next_id (adb s))) (users s')" "next_id (adb s') = Suc (next_id (adb s))"
      using assms(1) stored(6,7) by (auto simp: s' sess_inv_def intro: ok_up)
    moreover have "rt_familyId x = rt_familyId t" if "x \<in> set (refresh_tokens s)" "rt_id x = rt_id t" for x
      using that t(1) assms(1) by (auto simp: sess_inv_def tokens_ok_def distinct_map dest: inj_onD)
    then have "\<forall>x \<in> set (refresh_tokens s'). rt_familyId x \<noteq> rt_familyId t \<longrightarrow> x \<in> set (refresh_tokens s)"
      unfolding ts using stored(4) by (auto simp: set_upd_where split: if_splits)
    ultimately show ?thesis unfolding sess_inv_def by simp
  qed
qed

section \<open>A dead family stays dead\<close>

definition dead :: "row_id \<Rightarrow> auth_state \<Rightarrow> bool" where
  "dead fam s \<longleftrightarrow> fam < next_id (adb s) \<and> (\<forall>t \<in> set (refresh_tokens s). rt_familyId t = fam \<longrightarrow> \<not> live t)"

lemma refresh_step:
  assumes "sess_inv s" and "refresh K e now raw tok s = (r, s')"
  shows "sess_inv s' \<and> (dead fam s \<longrightarrow> dead fam s')"
proof (cases "refresh_read K now tok s")
  case (Refuse m)
  then show ?thesis using assms by (simp add: refresh_def refresh_write_def)
next
  case (Burn t)
  then have "s' = user_audit (rt_userId t) ''auth.token_reuse'' ''Refresh-token reuse detected; all sessions in the family revoked''
      (revokeTokenFamily now (rt_familyId t) s)" using assms(2) by (simp add: refresh_def refresh_write_def)
  then show ?thesis using revoke_tokens_inv [OF assms(1)]
    by (auto simp: revokeTokenFamily_def dead_def set_upd_where split: if_splits)
next
  case (Rotate t u)
  have w: "refresh_write K e now raw (Rotate t u) s = (r, s')" using assms(2) Rotate by (simp add: refresh_def)
  have "t \<in> set (refresh_tokens s)" "live t"
    using Rotate by (auto simp: refresh_read_def findRefreshToken_def live_def dest!: find_SomeD split: option.splits if_splits)
  then have "dead fam s \<Longrightarrow> rt_familyId t \<noteq> fam" by (auto simp: dead_def)
  then show ?thesis using rotate_inv [OF assms(1) Rotate w] by (auto simp: dead_def)
qed

lemma prune_step: "sess_inv s \<Longrightarrow> sess_inv (pruneExpiredRefreshTokens now s) \<and> (dead fam s \<longrightarrow> dead fam (pruneExpiredRefreshTokens now s))"
  by (auto simp: pruneExpiredRefreshTokens_def Let_def sess_inv_def dead_def set_upd_where live_def split: if_splits
      intro!: tokens_ok_weaken tokens_ok_filter)

lemma bootstrap_step: "sess_inv s \<Longrightarrow> sess_inv (bootstrapAdmin now m h s) \<and> (dead fam s \<longrightarrow> dead fam (bootstrapAdmin now m h s))"
  by (auto simp: bootstrapAdmin_def createUser_def draw_def Let_def sess_inv_def dead_def users_ok_def less_Suc_eq
      split: option.split intro: ok_up)

lemma session_step_ok:
  assumes "sess_inv s"
  shows "sess_inv (session_step K e (now, p) s) \<and> (dead fam s \<longrightarrow> dead fam (session_step K e (now, p) s))"
proof (cases p)
  case (S_login raw email pw)
  obtain r s' where "login K e now raw email pw s = (r, s')" by (metis surj_pair)
  from login_inv [OF assms this] show ?thesis using S_login \<open>login K e now raw email pw s = (r, s')\<close> by (force simp: dead_def)
next
  case (S_refresh raw tok)
  obtain r s' where "refresh K e now raw tok s = (r, s')" by (metis surj_pair)
  with refresh_step [OF assms this] show ?thesis using S_refresh by simp
next
  case (S_logout u)
  then show ?thesis using revoke_tokens_inv [OF assms]
    by (auto simp: logout_def revokeUserTokens_def dead_def set_upd_where split: if_splits)
qed (use assms prune_step bootstrap_step in simp_all)

lemma sessions_fold:
  assumes "sess_inv s"
  shows "sess_inv (fold (session_step K e) ops s) \<and> (dead fam s \<longrightarrow> dead fam (fold (session_step K e) ops s))"
  using assms
proof (induction ops arbitrary: s)
  case (Cons x ops)
  then show ?case using session_step_ok [OF Cons.prems, of K e "fst x" "snd x" fam] Cons.IH [of "session_step K e x s"] by simp
qed simp

lemma dead_refused:
  assumes "dead fam s" and "findRefreshToken (hashToken K tok) s = Some t" and "rt_familyId t = fam"
  shows "\<exists>m. fst (refresh K e now raw tok s) = Inl (UnauthorizedError m)"
proof -
  have "rt_revokedAt t \<noteq> None" using assms by (auto simp: dead_def live_def findRefreshToken_def dest!: find_SomeD)
  then show ?thesis using assms(2) by (auto simp: refresh_def refresh_read_def refresh_write_def)
qed

text \<open>C23. However sign-ins, refreshes, sign-outs and clean-ups follow each other, token identifiers and
  hashes stay unique, every family of tokens belongs to one user, and at most one of its tokens
  is live.\<close>

theorem sessions_invariant:
  assumes "sess_inv s"
  shows "sess_inv (fold (session_step K e) ops s)"
  using sessions_fold [OF assms] by blast


text \<open>C24. Signing out ends every session of the user: no token of a family the user had then is accepted
  after any later operations.\<close>

theorem logout_ends_sessions:
  assumes "sess_inv s" and "t \<in> set (refresh_tokens s)" and "rt_userId t = u"
    and "s' = fold (session_step K e) ops (logout now u s)"
    and "findRefreshToken (hashToken K tok) s' = Some t'" and "rt_familyId t' = rt_familyId t"
  shows "\<exists>m. fst (refresh K e now' raw' tok s') = Inl (UnauthorizedError m)"
proof -
  obtain owner where ow: "\<forall>x \<in> set (refresh_tokens s). rt_userId x = owner (rt_familyId x)"
    using assms(1) by (auto simp: sess_inv_def tokens_ok_def family_users_def)
  then have "dead (rt_familyId t) (logout now u s)" using assms(1-3)
    by (auto simp: logout_def revokeUserTokens_def dead_def set_upd_where sess_inv_def tokens_ok_def split: if_splits)
  moreover have "sess_inv (logout now u s)" using session_step_ok [OF assms(1), of K e now "S_logout u"] by simp
  ultimately have "dead (rt_familyId t) s'" using sessions_fold assms(4) by blast
  then show ?thesis using dead_refused assms(5,6) by blast
qed

section \<open>Signing in\<close>

lemma find_user_login:
  assumes "users_ok n us" and "u \<in> set us"
  shows "map_option toUser (find (\<lambda>r. u_id r = u_id u) (upd_where p (\<lambda>r. r\<lparr>u_lastLoginAt := x\<rparr>) us)) = Some (toUser u)"
proof -
  have "find (\<lambda>r. u_id r = u_id u) us = Some u"
    using assms by (induction us) (auto simp: users_ok_def split: if_splits)
  then show ?thesis by (subst find_upd_where) (auto simp: toUser_def)
qed

text \<open>Signing in succeeds only for an active account with the right password, and what it hands out
  works: until it expires, the refresh token is exchanged for a new pair for the same user.\<close>

theorem login_opens_session:
  assumes "sess_inv s" and "login K e now raw email pw s = (Inr res, s1)"
    and "now2 \<le> refreshExpiry e now" and "hashToken K raw2 \<notin> rt_tokenHash ` set (refresh_tokens s1)"
  shows "(\<exists>u h. findUserByEmail (toLowerCase email) s = Some u \<and> u_status u = User_active \<and> u_passwordHash u = Some h \<and>
      verifyPassword K pw h \<and> ar_user res = toUser u) \<and>
    fst (refresh K e now2 raw2 (ar_refreshToken res) s1) = Inr (auth_result_of K e (ar_user res) raw2)"
  using assms(2)
proof (cases rule: login_cases)
  case (allowed u h s0)
  have u: "u \<in> set (users s)" using allowed(1) by (auto simp: findUserByEmail_def dest: find_SomeD)
  obtain q s2 where q: "storeRefreshToken (u_id (toUser u)) (hashToken K raw) (next_id (adb s)) (refreshExpiry e now) (snd (draw s0)) = (q, s2)"
    by (metis surj_pair)
  then have res: "s1 = s2" "res = auth_result_of K e (toUser u) raw" "\<exists>k. q = Inr k" using allowed(6) by (auto simp: issue_def split: sum.splits)
  from q show ?thesis
  proof (cases rule: store_cases)
    case (stored t)
    have "find (\<lambda>x. rt_tokenHash x = hashToken K raw) (refresh_tokens (snd (draw s0))) = None" using stored(3) unfolding find_eq_None by (metis imageI)
    then have tok: "findRefreshToken (hashToken K raw) s1 = Some t" by (simp add: findRefreshToken_def res(1) stored(4,5) find_append)
    have "users s1 = upd_where (\<lambda>r. u_id r = u_id u) (\<lambda>r. r\<lparr>u_lastLoginAt := Some now\<rparr>) (users s)"
      by (simp add: res(1) stored(6) allowed(5) draw_def updateLastLogin_def)
    then have usr: "findUserById (u_id u) s1 = Some (toUser u)" 
      using find_user_login [OF _ u] assms(1) unfolding findUserById_def sess_inv_def by metis
    have id: "rt_userId t = u_id u" "rt_revokedAt t = None" "rt_expiresAt t = refreshExpiry e now" by (simp_all add: stored(4) toUser_def)
    have read: "refresh_read K now2 raw s1 = Rotate t (toUser u)" using tok usr id assms(3) allowed(4) by (simp add: refresh_read_def toUser_def)
    have "\<not> (\<exists>x \<in> set (refresh_tokens s1). rt_tokenHash x = hashToken K raw2)" using assms(4) by (metis imageI)
    then have "fst (refresh K e now2 raw2 raw s1) = Inr (auth_result_of K e (toUser u) raw2)"
      by (simp add: refresh_def read refresh_write_def rotateRefreshToken_def storeRefreshToken_def draw_def)
    then show ?thesis using allowed(1-4) res(2) by (simp add: auth_result_of_def)
  qed (use res(3) in simp)
qed simp

text \<open>The comparison that is to hide whether an account exists compares nothing: the text it checks
  against does not have the format, so no key is derived.\<close>

lemma decoy_derives_nothing: "scrypt_params ''$scrypt$1$1$1$AA==$AA=='' = None"
  by (simp add: scrypt_params_def)

section \<open>Two refreshes of one token at the same time\<close>

text \<open>C27. When two requests read the same live token before either of them writes, both are answered with a
  new token, and the family has two live tokens: the replay goes unnoticed.\<close>

theorem concurrent_refreshes_fork:
  assumes "refresh_read K now tok s = Rotate t u" and "hashToken K raw1 \<noteq> hashToken K raw2" and "rt_id t < next_id (adb s)"
    and "hashToken K raw1 \<notin> rt_tokenHash ` set (refresh_tokens s)" and "hashToken K raw2 \<notin> rt_tokenHash ` set (refresh_tokens s)"
    and "refresh_write K e now raw1 (Rotate t u) s = (r1, s1)" and "refresh_write K e now raw2 (Rotate t u) s1 = (r2, s2)"
  shows "r1 = Inr (auth_result_of K e u raw1) \<and> r2 = Inr (auth_result_of K e u raw2) \<and>
    (\<exists>a \<in> set (refresh_tokens s2). \<exists>b \<in> set (refresh_tokens s2). rt_id a \<noteq> rt_id b \<and> live a \<and> live b \<and>
      rt_familyId a = rt_familyId t \<and> rt_familyId b = rt_familyId t)"
proof -
  let ?k = "next_id (adb s)"
  let ?n = "\<lambda>k h. \<lparr>rt_id = k, rt_userId = u_id u, rt_tokenHash = h, rt_familyId = rt_familyId t, rt_expiresAt = refreshExpiry e now,
     rt_revokedAt = None, rt_replacedBy = None\<rparr>"
  let ?f = "\<lambda>k x. x\<lparr>rt_revokedAt := Some now, rt_replacedBy := Some k\<rparr>" and ?p = "\<lambda>x. rt_id x = rt_id t"
  have n1: "\<not> (\<exists>x \<in> set (refresh_tokens s). rt_tokenHash x = hashToken K raw1)" using assms(4) by (metis imageI)
  have 1: "r1 = Inr (auth_result_of K e u raw1)" "refresh_tokens s1 = upd_where ?p (?f ?k) (refresh_tokens s) @ [?n ?k (hashToken K raw1)]"
    "next_id (adb s1) = Suc ?k"
    using assms(3,6) n1 by (auto simp: refresh_write_def rotateRefreshToken_def storeRefreshToken_def draw_def)
  have n2: "\<not> (\<exists>x \<in> set (refresh_tokens s1). rt_tokenHash x = hashToken K raw2)"
    using assms(2,5) by (auto simp: 1 set_upd_where image_iff split: if_splits)
  have 2: "r2 = Inr (auth_result_of K e u raw2)"
    "refresh_tokens s2 = upd_where ?p (?f (Suc ?k)) (refresh_tokens s1) @ [?n (Suc ?k) (hashToken K raw2)]"
    using assms(3,7) n2 1(3) by (auto simp: refresh_write_def rotateRefreshToken_def storeRefreshToken_def draw_def)
  have "?n ?k (hashToken K raw1) \<in> set (refresh_tokens s2)" "?n (Suc ?k) (hashToken K raw2) \<in> set (refresh_tokens s2)"
    using assms(3) by (auto simp: 2 1 set_upd_where)
  then show ?thesis using 1 2 by (fastforce simp: live_def)
qed

section \<open>Examples\<close>

definition sample_crypto :: crypto where
  "sample_crypto = \<lparr>hashToken = (\<lambda>t. ''#'' @ t), scrypt_matches = (\<lambda>pw ps. pw = last ps), signAccessToken = (\<lambda>c. c_email c), verifyAccessToken = (\<lambda>_. None)\<rparr>"

definition sample_auth_env :: auth_env where
  "sample_auth_env = \<lparr>REFRESH_TOKEN_TTL_DAYS = 7, ACCESS_TOKEN_TTL_SECONDS = 900\<rparr>"

definition sample_user :: user_row where
  "sample_user = \<lparr>u_id = 0, u_email = ''ama@bank.example'', u_fullName = ''Ama'', u_status = User_active, u_teamId = None, u_roles = [OPERATOR],
     u_createdAt = 0, u_passwordHash = Some ''scrypt$1$1$1$s$pw'', u_lastLoginAt = None\<rparr>"

definition sample_token :: "row_id \<Rightarrow> string \<Rightarrow> timestamp option \<Rightarrow> refresh_token" where
  "sample_token k h rv = \<lparr>rt_id = k, rt_userId = 0, rt_tokenHash = h, rt_familyId = 1, rt_expiresAt = 1000, rt_revokedAt = rv, rt_replacedBy = None\<rparr>"

text \<open>A session whose first token was replaced by its second.\<close>

definition sample_auth :: auth_state where
  "sample_auth = \<lparr>adb = empty_db\<lparr>next_id := 4\<rparr>, users = [sample_user], refresh_tokens = [sample_token 2 ''#old'' (Some 5), sample_token 3 ''#new'' None]\<rparr>"

lemma sample_auth_inv: "sess_inv sample_auth"
  by (auto simp: sess_inv_def tokens_ok_def unique_on_def family_users_def users_ok_def sample_auth_def sample_token_def sample_user_def live_def)

theorem sessions_invariant_witness:
  "sess_inv (fold (session_step sample_crypto sample_auth_env) [(10, S_refresh ''next'' ''new''), (20, S_logout 0), (30, S_prune)] sample_auth)"
  by (rule sessions_invariant [OF sample_auth_inv])


theorem logout_ends_sessions_witness:
  "\<exists>m. fst (refresh sample_crypto sample_auth_env 20 ''b'' ''new'' (logout 10 0 sample_auth)) = Inl (UnauthorizedError m)"
proof -
  have "sample_token 3 ''#new'' None \<in> set (refresh_tokens sample_auth)" by (simp add: sample_auth_def)
  moreover have "findRefreshToken (hashToken sample_crypto ''new'') (logout 10 0 sample_auth) = Some (sample_token 3 ''#new'' (Some 10))"
    by (simp add: logout_def revokeUserTokens_def upd_tokens_def user_audit_def findRefreshToken_def sample_auth_def sample_token_def
        sample_crypto_def revoke_token_def)
  ultimately show ?thesis
    using logout_ends_sessions [OF sample_auth_inv, of "sample_token 3 ''#new'' None" 0 "logout 10 0 sample_auth" sample_crypto sample_auth_env "[]" 10
        "''new''" "sample_token 3 ''#new'' (Some 10)" 20 "''b''"] by (simp add: sample_token_def)
qed

lemma sample_login:
  "\<exists>s1. login sample_crypto sample_auth_env 10 ''a'' ''Ama@bank.example'' ''pw'' sample_auth =
     (Inr (auth_result_of sample_crypto sample_auth_env (toUser sample_user) ''a''), s1) \<and> rt_tokenHash ` set (refresh_tokens s1) = {''#old'', ''#new'', ''#a''}"
proof -
  have lc: "toLowerCase ''Ama@bank.example'' = ''ama@bank.example''" by code_simp
  have lc2: "toLowerCase ''ama@bank.example'' = ''ama@bank.example''" by code_simp
  have found: "findUserByEmail ''ama@bank.example'' sample_auth = Some sample_user"
    by (simp add: findUserByEmail_def sample_auth_def sample_user_def lc2)
  have "verifyPassword sample_crypto ''pw'' ''scrypt$1$1$1$s$pw''" by (simp add: verifyPassword_def scrypt_params_def sample_crypto_def)
  then show ?thesis
    unfolding login_def lc found
    by (simp add: updateLastLogin_def user_audit_def draw_def issue_def storeRefreshToken_def Let_def)
      (auto simp: sample_auth_def sample_token_def sample_user_def sample_crypto_def)
qed

theorem login_opens_session_witness:
  "\<exists>res s1. login sample_crypto sample_auth_env 10 ''a'' ''Ama@bank.example'' ''pw'' sample_auth = (Inr res, s1) \<and>
     fst (refresh sample_crypto sample_auth_env 500 ''b'' (ar_refreshToken res) s1) = Inr (auth_result_of sample_crypto sample_auth_env (ar_user res) ''b'')"
proof -
  obtain s1 where s1: "login sample_crypto sample_auth_env 10 ''a'' ''Ama@bank.example'' ''pw'' sample_auth =
      (Inr (auth_result_of sample_crypto sample_auth_env (toUser sample_user) ''a''), s1)" "rt_tokenHash ` set (refresh_tokens s1) = {''#old'', ''#new'', ''#a''}"
    using sample_login by blast
  have "hashToken sample_crypto ''b'' \<notin> rt_tokenHash ` set (refresh_tokens s1)" unfolding s1(2) by (simp add: sample_crypto_def)
  with login_opens_session [OF sample_auth_inv s1(1), of 500 "''b''"] s1(1) show ?thesis
    by (auto simp: refreshExpiry_def sample_auth_env_def)
qed

theorem concurrent_refreshes_fork_witness:
  "\<exists>s1 s2. refresh_write sample_crypto sample_auth_env 10 ''a'' (refresh_read sample_crypto 10 ''new'' sample_auth) sample_auth = s1 \<and>
     refresh_write sample_crypto sample_auth_env 10 ''b'' (refresh_read sample_crypto 10 ''new'' sample_auth) (snd s1) = s2 \<and> length (filter live (refresh_tokens (snd s2))) > 1"
proof -
  let ?t = "sample_token 3 ''#new'' None" and ?u = "toUser sample_user"
  have read: "refresh_read sample_crypto 10 ''new'' sample_auth = Rotate ?t ?u"
    by (simp add: refresh_read_def findRefreshToken_def findUserById_def sample_auth_def sample_token_def sample_crypto_def sample_user_def toUser_def)
  obtain r1 s1 where w1: "refresh_write sample_crypto sample_auth_env 10 ''a'' (Rotate ?t ?u) sample_auth = (r1, s1)" by (metis surj_pair)
  obtain r2 s2 where w2: "refresh_write sample_crypto sample_auth_env 10 ''b'' (Rotate ?t ?u) s1 = (r2, s2)" by (metis surj_pair)
  have "hashToken sample_crypto ''a'' \<notin> rt_tokenHash ` set (refresh_tokens sample_auth)"
    "hashToken sample_crypto ''b'' \<notin> rt_tokenHash ` set (refresh_tokens sample_auth)" "rt_id ?t < next_id (adb sample_auth)"
    "hashToken sample_crypto ''a'' \<noteq> hashToken sample_crypto ''b''"
    by (simp_all add: sample_auth_def sample_token_def sample_crypto_def)
  with concurrent_refreshes_fork [OF read _ _ _ _ w1 w2] obtain a b where
    "a \<in> set (filter live (refresh_tokens s2))" "b \<in> set (filter live (refresh_tokens s2))" "a \<noteq> b" by auto
  then have "1 < length (filter live (refresh_tokens s2))" 
    by (cases "filter live (refresh_tokens s2)"; cases "tl (filter live (refresh_tokens s2))") auto
  then show ?thesis using w1 w2 read by auto
qed

end
