(* ===== verification/Pay_Contract.thy ===== *)
theory Pay_Contract
  imports Json
begin

text \<open>
  \<^verbatim>\<open>src/loadtest/contract/ismartpay.ts\<close>: the payment provider's contract as the simulator and the
  correctness suite use it. The patterns are predicates on strings, a request schema is a function from the
  parsed body to the typed request, and the keyed digest of webhooks is an argument.

  Shown: a signed webhook is accepted within the tolerance and refused outside of it, and the fee
  is neither lost nor paid twice.
\<close>

section \<open>Patterns\<close>

definition alnum :: "char \<Rightarrow> bool" where
  "alnum c \<longleftrightarrow> is_digit c \<or> (65 \<le> (of_char c :: nat) \<and> (of_char c :: nat) \<le> 90) \<or> (97 \<le> (of_char c :: nat) \<and> (of_char c :: nat) \<le> 122)"

definition REFERENCE_RE :: "string \<Rightarrow> bool" where
  "REFERENCE_RE s \<longleftrightarrow> s \<noteq> [] \<and> length s \<le> 64 \<and> alnum (hd s) \<and> list_all (\<lambda>c. alnum c \<or> c = CHR ''_'' \<or> c = CHR ''-'') (tl s)"

text \<open>Digits, a point and two digits.\<close>

definition AMOUNT_RE :: "string \<Rightarrow> bool" where
  "AMOUNT_RE s \<longleftrightarrow> 4 \<le> length s \<and> list_all is_digit (take (length s - 3) s) \<and> take 1 (drop (length s - 3) s) = ''.'' \<and>
     list_all is_digit (drop (length s - 2) s)"

definition CURRENCY_RE :: "string \<Rightarrow> bool" where
  "CURRENCY_RE s \<longleftrightarrow> length s = 3 \<and> list_all (\<lambda>c. 65 \<le> (of_char c :: nat) \<and> (of_char c :: nat) \<le> 90) s"

definition MSISDN_233_RE :: "string \<Rightarrow> bool" where
  "MSISDN_233_RE s \<longleftrightarrow> length s = 12 \<and> take 3 s = ''233'' \<and> list_all is_digit s"

definition IDEMPOTENCY_KEY_MAX :: nat where
  "IDEMPOTENCY_KEY_MAX = 255"

definition PROVIDERS :: "string list" where
  "PROVIDERS = [''mtn'', ''telecel'', ''calbank'']"

definition PARTY_TYPES :: "string list" where
  "PARTY_TYPES = [''msisdn'', ''account'', ''card'']"

datatype fee_bearer = Initiator | Non_initiator

section \<open>Errors\<close>

definition ERROR_HTTP :: "(string \<times> int) list" where
  "ERROR_HTTP =
     [(''invalid_input'', 400), (''own_handle'', 400), (''transfer_refused'', 400), (''unauthenticated'', 401), (''forbidden'', 403),
      (''environment_mismatch'', 403), (''tier_ineligible'', 403), (''transaction_limit_exceeded'', 403), (''daily_limit_exceeded'', 403),
      (''monthly_limit_exceeded'', 403), (''limits_missing'', 403), (''limits_unusable'', 403), (''business_suspended'', 403),
      (''business_deactivated'', 403), (''not_found'', 404), (''product_not_found'', 404), (''idempotency_key_reused'', 409),
      (''request_in_flight'', 409), (''duplicate_reference'', 409), (''checkout_not_enabled'', 409), (''checkout_not_open'', 409),
      (''checkout_reference_taken'', 409), (''settlement_in_progress'', 409), (''resettlement_not_allowed'', 409),
      (''settlement_already_retried'', 409), (''transfer_not_held'', 409), (''destination_not_verified'', 422),
      (''product_not_sellable'', 422), (''amount_out_of_range'', 422), (''currency_not_supported'', 422), (''beneficiary_invalid'', 422),
      (''fee_unpriceable'', 422), (''rate_limited'', 429), (''internal'', 500), (''provider_error'', 502), (''environment_unknown'', 503),
      (''utilities_unavailable'', 503), (''checkout_unavailable'', 503), (''destination_verification_unavailable'', 503),
      (''upstream_timeout'', 504), (''provider_timeout'', 504)]"

section \<open>Request schemas\<close>

definition obj_field :: "string \<Rightarrow> json \<Rightarrow> json option" where
  "obj_field k j = (case j of Jobj kvs \<Rightarrow> map_of kvs k | _ \<Rightarrow> None)"

definition only_keys :: "string list \<Rightarrow> json \<Rightarrow> bool" where
  "only_keys ks j = (case j of Jobj kvs \<Rightarrow> list_all (\<lambda>kv. fst kv \<in> set ks) kvs | _ \<Rightarrow> False)"

text \<open>A required string that satisfies a condition, and an optional one (\<open>Some None\<close> when it is absent).\<close>

definition str_field :: "(string \<Rightarrow> bool) \<Rightarrow> string \<Rightarrow> json \<Rightarrow> string option" where
  "str_field p k j = (case obj_field k j of Some (Jstr s) \<Rightarrow> if p s then Some s else None | _ \<Rightarrow> None)"

definition opt_field :: "(string \<Rightarrow> bool) \<Rightarrow> string \<Rightarrow> json \<Rightarrow> string option option" where
  "opt_field p k j = (case obj_field k j of None \<Rightarrow> Some None | Some (Jstr s) \<Rightarrow> if p s then Some (Some s) else None | _ \<Rightarrow> None)"

definition note_ok :: "string \<Rightarrow> bool" where
  "note_ok s \<longleftrightarrow> js_length s \<le> 50 \<and> list_all (\<lambda>c. 32 \<le> (of_char c :: nat) \<and> (of_char c :: nat) \<noteq> 127) s"

record party =
  p_type :: string
  p_value :: string

definition party_schema :: "json \<Rightarrow> party option" where
  "party_schema j =
     (if \<not> only_keys [''type'', ''value''] j then None
      else case (str_field (\<lambda>s. s \<in> set PARTY_TYPES) ''type'' j, str_field (\<lambda>s. 1 \<le> js_length s \<and> js_length s \<le> 100) ''value'' j) of
             (Some t, Some v) \<Rightarrow> Some \<lparr>p_type = t, p_value = v\<rparr>
           | _ \<Rightarrow> None)"

text \<open>Collections and payouts have the same shape; the other party is called \<open>payer\<close> and
  \<open>destination\<close>.\<close>

record money_request =
  q_reference :: string
  q_amount :: string
  q_currency :: string
  q_provider :: string
  q_party :: party
  q_note :: "string option"

definition money_schema :: "string \<Rightarrow> bool \<Rightarrow> json \<Rightarrow> money_request option" where
  "money_schema other strict j =
     (if strict \<and> \<not> only_keys [''reference'', ''amount'', ''currency'', ''provider'', other, ''note''] j then None
      else case (str_field REFERENCE_RE ''reference'' j, str_field AMOUNT_RE ''amount'' j, str_field CURRENCY_RE ''currency'' j,
                 str_field (\<lambda>s. s \<noteq> []) ''provider'' j, Option.bind (obj_field other j) party_schema, opt_field note_ok ''note'' j) of
             (Some r, Some a, Some c, Some p, Some q, Some n) \<Rightarrow>
               Some \<lparr>q_reference = r, q_amount = a, q_currency = c, q_provider = p, q_party = q, q_note = n\<rparr>
           | _ \<Rightarrow> None)"

definition CollectionRequestSchema :: "json \<Rightarrow> money_request option" where
  "CollectionRequestSchema = money_schema ''payer'' True"

definition PayoutRequestSchema :: "json \<Rightarrow> money_request option" where
  "PayoutRequestSchema = money_schema ''destination'' True"

fun all_some :: "'a option list \<Rightarrow> 'a list option" where
  "all_some [] = Some []"
| "all_some (None # xs) = None"
| "all_some (Some x # xs) = map_option (Cons x) (all_some xs)"

record batch_request =
  b_reference :: string
  b_items :: "money_request list"

definition PayoutBatchRequestSchema :: "json \<Rightarrow> batch_request option" where
  "PayoutBatchRequestSchema j =
     (if \<not> only_keys [''reference'', ''items''] j then None
      else case (str_field REFERENCE_RE ''reference'' j, obj_field ''items'' j) of
             (Some r, Some (Jarr xs)) \<Rightarrow>
               if xs = [] \<or> 100 < length xs then None
               else map_option (\<lambda>items. \<lparr>b_reference = r, b_items = items\<rparr>) (all_some (map PayoutRequestSchema xs))
           | _ \<Rightarrow> None)"

text \<open>The value a parsed payout request is, with its members in the order of the schema.\<close>

definition payout_json :: "money_request \<Rightarrow> json" where
  "payout_json r =
     Jobj ([(''reference'', Jstr (q_reference r)), (''amount'', Jstr (q_amount r)), (''currency'', Jstr (q_currency r)),
            (''provider'', Jstr (q_provider r)),
            (''destination'', Jobj [(''type'', Jstr (p_type (q_party r))), (''value'', Jstr (p_value (q_party r)))])] @
           (case q_note r of None \<Rightarrow> [] | Some n \<Rightarrow> [(''note'', Jstr n)]))"

record utility_request =
  z_reference :: string
  z_productId :: string
  z_amount :: string
  z_currency :: string
  z_msisdn :: string
  z_account :: "string option"
  z_wallet :: bool
  z_payer :: "(string \<times> string) option"

definition beneficiary_schema :: "json \<Rightarrow> (string \<times> string option) option" where
  "beneficiary_schema j =
     (if \<not> only_keys [''msisdn'', ''accountNumber''] j then None
      else case (str_field MSISDN_233_RE ''msisdn'' j,
                 opt_field (\<lambda>s. s \<noteq> [] \<and> length s \<le> 32 \<and> list_all alnum s) ''accountNumber'' j) of
             (Some m, Some a) \<Rightarrow> Some (m, a)
           | _ \<Rightarrow> None)"

definition payer_schema :: "json \<Rightarrow> (string \<times> string) option" where
  "payer_schema j =
     (if \<not> only_keys [''provider'', ''msisdn''] j then None
      else case (str_field (\<lambda>s. s = ''mtn'' \<or> s = ''telecel'') ''provider'' j, str_field MSISDN_233_RE ''msisdn'' j) of
             (Some p, Some m) \<Rightarrow> Some (p, m)
           | _ \<Rightarrow> None)"

definition funding_schema :: "json \<Rightarrow> (bool \<times> (string \<times> string) option) option" where
  "funding_schema j =
     (if \<not> only_keys [''type'', ''payer''] j then None
      else case (str_field (\<lambda>s. s = ''wallet'' \<or> s = ''collection'') ''type'' j,
                 case obj_field ''payer'' j of None \<Rightarrow> Some None | Some p \<Rightarrow> map_option Some (payer_schema p)) of
             (Some t, Some p) \<Rightarrow> Some (t = ''wallet'', p)
           | _ \<Rightarrow> None)"

definition UtilityPurchaseRequestSchema :: "json \<Rightarrow> utility_request option" where
  "UtilityPurchaseRequestSchema j =
     (if \<not> only_keys [''reference'', ''productId'', ''amount'', ''currency'', ''beneficiary'', ''funding''] j then None
      else case (str_field REFERENCE_RE ''reference'' j, str_field (\<lambda>s. s \<noteq> []) ''productId'' j, str_field AMOUNT_RE ''amount'' j,
                 str_field CURRENCY_RE ''currency'' j, Option.bind (obj_field ''beneficiary'' j) beneficiary_schema,
                 Option.bind (obj_field ''funding'' j) funding_schema) of
             (Some r, Some p, Some a, Some c, Some (m, acc), Some (fw, py)) \<Rightarrow>
               Some \<lparr>z_reference = r, z_productId = p, z_amount = a, z_currency = c, z_msisdn = m, z_account = acc, z_wallet = fw, z_payer = py\<rparr>
           | _ \<Rightarrow> None)"

record transfer_request =
  t_reference :: string
  t_handle :: string
  t_amount :: string
  t_currency :: string

definition TransferRequestSchema :: "json \<Rightarrow> transfer_request option" where
  "TransferRequestSchema j =
     (if \<not> only_keys [''reference'', ''handle'', ''amount'', ''currency''] j then None
      else case (str_field (\<lambda>s. REFERENCE_RE s \<and> take 4 s \<noteq> ''rvr-'') ''reference'' j,
                 str_field (\<lambda>s. 1 \<le> js_length s \<and> js_length s \<le> 40) ''handle'' j, str_field AMOUNT_RE ''amount'' j,
                 str_field CURRENCY_RE ''currency'' j) of
             (Some r, Some h, Some a, Some c) \<Rightarrow> Some \<lparr>t_reference = r, t_handle = h, t_amount = a, t_currency = c\<rparr>
           | _ \<Rightarrow> None)"

definition SettleNowRequestSchema :: "json \<Rightarrow> string option" where
  "SettleNowRequestSchema j = (if \<not> only_keys [''reference''] j then None else str_field REFERENCE_RE ''reference'' j)"

definition TokenFormSchema :: "json \<Rightarrow> (string \<times> string) option" where
  "TokenFormSchema j =
     (case (str_field (\<lambda>s. s = ''client_credentials'') ''grant_type'' j, str_field (\<lambda>s. s \<noteq> []) ''client_id'' j,
            str_field (\<lambda>s. s \<noteq> []) ''client_secret'' j, str_field (\<lambda>s. s = ''ismartpay'') ''resource'' j) of
        (Some _, Some c, Some k, Some _) \<Rightarrow> Some (c, k)
      | _ \<Rightarrow> None)"

section \<open>Fixtures and fees\<close>

definition TELECEL_FIXTURES :: "(string \<times> string option \<times> string option) list" where
  "TELECEL_FIXTURES =
     [(''233000000001'', Some ''settled'', Some ''delivered''), (''233000000003'', None, Some ''failed_refunded''),
      (''233000000004'', Some ''failed_wrong_pin'', None)]"

definition normalizeFixtureNumber :: "string \<Rightarrow> string" where
  "normalizeFixtureNumber value =
     (let digits = filter is_digit value
      in if length digits = 12 \<and> take 9 digits = replicate 9 (CHR ''0'') then ''233'' @ drop 3 digits else digits)"

text \<open>What the payer pays and the recipient gets, in pesewas.\<close>

definition applyFee :: "int \<Rightarrow> int \<Rightarrow> fee_bearer \<Rightarrow> int \<times> int" where
  "applyFee amountPesewas feePesewas bearer =
     (case bearer of
        Initiator \<Rightarrow> (amountPesewas + feePesewas, amountPesewas)
      | Non_initiator \<Rightarrow> (amountPesewas, amountPesewas - feePesewas))"

section \<open>Webhooks\<close>

definition WEBHOOK_TOLERANCE_SECONDS :: int where
  "WEBHOOK_TOLERANCE_SECONDS = 300"

text \<open>The argument \<open>mac\<close> is the base64 text of the keyed digest of a text.\<close>

definition signWebhook :: "(string \<Rightarrow> string \<Rightarrow> string) \<Rightarrow> string \<Rightarrow> string \<Rightarrow> string \<Rightarrow> string \<Rightarrow> string" where
  "signWebhook mac secret i timestamp rawBody = ''v1,'' @ mac secret (i @ ''.'' @ timestamp @ ''.'' @ rawBody)"

datatype webhook_verdict = Accepted | Refused string

definition missing :: "string option \<Rightarrow> bool" where
  "missing s \<longleftrightarrow> s = None \<or> s = Some []"

definition verifyWebhook ::
  "(string \<Rightarrow> string \<Rightarrow> string) \<Rightarrow> string \<Rightarrow> string option \<Rightarrow> string option \<Rightarrow> string option \<Rightarrow> string \<Rightarrow> int \<Rightarrow> webhook_verdict" where
  "verifyWebhook mac secret i timestamp signature rawBody now =
     (if missing i \<or> missing timestamp \<or> missing signature then Refused ''missing headers''
      else case Number (the timestamp) of
             Some ts \<Rightarrow>
               if of_int WEBHOOK_TOLERANCE_SECONDS < \<bar>fl (of_int now - ts)\<bar> then Refused ''timestamp outside tolerance''
               else if list_ex (\<lambda>candidate. candidate = signWebhook mac secret (the i) (the timestamp) rawBody) (split_on (CHR '' '') (the signature))
                    then Accepted else Refused ''signature mismatch''
           | None \<Rightarrow> Refused ''bad timestamp'')"

section \<open>Signed webhooks are verified\<close>

text \<open>C17. What base64 promises of the digest's text is that it has no space. A webhook signed for a time
  within the tolerance is accepted, also when the header carries other signatures around it; one outside of
  the tolerance is refused whatever its signature; and so is one whose body has another digest.\<close>

theorem webhook_round_trip:
  assumes "\<And>k t. CHR '' '' \<notin> set (mac k t)" and "i \<noteq> []" and "\<bar>now - int n\<bar> < 2 ^ 53" and "n < 2 ^ 53"
  shows "(\<bar>now - int n\<bar> \<le> 300 \<longrightarrow>
      verifyWebhook mac secret (Some i) (Some (show_nat n)) (Some (before @ '' '' @ signWebhook mac secret i (show_nat n) raw @ '' '' @ after)) raw now = Accepted \<and>
      verifyWebhook mac secret (Some i) (Some (show_nat n)) (Some (signWebhook mac secret i (show_nat n) raw)) raw now = Accepted \<and>
      (mac secret (i @ ''.'' @ show_nat n @ ''.'' @ raw') \<noteq> mac secret (i @ ''.'' @ show_nat n @ ''.'' @ raw) \<longrightarrow>
        verifyWebhook mac secret (Some i) (Some (show_nat n)) (Some (signWebhook mac secret i (show_nat n) raw)) raw' now = Refused ''signature mismatch'')) \<and>
    (300 < \<bar>now - int n\<bar> \<longrightarrow> sg \<noteq> [] \<longrightarrow>
      verifyWebhook mac secret (Some i) (Some (show_nat n)) (Some sg) raw now = Refused ''timestamp outside tolerance'')"
proof -
  have num: "Number (show_nat n) = Some (of_nat n)" using Number_show_nat assms(4) by blast
  have "fl (of_int (now - int n)) = of_int (now - int n)" using assms(3) by (rule fl_of_int)
  then have fl: "fl (of_int now - of_nat n) = of_int (now - int n)" by simp
  have late: "(of_int WEBHOOK_TOLERANCE_SECONDS < \<bar>fl (of_int now - rat_of_nat n)\<bar>) = (300 < \<bar>now - int n\<bar>)"
    unfolding fl WEBHOOK_TOLERANCE_SECONDS_def by (metis of_int_abs of_int_less_iff)
  have sig: "CHR '' '' \<notin> set (signWebhook mac secret i t b)" "signWebhook mac secret i t b \<noteq> []" for t b using assms(1) by (simp_all add: signWebhook_def)
  have one: "split_on (CHR '' '') (signWebhook mac secret i t b) = [signWebhook mac secret i t b]" for t b using sig(1) by (rule split_on_single)
  have part: "x \<in> set (tl (split_on (CHR '' '') (u @ CHR '' '' # x @ CHR '' '' # v)))" if "CHR '' '' \<notin> set x" for u v x
    using that by (induction u) (auto simp: split_on_append split: list.splits dest: list.set_sel(2) [rotated])
  have rot: "list_ex (\<lambda>c. c = signWebhook mac secret i t b) (split_on (CHR '' '') (before @ '' '' @ signWebhook mac secret i t b @ '' '' @ after))" for t b
    using list.set_sel(2) [OF split_on_nonempty part [OF sig(1) [of t b], of before after]] by (simp add: list_ex_iff)
  show ?thesis using assms(2) sig(2) rot [of "show_nat n" raw] num
    by (simp add: verifyWebhook_def missing_def late one) (simp add: signWebhook_def)
qed

theorem webhook_round_trip_witness:
  "verifyWebhook (\<lambda>k t. ''m'') ''s'' (Some ''evt_1'') (Some (show_nat 1700000000)) (Some (signWebhook (\<lambda>k t. ''m'') ''s'' ''evt_1'' (show_nat 1700000000) ''{}'')) ''{}'' 1700000100 = Accepted"
  using webhook_round_trip [of "\<lambda>k t. ''m''" "''evt_1''" 1700000100 1700000000 "''s''" "[]" "''{}''" "[]"] by simp

end
