(* ===== verification/Simulator.thy ===== *)
theory Simulator
  imports Pay_Contract "HOL-Library.AList" "HOL-Library.Word"
begin

text \<open>
  \<^verbatim>\<open>src/loadtest/simulator/simulator.ts\<close>: the in-memory payment provider the load tests run against,
  with its wallets, ledger, idempotency store, delayed status changes and webhooks, and the request
  handler of \<^verbatim>\<open>src/loadtest/simulator/app.ts\<close>.

  A \<open>Map\<close> is an association list in insertion order. Payments are objects shared by the map and the
  closures of timers, so they live in a store (\<open>objs\<close>) and the map and the timers hold their
  identifiers. A timer is a value of \<open>timer\<close>: the closure's action and when it is due. Amounts are
  whole pesewas, far below the precision of a double. What is not in the repository is an argument
  (\<open>sim_lib\<close>): the digests, the text of dates, the order \<open>localeCompare\<close>, the messages of the schema library,
  the URL parser and random bytes. A handler runs to completion before another one starts, as the event loop
  has it, except at the deliberate pause of the \<open>raceBug\<close> setting, which splits \<open>debit\<close> in two.
\<close>

unbundle bit_operations_syntax

section \<open>Configuration\<close>

record weak_flags =
  bola :: bool
  acceptAnyToken :: bool
  verboseErrors :: bool
  leakFields :: bool
  massAssignment :: bool
  ignorePermissions :: bool
  acceptAnyUrl :: bool
  openTokenEndpoint :: bool
  tokensNeverExpire :: bool
  noRateLimit :: bool
  ignoreLimits :: bool
  numberAmounts :: bool
  crashOnQuote :: bool

record sim_config =
  seed :: int
  openingBalance :: string
  resolveDelayMs :: nat
  tokenTtlSeconds :: nat
  feeRate :: rat
  feeBearer :: fee_bearer
  otherSucceed :: bool
  payoutReviewThreshold :: "string option"
  checkoutEnabled :: bool
  limitPerTransaction :: string
  limitDaily :: string
  baseMs :: rat
  jitterMs :: rat
  tailProbability :: rat
  tailMs :: rat
  errorRate :: rat
  timeoutRate :: rat
  ambiguousTimeoutRate :: rat
  timeoutMs :: nat
  rateLimitEnabled :: bool
  rateLimitRps :: rat
  idempotencyBroken :: bool
  raceBug :: bool
  hookUrl :: "string option"
  hookSecret :: string
  duplicateRate :: rat
  outOfOrder :: bool
  hookAttempts :: nat
  hookBaseDelayMs :: nat
  authStrict :: bool
  authClients :: "(string \<times> string) list"
  permissions :: "(string \<times> string list) list"
  weak :: weak_flags

section \<open>Payments, wallets and the ledger\<close>

datatype kind = Collection | Payout | Utility_purchase | Transfer

datatype settlement_status = Not_eligible | Eligible | Claimed | Settled

record tx =
  x_id :: string
  x_reference :: string
  x_kind :: kind
  x_credential :: string
  x_amount :: int
  x_fee :: int
  x_feeBearer :: fee_bearer
  x_status :: string
  x_provider :: "string option"
  x_party :: string
  x_note :: "string option"
  x_failureReason :: "string option"
  x_settlementStatus :: "settlement_status option"
  x_createdAt :: int
  x_completedAt :: "int option"
  x_bodyHash :: string
  x_extra :: "(string \<times> json \<times> json) option"

record wallet =
  w_balance :: int
  w_reserved :: int
  w_opening :: int
  w_createdAt :: int

record ledger_entry =
  l_seq :: nat
  l_wallet :: string
  l_delta :: int
  l_ref :: string
  l_kind :: string

record reply =
  rp_status :: int
  rp_body :: json

record idem_entry =
  ie_hash :: string
  ie_reply :: "reply option"

record envelope =
  e_id :: string
  e_type :: string
  e_createdAt :: int
  e_data :: json

record settlement_run =
  sr_id :: string
  sr_reference :: string
  sr_itemCount :: nat
  sr_total :: int
  sr_startedAt :: int
  sr_cred :: string

record checkout =
  ck_id :: string
  ck_reference :: string
  ck_amount :: string
  ck_currency :: string
  ck_description :: "string option"
  ck_open :: bool
  ck_createdAt :: int
  ck_cred :: string

datatype action =
    Collection_dispatched string
  | Collection_resolved string string int string
  | Payout_in_review string
  | Payout_dispatching string
  | Payout_resolved string string int bool nat
  | Payout_refunded string string int
  | Utility_progress string bool
  | Utility_resolved string string int bool nat
  | Utility_refunded string string int
  | Deliver string envelope nat

record timer =
  tm_epoch :: nat
  tm_due :: rat
  tm_action :: action

record sim_counters =
  n_requests :: nat
  n_rateLimited :: nat
  n_injectedErrors :: nat
  n_injectedTimeouts :: nat
  n_ambiguousTimeouts :: nat
  n_tokensIssued :: nat
  n_tokenExpiries :: nat
  n_webhooksSent :: nat
  n_webhooksFailed :: nat
  n_webhooksRetried :: nat
  n_utilityDeliveries :: nat

record sim =
  cfg :: sim_config
  rnd :: "32 word"
  epoch :: nat
  seqno :: nat
  drawn :: nat
  wallets :: "(string \<times> wallet) list"
  objs :: "tx list"
  txs :: "(string \<times> string) list"
  ledger :: "ledger_entry list"
  events :: "(string \<times> envelope) list"
  tokens :: "(string \<times> string \<times> int) list"
  buckets :: "(string \<times> rat \<times> int) list"
  idem :: "(string \<times> idem_entry) list"
  effects :: "(string \<times> nat) list"
  checkouts :: "(string \<times> checkout) list"
  batches :: "(string \<times> string \<times> reply) list"
  settlementRuns :: "settlement_run list"
  policy :: "(json \<times> string \<times> nat) option"
  dailyIn :: "(string \<times> int) list"
  dailyOut :: "(string \<times> int) list"
  timers :: "timer list"
  stats :: sim_counters

text \<open>\<open>iso\<close> is \<open>toISOString\<close>, \<open>locale_le\<close> that \<open>localeCompare\<close> is not positive, \<open>schema_message\<close>
  the text of the first issue of a refused body, \<open>random_hex n\<close> the n-th draw of random bytes.\<close>

record sim_lib =
  iso :: "int \<Rightarrow> string"
  sha256 :: "string \<Rightarrow> string"
  number_notation :: "rat \<Rightarrow> string"
  locale_le :: "string \<Rightarrow> string \<Rightarrow> bool"
  schema_message :: "json \<Rightarrow> string"
  random_hex :: "nat \<Rightarrow> string"
  url_parts :: "string \<Rightarrow> (string \<times> string) option"
  hook_mac :: "string \<Rightarrow> string \<Rightarrow> string"

section \<open>Errors\<close>

text \<open>\<open>Sim_error\<close> has the code, the message, the HTTP status and the headers; \<open>Crash\<close> is any other exception.\<close>

datatype sim_error = Sim_error string string int "(string \<times> string) list" | Crash string

definition sim_err :: "string \<Rightarrow> string \<Rightarrow> sim_error" where
  "sim_err code message = Sim_error code message (case map_of ERROR_HTTP code of Some n \<Rightarrow> n | None \<Rightarrow> 500) []"

definition error_json :: "string \<Rightarrow> string \<Rightarrow> json" where
  "error_json code message = Jobj [(''error'', Jobj [(''code'', Jstr code), (''message'', Jstr message)])]"

section \<open>Random numbers\<close>

definition mulberry32 :: "32 word \<Rightarrow> rat \<times> 32 word" where
  "mulberry32 a0 =
     (let a = a0 + 0x6d2b79f5; t = (a XOR drop_bit 15 a) * (1 OR a);
          t' = (t + (t XOR drop_bit 7 t) * (61 OR t)) XOR t
      in (of_nat (unat (t' XOR drop_bit 14 t')) / 4294967296, a))"

definition rand :: "sim \<Rightarrow> rat \<times> sim" where
  "rand s = (case mulberry32 (rnd s) of (r, a) \<Rightarrow> (r, s\<lparr>rnd := a\<rparr>))"

section \<open>Amounts\<close>

definition parseAmount :: "string \<Rightarrow> int option" where
  "parseAmount s =
     (if \<not> AMOUNT_RE s \<or> 14 < length s then None
      else let n = int (nat_of_digits (take (length s - 3) s) 0) * 100 + int (nat_of_digits (drop (length s - 2) s) 0)
           in if 0 < n then Some n else None)"

definition two_digits :: "nat \<Rightarrow> string" where
  "two_digits n = [char_of (48 + n div 10), char_of (48 + n mod 10)]"

definition fmt :: "int \<Rightarrow> string" where
  "fmt p = (if p < 0 then ''-'' else []) @ show_nat (nat \<bar>p\<bar> div 100) @ ''.'' @ two_digits (nat \<bar>p\<bar> mod 100)"

definition padStart :: "nat \<Rightarrow> string \<Rightarrow> string" where
  "padStart n s = replicate (n - length s) (CHR ''0'') @ s"

section \<open>The digest of a body\<close>

fun insert_entry :: "(string \<Rightarrow> string \<Rightarrow> bool) \<Rightarrow> string \<times> json \<Rightarrow> (string \<times> json) list \<Rightarrow> (string \<times> json) list" where
  "insert_entry le x [] = [x]"
| "insert_entry le x (y # ys) = (if le (fst x) (fst y) then x # y # ys else y # insert_entry le x ys)"

primrec sort_members :: "(string \<Rightarrow> string \<Rightarrow> bool) \<Rightarrow> json \<Rightarrow> json" where
  "sort_members le Jnull = Jnull"
| "sort_members le (Jbool b) = Jbool b"
| "sort_members le (Jnum n) = Jnum n"
| "sort_members le (Jstr s) = Jstr s"
| "sort_members le (Jarr xs) = Jarr (map (sort_members le) xs)"
| "sort_members le (Jobj kvs) = Jobj (foldr (insert_entry le) (map (map_prod id (sort_members le)) kvs) [])"

definition canon :: "sim_lib \<Rightarrow> json \<Rightarrow> string" where
  "canon L v = stringify (number_notation L) (sort_members (locale_le L) v)"

definition hashOf :: "sim_lib \<Rightarrow> json \<Rightarrow> string" where
  "hashOf L v = sha256 L (canon L v)"

section \<open>Products, permissions and addresses\<close>

record product =
  pr_id :: string
  pr_category :: string
  pr_network :: string
  pr_name :: string
  pr_min :: string
  pr_max :: string

definition PRODUCTS :: "product list" where
  "PRODUCTS =
     [\<lparr>pr_id = ''airtime-mtn'', pr_category = ''airtime'', pr_network = ''mtn'', pr_name = ''MTN Airtime'', pr_min = ''1.00'', pr_max = ''500.00''\<rparr>,
      \<lparr>pr_id = ''airtime-telecel'', pr_category = ''airtime'', pr_network = ''telecel'', pr_name = ''Telecel Airtime'', pr_min = ''1.00'', pr_max = ''500.00''\<rparr>,
      \<lparr>pr_id = ''tv-dstv'', pr_category = ''utility'', pr_network = ''dstv'', pr_name = ''DStv'', pr_min = ''1.00'', pr_max = ''1000.00''\<rparr>]"

definition needed_permission :: "string \<Rightarrow> string \<Rightarrow> string option" where
  "needed_permission verb path =
     (if verb = ''POST'' \<and> path = ''/collections'' then Some ''collections.write''
      else if verb = ''POST'' \<and> take 10 path = ''/checkouts'' then Some ''collections.write''
      else if verb = ''POST'' \<and> path \<in> {''/payouts'', ''/payout-batches'', ''/utility-purchases''} then Some ''disbursements.write''
      else if verb = ''POST'' \<and> path = ''/transfers'' then Some ''wallettransfer.write''
      else if verb = ''GET'' \<and> path \<in> {''/wallet'', ''/limits'', ''/transactions''} then Some ''transactions.read''
      else None)"

definition ends_in :: "string \<Rightarrow> string \<Rightarrow> bool" where
  "ends_in s suffix \<longleftrightarrow> length suffix \<le> length s \<and> drop (length s - length suffix) s = suffix"

definition unbracket :: "string \<Rightarrow> string" where
  "unbracket s = (let r = (if take 1 s = ''['' then drop 1 s else s) in if ends_in r '']'' then butlast r else r)"

definition private_v4 :: "string \<Rightarrow> bool" where
  "private_v4 h =
     (case split_on (CHR ''.'') h of
        [a, b, c, d] \<Rightarrow>
          list_all (\<lambda>p. p \<noteq> [] \<and> list_all is_digit p) [a, b, c, d] \<and>
          (let x = nat_of_digits a 0; y = nat_of_digits b 0
           in x = 10 \<or> x = 127 \<or> x = 0 \<or> (x = 169 \<and> y = 254) \<or> (x = 192 \<and> y = 168) \<or> (x = 172 \<and> 16 \<le> y \<and> y \<le> 31))
      | _ \<Rightarrow> False)"

definition isPublicHttpUrl :: "sim_lib \<Rightarrow> json \<Rightarrow> bool" where
  "isPublicHttpUrl L v =
     (case v of
        Jstr u \<Rightarrow>
          if 2048 < js_length u then False
          else (case url_parts L u of
                  None \<Rightarrow> False
                | Some (protocol, hostname) \<Rightarrow>
                    let h = unbracket (toLowerCase hostname)
                    in (protocol = ''https:'' \<or> protocol = ''http:'') \<and>
                       \<not> (h = ''localhost'' \<or> ends_in h ''.local'' \<or> ends_in h ''.internal'' \<or> h = ''::1'') \<and> \<not> private_v4 h)
      | _ \<Rightarrow> False)"

definition KNOWN_HANDLES :: "string list" where
  "KNOWN_HANDLES = [''demo-merchant'', ''acme-store'']"

section \<open>Reset, faults and rate limits\<close>

definition zero_counters :: sim_counters where
  "zero_counters = \<lparr>n_requests = 0, n_rateLimited = 0, n_injectedErrors = 0, n_injectedTimeouts = 0, n_ambiguousTimeouts = 0,
     n_tokensIssued = 0, n_tokenExpiries = 0, n_webhooksSent = 0, n_webhooksFailed = 0, n_webhooksRetried = 0, n_utilityDeliveries = 0\<rparr>"

definition new_simulator :: "sim_config \<Rightarrow> sim" where
  "new_simulator c =
     \<lparr>cfg = c, rnd = word_of_int (seed c), epoch = 0, seqno = 0, drawn = 0, wallets = [], objs = [], txs = [], ledger = [], events = [],
      tokens = [], buckets = [], idem = [], effects = [], checkouts = [], batches = [], settlementRuns = [], policy = None,
      dailyIn = [], dailyOut = [], timers = [], stats = zero_counters\<rparr>"

text \<open>Timers that were set before a reset stay queued, but belong to an earlier epoch.\<close>

definition reset :: "sim_config \<Rightarrow> sim \<Rightarrow> sim" where
  "reset c s = (new_simulator c)\<lparr>epoch := Suc (epoch s), drawn := drawn s, timers := timers s\<rparr>"

text \<open>The argument is the validated result of merging the patch into the configuration.\<close>

definition patchConfig :: "sim_config \<Rightarrow> sim \<Rightarrow> sim" where
  "patchConfig c s = s\<lparr>cfg := c\<rparr>"

definition count :: "(sim_counters \<Rightarrow> sim_counters) \<Rightarrow> sim \<Rightarrow> sim" where
  "count f s = s\<lparr>stats := f (stats s)\<rparr>"

text \<open>A draw that is only made when the probability is positive.\<close>

definition chance :: "rat \<Rightarrow> sim \<Rightarrow> bool \<times> sim" where
  "chance p s = (if 0 < p then (case rand s of (r, s1) \<Rightarrow> (r < p, s1)) else (False, s))"

definition injected_error :: "sim \<Rightarrow> sim_error \<times> sim" where
  "injected_error s =
     (case rand s of
        (r, s1) \<Rightarrow>
          (sim_err ([''internal'', ''provider_error'', ''environment_unknown''] ! nat \<lfloor>r * 3\<rfloor>)
             (if verboseErrors (weak (cfg s1)) then ''ECONNRESET at ledger-db.internal:5432 (pool exhausted) at /srv/app/ledger.js:88''
              else ''internal server error''), s1))"

definition applyFaults :: "sim \<Rightarrow> sim_error option \<times> sim" where
  "applyFaults s0 =
     (let s = count (\<lambda>n. n\<lparr>n_requests := Suc (n_requests n)\<rparr>) s0; c = cfg s; s1 = snd (rand s); s2 = snd (chance (tailProbability c) s1)
      in case chance (timeoutRate c) s2 of
           (True, s3) \<Rightarrow> (Some (sim_err ''upstream_timeout'' ''internal server error''), count (\<lambda>n. n\<lparr>n_injectedTimeouts := Suc (n_injectedTimeouts n)\<rparr>) s3)
         | (False, s3) \<Rightarrow>
             (case chance (errorRate c) s3 of
                (True, s4) \<Rightarrow> (case injected_error (count (\<lambda>n. n\<lparr>n_injectedErrors := Suc (n_injectedErrors n)\<rparr>) s4) of (err, s5) \<Rightarrow> (Some err, s5))
              | (False, s4) \<Rightarrow> (None, s4)))"

definition shouldAmbiguousTimeout :: "sim \<Rightarrow> bool \<times> sim" where
  "shouldAmbiguousTimeout s =
     (case chance (ambiguousTimeoutRate (cfg s)) s of
        (hit, s1) \<Rightarrow> (hit, if hit then count (\<lambda>n. n\<lparr>n_ambiguousTimeouts := Suc (n_ambiguousTimeouts n)\<rparr>) s1 else s1))"

definition takeRateToken :: "int \<Rightarrow> string \<Rightarrow> sim \<Rightarrow> sim_error option \<times> sim" where
  "takeRateToken now key s =
     (let rps = rateLimitRps (cfg s)
      in if \<not> rateLimitEnabled (cfg s) \<or> noRateLimit (weak (cfg s)) then (None, s)
         else let (tk, since) = (case map_of (buckets s) key of Some b \<Rightarrow> b | None \<Rightarrow> (rps, now));
                  t = min rps (fl (tk + fl (fl (of_int (now - since) / 1000) * rps)))
              in if t < 1
                 then (Some (Sim_error ''rate_limited'' ''rate limit exceeded'' 429
                               [(''Retry-After'', show_int (max 1 \<lceil>fl (fl (1 - t) / rps)\<rceil>))]),
                       count (\<lambda>n. n\<lparr>n_rateLimited := Suc (n_rateLimited n)\<rparr>) (s\<lparr>buckets := AList.update key (t, now) (buckets s)\<rparr>))
                 else (None, s\<lparr>buckets := AList.update key (fl (t - 1), now) (buckets s)\<rparr>))"

section \<open>Wallets and the ledger\<close>

definition ensureWallet :: "int \<Rightarrow> string \<Rightarrow> sim \<Rightarrow> sim" where
  "ensureWallet now i s =
     (if map_of (wallets s) i = None
      then let opening = (case parseAmount (openingBalance (cfg s)) of Some n \<Rightarrow> n | None \<Rightarrow> 0)
           in s\<lparr>wallets := AList.update i \<lparr>w_balance = opening, w_reserved = 0, w_opening = opening, w_createdAt = now\<rparr> (wallets s)\<rparr>
      else s)"

definition upd_wallet :: "string \<Rightarrow> (wallet \<Rightarrow> wallet) \<Rightarrow> sim \<Rightarrow> sim" where
  "upd_wallet i f s = s\<lparr>wallets := AList.map_entry i f (wallets s)\<rparr>"

definition balance_of :: "string \<Rightarrow> sim \<Rightarrow> int" where
  "balance_of i s = (case map_of (wallets s) i of Some w \<Rightarrow> w_balance w | None \<Rightarrow> 0)"

definition post :: "string \<Rightarrow> int \<Rightarrow> string \<Rightarrow> string \<Rightarrow> sim \<Rightarrow> sim" where
  "post w delta ref k s =
     s\<lparr>seqno := Suc (seqno s), ledger := ledger s @ [\<lparr>l_seq = Suc (seqno s), l_wallet = w, l_delta = delta, l_ref = ref, l_kind = k\<rparr>]\<rparr>"

text \<open>The balance \<open>seen\<close> is what the \<open>raceBug\<close> branch read before its pause.\<close>

definition insufficient :: sim_error where
  "insufficient = Sim_error ''insufficient_funds'' ''insufficient wallet balance'' 422 []"

definition debit :: "int \<Rightarrow> int \<Rightarrow> string \<Rightarrow> int \<Rightarrow> string \<Rightarrow> string \<Rightarrow> bool \<Rightarrow> sim \<Rightarrow> sim_error option \<times> sim" where
  "debit now seen cred amount ref k reserve s0 =
     (let s = ensureWallet now cred s0; old = (if raceBug (cfg s) then seen else balance_of cred s)
      in if old < amount then (Some insufficient, s)
         else (None, post cred (- amount) ref k
                 (upd_wallet cred (\<lambda>w. w\<lparr>w_balance := old - amount, w_reserved := w_reserved w + (if reserve then amount else 0)\<rparr>) s)))"

definition credit :: "int \<Rightarrow> string \<Rightarrow> int \<Rightarrow> string \<Rightarrow> string \<Rightarrow> sim \<Rightarrow> sim" where
  "credit now cred amount ref k s =
     post cred amount ref k (upd_wallet cred (\<lambda>w. w\<lparr>w_balance := w_balance w + amount\<rparr>) (ensureWallet now cred s))"

definition release_reserved :: "string \<Rightarrow> int \<Rightarrow> sim \<Rightarrow> sim" where
  "release_reserved cred amount = upd_wallet cred (\<lambda>w. w\<lparr>w_reserved := w_reserved w - amount\<rparr>)"

definition volume :: "(string \<times> int) list \<Rightarrow> string \<Rightarrow> int" where
  "volume book cred = (case map_of book cred of Some n \<Rightarrow> n | None \<Rightarrow> 0)"

definition checkLimits :: "string \<Rightarrow> int \<Rightarrow> bool \<Rightarrow> sim \<Rightarrow> sim_error option" where
  "checkLimits cred amount inward s =
     (if ignoreLimits (weak (cfg s)) then None
      else if (case parseAmount (limitPerTransaction (cfg s)) of Some per \<Rightarrow> per < amount | None \<Rightarrow> False)
      then Some (sim_err ''transaction_limit_exceeded'' ''amount is over the per-payment limit'')
      else if (case parseAmount (limitDaily (cfg s)) of Some daily \<Rightarrow> daily < volume (if inward then dailyIn s else dailyOut s) cred + amount | None \<Rightarrow> False)
      then Some (sim_err ''daily_limit_exceeded'' ''today's limit reached'')
      else None)"

definition noteVolume :: "string \<Rightarrow> int \<Rightarrow> bool \<Rightarrow> sim \<Rightarrow> sim" where
  "noteVolume cred amount inward s =
     (if inward then s\<lparr>dailyIn := AList.update cred (volume (dailyIn s) cred + amount) (dailyIn s)\<rparr>
      else s\<lparr>dailyOut := AList.update cred (volume (dailyOut s) cred + amount) (dailyOut s)\<rparr>)"

section \<open>Access\<close>

definition issueToken :: "sim_lib \<Rightarrow> int \<Rightarrow> json \<Rightarrow> sim \<Rightarrow> (sim_error + string \<times> nat) \<times> sim" where
  "issueToken L now form s =
     (case TokenFormSchema form of
        None \<Rightarrow> (Inl (sim_err ''invalid_input'' ''grant_type=client_credentials, client_id, client_secret and resource=ismartpay are required''), s)
      | Some (client, secret) \<Rightarrow>
          if take 5 client = ''live_'' then (Inl (sim_err ''environment_mismatch'' ''key belongs to the live environment''), s)
          else if authStrict (cfg s) \<and> \<not> openTokenEndpoint (weak (cfg s)) \<and> map_of (authClients (cfg s)) client \<noteq> Some secret
          then (Inl (sim_err ''unauthenticated'' ''invalid client credentials''), s)
          else let token = ''sim_'' @ random_hex L (drawn s); ttl = tokenTtlSeconds (cfg s)
               in (Inr (token, ttl),
                   ensureWallet now client
                     (count (\<lambda>n. n\<lparr>n_tokensIssued := Suc (n_tokensIssued n)\<rparr>)
                        (s\<lparr>drawn := Suc (drawn s), tokens := AList.update token (client, now + int ttl * 1000) (tokens s)\<rparr>))))"

definition sim_authenticate :: "int \<Rightarrow> string option \<Rightarrow> sim \<Rightarrow> (sim_error + string) \<times> sim" where
  "sim_authenticate now header s =
     (let token = (case header of Some h \<Rightarrow> if take 7 h = ''Bearer '' then drop 7 h else [] | None \<Rightarrow> [])
      in if token = [] then (Inl (sim_err ''unauthenticated'' ''token missing''), s)
         else case map_of (tokens s) token of
                Some (cred, until) \<Rightarrow>
                  if \<not> tokensNeverExpire (weak (cfg s)) \<and> until \<le> now
                  then (Inl (sim_err ''unauthenticated'' ''token expired''), count (\<lambda>n. n\<lparr>n_tokenExpiries := Suc (n_tokenExpiries n)\<rparr>) s)
                  else (Inr cred, s)
              | None \<Rightarrow>
                  if acceptAnyToken (weak (cfg s)) then (Inr ''anonymous'', ensureWallet now ''anonymous'' s)
                  else (Inl (sim_err ''unauthenticated'' ''token invalid''), s))"

definition assertPermission :: "string \<Rightarrow> string \<Rightarrow> string \<Rightarrow> sim \<Rightarrow> sim_error option" where
  "assertPermission cred verb path s =
     (if ignorePermissions (weak (cfg s)) then None
      else case map_of (permissions (cfg s)) cred of
             None \<Rightarrow> None
           | Some granted \<Rightarrow>
               (case needed_permission verb path of
                  Some need \<Rightarrow> if need \<in> set granted then None else Some (sim_err ''forbidden'' ''the credential lacks the required permission'')
                | None \<Rightarrow> None))"

definition key_required :: string where
  "key_required = ''Idempotency-Key header is required (1'' @ [CHR 0xE2, CHR 0x80, CHR 0x93] @ ''255 characters)''"

text \<open>The same key and body replays the first reply; what ran into a server error is forgotten.\<close>

definition idempotent ::
  "sim_lib \<Rightarrow> string \<Rightarrow> string option \<Rightarrow> json \<Rightarrow> (sim \<Rightarrow> (sim_error + reply) \<times> sim) \<Rightarrow> sim \<Rightarrow> (sim_error + reply) \<times> sim" where
  "idempotent L cred key body run s =
     (case key of
        None \<Rightarrow> (Inl (sim_err ''invalid_input'' key_required), s)
      | Some ky \<Rightarrow>
          if ky = [] \<or> IDEMPOTENCY_KEY_MAX < js_length ky
          then (Inl (sim_err ''invalid_input'' key_required), s)
          else if idempotencyBroken (cfg s) then run s
          else let k = cred @ '':'' @ ky; hash = hashOf L body
               in case map_of (idem s) k of
                    Some hit \<Rightarrow>
                      if ie_hash hit \<noteq> hash then (Inl (sim_err ''idempotency_key_reused'' ''key was used with a different body''), s)
                      else (case ie_reply hit of
                              None \<Rightarrow> (Inl (sim_err ''request_in_flight'' ''a request with this key is still running''), s)
                            | Some r \<Rightarrow> (Inr r, s))
                  | None \<Rightarrow>
                      (case run (s\<lparr>idem := AList.update k \<lparr>ie_hash = hash, ie_reply = None\<rparr> (idem s)\<rparr>) of
                         (Inr r, s1) \<Rightarrow> (Inr r, s1\<lparr>idem := AList.update k \<lparr>ie_hash = hash, ie_reply = Some r\<rparr> (idem s1)\<rparr>)
                       | (Inl err, s1) \<Rightarrow>
                           (Inl err,
                            case err of
                              Sim_error code message status hs \<Rightarrow>
                                if status < 500
                                then s1\<lparr>idem := AList.update k \<lparr>ie_hash = hash, ie_reply = Some \<lparr>rp_status = status, rp_body = error_json code message\<rparr>\<rparr> (idem s1)\<rparr>
                                else s1\<lparr>idem := AList.delete k (idem s1)\<rparr>
                            | Crash _ \<Rightarrow> s1\<lparr>idem := AList.delete k (idem s1)\<rparr>)))"

section \<open>Shared plumbing\<close>

definition sim_parse :: "sim_lib \<Rightarrow> (json \<Rightarrow> 'a option) \<Rightarrow> json \<Rightarrow> sim_error + 'a" where
  "sim_parse L schema body = (case schema body of Some r \<Rightarrow> Inr r | None \<Rightarrow> Inl (sim_err ''invalid_input'' (schema_message L body)))"

definition provider_refused :: "string \<Rightarrow> sim_error option" where
  "provider_refused p =
     (if p \<in> set PROVIDERS then None else Some (sim_err ''invalid_input'' (''provider must be one of '' @ join_names PROVIDERS)))"

definition fee :: "int \<Rightarrow> sim \<Rightarrow> int" where
  "fee amount s = max 10 (Math_round (fl (of_int amount * feeRate (cfg s))))"

definition amountOf :: "string \<Rightarrow> sim_error + int" where
  "amountOf s =
     (case parseAmount s of
        Some n \<Rightarrow> Inr n
      | None \<Rightarrow> Inl (sim_err ''invalid_input'' (''amount must be a positive decimal string like '' @ dquote @ ''120.00'' @ dquote)))"

fun show_kind :: "kind \<Rightarrow> string" where
  "show_kind Collection = ''collection''"
| "show_kind Payout = ''payout''"
| "show_kind Utility_purchase = ''utility_purchase''"
| "show_kind Transfer = ''transfer''"

definition tx_key :: "kind \<Rightarrow> string \<Rightarrow> string \<Rightarrow> string" where
  "tx_key k cred reference = show_kind k @ '':'' @ cred @ '':'' @ reference"

definition tx_at :: "string \<Rightarrow> sim \<Rightarrow> tx option" where
  "tx_at key s = Option.bind (map_of (txs s) key) (\<lambda>i. find (\<lambda>x. x_id x = i) (objs s))"

definition existing :: "kind \<Rightarrow> string \<Rightarrow> string \<Rightarrow> string \<Rightarrow> sim \<Rightarrow> sim_error + tx option" where
  "existing k cred reference hash s =
     (if idempotencyBroken (cfg s) then Inr None
      else case tx_at (tx_key k cred reference) s of
             None \<Rightarrow> Inr None
           | Some x \<Rightarrow> if x_bodyHash x \<noteq> hash then Inl (sim_err ''duplicate_reference'' ''reference already belongs to a different payment'')
                       else Inr (Some x))"

definition bump_effect :: "string \<Rightarrow> (string \<times> nat) list \<Rightarrow> (string \<times> nat) list" where
  "bump_effect base es = AList.update base (Suc (case map_of es base of Some n \<Rightarrow> n | None \<Rightarrow> 0)) es"

definition register :: "tx \<Rightarrow> sim \<Rightarrow> sim" where
  "register x s =
     (let base = tx_key (x_kind x) (x_credential x) (x_reference x)
      in if idempotencyBroken (cfg s)
         then s\<lparr>seqno := Suc (seqno s), objs := objs s @ [x], txs := AList.update (base @ ''#'' @ show_nat (Suc (seqno s))) (x_id x) (txs s),
                effects := bump_effect base (effects s)\<rparr>
         else s\<lparr>objs := objs s @ [x], txs := AList.update base (x_id x) (txs s), effects := bump_effect base (effects s)\<rparr>)"

definition newTx ::
  "int \<Rightarrow> kind \<Rightarrow> string \<Rightarrow> string \<Rightarrow> int \<Rightarrow> int \<Rightarrow> string option \<Rightarrow> string \<Rightarrow> string \<Rightarrow> string option \<Rightarrow> sim \<Rightarrow> tx \<times> sim" where
  "newTx now k cred reference amount f provider party hash nt s =
     (\<lparr>x_id = ''tx_'' @ padStart 8 (show_nat (Suc (seqno s))), x_reference = reference, x_kind = k, x_credential = cred, x_amount = amount,
       x_fee = f, x_feeBearer = feeBearer (cfg s), x_status = (if k = Transfer then ''pending'' else ''accepted''), x_provider = provider,
       x_party = party, x_note = (if nt = Some [] then None else nt), x_failureReason = None, x_settlementStatus = None, x_createdAt = now,
       x_completedAt = None, x_bodyHash = hash, x_extra = None\<rparr>,
      s\<lparr>seqno := Suc (seqno s)\<rparr>)"

section \<open>Views\<close>

definition opt_member :: "string \<Rightarrow> string option \<Rightarrow> (string \<times> json) list" where
  "opt_member k v = (case v of None \<Rightarrow> [] | Some x \<Rightarrow> [(k, Jstr x)])"

fun show_bearer :: "fee_bearer \<Rightarrow> string" where
  "show_bearer Initiator = ''initiator''"
| "show_bearer Non_initiator = ''non_initiator''"

fun show_settlement :: "settlement_status \<Rightarrow> string" where
  "show_settlement Not_eligible = ''not_eligible''"
| "show_settlement Eligible = ''eligible''"
| "show_settlement Claimed = ''claimed''"
| "show_settlement Settled = ''settled''"

definition view :: "sim_lib \<Rightarrow> sim \<Rightarrow> tx \<Rightarrow> json" where
  "view L s x =
     (case applyFee (x_amount x) (x_fee x) (x_feeBearer x) of
        (payer, recipient) \<Rightarrow>
          Jobj ([(''reference'', Jstr (x_reference x)),
                 (''amount'', if numberAmounts (weak (cfg s)) then Jnum (fl (of_int (x_amount x) / 100)) else Jstr (fmt (x_amount x))),
                 (''currency'', Jstr ''GHS''), (''status'', Jstr (x_status x))] @
                opt_member ''provider'' (x_provider x) @
                [(''fee'', Jstr (fmt (x_fee x))), (''feeBearer'', Jstr (show_bearer (x_feeBearer x))), (''payerAmount'', Jstr (fmt payer)),
                 (''recipientAmount'', Jstr (fmt recipient))] @
                opt_member ''note'' (x_note x) @ opt_member ''failureReason'' (x_failureReason x) @
                [(''createdAt'', Jstr (iso L (x_createdAt x)))] @ opt_member ''completedAt'' (map_option (iso L) (x_completedAt x)) @
                [(''channel'', Jstr ''api'')] @ opt_member ''settlementStatus'' (map_option show_settlement (x_settlementStatus x)) @
                [(''reconciliation'', Jobj [(''status'', Jstr ''unchecked'')])] @
                (if leakFields (weak (cfg s))
                 then [(''internalId'', Jstr (x_id x)), (''ledgerShard'', Jstr ''ledger-db-03''),
                       (''providerRaw'', Jobj [(''upstreamRef'', Jstr (x_id x)), (''party'', Jstr (x_party x))])]
                 else [])))"

definition utilityView :: "sim_lib \<Rightarrow> tx \<Rightarrow> json" where
  "utilityView L x =
     (let (pid, ben, fund) = the (x_extra x); p = the (find (\<lambda>q. pr_id q = pid) PRODUCTS)
      in Jobj ([(''reference'', Jstr (x_reference x)), (''status'', Jstr (x_status x)),
                (''product'', Jobj [(''id'', Jstr (pr_id p)), (''category'', Jstr (pr_category p)), (''network'', Jstr (pr_network p)), (''name'', Jstr (pr_name p))]),
                (''beneficiary'', ben), (''amount'', Jstr (fmt (x_amount x))), (''currency'', Jstr ''GHS''), (''fee'', Jstr (fmt (x_fee x))),
                (''gross'', Jstr (fmt (x_amount x + x_fee x))), (''funding'', fund)] @
               opt_member ''failureReason'' (x_failureReason x) @ [(''createdAt'', Jstr (iso L (x_createdAt x)))]))"

definition transferView :: "sim_lib \<Rightarrow> tx \<Rightarrow> json" where
  "transferView L x =
     Jobj [(''reference'', Jstr (x_reference x)), (''amount'', Jstr (fmt (x_amount x))), (''currency'', Jstr ''GHS''), (''status'', Jstr (x_status x)),
           (''recipientHandle'', Jstr (x_party x)), (''createdAt'', Jstr (iso L (x_createdAt x)))]"

definition viewFor :: "sim_lib \<Rightarrow> sim \<Rightarrow> tx \<Rightarrow> json" where
  "viewFor L s x = (case x_kind x of Utility_purchase \<Rightarrow> utilityView L x | Transfer \<Rightarrow> transferView L x | _ \<Rightarrow> view L s x)"

section \<open>Events and timers\<close>

text \<open>\<open>setTimeout\<close> waits at least a millisecond.\<close>

definition set_timer :: "int \<Rightarrow> rat \<Rightarrow> action \<Rightarrow> sim \<Rightarrow> sim" where
  "set_timer now ms a s = s\<lparr>timers := timers s @ [\<lparr>tm_epoch = epoch s, tm_due = of_int now + max 1 ms, tm_action = a\<rparr>]\<rparr>"

definition later :: "int \<Rightarrow> nat \<Rightarrow> action \<Rightarrow> sim \<Rightarrow> sim" where
  "later now ms a s = set_timer now (of_nat ms) a s"

definition emit :: "sim_lib \<Rightarrow> int \<Rightarrow> string \<Rightarrow> string \<Rightarrow> json \<Rightarrow> sim \<Rightarrow> sim" where
  "emit L now cred type data s0 =
     (let en = \<lparr>e_id = ''evt_'' @ random_hex L (drawn s0), e_type = type, e_createdAt = now, e_data = data\<rparr>;
          s = s0\<lparr>drawn := Suc (drawn s0), events := events s0 @ [(cred, en)]\<rparr>
      in case hookUrl (cfg s) of
           None \<Rightarrow> s
         | Some url \<Rightarrow>
             (case chance (duplicateRate (cfg s)) s of
                (twice, s1) \<Rightarrow>
                  let (delay, s2) = (if outOfOrder (cfg s) \<and> ends_in type ''.accepted'' then (case rand s1 of (r, s2) \<Rightarrow> (80 + r * 120, s2)) else (0, s1));
                      s3 = set_timer now delay (Deliver url en 1) s2
                  in if twice then set_timer now (delay + 5) (Deliver url en 1) s3 else s3))"

definition upd_obj :: "string \<Rightarrow> (tx \<Rightarrow> tx) \<Rightarrow> sim \<Rightarrow> sim" where
  "upd_obj i f s = s\<lparr>objs := upd_where (\<lambda>x. x_id x = i) f (objs s)\<rparr>"

definition setStatus :: "sim_lib \<Rightarrow> int \<Rightarrow> string \<Rightarrow> string \<Rightarrow> string \<Rightarrow> bool \<Rightarrow> string option \<Rightarrow> sim \<Rightarrow> sim" where
  "setStatus L now i status type final reason s0 =
     (let s = upd_obj i (\<lambda>x. x\<lparr>x_status := status, x_failureReason := (if reason = None then x_failureReason x else reason),
                              x_completedAt := (if final then Some now else x_completedAt x)\<rparr>) s0
      in case find (\<lambda>x. x_id x = i) (objs s) of
           Some x \<Rightarrow> emit L now (x_credential x) type (viewFor L s x) s
         | None \<Rightarrow> s)"

definition fixtureOutcome :: "bool \<Rightarrow> string \<Rightarrow> string \<Rightarrow> sim \<Rightarrow> string" where
  "fixtureOutcome collecting provider value s =
     (let other = (if otherSucceed (cfg s) then ''ok'' else ''fail'');
          fx = (if provider = ''telecel'' then map_of TELECEL_FIXTURES (normalizeFixtureNumber value) else None)
      in case (case fx of None \<Rightarrow> None | Some (c, p) \<Rightarrow> if collecting then c else p) of
           Some r \<Rightarrow> if r = ''settled'' \<or> r = ''delivered'' then ''ok'' else if r = ''failed_wrong_pin'' then ''wrong_pin''
                     else if r = ''failed_refunded'' then ''fail_refund'' else other
         | None \<Rightarrow> other)"

section \<open>Money-moving operations\<close>

type_synonym 'a outcome = "(sim_error + 'a) \<times> sim"

definition reply_of :: "int \<Rightarrow> json \<Rightarrow> sim_error + reply" where
  "reply_of n j = Inr \<lparr>rp_status = n, rp_body = j\<rparr>"

definition createCollection :: "sim_lib \<Rightarrow> int \<Rightarrow> string \<Rightarrow> json \<Rightarrow> sim \<Rightarrow> reply outcome" where
  "createCollection L now cred body s =
     (case sim_parse L CollectionRequestSchema body of
        Inl err \<Rightarrow> (Inl err, s)
      | Inr r \<Rightarrow>
          (case (provider_refused (q_provider r), amountOf (q_amount r)) of
             (Some err, _) \<Rightarrow> (Inl err, s)
           | (None, Inl err) \<Rightarrow> (Inl err, s)
           | (None, Inr amount) \<Rightarrow>
               (case existing Collection cred (q_reference r) (hashOf L body) s of
                  Inl err \<Rightarrow> (Inl err, s)
                | Inr (Some dup) \<Rightarrow> (reply_of 202 (view L s dup), s)
                | Inr None \<Rightarrow>
                    (case checkLimits cred amount True s of
                       Some err \<Rightarrow> (Inl err, s)
                     | None \<Rightarrow>
                         (case newTx now Collection cred (q_reference r) amount (fee amount s) (Some (q_provider r)) (p_value (q_party r)) (hashOf L body) (q_note r) s of
                            (x0, s1) \<Rightarrow>
                              let x = x0\<lparr>x_settlementStatus := Some Not_eligible\<rparr>; d = resolveDelayMs (cfg s);
                                  s2 = noteVolume cred amount True (register x s1);
                                  s3 = emit L now cred ''collection.accepted'' (view L s2 x) s2;
                                  s4 = later now (d div 2) (Collection_dispatched (x_id x)) s3;
                                  s5 = later now d (Collection_resolved (x_id x) cred (snd (applyFee amount (fee amount s) (x_feeBearer x)))
                                                      (fixtureOutcome True (q_provider r) (p_value (q_party r)) s)) s4
                              in (reply_of 202 (view L s5 x), s5))))))"

text \<open>\<open>createPayout\<close> up to its pause and after it. The part before draws the payment's number and reads the balance.\<close>

datatype payout_plan =
    Payout_refused sim_error
  | Payout_known tx
  | Payout_ready money_request tx int int int

text \<open>The weakness: members of the body overwrite what the server owns.\<close>

definition assigned :: "json \<Rightarrow> sim \<Rightarrow> tx \<Rightarrow> tx" where
  "assigned body s x =
     (if massAssignment (weak (cfg s))
      then x\<lparr>x_status := (case obj_field ''status'' body of Some (Jstr t) \<Rightarrow> t | _ \<Rightarrow> x_status x),
             x_fee := (case obj_field ''fee'' body of Some (Jstr t) \<Rightarrow> (case parseAmount t of Some n \<Rightarrow> n | None \<Rightarrow> x_fee x) | _ \<Rightarrow> x_fee x)\<rparr>
      else x)"

definition payout_begin :: "sim_lib \<Rightarrow> int \<Rightarrow> string \<Rightarrow> json \<Rightarrow> sim \<Rightarrow> payout_plan \<times> sim" where
  "payout_begin L now cred body s =
     (case sim_parse L (money_schema ''destination'' (\<not> massAssignment (weak (cfg s)))) body of
        Inl err \<Rightarrow> (Payout_refused err, s)
      | Inr r \<Rightarrow>
          (case provider_refused (q_provider r) of
             Some err \<Rightarrow> (Payout_refused err, s)
           | None \<Rightarrow>
               if crashOnQuote (weak (cfg s)) \<and> (case q_note r of None \<Rightarrow> False | Some n \<Rightarrow> CHR 39 \<in> set n \<or> CHR ''<'' \<in> set n)
               then (Payout_refused (Crash (''unhandled: unexpected token in query near '' @ dquote @ the (q_note r) @ dquote)), s)
               else (case amountOf (q_amount r) of
                       Inl err \<Rightarrow> (Payout_refused err, s)
                     | Inr amount \<Rightarrow>
                         (case existing Payout cred (q_reference r) (hashOf L body) s of
                            Inl err \<Rightarrow> (Payout_refused err, s)
                          | Inr (Some dup) \<Rightarrow> (Payout_known dup, s)
                          | Inr None \<Rightarrow>
                              (case checkLimits cred amount False s of
                                 Some err \<Rightarrow> (Payout_refused err, s)
                               | None \<Rightarrow>
                                   (case newTx now Payout cred (q_reference r) amount (fee amount s) (Some (q_provider r)) (p_value (q_party r))
                                           (hashOf L body) (q_note r) s of
                                      (x0, s1) \<Rightarrow>
                                        let x = assigned body s x0;
                                            s2 = ensureWallet now cred s1
                                        in (Payout_ready r x amount (fst (applyFee amount (fee amount s) (x_feeBearer x))) (balance_of cred s2), s2)))))))"

definition payout_end :: "sim_lib \<Rightarrow> int \<Rightarrow> string \<Rightarrow> payout_plan \<Rightarrow> sim \<Rightarrow> reply outcome" where
  "payout_end L now cred p s =
     (case p of
        Payout_refused err \<Rightarrow> (Inl err, s)
      | Payout_known dup \<Rightarrow> (reply_of 202 (view L s dup), s)
      | Payout_ready r x amount payer seen \<Rightarrow>
          (case debit now seen cred payer (q_reference r) ''payout_reserve'' True s of
             (Some err, s1) \<Rightarrow> (Inl err, s1)
           | (None, s1) \<Rightarrow>
               let s2 = noteVolume cred amount False (register x s1);
                   s3 = emit L now cred ''payout.accepted'' (view L s2 x) s2; d = resolveDelayMs (cfg s3)
               in if (case Option.bind (payoutReviewThreshold (cfg s3)) parseAmount of Some t \<Rightarrow> t \<le> amount | None \<Rightarrow> False)
                  then let s4 = later now d (Payout_in_review (x_id x)) s3 in (reply_of 202 (view L s4 x), s4)
                  else let ok = (fixtureOutcome False (q_provider r) (p_value (q_party r)) s3 = ''ok'');
                           s4 = later now (d div 2) (Payout_dispatching (x_id x)) (ensureWallet now cred s3);
                           s5 = later now d (Payout_resolved (x_id x) cred payer ok (d div 2)) s4
                       in (reply_of 202 (view L s5 x), s5)))"

definition createPayout :: "sim_lib \<Rightarrow> int \<Rightarrow> string \<Rightarrow> json \<Rightarrow> sim \<Rightarrow> reply outcome" where
  "createPayout L now cred body s = (case payout_begin L now cred body s of (p, s1) \<Rightarrow> payout_end L now cred p s1)"

text \<open>The items of a batch, one after the other; only an exception that is not a \<open>SimError\<close> ends the loop.\<close>

fun batch_items :: "sim_lib \<Rightarrow> int \<Rightarrow> string \<Rightarrow> money_request list \<Rightarrow> sim \<Rightarrow> json list outcome" where
  "batch_items L now cred [] s = (Inr [], s)"
| "batch_items L now cred (r # rs) s =
     (case createPayout L now cred (payout_json r) s of
        (Inl (Crash m), s1) \<Rightarrow> (Inl (Crash m), s1)
      | (Inl (Sim_error code message status hs), s1) \<Rightarrow>
          (case batch_items L now cred rs s1 of
             (Inr js, s2) \<Rightarrow>
               (Inr (Jobj [(''reference'', Jstr (q_reference r)), (''status'', Jnum (of_int status)),
                           (''error'', Jobj [(''code'', Jstr code), (''message'', Jstr message)])] # js), s2)
           | (Inl err, s2) \<Rightarrow> (Inl err, s2))
      | (Inr rp, s1) \<Rightarrow>
          (case batch_items L now cred rs s1 of
             (Inr js, s2) \<Rightarrow> (Inr (Jobj [(''reference'', Jstr (q_reference r)), (''status'', Jnum 202), (''payout'', rp_body rp)] # js), s2)
           | (Inl err, s2) \<Rightarrow> (Inl err, s2)))"

definition createPayoutBatch :: "sim_lib \<Rightarrow> int \<Rightarrow> string \<Rightarrow> json \<Rightarrow> sim \<Rightarrow> reply outcome" where
  "createPayoutBatch L now cred body s =
     (case sim_parse L PayoutBatchRequestSchema body of
        Inl err \<Rightarrow> (Inl err, s)
      | Inr r \<Rightarrow>
          if \<not> distinct (map q_reference (b_items r)) then (Inl (sim_err ''invalid_input'' ''items: duplicate reference in batch''), s)
          else let bk = cred @ '':'' @ b_reference r; hash = hashOf L body;
                   seen = (if idempotencyBroken (cfg s) then None else map_of (batches s) bk)
               in case seen of
                    Some (h, rp) \<Rightarrow>
                      if h \<noteq> hash then (Inl (sim_err ''duplicate_reference'' ''batch reference already used with a different body''), s) else (Inr rp, s)
                  | None \<Rightarrow>
                      (case batch_items L now cred (b_items r) s of
                         (Inl err, s1) \<Rightarrow> (Inl err, s1)
                       | (Inr js, s1) \<Rightarrow>
                           let rp = \<lparr>rp_status = 200, rp_body = Jobj [(''batchId'', Jstr (''BATCH-'' @ padStart 8 (show_nat (Suc (seqno s1))))),
                                       (''reference'', Jstr (b_reference r)), (''items'', Jarr js)]\<rparr>
                           in (Inr rp, s1\<lparr>seqno := Suc (seqno s1), batches := AList.update bk (hash, rp) (batches s1)\<rparr>)))"

definition utility_refused :: "utility_request \<Rightarrow> sim_error + product \<times> int" where
  "utility_refused r =
     (if z_currency r \<noteq> ''GHS'' then Inl (sim_err ''currency_not_supported'' ''only GHS is sold'')
      else case find (\<lambda>p. pr_id p = z_productId r) PRODUCTS of
             None \<Rightarrow> Inl (sim_err ''product_not_found'' ''no product matches productId'')
           | Some p \<Rightarrow>
               if pr_category p = ''utility'' \<and> z_account r = None
               then Inl (sim_err ''invalid_input'' ''beneficiary.accountNumber is required for utility products'')
               else if pr_category p \<noteq> ''utility'' \<and> z_account r \<noteq> None
               then Inl (sim_err ''invalid_input'' ''beneficiary.accountNumber is refused for airtime and data'')
               else if \<not> z_wallet r \<and> z_payer r = None
               then Inl (sim_err ''invalid_input'' ''funding.payer is required when funding.type is collection'')
               else (case amountOf (z_amount r) of
                       Inl err \<Rightarrow> Inl err
                     | Inr amount \<Rightarrow>
                         if amount < (case parseAmount (pr_min p) of Some n \<Rightarrow> n | None \<Rightarrow> 0) \<or>
                            (case parseAmount (pr_max p) of Some n \<Rightarrow> n < amount | None \<Rightarrow> False)
                         then Inl (sim_err ''amount_out_of_range'' ''amount is outside the product range'') else Inr (p, amount)))"

definition utility_extra :: "utility_request \<Rightarrow> string \<times> json \<times> json" where
  "utility_extra r =
     (z_productId r, Jobj ((''msisdn'', Jstr (z_msisdn r)) # opt_member ''accountNumber'' (z_account r)),
      Jobj ((''type'', Jstr (if z_wallet r then ''wallet'' else ''collection'')) #
            (case z_payer r of None \<Rightarrow> [] | Some (p, m) \<Rightarrow> [(''payer'', Jobj [(''provider'', Jstr p), (''msisdn'', Jstr m)])])))"

text \<open>A purchase reads the balance and draws its number at \<open>s\<close>; nothing else happens before the debit.\<close>

definition createUtilityPurchase :: "sim_lib \<Rightarrow> int \<Rightarrow> string \<Rightarrow> json \<Rightarrow> sim \<Rightarrow> reply outcome" where
  "createUtilityPurchase L now cred body s =
     (case sim_parse L UtilityPurchaseRequestSchema body of
        Inl err \<Rightarrow> (Inl err, s)
      | Inr r \<Rightarrow>
          (case utility_refused r of
             Inl err \<Rightarrow> (Inl err, s)
           | Inr (p, amount) \<Rightarrow>
               (case existing Utility_purchase cred (z_reference r) (hashOf L body) s of
                  Inl err \<Rightarrow> (Inl err, s)
                | Inr (Some dup) \<Rightarrow> (reply_of 202 (utilityView L dup), s)
                | Inr None \<Rightarrow>
                    (case checkLimits cred amount False s of
                       Some err \<Rightarrow> (Inl err, s)
                     | None \<Rightarrow>
                         (case newTx now Utility_purchase cred (z_reference r) amount (fee amount s) None (z_msisdn r) (hashOf L body) None s of
                            (x0, s1) \<Rightarrow>
                              let x = x0\<lparr>x_extra := Some (utility_extra r)\<rparr>; gross = amount + fee amount s; d = resolveDelayMs (cfg s)
                              in case (if z_wallet r then debit now (balance_of cred (ensureWallet now cred s1)) cred gross (z_reference r) ''utility_reserve'' True s1
                                       else (None, s1)) of
                                   (Some err, s2) \<Rightarrow> (Inl err, s2)
                                 | (None, s2) \<Rightarrow>
                                     let s3 = noteVolume cred amount False (register x s2);
                                         s4 = ensureWallet now cred (emit L now cred ''utility_purchase.accepted'' (utilityView L x) s3);
                                         s5 = later now (d div 2) (Utility_progress (x_id x) (z_wallet r)) s4;
                                         s6 = later now d (Utility_resolved (x_id x) cred gross (z_wallet r) (d div 2)) s5
                                     in (reply_of 202 (utilityView L x), s6))))))"

definition createTransfer :: "sim_lib \<Rightarrow> int \<Rightarrow> string \<Rightarrow> json \<Rightarrow> sim \<Rightarrow> reply outcome" where
  "createTransfer L now cred body s =
     (case sim_parse L TransferRequestSchema body of
        Inl err \<Rightarrow> (Inl err, s)
      | Inr r \<Rightarrow>
          if t_currency r \<noteq> ''GHS'' then (Inl (sim_err ''currency_not_supported'' ''only GHS is supported''), s)
          else (case amountOf (t_amount r) of
                  Inl err \<Rightarrow> (Inl err, s)
                | Inr amount \<Rightarrow>
                    if t_handle r = cred then (Inl (sim_err ''own_handle'' ''you cannot pay your own handle''), s)
                    else if t_handle r \<notin> set KNOWN_HANDLES then (Inl (sim_err ''not_found'' ''no business has that handle''), s)
                    else (case existing Transfer cred (t_reference r) (hashOf L body) s of
                            Inl err \<Rightarrow> (Inl err, s)
                          | Inr (Some dup) \<Rightarrow> (reply_of 200 (transferView L dup), s)
                          | Inr None \<Rightarrow>
                              (case checkLimits cred amount False s of
                                 Some err \<Rightarrow> (Inl err, s)
                               | None \<Rightarrow>
                                   (case newTx now Transfer cred (t_reference r) amount 0 None (t_handle r) (hashOf L body) None s of
                                      (x0, s1) \<Rightarrow>
                                        (case debit now (balance_of cred (ensureWallet now cred s1)) cred amount (t_reference r) ''transfer'' False s1 of
                                           (Some err, s2) \<Rightarrow> (Inl err, s2)
                                         | (None, s2) \<Rightarrow>
                                             let x = x0\<lparr>x_status := ''completed'', x_completedAt := Some now\<rparr>;
                                                 s3 = noteVolume cred amount False (register x (credit now (t_handle r) amount (t_reference r) ''transfer_in'' s2));
                                                 s4 = emit L now cred ''transfer.status_changed'' (transferView L x) s3;
                                                 s5 = emit L now (t_handle r) ''transfer.received'' (transferView L x) s4
                                             in (reply_of 200 (transferView L x), s5)))))))"

section \<open>Reads and control\<close>

definition getTx :: "string \<Rightarrow> kind \<Rightarrow> string \<Rightarrow> sim \<Rightarrow> sim_error + tx" where
  "getTx cred k reference s =
     (case tx_at (tx_key k cred reference) s of
        Some x \<Rightarrow> Inr x
      | None \<Rightarrow>
          (case (if bola (weak (cfg s))
                 then find (\<lambda>x. x_kind x = k \<and> x_reference x = reference) (List.map_filter (\<lambda>kv. find (\<lambda>x. x_id x = snd kv) (objs s)) (txs s))
                 else None) of
             Some x \<Rightarrow> Inr x
           | None \<Rightarrow> Inl (sim_err ''not_found'' ''nothing found with that reference'')))"

definition setBalance :: "int \<Rightarrow> string \<Rightarrow> string \<Rightarrow> sim \<Rightarrow> sim_error option \<times> sim" where
  "setBalance now cred amount s =
     (case parseAmount amount of
        None \<Rightarrow> (Some (sim_err ''invalid_input'' ''balance must be a positive decimal string''), s)
      | Some n \<Rightarrow>
          let s1 = ensureWallet now cred s
          in (None, post cred (n - balance_of cred s1) ''control'' ''test_adjustment'' (upd_wallet cred (\<lambda>w. w\<lparr>w_balance := n\<rparr>) s1)))"

definition wallet_view :: "sim_lib \<Rightarrow> int \<Rightarrow> string \<Rightarrow> sim \<Rightarrow> json \<times> sim" where
  "wallet_view L now cred s =
     (let s1 = ensureWallet now cred s; w = the (map_of (wallets s1) cred)
      in (Jobj [(''items'', Jarr [Jobj [(''name'', Jstr ''main''), (''balances'', Jobj [(''GHS'', Jstr (fmt (w_balance w)))]),
                                        (''reserved'', Jobj [(''GHS'', Jstr (fmt (w_reserved w)))]), (''createdAt'', Jstr (iso L (w_createdAt w)))]])], s1))"

definition limits_view :: "string \<Rightarrow> sim \<Rightarrow> json" where
  "limits_view cred s =
     (let day = (case parseAmount (limitDaily (cfg s)) of Some n \<Rightarrow> n | None \<Rightarrow> 0);
          leg = (\<lambda>used. Jobj [(''used'', Jstr (fmt used)), (''remaining'', Jstr (fmt (max 0 (day - used))))]);
          period = (\<lambda>name. Jobj [(''period'', Jstr name), (''limit'', Jstr (limitDaily (cfg s))), (''in'', leg (volume (dailyIn s) cred)),
                                  (''out'', leg (volume (dailyOut s) cred))])
      in Jobj [(''items'', Jarr [Jobj [(''currency'', Jstr ''GHS''), (''perTransaction'', Jstr (limitPerTransaction (cfg s))),
                                       (''daily'', period ''daily''), (''monthly'', period ''monthly'')]])])"

definition query_text :: "json option \<Rightarrow> string option" where
  "query_text v = (case v of Some (Jstr t) \<Rightarrow> Some t | _ \<Rightarrow> None)"

definition query_amount :: "json \<Rightarrow> sim_error + int" where
  "query_amount q = amountOf (case query_text (obj_field ''amount'' q) of Some t \<Rightarrow> t | None \<Rightarrow> [])"

definition feeQuote :: "json \<Rightarrow> sim \<Rightarrow> sim_error + json" where
  "feeQuote q s =
     (case query_text (obj_field ''currency'' q) of
        None \<Rightarrow> Inl (sim_err ''invalid_input'' ''provider, amount, currency and partyType are required'')
      | Some currency \<Rightarrow>
          if query_text (obj_field ''provider'' q) = None \<or> query_text (obj_field ''partyType'' q) = None
          then Inl (sim_err ''invalid_input'' ''provider, amount, currency and partyType are required'')
          else (case query_amount q of
                  Inl err \<Rightarrow> Inl err
                | Inr amount \<Rightarrow>
                    (case applyFee amount (fee amount s) (feeBearer (cfg s)) of
                       (payer, recipient) \<Rightarrow>
                         Inr (Jobj [(''amount'', Jstr (fmt amount)), (''currency'', Jstr currency), (''fee'', Jstr (fmt (fee amount s))),
                                    (''feeBearer'', Jstr (show_bearer (feeBearer (cfg s)))), (''payerAmount'', Jstr (fmt payer)),
                                    (''recipientAmount'', Jstr (fmt recipient))]))))"

definition utilityFeeQuote :: "json \<Rightarrow> sim \<Rightarrow> sim_error + json" where
  "utilityFeeQuote q s =
     (case (query_text (obj_field ''productId'' q), query_text (obj_field ''currency'' q)) of
        (Some pid, Some currency) \<Rightarrow>
          (case find (\<lambda>p. pr_id p = pid) PRODUCTS of
             None \<Rightarrow> Inl (sim_err ''product_not_found'' ''no product matches productId'')
           | Some p \<Rightarrow>
               (case query_amount q of
                  Inl err \<Rightarrow> Inl err
                | Inr amount \<Rightarrow>
                    Inr (Jobj [(''productId'', Jstr (pr_id p)), (''amount'', Jstr (fmt amount)), (''currency'', Jstr currency),
                               (''fee'', Jstr (fmt (fee amount s))), (''gross'', Jstr (fmt (amount + fee amount s)))])))
      | _ \<Rightarrow> Inl (sim_err ''invalid_input'' ''productId, amount and currency are required''))"

definition recipient_view :: "string \<Rightarrow> string \<Rightarrow> sim_error + json" where
  "recipient_view handle cred =
     (if handle = cred then Inl (sim_err ''own_handle'' ''you cannot pay your own handle'')
      else if handle \<notin> set KNOWN_HANDLES then Inl (sim_err ''not_found'' ''no business has that handle'')
      else Inr (Jobj [(''handle'', Jstr handle), (''businessName'', Jstr ''Simulated Business''), (''handleSince'', Jstr ''2024-01-01T00:00:00Z'')]))"

definition listEvents :: "string \<Rightarrow> string option \<Rightarrow> nat \<Rightarrow> sim \<Rightarrow> sim_error + envelope list \<times> string option" where
  "listEvents cred after pagesize s =
     (let mine = map snd (filter (\<lambda>e. fst e = cred) (events s))
      in case (case after of
                 None \<Rightarrow> Some 0
               | Some a \<Rightarrow> if a = [] then Some 0
                           else let i = length (takeWhile (\<lambda>e. e_id e \<noteq> a) mine) in if i < length mine then Some (Suc i) else None) of
           None \<Rightarrow> Inl (sim_err ''invalid_input'' ''after is not one of your events'')
         | Some from \<Rightarrow>
             let page = take pagesize (drop from mine)
             in Inr (page, if from + pagesize < length mine then Some (e_id (last page)) else None))"

section \<open>Checkouts\<close>

record checkout_request =
  c_reference :: string
  c_amount :: string
  c_currency :: string
  c_description :: "string option"

definition checkout_schema :: "json \<Rightarrow> checkout_request option" where
  "checkout_schema j =
     (case (str_field REFERENCE_RE ''reference'' j, str_field AMOUNT_RE ''amount'' j, str_field CURRENCY_RE ''currency'' j,
            opt_field (\<lambda>s. js_length s \<le> 140) ''description'' j) of
        (Some r, Some a, Some c, Some d) \<Rightarrow> Some \<lparr>c_reference = r, c_amount = a, c_currency = c, c_description = d\<rparr>
      | _ \<Rightarrow> None)"

definition pub_checkout :: "sim_lib \<Rightarrow> checkout \<Rightarrow> json" where
  "pub_checkout L c =
     Jobj ([(''id'', Jstr (ck_id c)), (''reference'', Jstr (ck_reference c)), (''amount'', Jstr (ck_amount c)), (''currency'', Jstr (ck_currency c))] @
           opt_member ''description'' (ck_description c) @
           [(''environment'', Jstr ''test''), (''status'', Jstr (if ck_open c then ''open'' else ''cancelled'')),
            (''url'', Jstr (''https://checkout.sim.invalid/'' @ ck_id c)), (''expiresAt'', Jnull), (''paidAt'', Jnull), (''collectionReference'', Jnull),
            (''createdAt'', Jstr (iso L (ck_createdAt c))), (''amountType'', Jstr ''fixed''), (''usage'', Jstr ''single''), (''paymentsCount'', Jnum 0),
            (''totalCollected'', Jstr ''0.00'')])"

definition bad_url :: "sim_lib \<Rightarrow> json \<Rightarrow> string \<Rightarrow> bool" where
  "bad_url L body k = (case obj_field k body of None \<Rightarrow> False | Some Jnull \<Rightarrow> False | Some v \<Rightarrow> \<not> isPublicHttpUrl L v)"

definition createCheckout :: "sim_lib \<Rightarrow> int \<Rightarrow> string \<Rightarrow> json \<Rightarrow> sim \<Rightarrow> reply outcome" where
  "createCheckout L now cred body s =
     (if \<not> checkoutEnabled (cfg s) then (Inl (sim_err ''checkout_not_enabled'' ''hosted checkout is not enabled''), s)
      else case sim_parse L checkout_schema body of
             Inl err \<Rightarrow> (Inl err, s)
           | Inr b \<Rightarrow>
               (case (if acceptAnyUrl (weak (cfg s)) then None else find (bad_url L body) [''successUrl'', ''cancelUrl'']) of
                  Some f \<Rightarrow> (Inl (sim_err ''invalid_input'' (f @ '' must be a public http(s) URL'')), s)
                | None \<Rightarrow>
                    let key = cred @ '':'' @ c_reference b
                    in if map_of (checkouts s) key \<noteq> None then (Inl (sim_err ''checkout_reference_taken'' ''reference already used''), s)
                       else let c = \<lparr>ck_id = ''00000000-0000-4000-8000-'' @ padStart 12 (show_nat (Suc (seqno s))), ck_reference = c_reference b,
                                     ck_amount = c_amount b, ck_currency = c_currency b,
                                     ck_description = (if c_description b = Some [] then None else c_description b), ck_open = True, ck_createdAt = now,
                                     ck_cred = cred\<rparr>
                            in (reply_of 201 (pub_checkout L c), s\<lparr>seqno := Suc (seqno s), checkouts := AList.update key c (checkouts s)\<rparr>)))"

definition findCheckout :: "string \<Rightarrow> string \<Rightarrow> sim \<Rightarrow> (string \<times> checkout) option" where
  "findCheckout cred i s = find (\<lambda>kv. ck_id (snd kv) = i \<and> (ck_cred (snd kv) = cred \<or> bola (weak (cfg s)))) (checkouts s)"

definition cancelCheckout :: "sim_lib \<Rightarrow> string \<Rightarrow> string \<Rightarrow> sim \<Rightarrow> reply outcome" where
  "cancelCheckout L cred i s =
     (case findCheckout cred i s of
        None \<Rightarrow> (Inl (sim_err ''not_found'' ''no such checkout''), s)
      | Some (k, c) \<Rightarrow>
          if \<not> ck_open c then (Inl (sim_err ''checkout_not_open'' ''checkout is not open''), s)
          else let c1 = c\<lparr>ck_open := False\<rparr> in (reply_of 200 (pub_checkout L c1), s\<lparr>checkouts := AList.update k c1 (checkouts s)\<rparr>))"

section \<open>Settlements\<close>

definition pub_run :: "sim_lib \<Rightarrow> settlement_run \<Rightarrow> json" where
  "pub_run L r =
     Jobj [(''id'', Jstr (sr_id r)), (''reference'', Jstr (sr_reference r)), (''status'', Jstr ''completed''), (''outcome'', Jstr ''settled''),
           (''itemCount'', Jnum (of_nat (sr_itemCount r))), (''total'', Jstr (fmt (sr_total r))), (''currency'', Jstr ''GHS''),
           (''startedAt'', Jstr (iso L (sr_startedAt r))), (''completedAt'', Jstr (iso L (sr_startedAt r)))]"

definition due_for :: "string \<Rightarrow> sim \<Rightarrow> tx list" where
  "due_for cred s =
     filter (\<lambda>x. x_credential x = cred \<and> x_kind x = Collection \<and> x_status x = ''settled'' \<and> x_settlementStatus x = Some Eligible)
       (List.map_filter (\<lambda>kv. find (\<lambda>x. x_id x = snd kv) (objs s)) (txs s))"

definition settleNow :: "sim_lib \<Rightarrow> int \<Rightarrow> string \<Rightarrow> json \<Rightarrow> sim \<Rightarrow> reply outcome" where
  "settleNow L now cred body s =
     (case sim_parse L SettleNowRequestSchema body of
        Inl err \<Rightarrow> (Inl err, s)
      | Inr reference \<Rightarrow>
          if policy s = None then (Inl (sim_err ''not_found'' ''no settlement policy exists''), s)
          else (case find (\<lambda>r. sr_reference r = reference \<and> sr_cred r = cred) (settlementRuns s) of
                  Some dup \<Rightarrow> (reply_of 202 (pub_run L dup), s)
                | None \<Rightarrow>
                    let due = due_for cred s; net = sum_list (map (\<lambda>x. snd (applyFee (x_amount x) (x_fee x) (x_feeBearer x))) due);
                        i = ''STL-'' @ padStart 8 (show_nat (Suc (seqno s))); s1 = s\<lparr>seqno := Suc (seqno s)\<rparr>;
                        s2 = (if 0 < net
                              then post cred (- net) i ''settlement''
                                     (upd_wallet cred (\<lambda>w. w\<lparr>w_balance := w_balance w - net\<rparr>)
                                        (ensureWallet now cred (fold (\<lambda>x. upd_obj (x_id x) (\<lambda>y. y\<lparr>x_settlementStatus := Some Settled\<rparr>)) due s1)))
                              else s1);
                        r = \<lparr>sr_id = i, sr_reference = reference, sr_itemCount = length due, sr_total = net, sr_startedAt = now, sr_cred = cred\<rparr>;
                        s3 = s2\<lparr>settlementRuns := settlementRuns s2 @ [r]\<rparr>
                    in (reply_of 202 (pub_run L r), emit L now cred ''settlement.status_changed'' (pub_run L r) s3)))"

definition getRun_sim :: "string \<Rightarrow> string \<Rightarrow> sim \<Rightarrow> sim_error + settlement_run" where
  "getRun_sim cred i s =
     (let mine = filter (\<lambda>r. sr_cred r = cred) (settlementRuns s)
      in case (if i = ''latest'' then (if mine = [] then None else Some (last mine)) else find (\<lambda>r. sr_id r = i) mine) of
           Some r \<Rightarrow> Inr r
         | None \<Rightarrow> Inl (sim_err ''not_found'' ''no such settlement run''))"

definition retryRun :: "string \<Rightarrow> string \<Rightarrow> sim \<Rightarrow> sim_error" where
  "retryRun cred i s =
     (case getRun_sim cred i s of
        Inl err \<Rightarrow> err
      | Inr _ \<Rightarrow> sim_err ''resettlement_not_allowed'' ''only failed_partial or failed_all runs can be retried'')"

definition policy_schema :: "json \<Rightarrow> (string \<times> json \<times> string) option" where
  "policy_schema j =
     (case (str_field (\<lambda>s. s \<in> {''momo'', ''bank'', ''split''}) ''destination'' j, obj_field ''schedule'' j, opt_field (\<lambda>_. True) ''minimum'' j,
            case obj_field ''bankSharePercent'' j of None \<Rightarrow> True | Some (Jnum n) \<Rightarrow> n = of_int \<lfloor>n\<rfloor> \<and> 1 \<le> n \<and> n \<le> 99 | Some _ \<Rightarrow> False) of
        (Some d, Some sch, Some m, True) \<Rightarrow>
          if str_field (\<lambda>s. s = ''scheduled'' \<or> s = ''on_demand_only'') ''mode'' sch = None then None
          else Some (d, sch, case m of None \<Rightarrow> [] | Some t \<Rightarrow> t)
      | _ \<Rightarrow> None)"

text \<open>Of the stored policy only the schedule, the minimum and the version vary.\<close>

definition putPolicy :: "sim_lib \<Rightarrow> json \<Rightarrow> sim \<Rightarrow> reply outcome" where
  "putPolicy L body s =
     (case sim_parse L policy_schema body of
        Inl err \<Rightarrow> (Inl err, s)
      | Inr (destination, schedule, minimum) \<Rightarrow>
          if destination \<noteq> ''momo'' then (Inl (Sim_error ''bank_settlement_unavailable'' ''bank settlement is unavailable'' 422 []), s)
          else let version = Suc (case policy s of Some (_, _, v) \<Rightarrow> v | None \<Rightarrow> 0)
               in (reply_of 200
                     (Jobj [(''options'', Jobj [(''momo'', Jobj [(''available'', Jbool True)]), (''bank'', Jobj [(''available'', Jbool False)]),
                                                (''split'', Jobj [(''available'', Jbool False)])]),
                            (''policy'', Jobj [(''destination'', Jstr destination),
                                               (''legs'', Jarr [Jobj [(''accountType'', Jstr ''momo''), (''label'', Jstr ''****0001''), (''sharePercent'', Jnum 100)]]),
                                               (''schedule'', schedule), (''minimum'', Jstr minimum), (''currency'', Jstr ''GHS''),
                                               (''version'', Jnum (of_nat version)), (''inSync'', Jbool True)])]),
                   s\<lparr>policy := Some (schedule, minimum, version)\<rparr>))"

definition deletePolicy :: "sim \<Rightarrow> sim" where
  "deletePolicy s = s\<lparr>policy := None\<rparr>"

section \<open>Timers fire\<close>

text \<open>One delivery attempt, with the answer of the receiver.\<close>

definition deliver :: "int \<Rightarrow> bool \<Rightarrow> string \<Rightarrow> envelope \<Rightarrow> nat \<Rightarrow> sim \<Rightarrow> sim" where
  "deliver now ok url en attempt s =
     (if ok then count (\<lambda>n. n\<lparr>n_webhooksSent := Suc (n_webhooksSent n)\<rparr>) s
      else if attempt < hookAttempts (cfg s)
      then set_timer now (of_nat (hookBaseDelayMs (cfg s) * 2 ^ (attempt - 1))) (Deliver url en (Suc attempt))
             (count (\<lambda>n. n\<lparr>n_webhooksRetried := Suc (n_webhooksRetried n)\<rparr>) s)
      else count (\<lambda>n. n\<lparr>n_webhooksFailed := Suc (n_webhooksFailed n)\<rparr>) s)"

definition ref_of :: "string \<Rightarrow> sim \<Rightarrow> string" where
  "ref_of i s = (case find (\<lambda>x. x_id x = i) (objs s) of Some x \<Rightarrow> x_reference x | None \<Rightarrow> [])"

fun run_action :: "sim_lib \<Rightarrow> int \<Rightarrow> bool \<Rightarrow> action \<Rightarrow> sim \<Rightarrow> sim" where
  "run_action L now ok (Collection_dispatched i) s = setStatus L now i ''dispatched'' ''collection.status_changed'' False None s"
| "run_action L now ok (Collection_resolved i cred recipient outcome) s =
     (if outcome = ''ok''
      then setStatus L now i ''settled'' ''collection.status_changed'' True None
             (upd_obj i (\<lambda>x. x\<lparr>x_settlementStatus := Some Eligible\<rparr>) (credit now cred recipient (ref_of i s) ''collection'' s))
      else setStatus L now i ''failed'' ''collection.status_changed'' True (Some (if outcome = ''wrong_pin'' then ''wrong_pin'' else ''declined'')) s)"
| "run_action L now ok (Payout_in_review i) s = setStatus L now i ''in_review'' ''payout.status_changed'' False None s"
| "run_action L now ok (Payout_dispatching i) s = setStatus L now i ''dispatching'' ''payout.status_changed'' False None s"
| "run_action L now ok (Payout_resolved i cred payer good half) s =
     (if good then setStatus L now i ''delivered'' ''payout.status_changed'' True None (release_reserved cred payer s)
      else later now (max 1 half) (Payout_refunded i cred payer)
             (setStatus L now i ''failed'' ''payout.status_changed'' False (Some ''declined'') s))"
| "run_action L now ok (Payout_refunded i cred payer) s =
     setStatus L now i ''refunded'' ''payout.status_changed'' True None
       (credit now cred payer (ref_of i s) ''payout_refund'' (release_reserved cred payer s))"
| "run_action L now ok (Utility_progress i funded) s =
     setStatus L now i (if funded then ''vending'' else ''awaiting_payment'') ''utility_purchase.status_changed'' False None s"
| "run_action L now ok (Utility_resolved i cred gross funded half) s =
     (if otherSucceed (cfg s)
      then setStatus L now i ''delivered'' ''utility_purchase.status_changed'' True None
             (count (\<lambda>n. n\<lparr>n_utilityDeliveries := Suc (n_utilityDeliveries n)\<rparr>) (if funded then release_reserved cred gross s else s))
      else let s1 = setStatus L now i ''failed'' ''utility_purchase.status_changed'' False (Some ''vend_failed'') s
           in if funded then later now (max 1 half) (Utility_refunded i cred gross) s1 else s1)"
| "run_action L now ok (Utility_refunded i cred gross) s =
     setStatus L now i ''refunded'' ''utility_purchase.status_changed'' True None
       (credit now cred gross (ref_of i s) ''utility_refund'' (release_reserved cred gross s))"
| "run_action L now ok (Deliver url en attempt) s = deliver now ok url en attempt s"

text \<open>The timer at a position fires when it is due; one of an earlier epoch does nothing.\<close>

definition fire :: "sim_lib \<Rightarrow> int \<Rightarrow> bool \<Rightarrow> nat \<Rightarrow> sim \<Rightarrow> sim" where
  "fire L now ok i s =
     (if i < length (timers s) \<and> tm_due (timers s ! i) \<le> of_int now
      then let t = timers s ! i; s1 = s\<lparr>timers := take i (timers s) @ drop (Suc i) (timers s)\<rparr>
           in if tm_epoch t = epoch s then run_action L now ok (tm_action t) s1 else s1
      else s)"

section \<open>The reconciliation view\<close>

definition ledger_sum :: "string \<Rightarrow> sim \<Rightarrow> int" where
  "ledger_sum i s = sum_list (map l_delta (filter (\<lambda>l. l_wallet l = i) (ledger s)))"

definition drift :: "string \<times> wallet \<Rightarrow> sim \<Rightarrow> int" where
  "drift kw s = w_balance (snd kw) - (w_opening (snd kw) + ledger_sum (fst kw) s)"

definition ledgerDriftPesewas :: "sim \<Rightarrow> int" where
  "ledgerDriftPesewas s = sum_list (map (\<lambda>kw. \<bar>drift kw s\<bar>) (wallets s))"

definition duplicateEffects :: "sim \<Rightarrow> nat" where
  "duplicateEffects s = sum_list (map (\<lambda>kn. snd kn - 1) (effects s))"

definition negativeBalances :: "sim \<Rightarrow> string list" where
  "negativeBalances s = map fst (filter (\<lambda>kw. w_balance (snd kw) < 0) (wallets s))"

section \<open>The request handler\<close>

datatype endpoint =
    Collections | Payouts | Payout_batches | Utility_purchases | Transfers | Checkouts | Cancel string | Settlements | Resettlements string

fun run_endpoint :: "sim_lib \<Rightarrow> int \<Rightarrow> string \<Rightarrow> endpoint \<Rightarrow> json \<Rightarrow> sim \<Rightarrow> reply outcome" where
  "run_endpoint L now cred Collections body s = createCollection L now cred body s"
| "run_endpoint L now cred Payouts body s = createPayout L now cred body s"
| "run_endpoint L now cred Payout_batches body s = createPayoutBatch L now cred body s"
| "run_endpoint L now cred Utility_purchases body s = createUtilityPurchase L now cred body s"
| "run_endpoint L now cred Transfers body s = createTransfer L now cred body s"
| "run_endpoint L now cred Checkouts body s = createCheckout L now cred body s"
| "run_endpoint L now cred (Cancel i) body s = cancelCheckout L cred i s"
| "run_endpoint L now cred Settlements body s = settleNow L now cred body s"
| "run_endpoint L now cred (Resettlements i) body s = (Inl (retryRun cred i s), s)"

fun endpoint_path :: "endpoint \<Rightarrow> string" where
  "endpoint_path Collections = ''/collections''"
| "endpoint_path Payouts = ''/payouts''"
| "endpoint_path Payout_batches = ''/payout-batches''"
| "endpoint_path Utility_purchases = ''/utility-purchases''"
| "endpoint_path Transfers = ''/transfers''"
| "endpoint_path Checkouts = ''/checkouts''"
| "endpoint_path (Cancel i) = ''/checkouts/'' @ i @ ''/cancel''"
| "endpoint_path Settlements = ''/settlements''"
| "endpoint_path (Resettlements i) = ''/settlements/'' @ i @ ''/resettlements''"

definition post_endpoint :: "sim_lib \<Rightarrow> int \<Rightarrow> string \<Rightarrow> string option \<Rightarrow> endpoint \<Rightarrow> json \<Rightarrow> sim \<Rightarrow> reply outcome" where
  "post_endpoint L now cred key ep body s =
     (case body of
        Jobj _ \<Rightarrow> idempotent L cred key body (run_endpoint L now cred ep body) s
      | _ \<Rightarrow> (Inl (sim_err ''invalid_input'' ''body must be a JSON object''), s))"

definition handle_post :: "sim_lib \<Rightarrow> int \<Rightarrow> string option \<Rightarrow> string option \<Rightarrow> endpoint \<Rightarrow> json \<Rightarrow> sim \<Rightarrow> reply outcome" where
  "handle_post L now header key ep body s =
     (case applyFaults s of
        (Some err, s1) \<Rightarrow> (Inl err, s1)
      | (None, s1) \<Rightarrow>
          (case sim_authenticate now header s1 of
             (Inl err, s2) \<Rightarrow> (Inl err, s2)
           | (Inr cred, s2) \<Rightarrow>
               (case takeRateToken now (''cred:'' @ cred) s2 of
                  (Some err, s3) \<Rightarrow> (Inl err, s3)
                | (None, s3) \<Rightarrow>
                    (case assertPermission cred ''POST'' (endpoint_path ep) s3 of
                       Some err \<Rightarrow> (Inl err, s3)
                     | None \<Rightarrow>
                         (case post_endpoint L now cred key ep body s3 of
                            (Inl err, s4) \<Rightarrow> (Inl err, s4)
                          | (Inr r, s4) \<Rightarrow>
                              if rp_status r < 500
                              then (case shouldAmbiguousTimeout s4 of
                                      (True, s5) \<Rightarrow> (Inl (sim_err ''upstream_timeout'' ''internal server error''), s5)
                                    | (False, s5) \<Rightarrow> (Inr r, s5))
                              else (Inr r, s4))))))"

text \<open>Whatever can happen to a running simulator.\<close>

datatype sim_op =
    Post_request "string option" "string option" endpoint json
  | Token_request string json
  | Put_policy_request string "string option" json
  | Delete_policy
  | Get_wallet string
  | Set_balance string string
  | Fire bool nat
  | Reset sim_config
  | Patch_config sim_config

fun sim_step :: "sim_lib \<Rightarrow> int \<times> sim_op \<Rightarrow> sim \<Rightarrow> sim" where
  "sim_step L (now, Post_request header key ep body) s = snd (handle_post L now header key ep body s)"
| "sim_step L (now, Token_request ip form) s =
     (case takeRateToken now (''ip:'' @ ip) s of (Some err, s1) \<Rightarrow> s1 | (None, s1) \<Rightarrow> snd (issueToken L now form s1))"
| "sim_step L (now, Put_policy_request cred key body) s = snd (idempotent L cred key body (putPolicy L body) s)"
| "sim_step L (now, Delete_policy) s = deletePolicy s"
| "sim_step L (now, Get_wallet cred) s = snd (wallet_view L now cred s)"
| "sim_step L (now, Set_balance cred amount) s = snd (setBalance now cred amount s)"
| "sim_step L (now, Fire ok i) s = fire L now ok i s"
| "sim_step L (now, Reset c) s = reset c s"
| "sim_step L (now, Patch_config c) s = patchConfig c s"

end
