(* ===== verification/Sim_Ledger.thy ===== *)
theory Sim_Ledger
  imports Simulator
begin

text \<open>
  The books of the simulated provider: wallets agree with the ledger and cover what is reserved after
  any requests, timers and resets; no payment takes effect twice; a finished request is replayed; and how
  the deliberate race loses money.
\<close>

section \<open>What pending timers will release\<close>

fun held :: "string \<Rightarrow> action \<Rightarrow> int" where
  "held i (Payout_resolved x cred payer good half) = (if cred = i then payer else 0)"
| "held i (Payout_refunded x cred payer) = (if cred = i then payer else 0)"
| "held i (Utility_resolved x cred gross funded half) = (if funded \<and> cred = i then gross else 0)"
| "held i (Utility_refunded x cred gross) = (if cred = i then gross else 0)"
| "held i _ = 0"

definition pending :: "string \<Rightarrow> sim \<Rightarrow> int" where
  "pending i s = sum_list (map (\<lambda>t. held i (tm_action t)) (filter (\<lambda>t. tm_epoch t = epoch s) (timers s)))"

definition reserved_of :: "string \<Rightarrow> sim \<Rightarrow> int" where
  "reserved_of i s = (case map_of (wallets s) i of Some w \<Rightarrow> w_reserved w | None \<Rightarrow> 0)"

definition opening_of :: "string \<Rightarrow> sim \<Rightarrow> int" where
  "opening_of i s = (case map_of (wallets s) i of Some w \<Rightarrow> w_opening w | None \<Rightarrow> 0)"

definition timers_ok :: "sim \<Rightarrow> bool" where
  "timers_ok s \<longleftrightarrow> (\<forall>t \<in> set (timers s). tm_epoch t \<le> epoch s \<and> (\<forall>i. 0 \<le> held i (tm_action t)))"

text \<open>The books, with an amount \<open>h\<close> per wallet that is reserved for a timer about to be set.\<close>

definition booked :: "(string \<Rightarrow> int) \<Rightarrow> sim \<Rightarrow> bool" where
  "booked h s \<longleftrightarrow> distinct (map fst (wallets s)) \<and> (\<forall>i. balance_of i s = opening_of i s + ledger_sum i s) \<and>
     (\<forall>i. pending i s + h i \<le> reserved_of i s) \<and> timers_ok s"

section \<open>Operations that leave the books alone\<close>

lemma rand_frame [simp]:
  "wallets (snd (rand s)) = wallets s" "ledger (snd (rand s)) = ledger s" "timers (snd (rand s)) = timers s" "epoch (snd (rand s)) = epoch s"
  "cfg (snd (rand s)) = cfg s" "effects (snd (rand s)) = effects s" "txs (snd (rand s)) = txs s" "idem (snd (rand s)) = idem s" "objs (snd (rand s)) = objs s"
  "seqno (snd (rand s)) = seqno s"
  by (simp_all add: rand_def split: prod.split)

lemma chance_frame [simp]:
  "wallets (snd (chance p s)) = wallets s" "ledger (snd (chance p s)) = ledger s" "timers (snd (chance p s)) = timers s"
  "epoch (snd (chance p s)) = epoch s" "cfg (snd (chance p s)) = cfg s" "effects (snd (chance p s)) = effects s" "txs (snd (chance p s)) = txs s"
  "idem (snd (chance p s)) = idem s" "objs (snd (chance p s)) = objs s" "seqno (snd (chance p s)) = seqno s"
  by (simp_all add: chance_def split_beta)

lemma count_frame [simp]:
  "wallets (count f s) = wallets s" "ledger (count f s) = ledger s" "timers (count f s) = timers s" "epoch (count f s) = epoch s" "cfg (count f s) = cfg s"
  "effects (count f s) = effects s" "txs (count f s) = txs s" "idem (count f s) = idem s" "objs (count f s) = objs s" "seqno (count f s) = seqno s"
  by (simp_all add: count_def)

lemma noteVolume_frame [simp]:
  "wallets (noteVolume c a b s) = wallets s" "ledger (noteVolume c a b s) = ledger s" "timers (noteVolume c a b s) = timers s"
  "epoch (noteVolume c a b s) = epoch s" "cfg (noteVolume c a b s) = cfg s" "effects (noteVolume c a b s) = effects s" "txs (noteVolume c a b s) = txs s"
  "idem (noteVolume c a b s) = idem s" "objs (noteVolume c a b s) = objs s" "seqno (noteVolume c a b s) = seqno s"
  by (simp_all add: noteVolume_def)

lemma later_frame [simp]:
  "wallets (later now ms a s) = wallets s" "ledger (later now ms a s) = ledger s" "epoch (later now ms a s) = epoch s" "cfg (later now ms a s) = cfg s"
  "effects (later now ms a s) = effects s" "txs (later now ms a s) = txs s" "idem (later now ms a s) = idem s" "objs (later now ms a s) = objs s"
  "seqno (later now ms a s) = seqno s"
  by (simp_all add: later_def set_timer_def)

lemma set_timer_frame [simp]:
  "wallets (set_timer now ms a s) = wallets s" "ledger (set_timer now ms a s) = ledger s" "epoch (set_timer now ms a s) = epoch s"
  "cfg (set_timer now ms a s) = cfg s" "effects (set_timer now ms a s) = effects s" "txs (set_timer now ms a s) = txs s"
  "idem (set_timer now ms a s) = idem s" "objs (set_timer now ms a s) = objs s" "seqno (set_timer now ms a s) = seqno s"
  by (simp_all add: set_timer_def)

lemma upd_obj_frame [simp]:
  "wallets (upd_obj i f s) = wallets s" "ledger (upd_obj i f s) = ledger s" "timers (upd_obj i f s) = timers s" "epoch (upd_obj i f s) = epoch s"
  "cfg (upd_obj i f s) = cfg s" "effects (upd_obj i f s) = effects s" "txs (upd_obj i f s) = txs s" "idem (upd_obj i f s) = idem s"
  "seqno (upd_obj i f s) = seqno s"
  by (simp_all add: upd_obj_def)

lemma register_frame [simp]:
  "wallets (register x s) = wallets s" "ledger (register x s) = ledger s" "timers (register x s) = timers s" "epoch (register x s) = epoch s"
  "cfg (register x s) = cfg s" "idem (register x s) = idem s"
  by (simp_all add: register_def Let_def)

lemma newTx_frame:
  assumes "newTx now k c r a f p q h n s = (x, s1)"
  shows "wallets s1 = wallets s" "ledger s1 = ledger s" "timers s1 = timers s" "epoch s1 = epoch s" "cfg s1 = cfg s" "effects s1 = effects s"
    "txs s1 = txs s" "idem s1 = idem s" "objs s1 = objs s" "x_kind x = k" "x_credential x = c" "x_reference x = r" "x_feeBearer x = feeBearer (cfg s)"
  using assms by (auto simp: newTx_def)

text \<open>A delivery holds nothing, so an emitted event does not change what is pending.\<close>

lemma pending_set_timer: "pending i (set_timer now ms a s) = pending i s + held i a"
  by (simp add: pending_def set_timer_def)

lemma timers_ok_set_timer: "timers_ok (set_timer now ms a s) \<longleftrightarrow> timers_ok s \<and> (\<forall>i. 0 \<le> held i a)"
  by (auto simp: timers_ok_def set_timer_def)

lemma pending_cong: "timers s' = timers s \<Longrightarrow> epoch s' = epoch s \<Longrightarrow> pending i s' = pending i s \<and> timers_ok s' = timers_ok s"
  by (simp add: pending_def timers_ok_def)

lemma emit_cases:
  obtains s2 a b url en where "wallets s2 = wallets s" "ledger s2 = ledger s" "timers s2 = timers s" "epoch s2 = epoch s" "cfg s2 = cfg s"
      "effects s2 = effects s" "txs s2 = txs s" "idem s2 = idem s" "objs s2 = objs s" "seqno s2 = seqno s"
      "emit L now c ty d s = s2 \<or> emit L now c ty d s = set_timer now a (Deliver url en 1) s2 \<or>
       emit L now c ty d s = set_timer now b (Deliver url en 1) (set_timer now a (Deliver url en 1) s2)"
proof -
  define en where "en = \<lparr>e_id = ''evt_'' @ random_hex L (drawn s), e_type = ty, e_createdAt = now, e_data = d\<rparr>"
  define s0 where "s0 = s\<lparr>drawn := Suc (drawn s), events := events s @ [(c, en)]\<rparr>"
  have s0: "wallets s0 = wallets s" "ledger s0 = ledger s" "timers s0 = timers s" "epoch s0 = epoch s" "cfg s0 = cfg s"
    "effects s0 = effects s" "txs s0 = txs s" "idem s0 = idem s" "objs s0 = objs s" "seqno s0 = seqno s" by (simp_all add: s0_def)
  show thesis
  proof (cases "hookUrl (cfg s)")
    case None
    have "emit L now c ty d s = s0" unfolding emit_def Let_def en_def [symmetric] s0_def [symmetric] by (simp add: s0 None)
    then show thesis by (intro that [of s0] s0) simp
  next
    case (Some url)
    obtain tw s1 where ch: "chance (duplicateRate (cfg s)) s0 = (tw, s1)" by (metis surj_pair)
    obtain dl s2 where dl: "(if outOfOrder (cfg s) \<and> ends_in ty ''.accepted'' then (case rand s1 of (r, s2) \<Rightarrow> (80 + r * 120, s2)) else (0, s1)) = (dl, s2)"
      by (metis surj_pair)
    have "s1 = snd (chance (duplicateRate (cfg s)) s0)" "s2 = s1 \<or> s2 = snd (rand s1)" using ch dl by (auto split: if_splits prod.splits)
    then have s2: "wallets s2 = wallets s" "ledger s2 = ledger s" "timers s2 = timers s" "epoch s2 = epoch s" "cfg s2 = cfg s"
      "effects s2 = effects s" "txs s2 = txs s" "idem s2 = idem s" "objs s2 = objs s" "seqno s2 = seqno s" by (auto simp: s0)
    have "emit L now c ty d s =
        (if tw then set_timer now (dl + 5) (Deliver url en 1) (set_timer now dl (Deliver url en 1) s2) else set_timer now dl (Deliver url en 1) s2)"
      unfolding emit_def Let_def en_def [symmetric] s0_def [symmetric] s0 Some option.case ch prod.case dl ..
    then show thesis by (intro that [of s2 dl url en "dl + 5"] s2) auto
  qed
qed

lemma emit_frame [simp]:
  "wallets (emit L now c ty d s) = wallets s" "ledger (emit L now c ty d s) = ledger s" "epoch (emit L now c ty d s) = epoch s"
  "cfg (emit L now c ty d s) = cfg s" "effects (emit L now c ty d s) = effects s" "txs (emit L now c ty d s) = txs s" "idem (emit L now c ty d s) = idem s"
  "objs (emit L now c ty d s) = objs s" "seqno (emit L now c ty d s) = seqno s" "pending i (emit L now c ty d s) = pending i s"
  "timers_ok (emit L now c ty d s) = timers_ok s"
proof -
  let ?e = "emit L now c ty d s"
  have "wallets ?e = wallets s \<and> ledger ?e = ledger s \<and> epoch ?e = epoch s \<and> cfg ?e = cfg s \<and> effects ?e = effects s \<and> txs ?e = txs s \<and> idem ?e = idem s \<and>
    objs ?e = objs s \<and> seqno ?e = seqno s \<and> pending i ?e = pending i s \<and> timers_ok ?e = timers_ok s"
  proof (rule emit_cases [of s L now c ty d])
    fix s2 a b url en
    assume f: "wallets s2 = wallets s" "ledger s2 = ledger s" "timers s2 = timers s" "epoch s2 = epoch s" "cfg s2 = cfg s"
      "effects s2 = effects s" "txs s2 = txs s" "idem s2 = idem s" "objs s2 = objs s" "seqno s2 = seqno s"
      and e: "?e = s2 \<or> ?e = set_timer now a (Deliver url en 1) s2 \<or> ?e = set_timer now b (Deliver url en 1) (set_timer now a (Deliver url en 1) s2)"
    have "pending i s2 = pending i s \<and> timers_ok s2 = timers_ok s" using f by (intro pending_cong)
    with f e show ?thesis by (elim disjE) (simp_all add: pending_set_timer timers_ok_set_timer)
  qed
  then show "wallets ?e = wallets s" "ledger ?e = ledger s" "epoch ?e = epoch s" "cfg ?e = cfg s" "effects ?e = effects s" "txs ?e = txs s" "idem ?e = idem s"
    "objs ?e = objs s" "seqno ?e = seqno s" "pending i ?e = pending i s" "timers_ok ?e = timers_ok s" by blast+
qed

lemma setStatus_cases: "setStatus L now i st ty fin rs s = upd_obj i f s \<or> (\<exists>c d. setStatus L now i st ty fin rs s = emit L now c ty d (upd_obj i f s))"
  if "f = (\<lambda>x. x\<lparr>x_status := st, x_failureReason := (if rs = None then x_failureReason x else rs), x_completedAt := (if fin then Some now else x_completedAt x)\<rparr>)"
  unfolding that by (auto simp: setStatus_def Let_def split: option.split)

lemma pending_upd_obj [simp]: "pending j (upd_obj i f s) = pending j s" "timers_ok (upd_obj i f s) = timers_ok s"
  by (simp_all add: pending_def timers_ok_def)

lemma setStatus_frame [simp]:
  "wallets (setStatus L now i st ty fin rs s) = wallets s" "ledger (setStatus L now i st ty fin rs s) = ledger s"
  "epoch (setStatus L now i st ty fin rs s) = epoch s" "cfg (setStatus L now i st ty fin rs s) = cfg s"
  "effects (setStatus L now i st ty fin rs s) = effects s" "txs (setStatus L now i st ty fin rs s) = txs s"
  "idem (setStatus L now i st ty fin rs s) = idem s" "pending j (setStatus L now i st ty fin rs s) = pending j s"
  "timers_ok (setStatus L now i st ty fin rs s) = timers_ok s"
  using setStatus_cases [OF refl, of L now i st ty fin rs s] by (elim disjE exE; simp)+

section \<open>Operations that move money\<close>

lemma pending_frame [simp]:
  "pending i (count f s) = pending i s" "pending i (noteVolume c a b s) = pending i s" "pending i (register x s) = pending i s"
  "timers_ok (count f s) = timers_ok s" "timers_ok (noteVolume c a b s) = timers_ok s" "timers_ok (register x s) = timers_ok s"
  by (simp_all add: pending_def timers_ok_def)

lemma later_pending [simp]:
  "pending i (later now ms a s) = pending i s + held i a" "timers_ok (later now ms a s) \<longleftrightarrow> timers_ok s \<and> (\<forall>i. 0 \<le> held i a)"
  by (simp_all add: later_def pending_set_timer timers_ok_set_timer)

lemma wallet_frame [simp]:
  "timers (ensureWallet now c s) = timers s" "epoch (ensureWallet now c s) = epoch s" "cfg (ensureWallet now c s) = cfg s"
  "ledger (ensureWallet now c s) = ledger s" "effects (ensureWallet now c s) = effects s" "txs (ensureWallet now c s) = txs s"
  "idem (ensureWallet now c s) = idem s" "objs (ensureWallet now c s) = objs s" "seqno (ensureWallet now c s) = seqno s"
  "timers (upd_wallet c f s) = timers s" "epoch (upd_wallet c f s) = epoch s" "cfg (upd_wallet c f s) = cfg s" "ledger (upd_wallet c f s) = ledger s"
  "effects (upd_wallet c f s) = effects s" "txs (upd_wallet c f s) = txs s" "idem (upd_wallet c f s) = idem s" "objs (upd_wallet c f s) = objs s"
  "timers (post c a r k s) = timers s" "epoch (post c a r k s) = epoch s" "cfg (post c a r k s) = cfg s" "wallets (post c a r k s) = wallets s"
  "effects (post c a r k s) = effects s" "txs (post c a r k s) = txs s" "idem (post c a r k s) = idem s" "objs (post c a r k s) = objs s"
  by (simp_all add: ensureWallet_def Let_def upd_wallet_def post_def)

lemma ledger_sum_post [simp]: "ledger_sum i (post c a r k s) = ledger_sum i s + (if i = c then a else 0)"
  by (simp add: ledger_sum_def post_def)

lemma ledger_sum_cong: "ledger s' = ledger s \<Longrightarrow> ledger_sum i s' = ledger_sum i s"
  by (simp add: ledger_sum_def)

lemma wallet_reads_cong: "wallets s' = wallets s \<Longrightarrow> balance_of i s' = balance_of i s \<and> reserved_of i s' = reserved_of i s \<and> opening_of i s' = opening_of i s"
  by (simp add: balance_of_def reserved_of_def opening_of_def)

text \<open>The books only depend on the wallets, the ledger and the pending timers.\<close>

lemma booked_cong:
  assumes "wallets s' = wallets s" "ledger s' = ledger s" "\<And>i. pending i s' = pending i s" "timers_ok s' = timers_ok s"
  shows "booked h s' = booked h s"
  using assms wallet_reads_cong [OF assms(1)] ledger_sum_cong [OF assms(2)] by (simp add: booked_def)

lemma map_of_upd_wallet: "map_of (wallets (upd_wallet c f s)) i = (if i = c then map_option f (map_of (wallets s) i) else map_of (wallets s) i)"
  by (simp add: upd_wallet_def AList.map_of_map_entry split: option.split)

lemma map_of_ensureWallet:
  "map_of (wallets (ensureWallet now c s)) i =
     (if i = c \<and> map_of (wallets s) c = None
      then Some (let opening = (case parseAmount (openingBalance (cfg s)) of Some n \<Rightarrow> n | None \<Rightarrow> 0) in \<lparr>w_balance = opening, w_reserved = 0, w_opening = opening, w_createdAt = now\<rparr>)
      else map_of (wallets s) i)"
  by (simp add: ensureWallet_def Let_def AList.update_conv')

lemma wallet_exists: "\<exists>w. map_of (wallets (ensureWallet now c s)) c = Some w"
  by (auto simp: map_of_ensureWallet)

lemma distinct_wallets [simp]:
  "distinct (map fst (wallets s)) \<Longrightarrow> distinct (map fst (wallets (upd_wallet c f s)))"
  "distinct (map fst (wallets s)) \<Longrightarrow> distinct (map fst (wallets (ensureWallet now c s)))"
  by (simp_all add: upd_wallet_def AList.distinct_map_entry ensureWallet_def Let_def AList.distinct_update)

lemma pending_wallet [simp]:
  "pending i (ensureWallet now c s) = pending i s" "timers_ok (ensureWallet now c s) = timers_ok s"
  "pending i (upd_wallet c f s) = pending i s" "timers_ok (upd_wallet c f s) = timers_ok s"
  "pending i (post c a r k s) = pending i s" "timers_ok (post c a r k s) = timers_ok s"
  by (simp_all add: pending_def timers_ok_def)

lemma ensured_reads:
  "balance_of i (ensureWallet now c s) - opening_of i (ensureWallet now c s) = balance_of i s - opening_of i s"
  "reserved_of i (ensureWallet now c s) = reserved_of i s"
  by (auto simp: balance_of_def opening_of_def reserved_of_def map_of_ensureWallet Let_def)

lemma booked_ensure [simp]: "booked h s \<Longrightarrow> booked h (ensureWallet now c s)"
proof -
  assume b: "booked h s"
  have "balance_of i (ensureWallet now c s) = opening_of i (ensureWallet now c s) + ledger_sum i (ensureWallet now c s)" for i
    using b ensured_reads(1) [of i now c s] ledger_sum_cong [of "ensureWallet now c s" s i] unfolding booked_def by (smt (verit) wallet_frame(4))
  then show ?thesis using b by (simp add: booked_def ensured_reads(2))
qed

text \<open>A change of a wallet together with its ledger entry.\<close>

lemma booked_move:
  assumes "booked h s" and "map_of (wallets s) c = Some w"
    and "w_balance (f w) = w_balance w + a" "w_opening (f w) = w_opening w" "w_reserved (f w) = w_reserved w + d"
  shows "booked (h(c := h c + d)) (post c a r k (upd_wallet c f s))"
proof -
  let ?s = "post c a r k (upd_wallet c f s)"
  have "balance_of i ?s = balance_of i s + (if i = c then a else 0)" "opening_of i ?s = opening_of i s"
    "reserved_of i ?s = reserved_of i s + (if i = c then d else 0)" "ledger_sum i ?s = ledger_sum i s + (if i = c then a else 0)" for i
    using assms(2-5) ledger_sum_cong [of "upd_wallet c f s" s i]
    by (auto simp: balance_of_def opening_of_def reserved_of_def map_of_upd_wallet)
  then show ?thesis using assms(1) by (simp add: booked_def algebra_simps)
qed

lemma booked_release: "booked h s \<Longrightarrow> 0 \<le> p \<Longrightarrow> booked (h(c := h c - p)) (release_reserved c p s)"
proof -
  assume b: "booked h s" and "0 \<le> p"
  let ?s = "release_reserved c p s"
  have "balance_of i ?s = balance_of i s" "opening_of i ?s = opening_of i s" "ledger_sum i ?s = ledger_sum i s" "pending i ?s = pending i s" for i
    by (auto simp: release_reserved_def balance_of_def opening_of_def map_of_upd_wallet ledger_sum_def split: option.split)
  moreover have "reserved_of i s - (if i = c then p else 0) \<le> reserved_of i ?s" for i
    using \<open>0 \<le> p\<close> by (auto simp: release_reserved_def reserved_of_def map_of_upd_wallet split: option.split)
  ultimately have "pending i ?s + (h(c := h c - p)) i \<le> reserved_of i ?s" for i using b unfolding booked_def by (smt (verit) fun_upd_apply)
  moreover have "timers_ok ?s" "distinct (map fst (wallets ?s))" using b by (simp_all add: booked_def release_reserved_def)
  ultimately show ?thesis using b \<open>\<And>i. balance_of i ?s = balance_of i s\<close> \<open>\<And>i. opening_of i ?s = opening_of i s\<close> \<open>\<And>i. ledger_sum i ?s = ledger_sum i s\<close>
    unfolding booked_def by simp
qed

lemma booked_later: "booked h s \<Longrightarrow> (\<And>i. 0 \<le> held i a) \<Longrightarrow> booked (\<lambda>i. h i - held i a) (later now ms a s)"
proof -
  assume b: "booked h s" and "\<And>i. 0 \<le> held i a"
  moreover have "balance_of i (later now ms a s) = balance_of i s" "opening_of i (later now ms a s) = opening_of i s" "reserved_of i (later now ms a s) = reserved_of i s"
    "ledger_sum i (later now ms a s) = ledger_sum i s" for i using wallet_reads_cong [of "later now ms a s" s i] by (simp_all add: ledger_sum_def)
  ultimately show ?thesis by (simp add: booked_def)
qed

lemma booked_quiet [simp]:
  "booked h (count f s) = booked h s" "booked h (noteVolume c a b s) = booked h s" "booked h (register x s) = booked h s"
  "booked h (emit L now c ty d s) = booked h s" "booked h (upd_obj i g s) = booked h s" "booked h (setStatus L now i st ty fin rs s) = booked h s"
  by (rule booked_cong; simp)+

lemma booked_credit: "booked h s \<Longrightarrow> booked h (credit now c a r k s)"
proof -
  assume b: "booked h s"
  obtain w where "map_of (wallets (ensureWallet now c s)) c = Some w" using wallet_exists by blast
  from booked_move [OF booked_ensure [OF b] this, of "\<lambda>w. w\<lparr>w_balance := w_balance w + a\<rparr>" a 0] show ?thesis by (simp add: credit_def)
qed

lemma booked_debit:
  assumes "booked h s" "\<not> raceBug (cfg s)" "debit now seen c a r k rsv s = (e, s1)"
  shows "booked (if e = None \<and> rsv then h(c := h c + a) else h) s1"
proof -
  obtain w where w: "map_of (wallets (ensureWallet now c s)) c = Some w" using wallet_exists by blast
  let ?f = "\<lambda>w. w\<lparr>w_balance := balance_of c (ensureWallet now c s) - a, w_reserved := w_reserved w + (if rsv then a else 0)\<rparr>"
  have "w_balance w = balance_of c (ensureWallet now c s)" using w by (simp add: balance_of_def)
  from booked_move [OF booked_ensure [OF assms(1)] w, of ?f "- a" "if rsv then a else 0"] this
  have "booked (h(c := h c + (if rsv then a else 0))) (post c (- a) r k (upd_wallet c ?f (ensureWallet now c s)))" by simp
  then show ?thesis using assms(1,2,3) by (cases rsv) (auto simp: debit_def Let_def split: if_splits)
qed

lemma debit_frame:
  assumes "debit now seen c a r k rsv s = (e, s1)"
  shows "cfg s1 = cfg s" "effects s1 = effects s" "txs s1 = txs s" "idem s1 = idem s" "objs s1 = objs s" "epoch s1 = epoch s" "timers s1 = timers s"
  using assms by (auto simp: debit_def Let_def split: if_splits)

lemma credit_frame [simp]:
  "cfg (credit now c a r k s) = cfg s" "effects (credit now c a r k s) = effects s" "txs (credit now c a r k s) = txs s" "idem (credit now c a r k s) = idem s"
  "objs (credit now c a r k s) = objs s"
  by (simp_all add: credit_def)

section \<open>No payment takes effect twice\<close>

definition once :: "sim \<Rightarrow> bool" where
  "once s \<longleftrightarrow> distinct (map fst (effects s)) \<and> (\<forall>k n. map_of (effects s) k = Some n \<longrightarrow> n \<le> 1 \<and> tx_at k s \<noteq> None)"

lemma tx_at_cong: "txs s' = txs s \<Longrightarrow> objs s' = objs s \<Longrightarrow> tx_at k s' = tx_at k s"
  by (simp add: tx_at_def)

lemma once_cong: "effects s' = effects s \<Longrightarrow> txs s' = txs s \<Longrightarrow> objs s' = objs s \<Longrightarrow> once s' = once s"
  by (simp add: once_def tx_at_def)

lemma tx_at_upd_obj:
  assumes "\<And>x. x_id (f x) = x_id x" shows "(tx_at k (upd_obj i f s) = None) = (tx_at k s = None)"
proof -
  have "(\<exists>x \<in> set (upd_where (\<lambda>x. x_id x = i) f (objs s)). x_id x = j) \<longleftrightarrow> (\<exists>x \<in> set (objs s). x_id x = j)" for j
    using assms by (auto simp: set_upd_where)
  then show ?thesis unfolding tx_at_def upd_obj_def by (cases "map_of (txs s) k") (auto simp: find_eq_None)
qed

lemma once_upd_obj: "(\<And>x. x_id (f x) = x_id x) \<Longrightarrow> once (upd_obj i f s) = once s"
  using tx_at_upd_obj [of f _ i s] by (simp add: once_def)

lemma once_quiet [simp]:
  "once (count f s) = once s" "once (noteVolume c a b s) = once s" "once (emit L now c ty d s) = once s" "once (later now ms act s) = once s"
  "once (set_timer now q act s) = once s" "once (ensureWallet now c s) = once s" "once (upd_wallet c g s) = once s" "once (post c m r k s) = once s"
  "once (credit now c m r k s) = once s"
  by (rule once_cong; simp)+

lemma once_setStatus [simp]: "once (setStatus L now i st ty fin rs s) = once s"
  using setStatus_cases [OF refl, of L now i st ty fin rs s] by (elim disjE exE) (simp_all add: once_upd_obj)

lemma once_register:
  assumes "once s" "\<not> idempotencyBroken (cfg s)" "tx_at (tx_key (x_kind x) (x_credential x) (x_reference x)) s = None"
  shows "once (register x s)"
proof -
  let ?b = "tx_key (x_kind x) (x_credential x) (x_reference x)" and ?s = "register x s"
  have e: "effects ?s = bump_effect ?b (effects s)" "txs ?s = AList.update ?b (x_id x) (txs s)" "objs ?s = objs s @ [x]"
    using assms(2) by (simp_all add: register_def Let_def)
  have none: "map_of (effects s) ?b = None" using assms(1,3) unfolding once_def by (metis option.exhaust)
  have "tx_at k ?s \<noteq> None" if "k = ?b \<or> tx_at k s \<noteq> None" for k
    using that by (cases "map_of (txs s) k") (auto simp: tx_at_def e AList.update_conv' find_append find_eq_None split: option.splits)
  then show ?thesis using assms(1) none by (auto simp: once_def e bump_effect_def AList.update_conv' AList.distinct_update split: if_splits)
qed

section \<open>Requests\<close>

abbreviation books :: "sim \<Rightarrow> bool" where
  "books \<equiv> booked (\<lambda>_. 0)"

definition sound :: "sim \<Rightarrow> sim \<Rightarrow> bool" where
  "sound s s' \<longleftrightarrow> cfg s' = cfg s \<and> idem s' = idem s \<and> (books s \<longrightarrow> \<not> raceBug (cfg s) \<longrightarrow> books s') \<and>
     (once s \<longrightarrow> \<not> idempotencyBroken (cfg s) \<longrightarrow> once s')"

lemma sound_refl [simp]: "sound s s"
  by (simp add: sound_def)

lemma sound_trans: "sound s s1 \<Longrightarrow> sound s1 s2 \<Longrightarrow> sound s s2"
  by (simp add: sound_def)

lemma existing_None: "existing k c r h s = Inr None \<Longrightarrow> \<not> idempotencyBroken (cfg s) \<Longrightarrow> tx_at (tx_key k c r) s = None"
  by (auto simp: existing_def split: option.splits if_splits)

lemma amountOf_pos: "amountOf t = Inr a \<Longrightarrow> 0 < a"
  by (auto simp: amountOf_def parseAmount_def Let_def split: option.splits if_splits)

lemma fee_pos: "10 \<le> fee a s"
  by (simp add: fee_def)

lemma payer_pos: "0 < a \<Longrightarrow> 0 < fst (applyFee a (fee a s) b)"
  using fee_pos [of a s] by (cases b) (simp_all add: applyFee_def)

lemma booked_later0: "books s \<Longrightarrow> (\<And>i. held i a = 0) \<Longrightarrow> books (later now ms a s)"
  using booked_later [of "\<lambda>_. 0" s a now ms] by simp

lemma sound_quiet:
  "sound s s1 \<Longrightarrow> sound s (noteVolume c a b s1)" "sound s s1 \<Longrightarrow> sound s (emit L now c ty d s1)" "sound s s1 \<Longrightarrow> sound s (ensureWallet now c s1)"
  "sound s s1 \<Longrightarrow> sound s (credit now c m r k s1)" "sound s s1 \<Longrightarrow> (\<And>i. held i act = 0) \<Longrightarrow> sound s (later now ms act s1)"
  by (auto simp: sound_def booked_later0 intro: booked_credit)

lemma newTx_sound: "newTx now k c r a f p q h n s = (x, s1) \<Longrightarrow> sound s s1"
proof -
  assume n: "newTx now k c r a f p q h n s = (x, s1)"
  note f = newTx_frame [OF n]
  have "booked h s1 = booked h s" for h using f pending_cong [of s1 s] by (intro booked_cong) simp_all
  moreover have "once s1 = once s" using f by (intro once_cong)
  ultimately show ?thesis using f by (simp add: sound_def)
qed

lemma register_sound:
  assumes "sound s s1" "txs s1 = txs s" "objs s1 = objs s" "existing k c r h s = Inr None" "x_kind x = k" "x_credential x = c" "x_reference x = r"
  shows "sound s (register x s1)"
  using assms existing_None [OF assms(4)] tx_at_cong [OF assms(2,3)] by (auto simp: sound_def intro!: once_register)

lemma collection_sound:
  assumes "createCollection L now c b s = (r, s')" shows "sound s s'"
proof -
  have acc: "sound s (later now d1 (Collection_resolved (x_id x0) c rcp out) (later now d2 (Collection_dispatched (x_id x0))
      (emit L now c ty dt (noteVolume c a True (register (x0\<lparr>x_settlementStatus := Some Not_eligible\<rparr>) s1)))))"
    if "existing Collection c rf h s = Inr None" "newTx now Collection c rf a f p q h n s = (x0, s1)" for d1 x0 rcp out d2 ty dt a s1 rf h f p q n
    by (intro sound_quiet register_sound [OF newTx_sound [OF that(2)] _ _ that(1)]) (use newTx_frame [OF that(2)] in simp_all)
  show ?thesis using assms unfolding createCollection_def Let_def
    by (auto split: sum.splits option.splits prod.splits intro!: acc)
qed

lemma booked_mono: "booked h s \<Longrightarrow> (\<And>i. h' i \<le> h i) \<Longrightarrow> booked h' s"
  unfolding booked_def by (smt (verit, best))

text \<open>A reservation that a timer set next will release.\<close>

lemma reserve_then_later:
  assumes "booked ((\<lambda>_. 0)(c := p)) s" "\<And>i. held i act = (if i = c then p else 0)" "0 \<le> p"
  shows "books (later now ms act s)"
proof -
  have "booked (\<lambda>i. ((\<lambda>_. 0)(c := p)) i - held i act) (later now ms act s)" 
    by (rule booked_later [OF assms(1)]) (simp add: assms(2,3))
  moreover have "(\<lambda>i. ((\<lambda>_. 0)(c := p)) i - held i act) = (\<lambda>_. 0)" using assms(2) by auto
  ultimately show ?thesis by simp
qed

lemma assigned_fields [simp]:
  "x_kind (assigned b s x) = x_kind x" "x_credential (assigned b s x) = x_credential x" "x_reference (assigned b s x) = x_reference x"
  "x_id (assigned b s x) = x_id x"
  by (simp_all add: assigned_def)

lemma payout_begin_sound:
  assumes "payout_begin L now c b s = (p, s1)"
  shows "sound s s1 \<and> txs s1 = txs s \<and> objs s1 = objs s \<and>
    (\<forall>q x a py sn. p = Payout_ready q x a py sn \<longrightarrow> existing Payout c (q_reference q) (hashOf L b) s = Inr None \<and>
       x_kind x = Payout \<and> x_credential x = c \<and> x_reference x = q_reference q \<and> 0 < py)"
proof -
  have acc: "sound s (ensureWallet now c s0) \<and> txs s0 = txs s \<and> objs s0 = objs s \<and> x_kind x0 = Payout \<and> x_credential x0 = c \<and> x_reference x0 = rf"
    if "newTx now Payout c rf a f pr q h n s = (x0, s0)" for rf a f pr q h n x0 s0
    using newTx_frame [OF that] sound_quiet(3) [OF newTx_sound [OF that]] by simp
  show ?thesis using assms payer_pos unfolding payout_begin_def Let_def
    by (auto split: sum.splits option.splits prod.splits if_splits dest!: acc amountOf_pos)
qed

lemma sound_debit: "debit now sn c a r k False s = (e, s1) \<Longrightarrow> sound s s1"
  using booked_debit [of "\<lambda>_. 0" s now sn c a r k False e s1] debit_frame [of now sn c a r k False s e s1] once_cong [of s1 s]
  by (auto simp: sound_def)

lemma sound_debit_failed: "debit now sn c a r k rsv s = (Some e, s1) \<Longrightarrow> sound s s1"
  using booked_debit [of "\<lambda>_. 0" s now sn c a r k rsv "Some e" s1] debit_frame [of now sn c a r k rsv s "Some e" s1] once_cong [of s1 s]
  by (auto simp: sound_def)

text \<open>A successful reservation: the payment is entered and announced, and the timer set last releases it.\<close>

lemma reserved_sound:
  assumes "debit now sn c p r k True s = (None, s1)" "0 < p"
    and "\<not> idempotencyBroken (cfg s) \<Longrightarrow> tx_at (tx_key (x_kind x) (x_credential x) (x_reference x)) s = None"
    and "s2 = emit L now c ty dt (noteVolume c a False (register x s1))"
  shows "booked ((\<lambda>_. 0)(c := p)) s2 \<or> \<not> books s \<or> raceBug (cfg s)" "once s2 \<or> \<not> once s \<or> idempotencyBroken (cfg s)" "cfg s2 = cfg s" "idem s2 = idem s"
proof -
  note f = debit_frame [OF assms(1)]
  show "booked ((\<lambda>_. 0)(c := p)) s2 \<or> \<not> books s \<or> raceBug (cfg s)" using booked_debit [of "\<lambda>_. 0" s now sn c p r k True None s1] assms(1,4) by auto
  have "once (register x s1)" if "once s" "\<not> idempotencyBroken (cfg s)"
    using that assms(3) once_cong [of s1 s] tx_at_cong [of s1 s] f by (intro once_register) simp_all
  then show "once s2 \<or> \<not> once s \<or> idempotencyBroken (cfg s)" using assms(4) by auto
  show "cfg s2 = cfg s" "idem s2 = idem s" using f assms(4) by simp_all
qed

lemma payout_end_sound:
  assumes "payout_end L now c p s = (r, s')"
    and "\<And>q x a py sn. p = Payout_ready q x a py sn \<Longrightarrow> 0 < py \<and> x_kind x = Payout \<and> x_credential x = c \<and>
       (idempotencyBroken (cfg s) \<or> tx_at (tx_key (x_kind x) (x_credential x) (x_reference x)) s = None)"
  shows "sound s s'"
proof (cases p)
  case (Payout_ready q x a py sn)
  note h = assms(2) [OF this]
  obtain e s1 where d: "debit now sn c py (q_reference q) ''payout_reserve'' True s = (e, s1)" by (metis surj_pair)
  show ?thesis
  proof (cases e)
    case None
    define s2 where "s2 = emit L now c ''payout.accepted'' (view L (noteVolume c a False (register x s1)) x) (noteVolume c a False (register x s1))"
    note r = reserved_sound [OF d [unfolded None] _ _ s2_def]
    have r: "booked ((\<lambda>_. 0)(c := py)) s2 \<or> \<not> books s \<or> raceBug (cfg s)" "once s2 \<or> \<not> once s \<or> idempotencyBroken (cfg s)" "cfg s2 = cfg s" "idem s2 = idem s"
      using r h by blast+
    have weak: "books s2" if "booked ((\<lambda>_. 0)(c := py)) s2" using booked_mono [OF that, of "\<lambda>_. 0"] h by simp
    have a: "books (later now m1 (Payout_resolved (x_id x) c py g hf) (later now m2 (Payout_dispatching (x_id x)) (ensureWallet now c s2)))"
      if b: "booked ((\<lambda>_. 0)(c := py)) s2" for m1 m2 g hf
    proof (rule reserve_then_later)
      have "booked (\<lambda>i. ((\<lambda>_. 0)(c := py)) i - held i (Payout_dispatching (x_id x))) (later now m2 (Payout_dispatching (x_id x)) (ensureWallet now c s2))"
        by (rule booked_later [OF booked_ensure [OF b]]) simp
      then show "booked ((\<lambda>_. 0)(c := py)) (later now m2 (Payout_dispatching (x_id x)) (ensureWallet now c s2))" by (simp only: held.simps diff_0_right)
    qed (use h in auto)
    have "(\<exists>m. s' = later now m (Payout_in_review (x_id x)) s2) \<or>
        (\<exists>m1 m2 g hf. s' = later now m1 (Payout_resolved (x_id x) c py g hf) (later now m2 (Payout_dispatching (x_id x)) (ensureWallet now c s2)))"
      using assms(1) Payout_ready d None by (simp add: payout_end_def Let_def s2_def [symmetric] split: if_splits) blast+
    then show ?thesis using r weak a unfolding sound_def by (auto simp: booked_later0)
  next
    case (Some err)
    then show ?thesis using assms(1) Payout_ready d sound_debit_failed by (auto simp: payout_end_def)
  qed
qed (use assms(1) in \<open>auto simp: payout_end_def\<close>)

lemma payout_sound: "createPayout L now c b s = (r, s') \<Longrightarrow> sound s s'"
proof -
  assume a: "createPayout L now c b s = (r, s')"
  obtain p s1 where p: "payout_begin L now c b s = (p, s1)" by (metis surj_pair)
  note bg = payout_begin_sound [OF p]
  have "payout_end L now c p s1 = (r, s')" using a p by (simp add: createPayout_def)
  then have "sound s1 s'"
  proof (rule payout_end_sound)
    fix q x am py sn assume "p = Payout_ready q x am py sn"
    then have q: "existing Payout c (q_reference q) (hashOf L b) s = Inr None" "x_kind x = Payout" "x_credential x = c" "x_reference x = q_reference q" "0 < py"
      using bg by blast+
    have "cfg s1 = cfg s" "tx_at k s1 = tx_at k s" for k using bg tx_at_cong [of s1 s] by (simp_all add: sound_def)
    then show "0 < py \<and> x_kind x = Payout \<and> x_credential x = c \<and>
        (idempotencyBroken (cfg s1) \<or> tx_at (tx_key (x_kind x) (x_credential x) (x_reference x)) s1 = None)" using q existing_None [OF q(1)] by (metis (no_types))
  qed
  then show "sound s s'" using bg sound_trans by blast
qed

lemma batch_items_sound: "batch_items L now c rs s = (r, s') \<Longrightarrow> sound s s'"
proof (induction rs arbitrary: s r s')
  case (Cons q rs)
  obtain e s1 where p: "createPayout L now c (payout_json q) s = (e, s1)" by (metis surj_pair)
  obtain e2 s2 where b: "batch_items L now c rs s1 = (e2, s2)" by (metis surj_pair)
  have "s' = s1 \<or> s' = s2" using Cons.prems p b by (auto split: sum.splits sim_error.splits)
  then show ?case using payout_sound [OF p] Cons.IH [OF b] sound_trans by blast
qed simp

lemma sound_cong:
  assumes "cfg s' = cfg s" "idem s' = idem s" "wallets s' = wallets s" "ledger s' = ledger s" "timers s' = timers s" "epoch s' = epoch s"
    "effects s' = effects s" "txs s' = txs s" "objs s' = objs s"
  shows "sound s s'"
  using booked_cong [of s' s "\<lambda>_. 0"] once_cong [of s' s] pending_cong [of s' s] assms by (simp add: sound_def)

lemma batch_sound: "createPayoutBatch L now c b s = (r, s') \<Longrightarrow> sound s s'"
proof -
  assume a: "createPayoutBatch L now c b s = (r, s')"
  have fin: "sound s (s1\<lparr>seqno := n, batches := q\<rparr>)" if "batch_items L now c rs s = (e, s1)" for rs e s1 n q
    by (rule sound_trans [OF batch_items_sound [OF that]], rule sound_cong) simp_all
  from a show "sound s s'" unfolding createPayoutBatch_def Let_def
    by (auto split: sum.splits if_splits option.splits prod.splits intro: fin batch_items_sound)
qed

lemma utility_pos: "utility_refused r = Inr (p, a) \<Longrightarrow> 0 < a"
  by (auto simp: utility_refused_def dest!: amountOf_pos split: if_splits option.splits sum.splits)

text \<open>The timers of a purchase: what the last one holds is what was reserved, nothing when no wallet pays.\<close>

lemma utility_timers:
  assumes "funded \<Longrightarrow> booked ((\<lambda>_. 0)(c := g)) s" "\<not> funded \<Longrightarrow> books s" "0 \<le> g"
  shows "books (later now d2 (Utility_resolved i c g funded hf) (later now d1 (Utility_progress i funded) s))"
proof -
  have step: "booked h (later now d1 (Utility_progress i funded) s)" if "booked h s" for h
    using booked_later [OF that, of "Utility_progress i funded" now d1] by (simp only: held.simps diff_0_right order_refl)
  show ?thesis
  proof (cases funded)
    case True
    then show ?thesis using assms(3) by (intro reserve_then_later [OF step [OF assms(1)]]) auto
  next
    case False
    then show ?thesis by (intro booked_later0 step assms(2)) auto
  qed
qed

lemma utility_sound:
  assumes "createUtilityPurchase L now c b s = (r, s')" shows "sound s s'"
proof -
  have acc: "sound s (later now d2 (Utility_resolved i c (a + fee a s) funded hf) (later now d1 (Utility_progress i funded)
      (ensureWallet now c (emit L now c ty dt (noteVolume c a False (register (x0\<lparr>x_extra := ex\<rparr>) s2))))))"
    if n: "newTx now Utility_purchase c rf a f p q h nt s = (x0, s1)" and e: "existing Utility_purchase c rf h s = Inr None" and a: "0 < a"
      and d: "(if funded then debit now sn c (a + fee a s) rr k True s1 else (None, s1)) = (None, s2)"
    for x0 s1 s2 rf a f p q h nt d1 d2 i funded ty dt ex sn rr k hf
  proof -
    note nf = newTx_frame [OF n] and ns = newTx_sound [OF n]
    have g: "0 < a + fee a s" using a fee_pos [of a s] by simp
    let ?x = "x0\<lparr>x_extra := ex\<rparr>"
    define s3 where "s3 = emit L now c ty dt (noteVolume c a False (register ?x s2))"
    have key: "tx_at (tx_key (x_kind ?x) (x_credential ?x) (x_reference ?x)) s1 = None" if "\<not> idempotencyBroken (cfg s1)"
      using that existing_None [OF e] nf tx_at_cong [of s1 s] by simp
    have "cfg s3 = cfg s1 \<and> idem s3 = idem s1 \<and> (books s1 \<longrightarrow> \<not> raceBug (cfg s1) \<longrightarrow> (if funded then booked ((\<lambda>_. 0)(c := a + fee a s)) s3 else books s3)) \<and>
        (once s1 \<longrightarrow> \<not> idempotencyBroken (cfg s1) \<longrightarrow> once s3)"
    proof (cases funded)
      case True
      then have "debit now sn c (a + fee a s) rr k True s1 = (None, s2)" using d by simp
      from reserved_sound [OF this g key s3_def] show ?thesis using True by auto
    next
      case False
      then show ?thesis using d key once_register [of s1 ?x] by (auto simp: s3_def)
    qed
    then show ?thesis unfolding s3_def [symmetric] using ns g by (auto simp: sound_def intro!: utility_timers booked_ensure)
  qed
  have fail: "sound s s2" if "newTx now Utility_purchase c rf a f p q h nt s = (x0, s1)" "(if funded then debit now sn c g rr k True s1 else (None, s1)) = (Some e, s2)"
    for rf a f p q h nt x0 s1 funded sn g rr k e s2
    using that sound_trans [OF newTx_sound [OF that(1)] sound_debit_failed] by (auto split: if_splits)
  show ?thesis
  proof (cases "\<exists>q p a. sim_parse L UtilityPurchaseRequestSchema b = Inr q \<and> utility_refused q = Inr (p, a) \<and>
      existing Utility_purchase c (z_reference q) (hashOf L b) s = Inr None \<and> checkLimits c a False s = None")
    case True
    then obtain q p a where q: "sim_parse L UtilityPurchaseRequestSchema b = Inr q" "utility_refused q = Inr (p, a)"
      "existing Utility_purchase c (z_reference q) (hashOf L b) s = Inr None" "checkLimits c a False s = None" by blast
    obtain x0 s1 where n: "newTx now Utility_purchase c (z_reference q) a (fee a s) None (z_msisdn q) (hashOf L b) None s = (x0, s1)" by (metis surj_pair)
    obtain e s2 where d: "(if z_wallet q then debit now (balance_of c (ensureWallet now c s1)) c (a + fee a s) (z_reference q) ''utility_reserve'' True s1
        else (None, s1)) = (e, s2)" by (metis surj_pair)
    note op = assms [unfolded createUtilityPurchase_def Let_def q sum.case prod.case option.case n d]
    show ?thesis
    proof (cases e)
      case None
      then have "s' = later now (resolveDelayMs (cfg s)) (Utility_resolved (x_id (x0\<lparr>x_extra := Some (utility_extra q)\<rparr>)) c (a + fee a s) (z_wallet q) (resolveDelayMs (cfg s) div 2))
          (later now (resolveDelayMs (cfg s) div 2) (Utility_progress (x_id (x0\<lparr>x_extra := Some (utility_extra q)\<rparr>)) (z_wallet q))
            (ensureWallet now c (emit L now c ''utility_purchase.accepted'' (utilityView L (x0\<lparr>x_extra := Some (utility_extra q)\<rparr>))
              (noteVolume c a False (register (x0\<lparr>x_extra := Some (utility_extra q)\<rparr>) s2)))))"
        using op by simp
      then show ?thesis using acc [OF n q(3) utility_pos [OF q(2)] d [unfolded None]] by simp
    next
      case (Some err)
      then show ?thesis using op fail [OF n d [unfolded Some]] by simp
    qed
  next
    case False
    then have "s' = s" using assms unfolding createUtilityPurchase_def by (auto split: sum.splits option.splits)
    then show ?thesis by simp
  qed
qed

lemma transfer_sound:
  assumes "createTransfer L now c b s = (r, s')" shows "sound s s'"
proof -
  have acc: "sound s (emit L now c2 ty2 dt2 (emit L now c ty dt (noteVolume c a False
      (register (x0\<lparr>x_status := st, x_completedAt := Some now\<rparr>) (credit now hd2 a rr k2 s2)))))"
    if n: "newTx now Transfer c rf a f p q h nt s = (x0, s1)" and e: "existing Transfer c rf h s = Inr None"
      and d: "debit now sn c a rr k False s1 = (None, s2)" for rf a f p q h nt x0 s1 s2 sn rr k c2 ty2 dt2 ty dt st hd2 k2
    by (intro sound_quiet register_sound [OF sound_quiet(4) [OF sound_trans [OF newTx_sound [OF n] sound_debit [OF d]]] _ _ e])
      (use newTx_frame [OF n] debit_frame [OF d] in simp_all)
  show ?thesis using assms unfolding createTransfer_def Let_def
    by (auto split: sum.splits option.splits prod.splits if_splits intro!: acc intro: sound_trans [OF newTx_sound sound_debit])
qed

lemma zero_upd [simp]: "(\<lambda>_. 0 :: int)(c := 0) = (\<lambda>_. 0)"
  by auto

lemma settle_fold:
  "wallets (fold (\<lambda>x. upd_obj (x_id x) (\<lambda>y. y\<lparr>x_settlementStatus := q\<rparr>)) xs s) = wallets s \<and>
   cfg (fold (\<lambda>x. upd_obj (x_id x) (\<lambda>y. y\<lparr>x_settlementStatus := q\<rparr>)) xs s) = cfg s \<and>
   idem (fold (\<lambda>x. upd_obj (x_id x) (\<lambda>y. y\<lparr>x_settlementStatus := q\<rparr>)) xs s) = idem s \<and>
   booked h (fold (\<lambda>x. upd_obj (x_id x) (\<lambda>y. y\<lparr>x_settlementStatus := q\<rparr>)) xs s) = booked h s \<and>
   once (fold (\<lambda>x. upd_obj (x_id x) (\<lambda>y. y\<lparr>x_settlementStatus := q\<rparr>)) xs s) = once s"
  by (induction xs arbitrary: s) (simp_all add: once_upd_obj)

lemma settle_sound:
  assumes "settleNow L now c b s = (r, s')" shows "sound s s'"
proof -
  have seq: "sound s (s\<lparr>seqno := n\<rparr>)" for n by (rule sound_cong) simp_all
  have runs: "sound s (emit L now c ty dt (s2\<lparr>settlementRuns := q\<rparr>))" if "sound s s2" for s2 ty dt q
    by (intro sound_quiet sound_trans [OF that] sound_cong) simp_all
  have pay: "sound s (post c (- net) i k (upd_wallet c (\<lambda>w. w\<lparr>w_balance := w_balance w - net\<rparr>)
      (ensureWallet now c (fold (\<lambda>x. upd_obj (x_id x) (\<lambda>y. y\<lparr>x_settlementStatus := q\<rparr>)) due (s\<lparr>seqno := n\<rparr>)))))" for net i k q due n
  proof -
    let ?f = "fold (\<lambda>x. upd_obj (x_id x) (\<lambda>y. y\<lparr>x_settlementStatus := q\<rparr>)) due (s\<lparr>seqno := n\<rparr>)"
    note f = settle_fold [of q due "s\<lparr>seqno := n\<rparr>"]
    obtain w where w: "map_of (wallets (ensureWallet now c ?f)) c = Some w" using wallet_exists by blast
    have "books (post c (- net) i k (upd_wallet c (\<lambda>w. w\<lparr>w_balance := w_balance w - net\<rparr>) (ensureWallet now c ?f)))" if "books ?f"
      using booked_move [OF booked_ensure [OF that] w, of "\<lambda>w. w\<lparr>w_balance := w_balance w - net\<rparr>" "- net" 0 i k] by simp
    then show ?thesis using f seq [of n] by (auto simp: sound_def)
  qed
  show ?thesis using assms unfolding settleNow_def Let_def
    by (auto split: sum.splits option.splits if_splits intro!: runs intro: pay seq)
qed

lemma checkout_sound: "createCheckout L now c b s = (r, s') \<Longrightarrow> sound s s'"
  unfolding createCheckout_def Let_def by (auto split: sum.splits option.splits if_splits intro!: sound_cong)

lemma cancel_sound: "cancelCheckout L c i s = (r, s') \<Longrightarrow> sound s s'"
  unfolding cancelCheckout_def Let_def by (auto split: sum.splits option.splits if_splits intro!: sound_cong)

lemma putPolicy_sound: "putPolicy L b s = (r, s') \<Longrightarrow> sound s s'"
  unfolding putPolicy_def Let_def by (auto split: sum.splits option.splits if_splits intro!: sound_cong)

lemma endpoint_sound: "run_endpoint L now c ep b s = (r, s') \<Longrightarrow> sound s s'"
  by (cases ep) (auto intro: collection_sound payout_sound batch_sound utility_sound transfer_sound checkout_sound cancel_sound settle_sound)

section \<open>The idempotency store\<close>

text \<open>What an operation may do: keep the books, enter no payment twice, and forget no finished request.\<close>

definition finished :: "string \<Rightarrow> idem_entry \<Rightarrow> sim \<Rightarrow> bool" where
  "finished k e s \<longleftrightarrow> map_of (idem s) k = Some e \<and> ie_reply e \<noteq> None"

definition safe :: "sim \<Rightarrow> sim \<Rightarrow> bool" where
  "safe s s' \<longleftrightarrow> cfg s' = cfg s \<and> (books s \<longrightarrow> \<not> raceBug (cfg s) \<longrightarrow> books s') \<and> (once s \<longrightarrow> \<not> idempotencyBroken (cfg s) \<longrightarrow> once s') \<and>
     (\<forall>k e. finished k e s \<longrightarrow> finished k e s')"

lemma safe_trans: "safe s s1 \<Longrightarrow> safe s1 s2 \<Longrightarrow> safe s s2"
  by (simp add: safe_def)

lemma sound_safe: "sound s s' \<Longrightarrow> safe s s'"
  by (simp add: sound_def safe_def finished_def)

lemma safe_refl [simp]: "safe s s"
  by (simp add: safe_def)

lemma sound_idem: "sound (s\<lparr>idem := q\<rparr>) s1 \<Longrightarrow> cfg s1 = cfg s \<and> idem s1 = q \<and> (books s \<longrightarrow> \<not> raceBug (cfg s) \<longrightarrow> books s1) \<and>
    (once s \<longrightarrow> \<not> idempotencyBroken (cfg s) \<longrightarrow> once s1)"
  using booked_cong [of "s\<lparr>idem := q\<rparr>" s "\<lambda>_. 0"] once_cong [of "s\<lparr>idem := q\<rparr>" s] pending_cong [of "s\<lparr>idem := q\<rparr>" s] by (auto simp: sound_def)

lemma idem_update: "booked h (s\<lparr>idem := q\<rparr>) = booked h s" "once (s\<lparr>idem := q\<rparr>) = once s"
  using booked_cong [of "s\<lparr>idem := q\<rparr>" s h] once_cong [of "s\<lparr>idem := q\<rparr>" s] pending_cong [of "s\<lparr>idem := q\<rparr>" s] by auto

lemma idempotent_fresh:
  assumes "idempotent L c key b run s = (r, s')" and "\<And>s0 r1 s1. run s0 = (r1, s1) \<Longrightarrow> sound s0 s1"
  obtains (same) "s' = s" | (bare) "sound s s'"
  | (ran) ky s1 q where "key = Some ky" "map_of (idem s) (c @ '':'' @ ky) = None" "s' = s1\<lparr>idem := q\<rparr>" "cfg s1 = cfg s"
      "\<And>k. k \<noteq> c @ '':'' @ ky \<Longrightarrow> map_of q k = map_of (idem s) k"
      "books s \<longrightarrow> \<not> raceBug (cfg s) \<longrightarrow> books s1" "once s \<longrightarrow> \<not> idempotencyBroken (cfg s) \<longrightarrow> once s1"
      "\<And>rp. r = Inr rp \<Longrightarrow> map_of q (c @ '':'' @ ky) = Some \<lparr>ie_hash = hashOf L b, ie_reply = Some rp\<rparr>"
proof -
  consider "s' = s" | "run s = (r, s')"
    | ky where "key = Some ky" "map_of (idem s) (c @ '':'' @ ky) = None" "\<not> (ky = [] \<or> IDEMPOTENCY_KEY_MAX < js_length ky)" "\<not> idempotencyBroken (cfg s)"
    using assms(1) unfolding idempotent_def Let_def by (auto split: option.splits if_splits)
  then show thesis
  proof cases
    case (3 ky)
    let ?k = "c @ '':'' @ ky" and ?h = "hashOf L b"
    let ?q = "AList.update ?k \<lparr>ie_hash = ?h, ie_reply = None\<rparr> (idem s)"
    obtain r1 s1 where rn: "run (s\<lparr>idem := ?q\<rparr>) = (r1, s1)" by (metis surj_pair)
    note sd = sound_idem [OF assms(2) [OF rn]]
    have upd: "map_of (AList.update ?k v ?q) k = (if k = ?k then Some v else map_of (idem s) k)"
      "map_of (AList.delete ?k ?q) k = (if k = ?k then None else map_of (idem s) k)" for k v
      by (simp_all add: AList.update_conv' AList.delete_conv')
    have id: "idem s1 = ?q" using sd by simp
    have "\<exists>q. s' = s1\<lparr>idem := q\<rparr> \<and> (\<forall>k. k \<noteq> ?k \<longrightarrow> map_of q k = map_of (idem s) k) \<and>
        (\<forall>rp. r = Inr rp \<longrightarrow> map_of q ?k = Some \<lparr>ie_hash = ?h, ie_reply = Some rp\<rparr>)"
    proof (cases r1)
      case (Inr rp)
      then have "r = Inr rp" "s' = s1\<lparr>idem := AList.update ?k \<lparr>ie_hash = ?h, ie_reply = Some rp\<rparr> ?q\<rparr>"
        using assms(1) 3 rn id by (simp_all add: idempotent_def Let_def)
      then show ?thesis using upd by (intro exI [of _ "AList.update ?k \<lparr>ie_hash = ?h, ie_reply = Some rp\<rparr> ?q"]) simp
    next
      case (Inl err)
      then have "r = Inl err" "(\<exists>v. s' = s1\<lparr>idem := AList.update ?k v ?q\<rparr>) \<or> s' = s1\<lparr>idem := AList.delete ?k ?q\<rparr>"
        using assms(1) 3 rn id by (cases err; auto simp: idempotent_def Let_def split: if_splits)+
      then obtain q where "r = Inl err" "s' = s1\<lparr>idem := q\<rparr>" "(\<exists>v. q = AList.update ?k v ?q) \<or> q = AList.delete ?k ?q" by blast
      then show ?thesis using upd by (intro exI [of _ q]) auto
    qed
    then obtain q where "s' = s1\<lparr>idem := q\<rparr>" "\<And>k. k \<noteq> ?k \<Longrightarrow> map_of q k = map_of (idem s) k"
      "\<And>rp. r = Inr rp \<Longrightarrow> map_of q ?k = Some \<lparr>ie_hash = ?h, ie_reply = Some rp\<rparr>" by blast
    then show thesis using ran [of ky q s1] 3 sd by blast
  next
    case 1
    then show thesis by (rule same)
  next
    case 2
    then show thesis by (intro bare assms(2))
  qed
qed

lemma idempotent_safe:
  assumes "idempotent L c key b run s = (r, s')" and "\<And>s0 r1 s1. run s0 = (r1, s1) \<Longrightarrow> sound s0 s1"
  shows "safe s s'"
proof (rule idempotent_fresh [OF assms])
  fix ky s1 q
  assume a: "map_of (idem s) (c @ '':'' @ ky) = None" "s' = s1\<lparr>idem := q\<rparr>" "cfg s1 = cfg s" "\<And>k. k \<noteq> c @ '':'' @ ky \<Longrightarrow> map_of q k = map_of (idem s) k"
    "books s \<longrightarrow> \<not> raceBug (cfg s) \<longrightarrow> books s1" "once s \<longrightarrow> \<not> idempotencyBroken (cfg s) \<longrightarrow> once s1"
  have "finished k e s'" if "finished k e s" for k e using that a(1,2,4) by (cases "k = c @ '':'' @ ky") (auto simp: finished_def)
  then show ?thesis using a by (auto simp: safe_def idem_update)
qed (auto intro: sound_safe)

section \<open>Every step\<close>

lemma post_endpoint_safe: "post_endpoint L now c key ep b s = (r, s') \<Longrightarrow> safe s s'"
  by (cases b) (auto simp: post_endpoint_def intro: idempotent_safe endpoint_sound)

lemma draw_sound: "sound s s0 \<Longrightarrow> sound s (snd (rand s0))" "sound s s0 \<Longrightarrow> sound s (snd (chance p s0))" "sound s s0 \<Longrightarrow> sound s (count f s0)"
  using sound_trans [OF _ sound_cong, of s s0] by simp_all

text \<open>Faults only draw random numbers and count.\<close>

lemma faults_ind:
  assumes "P s" "\<And>x. P x \<Longrightarrow> P (snd (rand x))" "\<And>x p. P x \<Longrightarrow> P (snd (chance p x))" "\<And>x f. P x \<Longrightarrow> P (count f x)"
  shows "P (snd (applyFaults s))"
proof -
  define s0 where "s0 = count (\<lambda>n. n\<lparr>n_requests := Suc (n_requests n)\<rparr>) s"
  define t where "t = snd (chance (timeoutRate (cfg s0)) (snd (chance (tailProbability (cfg s0)) (snd (rand s0)))))"
  define e where "e = snd (chance (errorRate (cfg s0)) t)"
  have "P t" "P e" unfolding t_def e_def s0_def by (intro assms)+
  moreover obtain b1 b2 where b: "chance (timeoutRate (cfg s0)) (snd (chance (tailProbability (cfg s0)) (snd (rand s0)))) = (b1, t)" "chance (errorRate (cfg s0)) t = (b2, e)"
    unfolding t_def e_def by (metis prod.collapse)
  moreover have "snd (applyFaults s) = count (\<lambda>n. n\<lparr>n_injectedTimeouts := Suc (n_injectedTimeouts n)\<rparr>) t \<or> snd (applyFaults s) = e \<or>
      snd (applyFaults s) = snd (rand (count (\<lambda>n. n\<lparr>n_injectedErrors := Suc (n_injectedErrors n)\<rparr>) e))"
    unfolding applyFaults_def Let_def s0_def [symmetric] b prod.case by (cases b1; cases b2; simp add: injected_error_def split_beta)
  ultimately show ?thesis by (elim disjE) (simp_all add: assms(2-4))
qed

lemma faults_sound: "sound s (snd (applyFaults s))"
  by (rule faults_ind) (simp_all add: draw_sound)

lemma access_sound:
  "sound s (snd (shouldAmbiguousTimeout s))" "sound s (snd (takeRateToken now key s))" "sound s (snd (sim_authenticate now header s))"
  "sound s (snd (issueToken L now form s))"
proof -
  have b: "sound s (s\<lparr>buckets := q\<rparr>)" for q by (rule sound_cong) simp_all
  have t: "sound s (s\<lparr>drawn := n, tokens := q\<rparr>)" for n q by (rule sound_cong) simp_all
  have e: "sound s (ensureWallet now c s)" for c by (rule sound_quiet) simp
  show "sound s (snd (shouldAmbiguousTimeout s))"
    by (simp add: shouldAmbiguousTimeout_def split_beta draw_sound)
  show "sound s (snd (takeRateToken now key s))" using b draw_sound(3) [OF b] by (auto simp: takeRateToken_def Let_def split_beta)
  show "sound s (snd (sim_authenticate now header s))" using e draw_sound(3) [OF sound_refl] by (auto simp: sim_authenticate_def Let_def split: option.split)
  show "sound s (snd (issueToken L now form s))"
    using sound_quiet(3) [OF draw_sound(3) [OF t]] by (auto simp: issueToken_def Let_def split: option.split)
qed

lemma handle_post_safe: "safe s (snd (handle_post L now header key ep b s))"
proof -
  obtain f s1 where f: "applyFaults s = (f, s1)" by (metis surj_pair)
  obtain a s2 where a: "sim_authenticate now header s1 = (a, s2)" by (metis surj_pair)
  have s1: "sound s s1" "sound s1 s2" using faults_sound [of s] access_sound(3) [of s1 now header] f a by auto
  note s2 = s1(1) sound_trans [OF s1]
  show ?thesis
  proof (cases "f = None \<and> (\<exists>c. a = Inr c)")
    case True
    then obtain c where c: "f = None" "a = Inr c" by blast
    obtain k s3 where k: "takeRateToken now (''cred:'' @ c) s2 = (k, s3)" by (metis surj_pair)
    have s3: "sound s s3" using sound_trans [OF s2(2) access_sound(2) [of s2 now "''cred:'' @ c"]] k by simp
    obtain r s4 where r: "post_endpoint L now c key ep b s3 = (r, s4)" by (metis surj_pair)
    have s4: "safe s s4" using safe_trans [OF sound_safe [OF s3] post_endpoint_safe [OF r]] .
    then have "safe s (snd (shouldAmbiguousTimeout s4))" using safe_trans sound_safe access_sound(1) by blast
    then show ?thesis using s3 s4 f a c k r unfolding handle_post_def
      by (auto simp: sound_safe split_beta split: option.split sum.split bool.split)
  next
    case False
    then show ?thesis using s2 f a unfolding handle_post_def by (cases f; cases a) (auto simp: sound_safe)
  qed
qed

lemma setBalance_sound: "sound s (snd (setBalance now c a s))"
proof (cases "parseAmount a")
  case (Some n)
  obtain w where w: "map_of (wallets (ensureWallet now c s)) c = Some w" using wallet_exists by blast
  have "w_balance w = balance_of c (ensureWallet now c s)" using w by (simp add: balance_of_def)
  then have "books (snd (setBalance now c a s))" if "books s"
    using booked_move [OF booked_ensure [OF that] w, of "\<lambda>w. w\<lparr>w_balance := n\<rparr>" "n - w_balance w" 0] Some by (simp add: setBalance_def Let_def)
  then show ?thesis using Some by (simp add: sound_def setBalance_def Let_def)
qed (simp add: setBalance_def)

text \<open>A timer that fires holds its amount until its action releases it or passes it on.\<close>

lemma fire_removed:
  assumes "i < length (timers s)" "books s"
  shows "booked (\<lambda>j. if tm_epoch (timers s ! i) = epoch s then held j (tm_action (timers s ! i)) else 0)
    (s\<lparr>timers := take i (timers s) @ drop (Suc i) (timers s)\<rparr>)"
proof -
  let ?t = "timers s ! i" and ?s = "s\<lparr>timers := take i (timers s) @ drop (Suc i) (timers s)\<rparr>"
  have ts: "timers s = take i (timers s) @ ?t # drop (Suc i) (timers s)" using assms(1) by (simp add: id_take_nth_drop)
  have p: "pending j s = pending j ?s + (if tm_epoch ?t = epoch s then held j (tm_action ?t) else 0)" for j
  proof -
    have "pending j s = sum_list (map (\<lambda>t. held j (tm_action t)) (filter (\<lambda>t. tm_epoch t = epoch s) (take i (timers s) @ ?t # drop (Suc i) (timers s))))"
      unfolding pending_def by (metis ts)
    then show ?thesis by (simp add: pending_def)
  qed
  have "set (take i (timers s) @ drop (Suc i) (timers s)) \<subseteq> set (timers s)" using set_take_subset set_drop_subset by fastforce
  then have "timers_ok ?s" using assms(2) by (auto simp: booked_def timers_ok_def)
  then show ?thesis using assms(2) p wallet_reads_cong [of ?s s] ledger_sum_cong [of ?s s] by (simp add: booked_def)
qed

lemma release_frame [simp]:
  "cfg (release_reserved c p s) = cfg s" "idem (release_reserved c p s) = idem s" "once (release_reserved c p s) = once s"
  "objs (release_reserved c p s) = objs s"
  by (simp_all add: release_reserved_def)

lemma booked_released: "booked (\<lambda>j. if c = j then p else 0) s \<Longrightarrow> 0 \<le> p \<Longrightarrow> books (release_reserved c p s)"
proof -
  assume "booked (\<lambda>j. if c = j then p else 0) s" "0 \<le> p"
  then have "booked ((\<lambda>j. if c = j then p else 0)(c := (if c = c then p else 0) - p)) (release_reserved c p s)" by (rule booked_release)
  moreover have "(\<lambda>j. if c = j then p else 0)(c := (if c = c then p else 0) - p) = (\<lambda>_. 0)" by auto
  ultimately show ?thesis by simp
qed

lemma booked_passed_on: "booked (\<lambda>j. held j a) s \<Longrightarrow> (\<And>j. 0 \<le> held j a) \<Longrightarrow> (\<And>j. held j b = held j a) \<Longrightarrow> books (later now ms b s)"
  using booked_later [of "\<lambda>j. held j a" s b now ms] by simp

lemma deliver_frame:
  "booked h (deliver now ok url en n s) = booked h s" "once (deliver now ok url en n s) = once s" "cfg (deliver now ok url en n s) = cfg s"
  "idem (deliver now ok url en n s) = idem s"
proof -
  have "booked h (set_timer now ms (Deliver url en m) s1) = booked h s1" for ms m s1
    by (rule booked_cong) (simp_all add: pending_set_timer timers_ok_set_timer)
  then show "booked h (deliver now ok url en n s) = booked h s" by (simp add: deliver_def)
qed (simp_all add: deliver_def)

lemma action_booked:
  assumes "booked (\<lambda>j. held j a) s" "\<And>j. 0 \<le> held j a"
  shows "books (run_action L now ok a s)"
proof (cases a)
  case (Payout_resolved i c p good half)
  have "0 \<le> p" using assms(2) [of c] Payout_resolved by simp
  moreover have "books (later now m (Payout_refunded i c p) (setStatus L now i st ty fin rs s))" for m st ty fin rs
    by (rule booked_passed_on [of a]) (use assms Payout_resolved in simp_all)
  ultimately show ?thesis using assms Payout_resolved by (simp add: booked_released)
next
  case (Utility_resolved i c g funded half)
  have "0 \<le> g" if funded using assms(2) [of c] that Utility_resolved by simp
  moreover have "books (later now m (Utility_refunded i c g) (setStatus L now i st ty fin rs s))" if funded for m st ty fin rs
    by (rule booked_passed_on [of a]) (use assms Utility_resolved that in simp_all)
  ultimately show ?thesis using assms(1) Utility_resolved by (cases funded) (simp_all add: booked_released Let_def)
next
  case (Payout_refunded i c p)
  then show ?thesis using assms(1) assms(2) [of c] by (simp add: booked_released booked_credit)
next
  case (Utility_refunded i c p)
  then show ?thesis using assms(1) assms(2) [of c] by (simp add: booked_released booked_credit)
qed (use assms(1) in \<open>simp_all add: booked_credit deliver_frame\<close>)

lemma action_frame:
  "cfg (run_action L now ok a s) = cfg s" "idem (run_action L now ok a s) = idem s" "once (run_action L now ok a s) = once s"
  by (cases a; simp add: deliver_frame Let_def once_upd_obj)+

lemma fire_sound: "sound s (fire L now ok i s)"
proof (cases "i < length (timers s) \<and> tm_due (timers s ! i) \<le> of_int now")
  case True
  define t where "t = timers s ! i"
  define s1 where "s1 = s\<lparr>timers := take i (timers s) @ drop (Suc i) (timers s)\<rparr>"
  have eq: "fire L now ok i s = (if tm_epoch t = epoch s then run_action L now ok (tm_action t) s1 else s1)"
    using True by (simp add: fire_def Let_def t_def s1_def)
  have f: "cfg s1 = cfg s" "idem s1 = idem s" "once s1 = once s" using once_cong [of s1 s] by (simp_all add: s1_def)
  have "books (fire L now ok i s)" if b: "books s"
  proof -
    have pos: "0 \<le> held j (tm_action t)" for j using True b by (auto simp: t_def booked_def timers_ok_def)
    have "booked (\<lambda>j. if tm_epoch t = epoch s then held j (tm_action t) else 0) s1" 
      unfolding t_def s1_def using fire_removed [OF _ b, of i] True by blast
    then show ?thesis using action_booked [OF _ pos] by (cases "tm_epoch t = epoch s") (simp_all add: eq)
  qed
  then show ?thesis using f by (simp add: sound_def eq action_frame)
next
  case False
  then show ?thesis by (auto simp: fire_def)
qed

lemma reset_books: "timers_ok s \<Longrightarrow> books (reset c s) \<and> once (reset c s)"
proof -
  assume t: "timers_ok s"
  then have "filter (\<lambda>x. tm_epoch x = Suc (epoch s)) (timers s) = []" by (auto simp: timers_ok_def filter_empty_conv)
  then have "pending i (reset c s) = 0" for i by (simp add: pending_def reset_def)
  moreover have "timers_ok (reset c s)" using t by (auto simp: timers_ok_def reset_def)
  ultimately show ?thesis
    by (simp add: booked_def once_def reset_def new_simulator_def balance_of_def opening_of_def reserved_of_def ledger_sum_def)
qed

lemma patch_frame [simp]: "booked h (patchConfig c s) = booked h s" "once (patchConfig c s) = once s" "idem (patchConfig c s) = idem s" "cfg (patchConfig c s) = c"
proof -
  show "booked h (patchConfig c s) = booked h s" using pending_cong [of "patchConfig c s" s] by (intro booked_cong) (simp_all add: patchConfig_def)
  show "once (patchConfig c s) = once s" by (rule once_cong) (simp_all add: patchConfig_def)
qed (simp_all add: patchConfig_def)

lemma new_simulator_ok: "books (new_simulator c)" "once (new_simulator c)"
  by (simp_all add: booked_def once_def new_simulator_def balance_of_def opening_of_def reserved_of_def ledger_sum_def pending_def timers_ok_def)

text \<open>The configurations an operation installs.\<close>

fun installs :: "sim_op \<Rightarrow> sim_config option" where
  "installs (Reset c) = Some c"
| "installs (Patch_config c) = Some c"
| "installs _ = None"

lemma step_safe: "installs op = None \<Longrightarrow> safe s (sim_step L (now, op) s)"
proof (cases op)
  case (Token_request ip form)
  then show ?thesis using sound_trans [OF access_sound(2) access_sound(4)] access_sound(2) by (auto simp: sound_safe split_beta split: option.split)
next
  case (Put_policy_request c key b)
  then show ?thesis using idempotent_safe [of L c key b "putPolicy L b" s] putPolicy_sound by (metis prod.collapse sim_step.simps(3))
next
  case Delete_policy
  then show ?thesis by (auto simp: deletePolicy_def intro!: sound_safe sound_cong)
next
  case (Get_wallet c)
  then show ?thesis by (simp add: wallet_view_def Let_def sound_safe sound_quiet)
qed (auto simp: handle_post_safe sound_safe setBalance_sound fire_sound)

section \<open>The properties\<close>

lemma run_books:
  assumes "\<And>x c. x \<in> set ops \<Longrightarrow> installs (snd x) = Some c \<Longrightarrow> \<not> raceBug c" "books s" "\<not> raceBug (cfg s)"
  shows "books (fold (sim_step L) ops s) \<and> \<not> raceBug (cfg (fold (sim_step L) ops s))"
  using assms
proof (induction ops arbitrary: s)
  case (Cons x ops)
  obtain now op where x: "x = (now, op)" by (cases x)
  have t: "timers_ok s" using Cons.prems(2) by (simp add: booked_def)
  have "books (sim_step L x s) \<and> \<not> raceBug (cfg (sim_step L x s))"
  proof (cases "installs op")
    case None
    then show ?thesis using step_safe [OF None, of s L now] Cons.prems(2,3) x by (simp add: safe_def)
  next
    case (Some c)
    moreover have "\<not> raceBug c" using Cons.prems(1) [of x] Some x by simp
    ultimately show ?thesis using Cons.prems(2) reset_books [OF t, of c] x by (cases op) (auto simp: reset_def new_simulator_def)
  qed
  then show ?case using Cons.IH [of "sim_step L x s"] Cons.prems(1) by auto
qed simp

lemma run_once:
  assumes "\<And>x c. x \<in> set ops \<Longrightarrow> installs (snd x) = Some c \<Longrightarrow> \<not> idempotencyBroken c" "once s" "\<not> idempotencyBroken (cfg s)"
  shows "once (fold (sim_step L) ops s) \<and> \<not> idempotencyBroken (cfg (fold (sim_step L) ops s))"
  using assms
proof (induction ops arbitrary: s)
  case (Cons x ops)
  obtain now op where x: "x = (now, op)" by (cases x)
  have fresh: "once (reset c s)" for c by (simp add: once_def reset_def new_simulator_def)
  have "once (sim_step L x s) \<and> \<not> idempotencyBroken (cfg (sim_step L x s))"
  proof (cases "installs op")
    case None
    then show ?thesis using step_safe [OF None, of s L now] Cons.prems(2,3) x by (simp add: safe_def)
  next
    case (Some c)
    moreover have "\<not> idempotencyBroken c" using Cons.prems(1) [of x] Some x by simp
    ultimately show ?thesis using Cons.prems(2) fresh x by (cases op) (auto simp: reset_def new_simulator_def)
  qed
  then show ?case using Cons.IH [of "sim_step L x s"] Cons.prems(1) by auto
qed simp

lemma no_drift: "books s \<Longrightarrow> ledgerDriftPesewas s = 0"
proof -
  assume b: "books s"
  have "drift kw s = 0" if "kw \<in> set (wallets s)" for kw
  proof -
    obtain k w where kw: "kw = (k, w)" by (cases kw)
    then have "map_of (wallets s) k = Some w" using b that by (simp add: booked_def)
    moreover have "balance_of k s = opening_of k s + ledger_sum k s" using b by (simp add: booked_def)
    ultimately show ?thesis by (simp add: drift_def balance_of_def opening_of_def kw)
  qed
  then have "map (\<lambda>kw. \<bar>drift kw s\<bar>) (wallets s) = map (\<lambda>_. 0) (wallets s)" by simp
  then show ?thesis unfolding ledgerDriftPesewas_def by (metis sum_list_0)
qed

lemma reserves_covered: "books s \<Longrightarrow> kw \<in> set (wallets s) \<Longrightarrow> pending (fst kw) s \<le> w_reserved (snd kw) \<and> 0 \<le> pending (fst kw) s"
proof -
  assume b: "books s" and kw: "kw \<in> set (wallets s)"
  then have "map_of (wallets s) (fst kw) = Some (snd kw)" by (simp add: booked_def)
  moreover have "pending (fst kw) s \<le> reserved_of (fst kw) s" using b by (auto simp: booked_def dest: spec [of _ "fst kw"])
  moreover have "0 \<le> pending (fst kw) s" using b unfolding pending_def booked_def timers_ok_def by (intro sum_list_nonneg) auto
  ultimately show ?thesis by (simp add: reserved_of_def)
qed

text \<open>C13. Without the deliberate race, whatever requests arrive, however timers fire and whenever the
  simulator is reset or reconfigured: the reconciliation view reports no drift between the balances and
  the ledger, and every wallet has reserved what its pending timers will release.\<close>

theorem ledger_reconciles:
  assumes "\<not> raceBug c" and "\<And>x c'. x \<in> set ops \<Longrightarrow> installs (snd x) = Some c' \<Longrightarrow> \<not> raceBug c'"
    and "s = fold (sim_step L) ops (new_simulator c)"
  shows "ledgerDriftPesewas s = 0 \<and> (\<forall>kw \<in> set (wallets s). 0 \<le> pending (fst kw) s \<and> pending (fst kw) s \<le> w_reserved (snd kw))"
proof -
  have "cfg (new_simulator c) = c" by (simp add: new_simulator_def)
  then have "books s" using run_books [of ops "new_simulator c" L] assms new_simulator_ok by simp
  then show ?thesis using no_drift reserves_covered by blast
qed


lemma run_finished:
  assumes "\<And>x c. x \<in> set ops \<Longrightarrow> (\<forall>c'. snd x \<noteq> Reset c') \<and> (installs (snd x) = Some c \<longrightarrow> \<not> idempotencyBroken c)" "finished k e s" "\<not> idempotencyBroken (cfg s)"
  shows "finished k e (fold (sim_step L) ops s) \<and> \<not> idempotencyBroken (cfg (fold (sim_step L) ops s))"
  using assms
proof (induction ops arbitrary: s)
  case (Cons x ops)
  obtain now op where x: "x = (now, op)" by (cases x)
  have "finished k e (sim_step L x s) \<and> \<not> idempotencyBroken (cfg (sim_step L x s))"
  proof (cases "installs op")
    case None
    then show ?thesis using step_safe [OF None, of s L now] Cons.prems(2,3) x by (simp add: safe_def)
  next
    case (Some c)
    then show ?thesis using Cons.prems(1) [of x c] Cons.prems(2) x by (cases op) (auto simp: finished_def)
  qed
  then show ?case using Cons.IH [of "sim_step L x s"] Cons.prems(1) by auto
qed simp


section \<open>Nobody overspends\<close>

text \<open>What a pending timer will pay into a wallet.\<close>

fun gain :: "action \<Rightarrow> int" where
  "gain (Collection_resolved i c recipient outcome) = recipient"
| "gain (Payout_resolved i c payer good half) = payer"
| "gain (Payout_refunded i c payer) = payer"
| "gain (Utility_resolved i c gross funded half) = gross"
| "gain (Utility_refunded i c gross) = gross"
| "gain _ = 0"

definition solvent :: "sim \<Rightarrow> bool" where
  "solvent s \<longleftrightarrow> (\<forall>i. 0 \<le> balance_of i s) \<and> (\<forall>t \<in> set (timers s). 0 \<le> gain (tm_action t))"

lemma solvent_cong: "wallets s' = wallets s \<Longrightarrow> timers s' = timers s \<Longrightarrow> solvent s' = solvent s"
  by (simp add: solvent_def balance_of_def)

lemma solvent_set_timer: "0 \<le> gain a \<Longrightarrow> solvent (set_timer now ms a s) = solvent s"
  by (auto simp: solvent_def balance_of_def set_timer_def)

lemma solvent_later: "0 \<le> gain a \<Longrightarrow> solvent (later now ms a s) = solvent s"
  by (simp add: later_def solvent_set_timer)

lemma solvent_emit [simp]: "solvent (emit L now c ty d s) = solvent s"
proof (rule emit_cases [of s L now c ty d])
  fix s2 a b url en
  assume "wallets s2 = wallets s" "timers s2 = timers s"
    and e: "emit L now c ty d s = s2 \<or> emit L now c ty d s = set_timer now a (Deliver url en 1) s2 \<or>
      emit L now c ty d s = set_timer now b (Deliver url en 1) (set_timer now a (Deliver url en 1) s2)"
  then have "solvent s2 = solvent s" by (intro solvent_cong)
  then show ?thesis using e by (elim disjE) (simp_all add: solvent_set_timer)
qed

lemma solvent_quiet [simp]:
  "solvent (count f s) = solvent s" "solvent (noteVolume c a b s) = solvent s" "solvent (register x s) = solvent s" "solvent (upd_obj i g s) = solvent s"
  "solvent (post c m r k s) = solvent s" "solvent (snd (rand s)) = solvent s" "solvent (snd (chance p s)) = solvent s" "solvent (patchConfig q s) = solvent s"
  by (rule solvent_cong; simp add: patchConfig_def)+

lemma solvent_setStatus [simp]: "solvent (setStatus L now i st ty fin rs s) = solvent s"
  using setStatus_cases [OF refl, of L now i st ty fin rs s] by (elim disjE exE) simp_all

lemma solvent_ensure [simp]: "solvent s \<Longrightarrow> solvent (ensureWallet now c s)"
  by (auto simp: solvent_def balance_of_def map_of_ensureWallet parseAmount_def Let_def split: option.splits if_splits)

lemma solvent_upd_wallet:
  "solvent s \<Longrightarrow> (\<And>w. map_of (wallets s) c = Some w \<Longrightarrow> 0 \<le> w_balance (f w)) \<Longrightarrow> solvent (upd_wallet c f s)"
  by (auto simp: solvent_def balance_of_def map_of_upd_wallet split: option.splits)

lemma solvent_release [simp]: "solvent s \<Longrightarrow> solvent (release_reserved c p s)"
  unfolding release_reserved_def by (rule solvent_upd_wallet) (auto simp: solvent_def balance_of_def dest: spec [of _ c])

lemma solvent_credit: "solvent s \<Longrightarrow> 0 \<le> a \<Longrightarrow> solvent (credit now c a r k s)"
proof -
  assume s: "solvent s" and a: "0 \<le> a"
  have "0 \<le> w_balance w" if "map_of (wallets (ensureWallet now c s)) c = Some w" for w
    using solvent_ensure [OF s, of now c] that by (auto simp: solvent_def balance_of_def dest: spec [of _ c])
  then show ?thesis using s a by (auto simp: credit_def intro!: solvent_upd_wallet)
qed

lemma solvent_debit: "debit now sn c a r k rsv s = (e, s1) \<Longrightarrow> \<not> raceBug (cfg s) \<Longrightarrow> solvent s \<Longrightarrow> solvent s1"
  by (auto simp: debit_def Let_def intro!: solvent_upd_wallet split: if_splits)

text \<open>The fee is borne by the initiator, so a collection pays in what was asked for.\<close>

definition thrifty :: "sim_config \<Rightarrow> bool" where
  "thrifty c \<longleftrightarrow> \<not> raceBug c \<and> feeBearer c = Initiator"

lemma collection_solvent:
  assumes "createCollection L now c b s = (r, s')" "thrifty (cfg s)" "solvent s" shows "solvent s'"
proof -
  have acc: "solvent (later now d1 (Collection_resolved i c (snd (applyFee a f2 (x_feeBearer x0))) out) (later now d2 (Collection_dispatched i)
      (emit L now c ty dt (noteVolume c a True (register (x0\<lparr>x_settlementStatus := q0\<rparr>) s1)))))"
    if "newTx now Collection c rf a f p q h n s = (x0, s1)" "0 < a" for d1 x0 out d2 ty dt a s1 rf h f p q n i f2 q0
  proof -
    note nf = newTx_frame [OF that(1)]
    have "solvent s1" using solvent_cong [of s1 s] nf assms(3) by simp
    moreover have "x_feeBearer x0 = Initiator" using nf assms(2) by (simp add: thrifty_def)
    ultimately show ?thesis using that(2) by (simp add: solvent_later applyFee_def)
  qed
  show ?thesis using assms(1,3) unfolding createCollection_def Let_def
    by (auto split: sum.splits option.splits prod.splits dest!: amountOf_pos intro!: acc)
qed

lemma payout_solvent:
  assumes "createPayout L now c b s = (r, s')" "thrifty (cfg s)" "solvent s" shows "solvent s'"
proof -
  obtain p s1 where p: "payout_begin L now c b s = (p, s1)" by (metis surj_pair)
  have e: "payout_end L now c p s1 = (r, s')" using assms(1) p by (simp add: createPayout_def)
  note bg = payout_begin_sound [OF p]
  have nt: "solvent (ensureWallet now c s0)" if "newTx now Payout c rf a f pr q h n s = (x0, s0)" for rf a f pr q h n x0 s0
    using newTx_frame [OF that] solvent_cong [of s0 s] assms(3) by simp
  have s1: "solvent s1" using p assms(3) unfolding payout_begin_def Let_def
    by (auto split: sum.splits option.splits prod.splits if_splits intro: nt)
  show ?thesis
  proof (cases p)
    case (Payout_ready q x a py sn)
    have py: "0 < py" using bg Payout_ready by blast
    obtain f s2 where d: "debit now sn c py (q_reference q) ''payout_reserve'' True s1 = (f, s2)" by (metis surj_pair)
    have "cfg s1 = cfg s" using bg by (simp add: sound_def)
    then have "solvent s2" using solvent_debit [OF d] s1 assms(2) by (simp add: thrifty_def)
    then show ?thesis using e Payout_ready d py unfolding payout_end_def Let_def
      by (auto simp: solvent_later split: option.splits if_splits)
  qed (use e s1 in \<open>auto simp: payout_end_def\<close>)
qed

lemma batch_items_solvent: "batch_items L now c rs s = (r, s') \<Longrightarrow> thrifty (cfg s) \<Longrightarrow> solvent s \<Longrightarrow> solvent s'"
proof (induction rs arbitrary: s r s')
  case (Cons q rs)
  obtain e s1 where p: "createPayout L now c (payout_json q) s = (e, s1)" by (metis surj_pair)
  obtain e2 s2 where b: "batch_items L now c rs s1 = (e2, s2)" by (metis surj_pair)
  have "s' = s1 \<or> s' = s2" using Cons.prems(1) p b by (auto split: sum.splits sim_error.splits)
  moreover have "solvent s1" using payout_solvent [OF p] Cons.prems by simp
  moreover have "cfg s1 = cfg s" using payout_sound [OF p] by (simp add: sound_def)
  ultimately show ?case using Cons.IH [OF b] Cons.prems(2) by auto
qed simp

lemma batch_solvent: "createPayoutBatch L now c b s = (r, s') \<Longrightarrow> thrifty (cfg s) \<Longrightarrow> solvent s \<Longrightarrow> solvent s'"
proof -
  assume a: "createPayoutBatch L now c b s = (r, s')" "thrifty (cfg s)" "solvent s"
  have fin: "solvent (s1\<lparr>seqno := n, batches := q\<rparr>)" if "batch_items L now c rs s = (e, s1)" for rs e s1 n q
    using batch_items_solvent [OF that a(2,3)] solvent_cong [of "s1\<lparr>seqno := n, batches := q\<rparr>" s1] by simp
  from a show "solvent s'" unfolding createPayoutBatch_def Let_def
    by (auto split: sum.splits if_splits option.splits prod.splits intro: fin batch_items_solvent)
qed

lemma utility_solvent:
  assumes "createUtilityPurchase L now c b s = (r, s')" "thrifty (cfg s)" "solvent s" shows "solvent s'"
proof (cases "\<exists>q p a. sim_parse L UtilityPurchaseRequestSchema b = Inr q \<and> utility_refused q = Inr (p, a) \<and>
    existing Utility_purchase c (z_reference q) (hashOf L b) s = Inr None \<and> checkLimits c a False s = None")
  case True
  then obtain q p a where q: "sim_parse L UtilityPurchaseRequestSchema b = Inr q" "utility_refused q = Inr (p, a)"
    "existing Utility_purchase c (z_reference q) (hashOf L b) s = Inr None" "checkLimits c a False s = None" by blast
  obtain x0 s1 where n: "newTx now Utility_purchase c (z_reference q) a (fee a s) None (z_msisdn q) (hashOf L b) None s = (x0, s1)" by (metis surj_pair)
  obtain e s2 where d: "(if z_wallet q then debit now (balance_of c (ensureWallet now c s1)) c (a + fee a s) (z_reference q) ''utility_reserve'' True s1
      else (None, s1)) = (e, s2)" by (metis surj_pair)
  note op = assms(1) [unfolded createUtilityPurchase_def Let_def q sum.case prod.case option.case n d]
  note nf = newTx_frame [OF n]
  have s1: "solvent s1" using solvent_cong [of s1 s] nf assms(3) by simp
  have "solvent s2" using d solvent_debit [of now _ c "a + fee a s" "z_reference q" "''utility_reserve''" True s1 e s2] s1 assms(2) nf(5)
    by (auto simp: thrifty_def split: if_splits)
  moreover have "0 < a + fee a s" using utility_pos [OF q(2)] fee_pos [of a s] by simp
  ultimately show ?thesis using op by (cases e) (auto simp: solvent_later)
next
  case False
  then have "s' = s" using assms(1) unfolding createUtilityPurchase_def by (auto split: sum.splits option.splits)
  then show ?thesis using assms(3) by simp
qed

lemma transfer_solvent:
  assumes "createTransfer L now c b s = (r, s')" "thrifty (cfg s)" "solvent s" shows "solvent s'"
proof -
  have deb: "solvent s2" if "newTx now Transfer c rf a f p q h nt s = (x0, s1)" "debit now sn c a rr k False s1 = (e, s2)"
    for rf a f p q h nt x0 s1 s2 sn rr k e
    using solvent_debit [OF that(2)] newTx_frame [OF that(1)] solvent_cong [of s1 s] assms(2,3) by (simp add: thrifty_def)
  show ?thesis using assms(1,3) unfolding createTransfer_def Let_def
    by (auto split: sum.splits option.splits prod.splits if_splits dest!: amountOf_pos intro: deb intro!: solvent_credit)
qed

lemma endpoint_solvent:
  assumes "run_endpoint L now c ep b s = (r, s')" "ep \<noteq> Settlements" "thrifty (cfg s)" "solvent s" shows "solvent s'"
proof (cases ep)
  case Checkouts
  then show ?thesis using assms solvent_cong [of s' s] by (auto simp: createCheckout_def Let_def split: sum.splits option.splits if_splits)
next
  case (Cancel i)
  then show ?thesis using assms solvent_cong [of s' s] by (auto simp: cancelCheckout_def Let_def split: option.splits if_splits)
qed (use assms in \<open>auto intro: collection_solvent payout_solvent batch_solvent utility_solvent transfer_solvent\<close>)

lemma solvent_idem [simp]: "solvent (s\<lparr>idem := q\<rparr>) = solvent s"
  by (rule solvent_cong) simp_all

lemma idempotent_solvent:
  assumes "idempotent L c key b run s = (r, s')" "solvent s" "\<And>s0 r1 s1. cfg s0 = cfg s \<Longrightarrow> run s0 = (r1, s1) \<Longrightarrow> solvent s0 \<Longrightarrow> solvent s1"
  shows "solvent s'"
proof -
  have "solvent s1" if "run (s\<lparr>idem := q\<rparr>) = (r1, s1)" for q r1 s1 using assms(3) [OF _ that] assms(2) by simp
  moreover have "solvent s1" if "run s = (r1, s1)" for r1 s1 using assms(3) [OF _ that] assms(2) by simp
  ultimately show ?thesis using assms(1,2) unfolding idempotent_def Let_def
    by (auto split: option.splits if_splits sum.splits prod.splits sim_error.splits)
qed

lemma access_solvent:
  "solvent s \<Longrightarrow> solvent (snd (applyFaults s))" "solvent s \<Longrightarrow> solvent (snd (shouldAmbiguousTimeout s))"
  "solvent s \<Longrightarrow> solvent (snd (takeRateToken now key s))" "solvent s \<Longrightarrow> solvent (snd (sim_authenticate now header s))"
  "solvent s \<Longrightarrow> solvent (snd (issueToken L now form s))"
proof -
  assume s: "solvent s"
  have b: "solvent (s\<lparr>buckets := q\<rparr>)" "solvent (s\<lparr>drawn := n, tokens := p\<rparr>)" for q n p
    using s solvent_cong [of "s\<lparr>buckets := q\<rparr>" s] solvent_cong [of "s\<lparr>drawn := n, tokens := p\<rparr>" s] by simp_all
  show "solvent (snd (applyFaults s))" by (rule faults_ind) (simp_all add: s)
  show "solvent (snd (shouldAmbiguousTimeout s))" using s by (simp add: shouldAmbiguousTimeout_def split_beta)
  show "solvent (snd (takeRateToken now key s))" using s b by (auto simp: takeRateToken_def Let_def split_beta)
  show "solvent (snd (sim_authenticate now header s))" using s by (auto simp: sim_authenticate_def Let_def split: option.split)
  show "solvent (snd (issueToken L now form s))" using s b by (auto simp: issueToken_def Let_def split: option.split)
qed

lemma handle_post_solvent:
  assumes "solvent s" "thrifty (cfg s)" "ep \<noteq> Settlements" shows "solvent (snd (handle_post L now header key ep b s))"
proof -
  obtain f s1 where f: "applyFaults s = (f, s1)" by (metis surj_pair)
  obtain a s2 where a: "sim_authenticate now header s1 = (a, s2)" by (metis surj_pair)
  have s1: "solvent s1" "sound s s1" using access_solvent(1) [OF assms(1)] faults_sound [of s] f by simp_all
  have s2: "solvent s2" "sound s1 s2" using access_solvent(4) [OF s1(1), of now header] access_sound(3) [of s1 now header] a by simp_all
  show ?thesis
  proof (cases "f = None \<and> (\<exists>c. a = Inr c)")
    case True
    then obtain c where c: "f = None" "a = Inr c" by blast
    obtain k s3 where k: "takeRateToken now (''cred:'' @ c) s2 = (k, s3)" by (metis surj_pair)
    have s3: "solvent s3" "sound s2 s3" using access_solvent(3) [OF s2(1), of now "''cred:'' @ c"] access_sound(2) [of s2 now "''cred:'' @ c"] k by simp_all
    have cfg: "cfg s3 = cfg s" using s1(2) s2(2) s3(2) by (simp add: sound_def)
    obtain r s4 where r: "post_endpoint L now c key ep b s3 = (r, s4)" by (metis surj_pair)
    have "solvent s4"
    proof (cases b)
      case (Jobj kvs)
      then have "idempotent L c key b (run_endpoint L now c ep b) s3 = (r, s4)" using r by (simp add: post_endpoint_def)
      from idempotent_solvent [OF this s3(1)] show ?thesis using endpoint_solvent assms(2,3) cfg by metis
    qed (use r s3(1) in \<open>auto simp: post_endpoint_def\<close>)
    then show ?thesis using s3(1) access_solvent(2) f a c k r unfolding handle_post_def
      by (auto simp: split_beta split: option.split sum.split bool.split)
  next
    case False
    then show ?thesis using s1(1) s2(1) f a unfolding handle_post_def by (cases f; cases a) auto
  qed
qed

lemma setBalance_solvent: "solvent s \<Longrightarrow> solvent (snd (setBalance now c a s))"
  by (auto simp: setBalance_def parseAmount_def Let_def intro!: solvent_upd_wallet split: option.splits if_splits)

lemma action_solvent: "solvent s \<Longrightarrow> 0 \<le> gain a \<Longrightarrow> solvent (run_action L now ok a s)"
  by (cases a) (simp_all add: solvent_credit solvent_later solvent_set_timer deliver_def Let_def)

lemma fire_solvent: "solvent s \<Longrightarrow> solvent (fire L now ok i s)"
proof (cases "i < length (timers s) \<and> tm_due (timers s ! i) \<le> of_int now")
  case True
  assume s: "solvent s"
  let ?s = "s\<lparr>timers := take i (timers s) @ drop (Suc i) (timers s)\<rparr>"
  have "set (take i (timers s) @ drop (Suc i) (timers s)) \<subseteq> set (timers s)" using set_take_subset set_drop_subset by fastforce
  then have "solvent ?s" using s by (auto simp: solvent_def balance_of_def)
  moreover have "0 \<le> gain (tm_action (timers s ! i))" using s True by (simp add: solvent_def)
  ultimately show ?thesis using True action_solvent by (simp add: fire_def Let_def)
qed (auto simp: fire_def)

lemma putPolicy_solvent: "putPolicy L b s = (r, s1) \<Longrightarrow> solvent s \<Longrightarrow> solvent s1"
  using solvent_cong [of s1 s] by (auto simp: putPolicy_def Let_def split: sum.splits if_splits)

text \<open>Operations that leave out settlements and keep to configurations without the race and with fees on the initiator.\<close>

fun prudent :: "sim_op \<Rightarrow> bool" where
  "prudent (Post_request header key ep body) = (ep \<noteq> Settlements)"
| "prudent (Reset c) = thrifty c"
| "prudent (Patch_config c) = thrifty c"
| "prudent _ = True"

lemma step_solvent:
  assumes "solvent s" "thrifty (cfg s)" "prudent op"
  shows "solvent (sim_step L (now, op) s) \<and> thrifty (cfg (sim_step L (now, op) s))"
proof -
  have "thrifty (cfg (sim_step L (now, op) s))"
  proof (cases "installs op")
    case None
    then show ?thesis using step_safe [OF None, of s L now] assms(2) by (simp add: safe_def)
  next
    case (Some c)
    then show ?thesis using assms(3) by (cases op) (auto simp: reset_def new_simulator_def)
  qed
  moreover have "solvent (sim_step L (now, op) s)"
  proof (cases op)
    case (Token_request ip form)
    then show ?thesis using access_solvent(3,5) assms(1) by (auto simp: split_beta split: option.split)
  next
    case (Put_policy_request c key b)
    have "solvent (snd (idempotent L c key b (putPolicy L b) s))"
      by (rule idempotent_solvent [OF prod.collapse [symmetric] assms(1)]) (rule putPolicy_solvent)
    then show ?thesis using Put_policy_request by simp
  next
    case (Reset c)
    have "solvent (reset c s)" using assms(1) by (simp add: solvent_def reset_def new_simulator_def balance_of_def)
    then show ?thesis using Reset by simp
  next
    case Delete_policy
    then show ?thesis using assms(1) solvent_cong [of "deletePolicy s" s] by (simp add: deletePolicy_def)
  qed (use assms in \<open>auto simp: handle_post_solvent setBalance_solvent fire_solvent wallet_view_def Let_def\<close>)
  ultimately show ?thesis by simp
qed

text \<open>C16. Without the race, and with fees on the initiator, no wallet is ever overdrawn by any sequence of
  requests, timers and resets other than a settlement.\<close>

theorem nobody_overspends:
  assumes "thrifty c" and "\<And>x. x \<in> set ops \<Longrightarrow> prudent (snd x)"
  shows "negativeBalances (fold (sim_step L) ops (new_simulator c)) = []"
proof -
  have "solvent s \<Longrightarrow> thrifty (cfg s) \<Longrightarrow> solvent (fold (sim_step L) ops s)" for s
    using assms(2)
  proof (induction ops arbitrary: s)
    case (Cons x ops)
    then have "solvent (sim_step L x s) \<and> thrifty (cfg (sim_step L x s))" using step_solvent [of s "snd x" L "fst x"] by simp
    then show ?case using Cons.IH [of "sim_step L x s"] Cons.prems(3) by simp
  qed simp
  moreover have "solvent (new_simulator c)" "cfg (new_simulator c) = c" by (simp_all add: solvent_def new_simulator_def balance_of_def)
  ultimately have s: "solvent (fold (sim_step L) ops (new_simulator c))" using assms(1) by simp
  have "\<not> raceBug c'" if "x \<in> set ops" "installs (snd x) = Some c'" for x c'
    using assms(2) [OF that(1)] that(2) by (cases "snd x") (auto simp: thrifty_def)
  then have "books (fold (sim_step L) ops (new_simulator c))"
    using run_books [of ops "new_simulator c" L] assms(1) new_simulator_ok \<open>cfg (new_simulator c) = c\<close> by (simp add: thrifty_def)
  then have "0 \<le> w_balance (snd kw)" if "kw \<in> set (wallets (fold (sim_step L) ops (new_simulator c)))" for kw
    using s that unfolding solvent_def balance_of_def booked_def by (cases kw) (auto dest: spec [of _ "fst kw"])
  then show ?thesis by (simp add: negativeBalances_def filter_empty_conv not_less)
qed

section \<open>The deliberate race\<close>

lemma reads_frame:
  assumes "wallets s' = wallets s" "ledger s' = ledger s"
  shows "balance_of c s' = balance_of c s" "opening_of c s' = opening_of c s" "ledger_sum c s' = ledger_sum c s"
  using wallet_reads_cong [OF assms(1)] ledger_sum_cong [OF assms(2)] by simp_all

lemma payout_end_race:
  assumes "payout_end L now c (Payout_ready q x a p sn) s = (r, s')" "raceBug (cfg s)" "p \<le> sn" "map_of (wallets s) c = Some w"
  shows "(\<exists>rp. r = Inr rp) \<and> balance_of c s' = sn - p \<and> opening_of c s' = opening_of c s \<and> ledger_sum c s' = ledger_sum c s - p \<and>
    cfg s' = cfg s \<and> (\<exists>w'. map_of (wallets s') c = Some w')"
proof -
  define s1 where "s1 = post c (- p) (q_reference q) ''payout_reserve'' (upd_wallet c (\<lambda>w. w\<lparr>w_balance := sn - p, w_reserved := w_reserved w + p\<rparr>) s)"
  have e: "ensureWallet now c s = s" using assms(4) by (simp add: ensureWallet_def)
  have d: "debit now sn c p (q_reference q) ''payout_reserve'' True s = (None, s1)" using assms(2,3) by (simp add: debit_def e s1_def Let_def)
  have w1: "map_of (wallets s1) c = Some (w\<lparr>w_balance := sn - p, w_reserved := w_reserved w + p\<rparr>)"
    using assms(4) by (simp add: s1_def map_of_upd_wallet)
  have l1: "ledger_sum c s1 = ledger_sum c s - p" using ledger_sum_cong [of "upd_wallet c _ s" s c] by (simp add: s1_def)
  have e1: "ensureWallet now c y = y" if "wallets y = wallets s1" for y using that w1 by (simp add: ensureWallet_def)
  have "(\<exists>rp. r = Inr rp) \<and> wallets s' = wallets s1 \<and> ledger s' = ledger s1 \<and> cfg s' = cfg s1"
    using assms(1) unfolding payout_end_def payout_plan.case d prod.case option.case Let_def by (auto simp: reply_of_def e1 split: if_splits)
  moreover have "cfg s1 = cfg s" by (simp add: s1_def)
  ultimately show ?thesis using reads_frame [of s' s1 c] w1 l1 assms(4) by (auto simp: balance_of_def opening_of_def)
qed

lemma payout_begin_reads:
  assumes "payout_begin L now c b s = (Payout_ready q x a p sn, s1)"
  shows "sn = balance_of c s1 \<and> (\<exists>w. map_of (wallets s1) c = Some w) \<and>
    (map_of (wallets s) c \<noteq> None \<longrightarrow> wallets s1 = wallets s) \<and> ledger s1 = ledger s \<and> cfg s1 = cfg s"
proof -
  have acc: "wallets s0 = wallets s" "ledger s0 = ledger s" "cfg s0 = cfg s" if "newTx now Payout c rf am f pr py h n s = (x0, s0)" for rf am f pr py h n x0 s0
    using newTx_frame [OF that] by simp_all
  show ?thesis using assms unfolding payout_begin_def Let_def
    by (auto split: sum.splits option.splits prod.splits if_splits simp: acc ensureWallet_def AList.update_conv')
qed

text \<open>With \<open>raceBug\<close> on, two payouts that both read the balance before either writes it are both accepted
  when each alone is covered, and the first debit is lost: the balance falls by the second payment only
  while the ledger records both, so the wallet drifts by the first.\<close>

theorem race_loses_a_debit:
  assumes "raceBug (cfg s)" and "payout_begin L now c b1 s = (Payout_ready q1 x1 a1 p1 n1, s1)"
    and "payout_begin L now c b2 s1 = (Payout_ready q2 x2 a2 p2 n2, s2)"
    and "payout_end L now c (Payout_ready q1 x1 a1 p1 n1) s2 = (r1, s3)" and "payout_end L now c (Payout_ready q2 x2 a2 p2 n2) s3 = (r2, s4)"
    and "p1 \<le> balance_of c s1" and "p2 \<le> balance_of c s1"
  shows "(\<exists>y1 y2. r1 = Inr y1 \<and> r2 = Inr y2) \<and> balance_of c s4 = balance_of c s1 - p2 \<and> ledger_sum c s4 = ledger_sum c s1 - p1 - p2 \<and>
    balance_of c s4 - (opening_of c s4 + ledger_sum c s4) = balance_of c s1 - (opening_of c s1 + ledger_sum c s1) + p1"
proof -
  note g1 = payout_begin_reads [OF assms(2)] and g2 = payout_begin_reads [OF assms(3)]
  then have same: "wallets s2 = wallets s1" "ledger s2 = ledger s1" by auto
  note rd = reads_frame [OF same, of c]
  obtain w where w: "map_of (wallets s2) c = Some w" using g2 by blast
  have "raceBug (cfg s2)" using assms(1) g1 g2 by simp
  from payout_end_race [OF assms(4) this _ w] have e1: "(\<exists>y. r1 = Inr y)" "balance_of c s3 = n1 - p1" "opening_of c s3 = opening_of c s2"
    "ledger_sum c s3 = ledger_sum c s2 - p1" "cfg s3 = cfg s2" "\<exists>w'. map_of (wallets s3) c = Some w'" using g1 assms(6) by simp_all
  then obtain w3 where w3: "map_of (wallets s3) c = Some w3" by blast
  have "raceBug (cfg s3)" using \<open>raceBug (cfg s2)\<close> e1(5) by simp
  from payout_end_race [OF assms(5) this _ w3] have "(\<exists>y. r2 = Inr y)" "balance_of c s4 = n2 - p2" "opening_of c s4 = opening_of c s3"
    "ledger_sum c s4 = ledger_sum c s3 - p2" using g2 rd assms(7) by simp_all
  then show ?thesis using e1 g1 g2 rd by auto
qed

section \<open>Examples\<close>

definition sample_sim_lib :: sim_lib where
  "sample_sim_lib = \<lparr>iso = (\<lambda>_. ''2024-01-01''), sha256 = (\<lambda>x. x), number_notation = (\<lambda>_. ''0''), locale_le = (\<lambda>_ _. True), schema_message = (\<lambda>_. ''invalid''),
     random_hex = show_nat, url_parts = (\<lambda>_. None), hook_mac = (\<lambda>k t. k @ t)\<rparr>"

definition no_weakness :: weak_flags where
  "no_weakness = \<lparr>bola = False, acceptAnyToken = False, verboseErrors = False, leakFields = False, massAssignment = False, ignorePermissions = False,
     acceptAnyUrl = False, openTokenEndpoint = False, tokensNeverExpire = False, noRateLimit = False, ignoreLimits = False, numberAmounts = False,
     crashOnQuote = False\<rparr>"

definition sample_sim_config :: sim_config where
  "sample_sim_config = \<lparr>seed = 42, openingBalance = ''100.00'', resolveDelayMs = 50, tokenTtlSeconds = 300, feeRate = 0, feeBearer = Initiator,
     otherSucceed = True, payoutReviewThreshold = None, checkoutEnabled = True, limitPerTransaction = ''50000.00'', limitDaily = ''1000000.00'', baseMs = 0,
     jitterMs = 0, tailProbability = 0, tailMs = 0, errorRate = 0, timeoutRate = 0, ambiguousTimeoutRate = 0, timeoutMs = 30000, rateLimitEnabled = False,
     rateLimitRps = 1000, idempotencyBroken = False, raceBug = False, hookUrl = None, hookSecret = ''sim-webhook-secret'', duplicateRate = 0, outOfOrder = False,
     hookAttempts = 6, hookBaseDelayMs = 1000, authStrict = False, authClients = [], permissions = [], weak = no_weakness\<rparr>"

definition payout_body :: "string \<Rightarrow> json" where
  "payout_body r = Jobj [(''reference'', Jstr r), (''amount'', Jstr ''60.00''), (''currency'', Jstr ''GHS''), (''provider'', Jstr ''mtn''),
     (''destination'', Jobj [(''type'', Jstr ''msisdn''), (''value'', Jstr ''0244'')])]"

definition checkout_body :: json where
  "checkout_body = Jobj [(''reference'', Jstr ''c1''), (''amount'', Jstr ''5.00''), (''currency'', Jstr ''GHS'')]"

definition sample_ops :: "(int \<times> sim_op) list" where
  "sample_ops = [(0, Token_request ''ip'' (Jobj [(''grant_type'', Jstr ''client_credentials''), (''client_id'', Jstr ''m''), (''client_secret'', Jstr ''k''), (''resource'', Jstr ''ismartpay'')])),
     (10, Post_request (Some ''Bearer sim_0'') (Some ''k1'') Payouts (payout_body ''p1'')), (100, Fire True 0)]"

lemma sample_ops_plain: "x \<in> set sample_ops \<Longrightarrow> installs (snd x) = None \<and> prudent (snd x) \<and> snd x \<noteq> Reset q"
  by (auto simp: sample_ops_def)

theorem ledger_reconciles_witness: "ledgerDriftPesewas (fold (sim_step sample_sim_lib) sample_ops (new_simulator sample_sim_config)) = 0"
  by (rule ledger_reconciles [of sample_sim_config sample_ops, OF _ _ refl, THEN conjunct1]) (simp_all add: sample_ops_plain sample_sim_config_def)


theorem nobody_overspends_witness: "negativeBalances (fold (sim_step sample_sim_lib) sample_ops (new_simulator sample_sim_config)) = []"
  by (rule nobody_overspends) (simp_all add: sample_ops_plain sample_sim_config_def thrifty_def)

lemma body_checks:
  "str_field REFERENCE_RE ''reference'' checkout_body = Some ''c1''" "str_field AMOUNT_RE ''amount'' checkout_body = Some ''5.00''"
  "str_field CURRENCY_RE ''currency'' checkout_body = Some ''GHS''" "opt_field (\<lambda>s. js_length s \<le> 140) ''description'' checkout_body = Some None"
  "\<not> bad_url L checkout_body ''successUrl''" "\<not> bad_url L checkout_body ''cancelUrl''"
  by (simp_all add: checkout_body_def str_field_def opt_field_def obj_field_def REFERENCE_RE_def AMOUNT_RE_def CURRENCY_RE_def alnum_def is_digit_def bad_url_def)

lemma sample_checkout:
  "\<exists>r s1. post_endpoint sample_sim_lib 0 ''m'' (Some ''k'') Checkouts checkout_body (new_simulator sample_sim_config) = (Inr r, s1)"
proof -
  have "post_endpoint L now c k ep checkout_body s = idempotent L c k checkout_body (run_endpoint L now c ep checkout_body) s" for L now c k ep s
    by (simp add: post_endpoint_def checkout_body_def)
  moreover have "\<exists>r s1. createCheckout sample_sim_lib 0 ''m'' checkout_body ((new_simulator sample_sim_config)\<lparr>idem := q\<rparr>) = (Inr r, s1)" for q
    by (simp add: createCheckout_def sim_parse_def checkout_schema_def body_checks new_simulator_def sample_sim_config_def no_weakness_def Let_def reply_of_def)
  then obtain r s1 where "createCheckout sample_sim_lib 0 ''m'' checkout_body
      ((new_simulator sample_sim_config)\<lparr>idem := [(''m:k'', \<lparr>ie_hash = hashOf sample_sim_lib checkout_body, ie_reply = None\<rparr>)]\<rparr>) = (Inr r, s1)" by blast
  moreover have "js_length ''k'' = 1" "\<not> idempotencyBroken (cfg (new_simulator sample_sim_config))" "idem (new_simulator sample_sim_config) = []"
    by (simp_all add: js_length_def new_simulator_def sample_sim_config_def)
  ultimately show ?thesis by (simp add: idempotent_def Let_def IDEMPOTENCY_KEY_MAX_def)
qed


definition racy :: sim where
  "racy = new_simulator (sample_sim_config\<lparr>raceBug := True\<rparr>)"

lemma payout_checks:
  assumes "REFERENCE_RE r"
  shows "money_schema ''destination'' True (payout_body r) =
    Some \<lparr>q_reference = r, q_amount = ''60.00'', q_currency = ''GHS'', q_provider = ''mtn'', q_party = \<lparr>p_type = ''msisdn'', p_value = ''0244''\<rparr>, q_note = None\<rparr>"
  using assms by (simp add: money_schema_def payout_body_def only_keys_def str_field_def opt_field_def obj_field_def party_schema_def PARTY_TYPES_def
      AMOUNT_RE_def CURRENCY_RE_def is_digit_def js_length_def)

lemma sample_amounts: "parseAmount ''60.00'' = Some 6000" "parseAmount ''50000.00'' = Some 5000000" "parseAmount ''1000000.00'' = Some 100000000"
  "parseAmount ''100.00'' = Some 10000"
  by (simp_all add: parseAmount_def AMOUNT_RE_def is_digit_def Let_def)

lemma racy_begin:
  assumes "REFERENCE_RE r" "cfg s = sample_sim_config\<lparr>raceBug := True\<rparr>" "tx_at (tx_key Payout ''m'' r) s = None" "dailyOut s = []"
  shows "\<exists>q x s1. payout_begin sample_sim_lib 0 ''m'' (payout_body r) s = (Payout_ready q x 6000 6010 (balance_of ''m'' s1), s1) \<and>
    s1 = ensureWallet 0 ''m'' (s\<lparr>seqno := Suc (seqno s)\<rparr>)"
proof -
  have "fee 6000 s = 10" using assms(2) by (simp add: fee_def sample_sim_config_def fl_def Math_round_def)
  moreover have "checkLimits ''m'' 6000 False s = None" using assms(2,4)
    by (simp add: checkLimits_def sample_sim_config_def no_weakness_def sample_amounts volume_def)
  moreover have "existing Payout ''m'' r h s = Inr None" for h using assms(2,3) by (simp add: existing_def sample_sim_config_def)
  moreover have "provider_refused ''mtn'' = None" by (simp add: provider_refused_def PROVIDERS_def)
  moreover have "weak (cfg s) = no_weakness" "feeBearer (cfg s) = Initiator" using assms(2) by (simp_all add: sample_sim_config_def)
  ultimately show ?thesis using payout_checks [OF assms(1)] unfolding payout_begin_def
    by (simp add: sim_parse_def no_weakness_def amountOf_def sample_amounts newTx_def assigned_def applyFee_def Let_def)
qed

theorem race_loses_a_debit_witness:
  "\<exists>p1 s1 p2 s2 r1 s3 r2 s4. payout_begin sample_sim_lib 0 ''m'' (payout_body ''a'') racy = (p1, s1) \<and> payout_begin sample_sim_lib 0 ''m'' (payout_body ''b'') s1 = (p2, s2) \<and>
     payout_end sample_sim_lib 0 ''m'' p1 s2 = (r1, s3) \<and> payout_end sample_sim_lib 0 ''m'' p2 s3 = (r2, s4) \<and> balance_of ''m'' s4 = 3990 \<and>
     balance_of ''m'' s4 - (opening_of ''m'' s4 + ledger_sum ''m'' s4) = 6010"
proof -
  have re: "REFERENCE_RE ''a''" "REFERENCE_RE ''b''" by (simp_all add: REFERENCE_RE_def alnum_def)
  have racy: "cfg racy = sample_sim_config\<lparr>raceBug := True\<rparr>" "txs racy = []" "dailyOut racy = []" "wallets racy = []" "ledger racy = []"
    by (simp_all add: racy_def new_simulator_def)
  obtain q1 x1 s1 where b1: "payout_begin sample_sim_lib 0 ''m'' (payout_body ''a'') racy = (Payout_ready q1 x1 6000 6010 (balance_of ''m'' s1), s1)"
    and s1: "s1 = ensureWallet 0 ''m'' (racy\<lparr>seqno := Suc (seqno racy)\<rparr>)" using racy_begin [OF re(1) racy(1)] racy by (auto simp: tx_at_def)
  have "cfg s1 = cfg racy" "txs s1 = []" "dailyOut s1 = []" using s1 racy by (simp_all add: ensureWallet_def Let_def)
  then obtain q2 x2 s2 where b2: "payout_begin sample_sim_lib 0 ''m'' (payout_body ''b'') s1 = (Payout_ready q2 x2 6000 6010 (balance_of ''m'' s2), s2)"
    using racy_begin [OF re(2), of s1] racy by (auto simp: tx_at_def)
  have bal: "balance_of ''m'' s1 = 10000" "opening_of ''m'' s1 = 10000" "ledger_sum ''m'' s1 = 0"
    using s1 racy by (simp_all add: balance_of_def opening_of_def ledger_sum_def map_of_ensureWallet sample_sim_config_def sample_amounts)
  obtain r1 s3 where e1: "payout_end sample_sim_lib 0 ''m'' (Payout_ready q1 x1 6000 6010 (balance_of ''m'' s1)) s2 = (r1, s3)" by (metis surj_pair)
  obtain r2 s4 where e2: "payout_end sample_sim_lib 0 ''m'' (Payout_ready q2 x2 6000 6010 (balance_of ''m'' s2)) s3 = (r2, s4)" by (metis surj_pair)
  have "raceBug (cfg racy)" using racy by simp
  from race_loses_a_debit [OF this b1 b2 e1 e2] b1 b2 e1 e2 bal show ?thesis by auto
qed

section \<open>Two ways to overdraw a wallet\<close>

text \<open>A collection below the minimal fee, when the recipient bears the fee, takes money away from the recipient.\<close>

lemma small_collection_costs: "snd (applyFee 5 (fee 5 s) Non_initiator) < 0"
  using fee_pos [of 5 s] by (simp add: applyFee_def)

text \<open>A settlement pays out all eligible collections without looking at the balance.\<close>

lemma settlement_ignores_balance:
  assumes "SettleNowRequestSchema b = Some rf" "policy s \<noteq> None" "find (\<lambda>r. sr_reference r = rf \<and> sr_cred r = c) (settlementRuns s) = None"
    and "net = sum_list (map (\<lambda>x. snd (applyFee (x_amount x) (x_fee x) (x_feeBearer x))) (due_for c s))" "0 < net" "map_of (wallets s) c = Some w"
  shows "\<exists>rp s'. settleNow L now c b s = (Inr rp, s') \<and> balance_of c s' = w_balance w - net"
proof -
  let ?f = "fold (\<lambda>x. upd_obj (x_id x) (\<lambda>y. y\<lparr>x_settlementStatus := Some Settled\<rparr>)) (due_for c s) (s\<lparr>seqno := Suc (seqno s)\<rparr>)"
  have f: "map_of (wallets ?f) c = Some w" using settle_fold [of "Some Settled" "due_for c s" "s\<lparr>seqno := Suc (seqno s)\<rparr>"] assms(6) by simp
  show ?thesis using assms(1-3,5) unfolding settleNow_def Let_def assms(4) [symmetric]
    by (simp add: sim_parse_def reply_of_def balance_of_def map_of_upd_wallet map_of_ensureWallet f)
qed

end
