(* ===== verification/Load_Plan.thy ===== *)
theory Load_Plan
  imports Enums
begin

text \<open>
  \<^verbatim>\<open>src/domain/load-plan.ts\<close>: load-test plans. A plan is validated by \<open>PlanConfigSchema\<close>, which
  fills in the defaults; \<open>buildStages\<close> turns its traffic profile into stages of a ramping
  arrival rate, and \<open>peakRps\<close> and \<open>effectiveRps\<close> are what the safety gate judges. Rates are
  doubles, durations whole seconds. The identifier of a data set is a row identifier, drawn
  in the UUID format the schema asks for.
\<close>

section \<open>JSON values\<close>

text \<open>The string values of a JSON value, object keys left out.\<close>

primrec json_strings :: "json \<Rightarrow> string list" where
  "json_strings Jnull = []"
| "json_strings (Jbool b) = []"
| "json_strings (Jnum n) = []"
| "json_strings (Jstr s) = [s]"
| "json_strings (Jarr xs) = concat (map json_strings xs)"
| "json_strings (Jobj kvs) = concat (map snd (map (map_prod id json_strings) kvs))"

section \<open>The plan schema\<close>

datatype http_method = GET | POST | PUT | PATCH | DELETE

datatype data_selection = Sequential | Random

definition FORBIDDEN_HEADERS :: "string list" where
  "FORBIDDEN_HEADERS = [''authorization'', ''proxy-authorization'', ''cookie'', ''x-api-key'', ''x-auth-token'', ''api-key'']"

fun MIN_DURATION_SECONDS :: "load_profile \<Rightarrow> int" where
  "MIN_DURATION_SECONDS SMOKE = 10"
| "MIN_DURATION_SECONDS LOAD = 20"
| "MIN_DURATION_SECONDS SOAK = 20"
| "MIN_DURATION_SECONDS BREAKPOINT = 30"
| "MIN_DURATION_SECONDS SPIKE = 30"
| "MIN_DURATION_SECONDS STRESS = 60"

record slo_overrides =
  o_p95Ms :: "rat option"
  o_p99Ms :: "rat option"
  o_maxServerErrorRate :: "rat option"
  o_minThroughputRatio :: "rat option"
  o_maxRateLimitedShare :: "rat option"
  o_maxClientErrorShare :: "rat option"
  o_requiredCapacityRps :: "rat option option"

text \<open>The object handed to the schema: an absent field is \<open>None\<close>; \<open>Some None\<close> is \<open>null\<close>.\<close>

record plan_input =
  in_profile :: load_profile
  in_method :: "http_method option"
  in_headers :: "(string \<times> string) list option"
  in_path :: "string option"
  in_body :: "json option"
  in_dataSetId :: "row_id option"
  in_dataSelection :: "data_selection option"
  in_moneyMoving :: "bool option"
  in_realSideEffects :: "bool option"
  in_fanout :: "rat option"
  in_slo :: "slo_overrides option"
  in_packId :: "string option"
  in_idempotencyHeader :: "string option option"
  in_targetRps :: rat
  in_durationSeconds :: rat
  in_maxVus :: rat
  in_preAllocatedVus :: "rat option"
  in_spikeMultiplier :: "rat option"
  in_expectedStatuses :: "rat list option"
  in_timeoutMs :: "rat option"

record plan_config =
  profile :: load_profile
  plan_method :: http_method
  headers :: "(string \<times> string) list"
  path :: "string option"
  body :: "json option"
  dataSetId :: "row_id option"
  dataSelection :: data_selection
  moneyMoving :: bool
  realSideEffects :: bool
  fanout :: int
  slo :: "slo_overrides option"
  packId :: "string option"
  idempotencyHeader :: "string option"
  targetRps :: rat
  plan_durationSeconds :: int
  maxVus :: int
  preAllocatedVus :: "int option"
  spikeMultiplier :: rat
  expectedStatuses :: "int list"
  plan_timeoutMs :: int

definition int_within :: "int \<Rightarrow> int \<Rightarrow> rat \<Rightarrow> bool" where
  "int_within lo hi x \<longleftrightarrow> of_int \<lfloor>x\<rfloor> = x \<and> of_int lo \<le> x \<and> x \<le> of_int hi"

definition opt_all :: "('a \<Rightarrow> bool) \<Rightarrow> 'a option \<Rightarrow> bool" where
  "opt_all p x = (case x of None \<Rightarrow> True | Some y \<Rightarrow> p y)"

definition opt_default :: "'a \<Rightarrow> 'a option \<Rightarrow> 'a" where
  "opt_default v x = (case x of None \<Rightarrow> v | Some y \<Rightarrow> y)"

text \<open>The pattern of a path: one slash, not two, then no white space, backslash or at sign.\<close>

fun path_chars_ok :: "string \<Rightarrow> bool" where
  "path_chars_ok [] = True"
| "path_chars_ok (c # cs) = (ws_len (c # cs) = 0 \<and> c \<noteq> CHR 0x5C \<and> c \<noteq> CHR ''@'' \<and> path_chars_ok cs)"

definition path_ok :: "string \<Rightarrow> bool" where
  "path_ok p \<longleftrightarrow> 1 \<le> js_length p \<and> js_length p \<le> 500 \<and>
     (case p of [] \<Rightarrow> False
      | c # cs \<Rightarrow> c = CHR ''/'' \<and> (case cs of x # _ \<Rightarrow> x \<noteq> CHR ''/'' | [] \<Rightarrow> True) \<and> path_chars_ok cs)"

definition headers_ok :: "(string \<times> string) list \<Rightarrow> bool" where
  "headers_ok h \<longleftrightarrow> list_all (\<lambda>(k, v). js_length v \<le> 1000) h \<and>
     \<not> list_ex (\<lambda>(k, v). toLowerCase k \<in> set FORBIDDEN_HEADERS) h"

definition slo_ok :: "slo_overrides \<Rightarrow> bool" where
  "slo_ok s \<longleftrightarrow>
     opt_all (\<lambda>x. 0 < x \<and> x \<le> 600000) (o_p95Ms s) \<and> opt_all (\<lambda>x. 0 < x \<and> x \<le> 600000) (o_p99Ms s) \<and>
     opt_all (\<lambda>x. 0 \<le> x \<and> x \<le> 1) (o_maxServerErrorRate s) \<and>
     opt_all (\<lambda>x. fl (1 / 10) \<le> x \<and> x \<le> 1) (o_minThroughputRatio s) \<and>
     opt_all (\<lambda>x. 0 \<le> x \<and> x \<le> 1) (o_maxRateLimitedShare s) \<and>
     opt_all (\<lambda>x. 0 \<le> x \<and> x \<le> 1) (o_maxClientErrorShare s) \<and>
     opt_all (opt_all (\<lambda>x. 0 < x)) (o_requiredCapacityRps s)"

text \<open>The checks of the schema, the refinements included, and the plan with its defaults filled in.\<close>

definition input_ok :: "plan_input \<Rightarrow> bool" where
  "input_ok i \<longleftrightarrow>
     headers_ok (opt_default [] (in_headers i)) \<and> opt_all path_ok (in_path i) \<and>
     opt_all (int_within 1 100) (in_fanout i) \<and> opt_all slo_ok (in_slo i) \<and>
     opt_all (\<lambda>s. js_length s \<le> 100) (in_packId i) \<and>
     opt_all (opt_all (\<lambda>s. 1 \<le> js_length s \<and> js_length s \<le> 100)) (in_idempotencyHeader i) \<and>
     0 < in_targetRps i \<and> in_targetRps i \<le> 100000 \<and>
     int_within 10 86400 (in_durationSeconds i) \<and> int_within 1 100000 (in_maxVus i) \<and>
     opt_all (int_within 1 100000) (in_preAllocatedVus i) \<and>
     opt_all (\<lambda>x. 2 \<le> x \<and> x \<le> 50) (in_spikeMultiplier i) \<and>
     opt_all (\<lambda>xs. list_all (int_within 100 599) xs \<and> xs \<noteq> []) (in_expectedStatuses i) \<and>
     opt_all (int_within 100 120000) (in_timeoutMs i) \<and>
     of_int (MIN_DURATION_SECONDS (in_profile i)) \<le> in_durationSeconds i \<and>
     opt_default 1 (in_preAllocatedVus i) \<le> in_maxVus i"

definition with_defaults :: "plan_input \<Rightarrow> plan_config" where
  "with_defaults i =
     \<lparr>profile = in_profile i, plan_method = opt_default GET (in_method i),
      headers = opt_default [] (in_headers i), path = in_path i, body = in_body i,
      dataSetId = in_dataSetId i, dataSelection = opt_default Sequential (in_dataSelection i),
      moneyMoving = opt_default False (in_moneyMoving i),
      realSideEffects = opt_default False (in_realSideEffects i),
      fanout = \<lfloor>opt_default 1 (in_fanout i)\<rfloor>, slo = in_slo i, packId = in_packId i,
      idempotencyHeader = opt_default (Some ''Idempotency-Key'') (in_idempotencyHeader i),
      targetRps = in_targetRps i, plan_durationSeconds = \<lfloor>in_durationSeconds i\<rfloor>,
      maxVus = \<lfloor>in_maxVus i\<rfloor>, preAllocatedVus = map_option floor (in_preAllocatedVus i),
      spikeMultiplier = opt_default 10 (in_spikeMultiplier i),
      expectedStatuses = map floor (opt_default [200, 201, 202, 204] (in_expectedStatuses i)),
      plan_timeoutMs = \<lfloor>opt_default 30000 (in_timeoutMs i)\<rfloor>\<rparr>"

definition PlanConfigSchema :: "plan_input \<Rightarrow> plan_config option" where
  "PlanConfigSchema i = (if input_ok i then Some (with_defaults i) else None)"

section \<open>Stages\<close>

record stage =
  stage_durationSeconds :: int
  target :: int

definition list_max :: "rat list \<Rightarrow> rat" where
  "list_max xs = fold max (tl xs) (hd xs)"

fun indexOf :: "'a \<Rightarrow> 'a list \<Rightarrow> nat" where
  "indexOf x [] = 0"
| "indexOf x (y # ys) = (if y = x then 0 else Suc (indexOf x ys))"

definition split :: "int \<Rightarrow> rat list \<Rightarrow> int list" where
  "split secs fractions =
     (let parts = map (\<lambda>f. max 1 \<lfloor>fl (of_int secs * f)\<rfloor>) fractions;
          diff = secs - sum_list parts;
          longest = indexOf (list_max fractions) fractions
      in parts[longest := max 1 (parts ! longest + diff)])"

definition rate :: "rat \<Rightarrow> int" where
  "rate n = max 1 (Math_round n)"

definition mk :: "int \<Rightarrow> rat list \<Rightarrow> int list \<Rightarrow> stage list" where
  "mk d fr targets = map2 (\<lambda>s t. \<lparr>stage_durationSeconds = s, target = t\<rparr>) (split d fr)
     (targets @ replicate (length fr - length targets) 0)"

definition buildStages :: "plan_config \<Rightarrow> stage list" where
  "buildStages cfg =
     (let t = targetRps cfg; d = plan_durationSeconds cfg
      in case profile cfg of
           SMOKE \<Rightarrow> mk d [1] [rate (min 2 t)]
         | LOAD \<Rightarrow> mk d [fl (1 / 10), fl (8 / 10), fl (1 / 10)] [rate t, rate t, 0]
         | SOAK \<Rightarrow> mk d [fl (5 / 100), fl (9 / 10), fl (5 / 100)] [rate t, rate t, 0]
         | STRESS \<Rightarrow>
             let steps = map (\<lambda>m. rate (fl (t * m))) [1 / 2, 1, 3 / 2, 2]
             in mk d [fl (5 / 100), fl (2 / 10), fl (5 / 100), fl (2 / 10), fl (5 / 100), fl (2 / 10), fl (5 / 100), fl (2 / 10)]
                  (concat (map (\<lambda>s. [s, s]) steps))
         | SPIKE \<Rightarrow>
             let peak = rate (fl (t * spikeMultiplier cfg))
             in mk d [fl (25 / 100), fl (5 / 100), fl (2 / 10), fl (5 / 100), fl (45 / 100)] [rate t, peak, peak, rate t, rate t]
         | BREAKPOINT \<Rightarrow> mk d [1] [rate t])"

definition peakRps :: "plan_config \<Rightarrow> int" where
  "peakRps cfg = (let ts = map target (buildStages cfg) in fold max (tl ts) (hd ts))"

definition effectiveRps :: "plan_config \<Rightarrow> int" where
  "effectiveRps cfg = peakRps cfg * fanout cfg"

definition isMutating :: "plan_config \<Rightarrow> bool" where
  "isMutating cfg \<longleftrightarrow> plan_method cfg \<noteq> GET"

definition isStateChanging :: "plan_config \<Rightarrow> bool" where
  "isStateChanging cfg \<longleftrightarrow> plan_method cfg \<noteq> GET \<or> moneyMoving cfg"

section \<open>Data references\<close>

definition field_char :: "char \<Rightarrow> bool" where
  "field_char c \<longleftrightarrow>
     (let n = (of_char c :: nat)
      in 65 \<le> n \<and> n \<le> 90 \<or> 97 \<le> n \<and> n \<le> 122 \<or> 48 \<le> n \<and> n \<le> 57 \<or> c = CHR ''_'' \<or> c = CHR ''.'')"

text \<open>A match of \<open>DATA_REF\<close> at the start of a string: the field and what follows the match.\<close>

definition match_ref :: "string \<Rightarrow> (string \<times> string) option" where
  "match_ref s =
     (if take 7 s = ''{{data.''
      then let f = takeWhile field_char (drop 7 s); r = dropWhile field_char (drop 7 s)
           in if f \<noteq> [] \<and> take 2 r = ''}}'' then Some (f, drop 2 r) else None
      else None)"

lemma match_ref_shorter: "match_ref s = Some (f, r) \<Longrightarrow> length r < length s"
proof -
  assume m: "match_ref s = Some (f, r)"
  then have s: "take 7 s = ''{{data.''" and r: "r = drop 2 (dropWhile field_char (drop 7 s))"
    by (auto simp: match_ref_def Let_def split: if_splits)
  from s have "s \<noteq> []" by auto
  moreover have "length r \<le> length s - 7" unfolding r
    using length_dropWhile_le [of field_char "drop 7 s"] by simp
  ultimately show ?thesis by (cases s) auto
qed

function data_refs :: "string \<Rightarrow> string list" where
  "data_refs s =
     (case s of [] \<Rightarrow> []
      | c # cs \<Rightarrow> (case match_ref s of Some (f, rest) \<Rightarrow> f # data_refs rest | None \<Rightarrow> data_refs cs))"
  by auto

termination
  by (relation "measure length") (auto dest: match_ref_shorter)

declare data_refs.simps [simp del]

definition dataFieldsUsed :: "plan_config \<Rightarrow> string list" where
  "dataFieldsUsed cfg =
     sort (remdups (concat (map data_refs
       ((case path cfg of Some p \<Rightarrow> [p] | None \<Rightarrow> []) @ map snd (headers cfg) @
        (case body cfg of Some b \<Rightarrow> json_strings b | None \<Rightarrow> [])))))"

section \<open>Stages fill the duration\<close>

lemma floor_scaled:
  assumes "0 \<le> d" and "0 \<le> f"
  shows "of_int \<lfloor>fl (of_int d * fl f)\<rfloor> \<le> of_int d * f * (1 + 1 / 2 ^ 51)"
  using js.rnd_scaled_upper [of "of_int d" f] assms by (intro order_trans [OF of_int_floor_le]) simp

lemma fl_less: "0 \<le> x \<Longrightarrow> 2 * x \<le> y \<Longrightarrow> 0 < y \<Longrightarrow> fl x < fl y"
proof -
  assume a: "0 \<le> x" "2 * x \<le> y" "0 < y"
  have "fl x \<le> x * (1 + 1 / 2 ^ 53)" "y * (1 - 1 / 2 ^ 53) \<le> fl y"
    using a js.rnd_upper [of x] js.rnd_lower [of y] by simp_all
  moreover have "x * (1 + 1 / 2 ^ 53) < y * (1 - 1 / 2 ^ 53)" using a by simp
  ultimately show ?thesis by linarith
qed

text \<open>The parts other than the longest, which takes the remainder.\<close>

lemma split_sum:
  assumes "k < length fr" and "indexOf (list_max fr) fr = k"
    and "sum_list (map (\<lambda>f. max 1 \<lfloor>fl (of_int d * f)\<rfloor>) (take k fr @ drop (Suc k) fr)) < d"
  shows "sum_list (split d fr) = d \<and> (\<forall>s \<in> set (split d fr). 1 \<le> s) \<and> length (split d fr) = length fr"
proof -
  let ?g = "\<lambda>f. max 1 \<lfloor>fl (of_int d * f)\<rfloor>"
  let ?ps = "map ?g fr"
  have ps: "?ps = take k ?ps @ ?ps ! k # drop (Suc k) ?ps"
    using assms(1) by (metis id_take_nth_drop length_map)
  have tot: "sum_list ?ps = sum_list (map ?g (take k fr @ drop (Suc k) fr)) + ?ps ! k"
    by (subst ps) (simp add: take_map drop_map)
  then have k: "max 1 (?ps ! k + (d - sum_list ?ps)) = ?ps ! k + (d - sum_list ?ps)" using assms(3) by linarith
  have sp: "split d fr = ?ps[k := ?ps ! k + (d - sum_list ?ps)]"
    unfolding split_def Let_def assms(2) k ..
  also have "\<dots> = take k ?ps @ (?ps ! k + (d - sum_list ?ps)) # drop (Suc k) ?ps"
    using assms(1) by (simp add: upd_conv_take_nth_drop)
  finally have eq: "split d fr = take k ?ps @ (?ps ! k + (d - sum_list ?ps)) # drop (Suc k) ?ps" .
  have "sum_list (split d fr) = d" using tot unfolding eq by (simp add: take_map drop_map)
  moreover have "1 \<le> s" if "s \<in> set (split d fr)" for s
    using that k unfolding sp by (auto dest!: set_update_subset_insert [THEN subsetD])
  ultimately show ?thesis by (simp add: sp)
qed

definition plan_ok :: "plan_config \<Rightarrow> bool" where
  "plan_ok cfg \<longleftrightarrow> 0 < targetRps cfg \<and> targetRps cfg \<le> 100000 \<and>
     MIN_DURATION_SECONDS (profile cfg) \<le> plan_durationSeconds cfg \<and> plan_durationSeconds cfg \<le> 86400 \<and>
     1 \<le> fanout cfg \<and> fanout cfg \<le> 100 \<and> 1 \<le> maxVus cfg \<and> maxVus cfg \<le> 100000 \<and>
     2 \<le> spikeMultiplier cfg \<and> spikeMultiplier cfg \<le> 50"

lemma fraction_order:
  "fl (1 / 10) < fl (8 / 10)" "fl (5 / 100) < fl (9 / 10)" "fl (5 / 100) < fl (2 / 10)" "fl (25 / 100) < fl (45 / 100)"
  "fl (5 / 100) < fl (45 / 100)" "fl (2 / 10) < fl (45 / 100)" "fl (5 / 100) < fl (25 / 100)"
proof -
  show "fl (1 / 10) < fl (8 / 10)" "fl (5 / 100) < fl (9 / 10)" "fl (5 / 100) < fl (2 / 10)"
    "fl (5 / 100) < fl (45 / 100)" "fl (2 / 10) < fl (45 / 100)"
    by (rule fl_less; simp)+
  show "fl (25 / 100) < fl (45 / 100)" "fl (5 / 100) < fl (25 / 100)"
    using js.rnd_lower [of "45 / 100"] js.rnd_upper [of "5 / 100"] js.rnd_lower [of "25 / 100"] js.rnd_upper [of "25 / 100"]
    by simp_all
qed

lemma max1_scaled:
  assumes "0 \<le> d" and "0 \<le> f" and "1 \<le> of_int d * f"
  shows "of_int (max 1 \<lfloor>fl (of_int d * fl f)\<rfloor>) \<le> of_int d * f * (1 + 1 / 2 ^ 51)"
proof -
  have "of_int d * f * 1 \<le> of_int d * f * (1 + 1 / 2 ^ 51)" using assms by (intro mult_left_mono) auto
  then show ?thesis using floor_scaled [OF assms(1,2)] assms(3) by (auto simp: max_def)
qed

lemma of_int_ge: "n \<le> d \<Longrightarrow> (of_int n :: rat) \<le> of_int d"
  by simp

text \<open>The fractions of a profile: the index of the longest, and the sum of the others.\<close>

definition profile_fractions :: "load_profile \<Rightarrow> rat list" where
  "profile_fractions p = (case p of
      SMOKE \<Rightarrow> [1] | BREAKPOINT \<Rightarrow> [1]
    | LOAD \<Rightarrow> [fl (1 / 10), fl (8 / 10), fl (1 / 10)]
    | SOAK \<Rightarrow> [fl (5 / 100), fl (9 / 10), fl (5 / 100)]
    | STRESS \<Rightarrow> [fl (5 / 100), fl (2 / 10), fl (5 / 100), fl (2 / 10), fl (5 / 100), fl (2 / 10), fl (5 / 100), fl (2 / 10)]
    | SPIKE \<Rightarrow> [fl (25 / 100), fl (5 / 100), fl (2 / 10), fl (5 / 100), fl (45 / 100)])"

lemma longest_index:
  "indexOf (list_max (profile_fractions p)) (profile_fractions p) =
     (case p of SMOKE \<Rightarrow> 0 | BREAKPOINT \<Rightarrow> 0 | LOAD \<Rightarrow> 1 | SOAK \<Rightarrow> 1 | STRESS \<Rightarrow> 1 | SPIKE \<Rightarrow> 4)"
  using fraction_order by (cases p) (simp_all add: profile_fractions_def list_max_def max_def)

lemma others_fit:
  assumes "MIN_DURATION_SECONDS p \<le> d"
    and k: "k = indexOf (list_max (profile_fractions p)) (profile_fractions p)"
  shows "sum_list (map (\<lambda>f. max 1 \<lfloor>fl (of_int d * f)\<rfloor>) (take k (profile_fractions p) @ drop (Suc k) (profile_fractions p))) < d"
proof -
  let ?g = "\<lambda>f. max 1 \<lfloor>fl (of_int d * fl f)\<rfloor>"
  have dp: "(of_int (MIN_DURATION_SECONDS p) :: rat) \<le> of_int d" using assms(1) by (rule of_int_ge)
  have d0: "0 \<le> d" using assms(1) by (cases p) auto
  have b: "of_int (?g f) \<le> of_int d * f * (1 + 1 / 2 ^ 51)" if "1 \<le> of_int (MIN_DURATION_SECONDS p) * f" "0 \<le> f" for f
  proof (rule max1_scaled [OF d0 that(2)])
    show "1 \<le> of_int d * f" using that dp mult_right_mono order_trans by blast
  qed
  show ?thesis
  proof (cases p)
    case LOAD
    have "of_int (?g (1 / 10) + ?g (1 / 10)) < (of_int d :: rat)"
      using b [of "1 / 10"] LOAD dp by simp
    then show ?thesis using LOAD unfolding k longest_index by (simp add: profile_fractions_def del: of_int_add max.absorb1)
  next
    case SOAK
    have "of_int (?g (5 / 100) + ?g (5 / 100)) < (of_int d :: rat)"
      using b [of "5 / 100"] SOAK dp by simp
    then show ?thesis using SOAK unfolding k longest_index by (simp add: profile_fractions_def del: of_int_add)
  next
    case STRESS
    have "of_int (?g (5 / 100) + ?g (5 / 100) + ?g (2 / 10) + ?g (5 / 100) + ?g (2 / 10) + ?g (5 / 100) + ?g (2 / 10)) < (of_int d :: rat)"
      using b [of "5 / 100"] b [of "2 / 10"] STRESS dp by simp
    then show ?thesis using STRESS unfolding k longest_index by (simp add: profile_fractions_def numeral_2_eq_2 del: of_int_add)
  next
    case SPIKE
    have "of_int (?g (25 / 100) + ?g (5 / 100) + ?g (2 / 10) + ?g (5 / 100)) < (of_int d :: rat)"
      using b [of "5 / 100"] b [of "2 / 10"] b [of "25 / 100"] SPIKE dp by simp
    then show ?thesis using SPIKE unfolding k longest_index by (simp add: profile_fractions_def del: of_int_add)
  qed (use assms in \<open>auto simp: k longest_index profile_fractions_def list_max_def\<close>)
qed

lemma length_split [simp]: "length (split d fr) = length fr"
  by (simp add: split_def Let_def)

definition profile_targets :: "plan_config \<Rightarrow> int list" where
  "profile_targets cfg = (let t = targetRps cfg in case profile cfg of
      SMOKE \<Rightarrow> [rate (min 2 t)] | BREAKPOINT \<Rightarrow> [rate t]
    | LOAD \<Rightarrow> [rate t, rate t, 0] | SOAK \<Rightarrow> [rate t, rate t, 0]
    | STRESS \<Rightarrow> [rate (fl (t * (1 / 2))), rate (fl (t * (1 / 2))), rate (fl (t * 1)), rate (fl (t * 1)),
        rate (fl (t * (3 / 2))), rate (fl (t * (3 / 2))), rate (fl (t * 2)), rate (fl (t * 2))]
    | SPIKE \<Rightarrow> [rate t, rate (fl (t * spikeMultiplier cfg)), rate (fl (t * spikeMultiplier cfg)), rate t, rate t])"

lemma mk_maps:
  "length targets = length fr \<Longrightarrow> map stage_durationSeconds (mk d fr targets) = split d fr \<and> map target (mk d fr targets) = targets"
  by (auto simp: mk_def comp_def split_beta intro: nth_equalityI)

lemma buildStages_eq: "buildStages cfg = mk (plan_durationSeconds cfg) (profile_fractions (profile cfg)) (profile_targets cfg)"
  by (cases "profile cfg") (simp_all add: buildStages_def profile_fractions_def profile_targets_def Let_def)

lemma profile_lengths: "length (profile_targets cfg) = length (profile_fractions (profile cfg))"
  by (cases "profile cfg") (simp_all add: profile_fractions_def profile_targets_def Let_def)

lemma stage_maps:
  "map stage_durationSeconds (buildStages cfg) = split (plan_durationSeconds cfg) (profile_fractions (profile cfg))"
  "map target (buildStages cfg) = profile_targets cfg"
  using mk_maps [OF profile_lengths] by (simp_all add: buildStages_eq)

lemma opt_default_all: "opt_all p x \<Longrightarrow> p v \<Longrightarrow> p (opt_default v x)"
  by (cases x) (simp_all add: opt_all_def opt_default_def)

lemma int_within_floor: "int_within lo hi x \<Longrightarrow> lo \<le> \<lfloor>x\<rfloor> \<and> \<lfloor>x\<rfloor> \<le> hi"
  by (auto simp: int_within_def le_floor_iff)

lemma schema_Some: "PlanConfigSchema i = Some cfg \<longleftrightarrow> input_ok i \<and> cfg = with_defaults i"
  by (auto simp: PlanConfigSchema_def)

lemma schema_plan_ok: "PlanConfigSchema i = Some cfg \<Longrightarrow> plan_ok cfg"
proof -
  assume "PlanConfigSchema i = Some cfg"
  then have ok: "input_ok i" and cfg: "cfg = with_defaults i" by (simp_all add: schema_Some)
  from ok have c: "opt_all (int_within 1 100) (in_fanout i)" "int_within 10 86400 (in_durationSeconds i)"
    "int_within 1 100000 (in_maxVus i)" "opt_all (\<lambda>x. 2 \<le> x \<and> x \<le> 50) (in_spikeMultiplier i)"
    "of_int (MIN_DURATION_SECONDS (in_profile i)) \<le> in_durationSeconds i"
    "0 < in_targetRps i \<and> in_targetRps i \<le> 100000"
    unfolding input_ok_def by blast+
  have "int_within 1 100 (opt_default 1 (in_fanout i))" using c(1) by (rule opt_default_all) (simp add: int_within_def)
  moreover have "2 \<le> opt_default 10 (in_spikeMultiplier i) \<and> opt_default 10 (in_spikeMultiplier i) \<le> 50"
    using c(4) by (rule opt_default_all) simp
  ultimately show ?thesis using c(2,3,5,6) by (auto simp: plan_ok_def cfg with_defaults_def le_floor_iff dest!: int_within_floor)
qed

lemma rate_mono: "x \<le> y \<Longrightarrow> rate x \<le> rate y"
  using Math_round_mono [of x y] by (auto simp: rate_def)

lemma rate_ge1 [simp]: "1 \<le> rate x"
  by (simp add: rate_def)

definition peak_of :: "plan_config \<Rightarrow> int" where
  "peak_of cfg = (let t = targetRps cfg in case profile cfg of
      SMOKE \<Rightarrow> rate (min 2 t) | STRESS \<Rightarrow> rate (fl (t * 2)) | SPIKE \<Rightarrow> rate (fl (t * spikeMultiplier cfg)) | _ \<Rightarrow> rate t)"

lemma rates_below_peak:
  assumes "plan_ok cfg"
  shows "peak_of cfg \<in> set (profile_targets cfg) \<and> (\<forall>x \<in> set (profile_targets cfg). 0 \<le> x \<and> x \<le> peak_of cfg)"
proof -
  let ?t = "targetRps cfg" and ?m = "spikeMultiplier cfg"
  have t: "0 < ?t" and m: "2 \<le> ?m" using assms by (auto simp: plan_ok_def)
  have pos: "0 \<le> rate x" for x using rate_ge1 [of x] by linarith
  have up: "rate (fl (?t * a)) \<le> rate (fl (?t * 2))" if "0 \<le> a" "a \<le> 2" for a
    using that t by (intro rate_mono js.rnd_mono mult_left_mono) auto
  have stress: "rate (fl (?t * (1 / 2))) \<le> rate (fl (?t * 2))" "rate (fl (?t * 1)) \<le> rate (fl (?t * 2))"
    "rate (fl (?t * (3 / 2))) \<le> rate (fl (?t * 2))" using up [of "1 / 2"] up [of 1] up [of "3 / 2"] by simp_all
  have "?t \<le> ?t * 2 * (1 - 1 / 2 ^ 53)" using t by simp
  also have "\<dots> \<le> ?t * ?m * (1 - 1 / 2 ^ 53)" using t m by (intro mult_right_mono mult_left_mono) auto
  also have "\<dots> \<le> fl (?t * ?m)" using t m by (intro js.rnd_lower) auto
  finally have spike: "rate ?t \<le> rate (fl (?t * ?m))" by (rule rate_mono)
  show ?thesis using stress spike pos
    by (cases "profile cfg") (simp_all add: profile_targets_def peak_of_def Let_def)
qed

lemma fold_max_Max: "xs \<noteq> [] \<Longrightarrow> fold max (tl xs) (hd xs) = Max (set xs)"
  for xs :: "'a :: linorder list"
proof (cases xs)
  case (Cons y ys)
  then show ?thesis using Max.set_eq_fold [of y ys] by simp
qed simp

lemma peakRps_eq: "plan_ok cfg \<Longrightarrow> peakRps cfg = peak_of cfg"
proof -
  assume ok: "plan_ok cfg"
  have "profile_targets cfg \<noteq> []" using rates_below_peak [OF ok] by auto
  then have "peakRps cfg = Max (set (profile_targets cfg))"
    unfolding peakRps_def stage_maps Let_def by (rule fold_max_Max)
  also have "\<dots> = peak_of cfg" using rates_below_peak [OF ok] by (intro Max_eqI) auto
  finally show ?thesis .
qed

lemma stages_ok:
  assumes ok: "plan_ok cfg"
  shows "sum_list (map stage_durationSeconds (buildStages cfg)) = plan_durationSeconds cfg"
    and "\<forall>s \<in> set (buildStages cfg). 1 \<le> stage_durationSeconds s \<and> 0 \<le> target s \<and> target s \<le> peakRps cfg"
    and "\<exists>s \<in> set (buildStages cfg). target s = peakRps cfg"
proof -
  let ?fr = "profile_fractions (profile cfg)" and ?d = "plan_durationSeconds cfg"
  have len: "indexOf (list_max ?fr) ?fr < length ?fr"
    unfolding longest_index by (cases "profile cfg") (simp_all add: profile_fractions_def)
  have "MIN_DURATION_SECONDS (profile cfg) \<le> ?d" using ok by (simp add: plan_ok_def)
  from split_sum [OF len refl others_fit [OF this refl]]
  have dur: "sum_list (split ?d ?fr) = ?d" "\<forall>s \<in> set (split ?d ?fr). 1 \<le> s" by auto
  from dur(2) have "1 \<le> stage_durationSeconds s" if "s \<in> set (buildStages cfg)" for s
    using that stage_maps(1) [of cfg] by (metis imageI list.set_map)
  moreover have "0 \<le> target s \<and> target s \<le> peakRps cfg" if "s \<in> set (buildStages cfg)" for s
    using that rates_below_peak [OF ok] peakRps_eq [OF ok] stage_maps(2) [of cfg] by (metis imageI list.set_map)
  moreover have "peakRps cfg \<in> target ` set (buildStages cfg)"
    using rates_below_peak [OF ok] peakRps_eq [OF ok] stage_maps(2) [of cfg] by (metis list.set_map)
  ultimately show "sum_list (map stage_durationSeconds (buildStages cfg)) = ?d"
    "\<forall>s \<in> set (buildStages cfg). 1 \<le> stage_durationSeconds s \<and> 0 \<le> target s \<and> target s \<le> peakRps cfg"
    "\<exists>s \<in> set (buildStages cfg). target s = peakRps cfg"
    using dur(1) stage_maps(1) [of cfg] by auto
qed

text \<open>C37. The stages of an accepted plan last exactly as long as the plan says: every stage takes at
  least a second, their durations add up to \<open>durationSeconds\<close> in spite of the roundings of the
  fractions, and no stage aims above the peak the safety gate is shown, which the plan does reach.\<close>

theorem stages_fill_duration:
  assumes "PlanConfigSchema i = Some cfg"
  shows "sum_list (map stage_durationSeconds (buildStages cfg)) = plan_durationSeconds cfg \<and>
    (\<forall>s \<in> set (buildStages cfg). 1 \<le> stage_durationSeconds s \<and> 0 \<le> target s \<and> target s \<le> peakRps cfg) \<and>
    (\<exists>s \<in> set (buildStages cfg). target s = peakRps cfg)"
  using stages_ok [OF schema_plan_ok [OF assms]] by blast

definition sample_input :: plan_input where
  "sample_input = \<lparr>in_profile = STRESS, in_method = Some POST, in_headers = Some [(''X-Trace'', ''{{data.user.id}}'')],
     in_path = Some ''/pay/{{data.account}}'', in_body = Some (Jobj [(''to'', Jstr ''{{data.account}}'')]), in_dataSetId = Some 4,
     in_dataSelection = None, in_moneyMoving = Some True, in_realSideEffects = None, in_fanout = Some 10,
     in_slo = None, in_packId = None, in_idempotencyHeader = None, in_targetRps = 20,
     in_durationSeconds = 61, in_maxVus = 100, in_preAllocatedVus = Some 10, in_spikeMultiplier = None,
     in_expectedStatuses = None, in_timeoutMs = None\<rparr>"

definition sample_plan :: plan_config where
  "sample_plan = \<lparr>profile = STRESS, plan_method = POST, headers = [(''X-Trace'', ''{{data.user.id}}'')],
     path = Some ''/pay/{{data.account}}'', body = Some (Jobj [(''to'', Jstr ''{{data.account}}'')]), dataSetId = Some 4,
     dataSelection = Sequential, moneyMoving = True, realSideEffects = False, fanout = 10,
     slo = None, packId = None, idempotencyHeader = Some ''Idempotency-Key'', targetRps = 20,
     plan_durationSeconds = 61, maxVus = 100, preAllocatedVus = Some 10, spikeMultiplier = 10,
     expectedStatuses = [200, 201, 202, 204], plan_timeoutMs = 30000\<rparr>"

lemma sample_plan_accepted: "PlanConfigSchema sample_input = Some sample_plan"
proof -
  have "headers_ok [(''X-Trace'', ''{{data.user.id}}'')]"
    by (simp add: headers_ok_def js_length_def FORBIDDEN_HEADERS_def)
  moreover have "path_ok ''/pay/{{data.account}}''"
    by (simp add: path_ok_def js_length_def ws_len_def)
  ultimately show ?thesis
    by (simp add: schema_Some input_ok_def with_defaults_def sample_input_def sample_plan_def opt_default_def opt_all_def int_within_def)
qed

theorem stages_fill_duration_witness:
  "sum_list (map stage_durationSeconds (buildStages sample_plan)) = 61 \<and> (\<exists>s \<in> set (buildStages sample_plan). target s = 40)"
proof -
  have "peakRps sample_plan = rate (fl (20 * 2))"
    using peakRps_eq [OF schema_plan_ok [OF sample_plan_accepted]] by (simp add: peak_of_def sample_plan_def)
  also have "\<dots> = 40" using js.rnd_of_int [of 40] Math_round_of_int [of 40] by (simp add: rate_def)
  finally have "peakRps sample_plan = 40" .
  with stages_fill_duration [OF sample_plan_accepted] show ?thesis by (auto simp: sample_plan_def)
qed

section \<open>Data references\<close>

definition field_name :: "string \<Rightarrow> bool" where
  "field_name f \<longleftrightarrow> f \<noteq> [] \<and> list_all field_char f"

definition mentions :: "string \<Rightarrow> string \<Rightarrow> bool" where
  "mentions f s \<longleftrightarrow> (\<exists>p q. s = p @ ''{{data.'' @ f @ ''}}'' @ q)"

lemma field_char_brace: "\<not> field_char (CHR ''}'')" "\<not> field_char (CHR ''{'')"
  by (simp_all add: field_char_def Let_def)

lemma takeWhile_field: "list_all field_char f \<Longrightarrow> takeWhile field_char (f @ ''}}'' @ q) = f \<and> dropWhile field_char (f @ ''}}'' @ q) = ''}}'' @ q"
  by (induction f) (simp_all add: field_char_brace)

lemma match_ref_iff: "match_ref s = Some (f, q) \<longleftrightarrow> field_name f \<and> s = ''{{data.'' @ f @ ''}}'' @ q"
proof
  assume m: "match_ref s = Some (f, q)"
  then have a: "take 7 s = ''{{data.''" "f = takeWhile field_char (drop 7 s)" "f \<noteq> []"
    "take 2 (dropWhile field_char (drop 7 s)) = ''}}''" "q = drop 2 (dropWhile field_char (drop 7 s))"
    by (auto simp: match_ref_def Let_def split: if_splits)
  have "dropWhile field_char (drop 7 s) = ''}}'' @ q" using a(4,5) by (metis append_take_drop_id)
  then have "drop 7 s = f @ ''}}'' @ q" using a(2) by (metis takeWhile_dropWhile_id)
  then have "s = ''{{data.'' @ f @ ''}}'' @ q" using a(1) by (metis append_take_drop_id)
  moreover have "list_all field_char f" unfolding a(2) by (auto simp: list_all_iff dest: set_takeWhileD)
  ultimately show "field_name f \<and> s = ''{{data.'' @ f @ ''}}'' @ q" using a(3) by (simp add: field_name_def)
next
  assume "field_name f \<and> s = ''{{data.'' @ f @ ''}}'' @ q"
  then show "match_ref s = Some (f, q)"
    using takeWhile_field [of f q] by (auto simp: match_ref_def Let_def field_name_def)
qed

lemma mention_after_match:
  assumes "''{{data.'' @ g @ ''}}'' @ rest = p @ ''{{data.'' @ f @ ''}}'' @ q" and "p \<noteq> []" and "field_name g"
  shows "mentions f rest"
proof -
  let ?m = "''{{data.'' @ g @ ''}}''" and ?r = "''{{data.'' @ f @ ''}}'' @ q"
  have split2: "xs @ ys = zs @ ts \<Longrightarrow> (\<exists>us. zs = xs @ us \<and> ys = us @ ts) \<or> (\<exists>us. xs = zs @ us \<and> us @ ys = ts)"
    for xs ys zs ts :: string
    by (auto simp: append_eq_append_conv2)
  have "?m @ rest = p @ ?r" using assms(1) by simp
  from split2 [OF this] consider us where "p = ?m @ us" "rest = us @ ?r" | us where "?m = p @ us" "us @ rest = ?r"
    by blast
  then show ?thesis
  proof cases
    case 1
    then show ?thesis by (auto simp: mentions_def)
  next
    case 2
    have no: "CHR ''{'' \<notin> set (''data.'' @ g @ ''}}'')"
      using assms(3) field_char_brace(2) by (auto simp: field_name_def list_all_iff)
    show ?thesis
    proof (cases us)
      case Nil
      with 2 have "rest = [] @ ?r" by simp
      then show ?thesis unfolding mentions_def by blast
    next
      case (Cons u us')
      have u: "u = CHR ''{''" using 2(2) Cons by simp
      obtain p' where p: "p = CHR ''{'' # p'" using 2(1) assms(2) by (cases p) auto
      then have t: "''{data.'' @ g @ ''}}'' = p' @ us" using 2(1) by simp
      show ?thesis
      proof (cases p')
        case Nil
        then show ?thesis using t 2(2) by auto
      next
        case (Cons c p'')
        then have "u \<in> set (''data.'' @ g @ ''}}'')" using t \<open>us = u # us'\<close> by (metis append_Cons list.inject in_set_conv_decomp)
        with no u show ?thesis by blast
      qed
    qed
  qed
qed

lemma set_data_refs: "f \<in> set (data_refs s) \<longleftrightarrow> field_name f \<and> mentions f s"
proof (induction s rule: data_refs.induct)
  case (1 s)
  show ?case
  proof (cases s)
    case Nil
    then show ?thesis by (simp add: data_refs.simps [of "[]"] mentions_def)
  next
    case s: (Cons c cs)
    show ?thesis
    proof (cases "match_ref s")
      case None
      then have nomatch: "\<not> (field_name f \<and> s = ''{{data.'' @ f @ ''}}'' @ q)" for q
        using match_ref_iff [of s f q] by auto
      have "field_name f \<Longrightarrow> mentions f s \<longleftrightarrow> mentions f cs"
      proof
        assume f: "field_name f" and "mentions f s"
        then obtain p q where pq: "s = p @ ''{{data.'' @ f @ ''}}'' @ q" by (auto simp: mentions_def)
        then obtain p' where "p = c # p'" using nomatch f s by (cases p) auto
        then show "mentions f cs" using pq s by (auto simp: mentions_def)
      next
        assume "mentions f cs"
        then obtain p q where "s = (c # p) @ ''{{data.'' @ f @ ''}}'' @ q" by (auto simp: mentions_def s)
        then show "mentions f s" unfolding mentions_def by blast
      qed
      moreover have "data_refs s = data_refs cs" using s None by (simp add: data_refs.simps [of "c # cs"])
      ultimately show ?thesis using "1.IH"(1) [OF s None] by auto
    next
      case (Some x)
      obtain g rest where x: "x = (g, rest)" by (cases x)
      then have g: "field_name g" "s = ''{{data.'' @ g @ ''}}'' @ rest" using Some match_ref_iff by auto
      have ref: "set (data_refs s) = insert g (set (data_refs rest))"
        using s Some x by (simp add: data_refs.simps [of "c # cs"])
      have IH: "f \<in> set (data_refs rest) \<longleftrightarrow> field_name f \<and> mentions f rest" using "1.IH"(2) [OF s Some x [symmetric]] .
      have "mentions g s" unfolding mentions_def g(2) by (metis append_Nil)
      moreover have "mentions f rest \<Longrightarrow> mentions f s"
        unfolding mentions_def g(2) by (metis append.assoc)
      moreover have "f = g \<or> mentions f rest" if "field_name f" "mentions f s"
      proof -
        from that(2) obtain p q where pq: "s = p @ ''{{data.'' @ f @ ''}}'' @ q" by (auto simp: mentions_def)
        show ?thesis
        proof (cases "p = []")
          case True
          then have "match_ref s = Some (f, q)" using pq that(1) match_ref_iff by simp
          with Some x show ?thesis by simp
        next
          case False
          from mention_after_match [OF _ False g(1)] pq g(2) show ?thesis by metis
        qed
      qed
      ultimately show ?thesis unfolding ref using IH g(1) by auto
    qed
  qed
qed

text \<open>The fields a plan needs from its data set are exactly those its path, its header values and
  the strings of its body mention as \<open>{{data.field}}\<close>, each listed once, in order.\<close>

theorem data_fields_exact:
  "sorted (dataFieldsUsed cfg) \<and> distinct (dataFieldsUsed cfg) \<and>
   set (dataFieldsUsed cfg) =
     {f. field_name f \<and>
        (\<exists>s \<in> (case path cfg of Some p \<Rightarrow> {p} | None \<Rightarrow> {}) \<union> snd ` set (headers cfg) \<union>
             (case body cfg of Some b \<Rightarrow> set (json_strings b) | None \<Rightarrow> {}). mentions f s)}"
proof -
  let ?S = "(case path cfg of Some p \<Rightarrow> {p} | None \<Rightarrow> {}) \<union> snd ` set (headers cfg) \<union>
             (case body cfg of Some b \<Rightarrow> set (json_strings b) | None \<Rightarrow> {})"
  have "set (dataFieldsUsed cfg) = (\<Union>s \<in> ?S. set (data_refs s))"
    by (simp add: dataFieldsUsed_def Un_assoc split: option.splits)
  then have "set (dataFieldsUsed cfg) = {f. field_name f \<and> (\<exists>s \<in> ?S. mentions f s)}"
    unfolding UNION_eq set_data_refs by blast
  then show ?thesis by (simp add: dataFieldsUsed_def)
qed

end
