(* ===== verification/Load_Safety.thy ===== *)
theory Load_Safety
  imports Load_Plan
begin

text \<open>
  \<^verbatim>\<open>src/domain/load-safety.ts\<close>: the gate every decision to generate load flows through. The host
  of a URL is what the runtime's \<open>URL\<close> parser reports (\<open>urlHost\<close>, \<open>None\<close> when it rejects the
  URL). A violation is its code, with the values its message shows.
\<close>

section \<open>Inputs\<close>

record load_ceiling =
  c_maxRps :: rat
  c_maxVus :: rat
  c_maxDurationSeconds :: rat

type_synonym load_ceilings = "load_environment_class \<Rightarrow> load_ceiling"

record host_lists =
  production_hosts :: "string list"
  sandbox_hosts :: "string list"
  mock_hosts :: "string list"

record safety_authorization =
  sa_status :: load_authorization_status
  sa_windowStart :: timestamp
  sa_windowEnd :: timestamp
  sa_maxRps :: rat
  sa_maxVus :: rat
  sa_maxDurationSeconds :: rat
  sa_allowRealSideEffects :: bool

record preflight_plan =
  p_rps :: rat
  p_vus :: rat
  p_durationSeconds :: rat
  p_mutating :: bool
  p_realSideEffects :: bool

record safety_input =
  i_now :: timestamp
  i_enabled :: bool
  i_killSwitch :: bool
  i_url :: string
  i_isMoneyMoving :: bool
  i_environment :: environment
  i_config :: "(load_environment_class \<times> bool) option"
  i_authorization :: "safety_authorization option"
  i_plan :: preflight_plan
  i_hosts :: host_lists
  i_ceilings :: load_ceilings
  i_realSideEffectMaxRps :: rat

datatype safety_violation =
    LOAD_TESTING_DISABLED | KILL_SWITCH | NO_CONFIG | CLASS_DOWNGRADE load_environment_class | BAD_URL
  | HOST_IS_PRODUCTION string load_environment_class | HOST_NOT_MOCK string | HOST_NOT_ALLOWLISTED string | HOST_UNKNOWN string
  | PRODUCTION_STATE_CHANGING
  | CEILING_RPS rat load_environment_class rat | CEILING_VUS rat load_environment_class rat
  | CEILING_DURATION rat load_environment_class rat
  | AUTH_REQUIRED | AUTH_NOT_APPROVED load_authorization_status | AUTH_OUTSIDE_WINDOW
  | AUTH_CAP_RPS rat | AUTH_CAP_VUS rat | AUTH_CAP_DURATION rat
  | REAL_SIDE_EFFECTS | REAL_SIDE_EFFECTS_RPS rat

record safety_decision =
  allowed :: bool
  effectiveClass :: "load_environment_class option"
  violations :: "safety_violation list"

section \<open>Parsing the settings\<close>

definition classFromEnvironment :: "environment \<Rightarrow> load_environment_class" where
  "classFromEnvironment e =
     (if e = Env_production then PRODUCTION else if e = Env_staging then STAGING else SANDBOX)"

definition strip_brackets :: "string \<Rightarrow> string" where
  "strip_brackets h =
     (let h1 = (case h of c # cs \<Rightarrow> if c = CHR ''['' then cs else h | [] \<Rightarrow> [])
      in if h1 \<noteq> [] \<and> last h1 = CHR '']'' then butlast h1 else h1)"

definition hostOf :: "(string \<Rightarrow> string option) \<Rightarrow> string \<Rightarrow> string option" where
  "hostOf urlHost url = map_option (\<lambda>h. strip_brackets (toLowerCase h)) (urlHost url)"

definition parseHostList :: "string \<Rightarrow> string list" where
  "parseHostList csv = filter (\<lambda>h. h \<noteq> []) (map (\<lambda>h. toLowerCase (trim h)) (split_on (CHR '','') csv))"

fun show_load_class :: "load_environment_class \<Rightarrow> string" where
  "show_load_class MOCK = ''MOCK''"
| "show_load_class SANDBOX = ''SANDBOX''"
| "show_load_class STAGING = ''STAGING''"
| "show_load_class PRODUCTION = ''PRODUCTION''"

definition LOAD_ENVIRONMENT_CLASSES :: "load_environment_class list" where
  "LOAD_ENVIRONMENT_CLASSES = [MOCK, SANDBOX, STAGING, PRODUCTION]"

definition ceiling_entry :: "string \<Rightarrow> (load_environment_class \<times> load_ceiling) option" where
  "ceiling_entry part =
     (let fields = split_on (CHR '':'') (trim part);
          nums = map Number (split_on (CHR ''/'') (case fields of _ # n # _ \<Rightarrow> n | _ \<Rightarrow> []))
      in case (find (\<lambda>c. show_load_class c = hd fields) LOAD_ENVIRONMENT_CLASSES, nums) of
           (Some cls, Some rps # Some vus # Some dur # _) \<Rightarrow>
             if 0 < rps \<and> 0 < vus \<and> 0 < dur
             then Some (cls, \<lparr>c_maxRps = rps, c_maxVus = vus, c_maxDurationSeconds = dur\<rparr>) else None
         | _ \<Rightarrow> None)"

fun ceiling_entries :: "string list \<Rightarrow> (load_environment_class \<rightharpoonup> load_ceiling) \<Rightarrow> string + (load_environment_class \<rightharpoonup> load_ceiling)" where
  "ceiling_entries [] out = Inr out"
| "ceiling_entries (part # parts) out =
     (case ceiling_entry part of
        None \<Rightarrow> Inl (''Invalid LOAD_TEST_CEILINGS entry: '' @ dquote @ part @ dquote)
      | Some (cls, c) \<Rightarrow> ceiling_entries parts (out(cls \<mapsto> c)))"

definition parseCeilings :: "string \<Rightarrow> string + load_ceilings" where
  "parseCeilings spec =
     (case ceiling_entries (split_on (CHR '','') spec) (\<lambda>_. None) of
        Inl e \<Rightarrow> Inl e
      | Inr out \<Rightarrow>
          (case find (\<lambda>c. out c = None) LOAD_ENVIRONMENT_CLASSES of
             Some c \<Rightarrow> Inl (''LOAD_TEST_CEILINGS is missing class '' @ show_load_class c)
           | None \<Rightarrow> Inr (\<lambda>c. the (out c))))"

section \<open>The gate\<close>

definition when_v :: "bool \<Rightarrow> safety_violation \<Rightarrow> safety_violation list" where
  "when_v b x = (if b then [x] else [])"

definition effective_class :: "environment \<Rightarrow> load_environment_class \<Rightarrow> load_environment_class" where
  "effective_class e configured =
     (let envClass = classFromEnvironment e
      in if configured \<noteq> MOCK \<and> STRICTNESS configured < STRICTNESS envClass then envClass else configured)"

definition host_violations :: "host_lists \<Rightarrow> string option \<Rightarrow> load_environment_class \<Rightarrow> safety_violation list" where
  "host_violations hosts host effective =
     (case host of
        None \<Rightarrow> [BAD_URL]
      | Some h \<Rightarrow>
          if h = [] then [BAD_URL] else
          when_v (h \<in> set (production_hosts hosts) \<and> effective \<noteq> PRODUCTION) (HOST_IS_PRODUCTION h effective) @
          when_v (effective = MOCK \<and> h \<notin> set (mock_hosts hosts)) (HOST_NOT_MOCK h) @
          when_v ((effective = SANDBOX \<or> effective = STAGING) \<and> h \<notin> set (sandbox_hosts hosts)) (HOST_NOT_ALLOWLISTED h) @
          when_v (effective = PRODUCTION \<and> h \<notin> set (production_hosts hosts) \<and> h \<notin> set (sandbox_hosts hosts)) (HOST_UNKNOWN h))"

definition ceiling_violations :: "load_ceiling \<Rightarrow> load_environment_class \<Rightarrow> preflight_plan \<Rightarrow> safety_violation list" where
  "ceiling_violations lc effective plan =
     when_v (c_maxRps lc < p_rps plan) (CEILING_RPS (p_rps plan) effective (c_maxRps lc)) @
     when_v (c_maxVus lc < p_vus plan) (CEILING_VUS (p_vus plan) effective (c_maxVus lc)) @
     when_v (c_maxDurationSeconds lc < p_durationSeconds plan)
       (CEILING_DURATION (p_durationSeconds plan) effective (c_maxDurationSeconds lc))"

definition run_end :: "timestamp \<Rightarrow> preflight_plan \<Rightarrow> rat" where
  "run_end now plan = fl (of_int now + fl (p_durationSeconds plan * 1000))"

definition auth_violations :: "timestamp \<Rightarrow> safety_authorization option \<Rightarrow> preflight_plan \<Rightarrow> safety_violation list" where
  "auth_violations now auth plan =
     (case auth of
        None \<Rightarrow> [AUTH_REQUIRED]
      | Some a \<Rightarrow>
          when_v (sa_status a \<noteq> APPROVED) (AUTH_NOT_APPROVED (sa_status a)) @
          when_v (now < sa_windowStart a \<or> of_int (sa_windowEnd a) < run_end now plan) AUTH_OUTSIDE_WINDOW @
          when_v (sa_maxRps a < p_rps plan) (AUTH_CAP_RPS (sa_maxRps a)) @
          when_v (sa_maxVus a < p_vus plan) (AUTH_CAP_VUS (sa_maxVus a)) @
          when_v (sa_maxDurationSeconds a < p_durationSeconds plan) (AUTH_CAP_DURATION (sa_maxDurationSeconds a)))"

definition side_effect_violations :: "rat \<Rightarrow> safety_authorization option \<Rightarrow> preflight_plan \<Rightarrow> safety_violation list" where
  "side_effect_violations maxRps auth plan =
     when_v (\<not> (case auth of Some a \<Rightarrow> sa_allowRealSideEffects a | None \<Rightarrow> False)) REAL_SIDE_EFFECTS @
     when_v (maxRps < p_rps plan) (REAL_SIDE_EFFECTS_RPS maxRps)"

definition evaluateLoadSafety :: "(string \<Rightarrow> string option) \<Rightarrow> safety_input \<Rightarrow> safety_decision" where
  "evaluateLoadSafety urlHost i =
     (let v0 = when_v (\<not> i_enabled i) LOAD_TESTING_DISABLED @ when_v (i_killSwitch i) KILL_SWITCH
      in case i_config i of
           None \<Rightarrow> \<lparr>allowed = False, effectiveClass = None, violations = v0 @ [NO_CONFIG]\<rparr>
         | Some (configured, hasRealSideEffects) \<Rightarrow>
             let effective = effective_class (i_environment i) configured;
                 plan = i_plan i;
                 v = v0 @
                   when_v (i_environment i = Env_production \<and> configured \<noteq> PRODUCTION) (CLASS_DOWNGRADE configured) @
                   host_violations (i_hosts i) (hostOf urlHost (i_url i)) effective @
                   when_v (effective = PRODUCTION \<and> (i_isMoneyMoving i \<or> p_mutating plan)) PRODUCTION_STATE_CHANGING @
                   ceiling_violations (i_ceilings i effective) effective plan @
                   (if effective \<noteq> MOCK then auth_violations (i_now i) (i_authorization i) plan else []) @
                   (if (hasRealSideEffects \<or> p_realSideEffects plan) \<and> effective \<noteq> MOCK
                    then side_effect_violations (i_realSideEffectMaxRps i) (i_authorization i) plan else [])
             in \<lparr>allowed = (v = []), effectiveClass = Some effective, violations = v\<rparr>)"

section \<open>What an allowed run is\<close>

lemma when_v_Nil [simp]: "when_v b x = [] \<longleftrightarrow> \<not> b"
  by (simp add: when_v_def)

lemma host_violations_Nil:
  "host_violations hosts h c = [] \<longleftrightarrow>
     (\<exists>x. h = Some x \<and> x \<noteq> [] \<and>
       (case c of MOCK \<Rightarrow> x \<in> set (mock_hosts hosts) \<and> x \<notin> set (production_hosts hosts)
        | PRODUCTION \<Rightarrow> x \<in> set (production_hosts hosts) \<or> x \<in> set (sandbox_hosts hosts)
        | _ \<Rightarrow> x \<in> set (sandbox_hosts hosts) \<and> x \<notin> set (production_hosts hosts)))"
  by (cases h; cases c) (auto simp: host_violations_def)

lemma effective_class_strict:
  "effective_class e c = MOCK \<longleftrightarrow> c = MOCK" "c \<noteq> MOCK \<Longrightarrow> classFromEnvironment e \<le> effective_class e c" "c \<le> effective_class e c"
  by (auto simp: effective_class_def Let_def rank_defs classFromEnvironment_def split: if_splits)

text \<open>What the authorization must grant a plan that starts at \<open>now\<close>.\<close>

definition grants :: "safety_authorization \<Rightarrow> timestamp \<Rightarrow> preflight_plan \<Rightarrow> bool" where
  "grants a now plan \<longleftrightarrow> sa_status a = APPROVED \<and> sa_windowStart a \<le> now \<and> run_end now plan \<le> of_int (sa_windowEnd a) \<and>
     p_rps plan \<le> sa_maxRps a \<and> p_vus plan \<le> sa_maxVus a \<and> p_durationSeconds plan \<le> sa_maxDurationSeconds a"

lemma auth_violations_Nil: "auth_violations now auth plan = [] \<longleftrightarrow> (\<exists>a. auth = Some a \<and> grants a now plan)"
  by (cases auth) (auto simp: auth_violations_def grants_def not_less)

lemma ceiling_violations_Nil:
  "ceiling_violations lc c plan = [] \<longleftrightarrow>
     p_rps plan \<le> c_maxRps lc \<and> p_vus plan \<le> c_maxVus lc \<and> p_durationSeconds plan \<le> c_maxDurationSeconds lc"
  by (auto simp: ceiling_violations_def not_less)

lemma side_effect_violations_Nil:
  "side_effect_violations m auth plan = [] \<longleftrightarrow> (\<exists>a. auth = Some a \<and> sa_allowRealSideEffects a) \<and> p_rps plan \<le> m"
  by (cases auth) (auto simp: side_effect_violations_def not_less)

lemmas gate_Nil = host_violations_Nil auth_violations_Nil ceiling_violations_Nil side_effect_violations_Nil

lemma allowedE:
  assumes "allowed (evaluateLoadSafety urlHost i)"
  obtains configured rse c where "i_config i = Some (configured, rse)" "c = effective_class (i_environment i) configured"
    "effectiveClass (evaluateLoadSafety urlHost i) = Some c" "i_enabled i" "\<not> i_killSwitch i"
    "i_environment i = Env_production \<longrightarrow> configured = PRODUCTION"
    "host_violations (i_hosts i) (hostOf urlHost (i_url i)) c = []"
    "c = PRODUCTION \<longrightarrow> \<not> i_isMoneyMoving i \<and> \<not> p_mutating (i_plan i)"
    "ceiling_violations (i_ceilings i c) c (i_plan i) = []"
    "c \<noteq> MOCK \<longrightarrow> auth_violations (i_now i) (i_authorization i) (i_plan i) = []"
    "(rse \<or> p_realSideEffects (i_plan i)) \<and> c \<noteq> MOCK \<longrightarrow>
        side_effect_violations (i_realSideEffectMaxRps i) (i_authorization i) (i_plan i) = []"
proof -
  obtain configured rse where cfg: "i_config i = Some (configured, rse)"
    using assms by (auto simp: evaluateLoadSafety_def Let_def split: option.splits)
  show ?thesis using assms cfg
    by (intro that [OF cfg refl]) (auto simp: evaluateLoadSafety_def Let_def split: if_splits)
qed

text \<open>C35. The gate denies by default: a run is allowed only when load testing is enabled, the kill
  switch is off and the target is classified; the effective class is at least as strict as the
  target's own environment unless the target is a simulator; the host is on the list of that
  class and a production host only ever runs as production; nothing that changes state or moves
  money runs on production; and outside the simulator an approved authorization covers the whole
  run, its rate, its users and its duration, and real side effects if it has any.\<close>

theorem gate_allows_only_safe_runs:
  assumes "allowed (evaluateLoadSafety urlHost i)"
  shows "i_enabled i \<and> \<not> i_killSwitch i \<and>
    (\<exists>configured rse h. let c = effective_class (i_environment i) configured; plan = i_plan i in
       i_config i = Some (configured, rse) \<and> effectiveClass (evaluateLoadSafety urlHost i) = Some c \<and>
       hostOf urlHost (i_url i) = Some h \<and>
       (c \<noteq> PRODUCTION \<longrightarrow> h \<notin> set (production_hosts (i_hosts i)) \<and> i_environment i \<noteq> Env_production) \<and>
       (c = MOCK \<longrightarrow> h \<in> set (mock_hosts (i_hosts i))) \<and>
       (c \<noteq> MOCK \<longrightarrow> classFromEnvironment (i_environment i) \<le> c \<and>
          h \<in> set (sandbox_hosts (i_hosts i)) \<union> set (production_hosts (i_hosts i)) \<and>
          (\<exists>a. i_authorization i = Some a \<and> grants a (i_now i) plan \<and>
             (rse \<or> p_realSideEffects plan \<longrightarrow> sa_allowRealSideEffects a \<and> p_rps plan \<le> i_realSideEffectMaxRps i))) \<and>
       (c = PRODUCTION \<longrightarrow> \<not> i_isMoneyMoving i \<and> \<not> p_mutating plan) \<and>
       p_rps plan \<le> c_maxRps (i_ceilings i c) \<and> p_vus plan \<le> c_maxVus (i_ceilings i c) \<and>
       p_durationSeconds plan \<le> c_maxDurationSeconds (i_ceilings i c))"
proof -
  from assms obtain configured rse c where cfg: "i_config i = Some (configured, rse)"
    and c_def: "c = effective_class (i_environment i) configured"
    and eff: "effectiveClass (evaluateLoadSafety urlHost i) = Some c" and v0: "i_enabled i" "\<not> i_killSwitch i"
    and down: "i_environment i = Env_production \<longrightarrow> configured = PRODUCTION"
    and host: "host_violations (i_hosts i) (hostOf urlHost (i_url i)) c = []"
    and prod: "c = PRODUCTION \<longrightarrow> \<not> i_isMoneyMoving i \<and> \<not> p_mutating (i_plan i)"
    and ceil: "ceiling_violations (i_ceilings i c) c (i_plan i) = []"
    and auth: "c \<noteq> MOCK \<longrightarrow> auth_violations (i_now i) (i_authorization i) (i_plan i) = []"
    and side: "(rse \<or> p_realSideEffects (i_plan i)) \<and> c \<noteq> MOCK \<longrightarrow>
        side_effect_violations (i_realSideEffectMaxRps i) (i_authorization i) (i_plan i) = []"
    by (rule allowedE)
  note strict = effective_class_strict [where e = "i_environment i" and c = configured, folded c_def]
  obtain h where h: "hostOf urlHost (i_url i) = Some h" using host by (auto simp: gate_Nil)
  have envp: "c \<noteq> PRODUCTION \<longrightarrow> i_environment i \<noteq> Env_production"
    using down strict(3) by (cases c) (auto simp: rank_defs)
  have hp: "c \<noteq> PRODUCTION \<longrightarrow> h \<notin> set (production_hosts (i_hosts i))" "c = MOCK \<longrightarrow> h \<in> set (mock_hosts (i_hosts i))"
    "c \<noteq> MOCK \<longrightarrow> h \<in> set (sandbox_hosts (i_hosts i)) \<union> set (production_hosts (i_hosts i))"
    using host h by (auto simp: gate_Nil split: load_environment_class.splits)
  show ?thesis unfolding Let_def
    using v0 eff h envp hp prod ceil auth side strict(1,2) cfg
    by (auto simp: c_def gate_Nil intro!: exI [of _ configured] exI [of _ rse] exI [of _ h])
qed

definition sample_safety_input :: safety_input where
  "sample_safety_input = \<lparr>i_now = 1000, i_enabled = True, i_killSwitch = False, i_url = ''https://sbx/pay'',
     i_isMoneyMoving = True, i_environment = Env_sandbox, i_config = Some (SANDBOX, False),
     i_authorization = Some \<lparr>sa_status = APPROVED, sa_windowStart = 0, sa_windowEnd = 1000000, sa_maxRps = 50, sa_maxVus = 10,
       sa_maxDurationSeconds = 60, sa_allowRealSideEffects = False\<rparr>,
     i_plan = \<lparr>p_rps = 40, p_vus = 5, p_durationSeconds = 30, p_mutating = True, p_realSideEffects = False\<rparr>,
     i_hosts = \<lparr>production_hosts = [''api''], sandbox_hosts = [''sbx''], mock_hosts = [''localhost'']\<rparr>,
     i_ceilings = (\<lambda>_. \<lparr>c_maxRps = 100, c_maxVus = 100, c_maxDurationSeconds = 100\<rparr>), i_realSideEffectMaxRps = 1\<rparr>"

theorem gate_allows_only_safe_runs_witness:
  "allowed (evaluateLoadSafety (\<lambda>_. Some ''sbx'') sample_safety_input) \<and>
   \<not> allowed (evaluateLoadSafety (\<lambda>_. Some ''sbx'') (sample_safety_input\<lparr>i_killSwitch := True\<rparr>))"
proof
  have e: "run_end 1000 \<lparr>p_rps = 40, p_vus = 5, p_durationSeconds = 30, p_mutating = True, p_realSideEffects = False\<rparr> = 31000"
    using js.rnd_of_int [of 30000] js.rnd_of_int [of 31000] by (simp add: run_end_def)
  show "allowed (evaluateLoadSafety (\<lambda>_. Some ''sbx'') sample_safety_input)"
    by (simp add: evaluateLoadSafety_def sample_safety_input_def effective_class_def classFromEnvironment_def gate_Nil grants_def e
        hostOf_def strip_brackets_def Let_def)
  show "\<not> allowed (evaluateLoadSafety (\<lambda>_. Some ''sbx'') (sample_safety_input\<lparr>i_killSwitch := True\<rparr>))"
    using gate_allows_only_safe_runs [of "\<lambda>_. Some ''sbx''" "sample_safety_input\<lparr>i_killSwitch := True\<rparr>"] by auto
qed

section \<open>Settings survive a round trip\<close>

type_synonym ceiling_caps = "load_environment_class \<Rightarrow> nat \<times> nat \<times> nat"

definition show_ceiling :: "ceiling_caps \<Rightarrow> load_environment_class \<Rightarrow> string" where
  "show_ceiling f c = (case f c of (r, v, s) \<Rightarrow> show_load_class c @ '':'' @ show_nat r @ ''/'' @ show_nat v @ ''/'' @ show_nat s)"

definition show_ceilings :: "ceiling_caps \<Rightarrow> string" where
  "show_ceilings f = show_ceiling f MOCK @ '','' @ show_ceiling f SANDBOX @ '','' @ show_ceiling f STAGING @ '','' @ show_ceiling f PRODUCTION"

definition valid_caps :: "nat \<times> nat \<times> nat \<Rightarrow> bool" where
  "valid_caps x = (case x of (r, v, s) \<Rightarrow> 0 < r \<and> r < 2 ^ 53 \<and> 0 < v \<and> v < 2 ^ 53 \<and> 0 < s \<and> s < 2 ^ 53)"

lemma show_load_class_inject: "show_load_class a = show_load_class b \<longleftrightarrow> a = b"
  by (cases a; cases b) simp_all

lemma show_nat_no_sep: "\<not> is_digit c \<Longrightarrow> c \<notin> set (show_nat n)"
  using show_nat_digits by blast

lemma ceiling_entry_show:
  assumes "valid_caps (f c)"
  shows "ceiling_entry (show_ceiling f c) =
    Some (c, \<lparr>c_maxRps = of_nat (fst (f c)), c_maxVus = of_nat (fst (snd (f c))), c_maxDurationSeconds = of_nat (snd (snd (f c)))\<rparr>)"
proof -
  obtain r v s where f: "f c = (r, v, s)" by (cases "f c")
  have b: "0 < r" "r < 2 ^ 53" "0 < v" "v < 2 ^ 53" "0 < s" "s < 2 ^ 53" using assms f by (auto simp: valid_caps_def)
  have sh: "show_ceiling f c = show_load_class c @ CHR '':'' # show_nat r @ CHR ''/'' # show_nat v @ CHR ''/'' # show_nat s"
    by (simp add: show_ceiling_def f)
  have nosep: "CHR '':'' \<notin> set (show_load_class c)" by (cases c) auto
  have tr: "trim (show_ceiling f c) = show_ceiling f c"
    unfolding sh by (rule trim_printable) (cases c; simp add: show_nat_printable)
  have no: "CHR '':'' \<notin> set (show_nat k)" "CHR ''/'' \<notin> set (show_nat k)" for k
    by (rule show_nat_no_sep; simp add: is_digit_def)+
  have fields: "split_on (CHR '':'') (show_ceiling f c) = [show_load_class c, show_nat r @ CHR ''/'' # show_nat v @ CHR ''/'' # show_nat s]"
    unfolding sh by (subst split_on_append [OF nosep], subst split_on_single) (simp_all add: no)
  have nums: "split_on (CHR ''/'') (show_nat r @ CHR ''/'' # show_nat v @ CHR ''/'' # show_nat s) = [show_nat r, show_nat v, show_nat s]"
    by (simp add: split_on_append split_on_single no)
  have "find (\<lambda>x. show_load_class x = show_load_class c) LOAD_ENVIRONMENT_CLASSES = Some c"
    unfolding show_load_class_inject by (cases c) (simp_all add: LOAD_ENVIRONMENT_CLASSES_def)
  then show ?thesis using b by (simp add: ceiling_entry_def tr fields nums Number_show_nat f)
qed

definition caps_ceiling :: "nat \<times> nat \<times> nat \<Rightarrow> load_ceiling" where
  "caps_ceiling x = \<lparr>c_maxRps = of_nat (fst x), c_maxVus = of_nat (fst (snd x)), c_maxDurationSeconds = of_nat (snd (snd x))\<rparr>"

lemma parseCeilings_shown:
  assumes "\<And>c. valid_caps (f c)"
  shows "parseCeilings (show_ceilings f) = Inr (\<lambda>c. caps_ceiling (f c))"
proof -
  have no: "CHR '','' \<notin> set (show_ceiling f c)" for c
    by (cases "f c"; cases c) (simp_all add: show_ceiling_def show_nat_no_sep is_digit_def)
  have parts: "split_on (CHR '','') (show_ceilings f) = map (show_ceiling f) LOAD_ENVIRONMENT_CLASSES"
    by (simp add: show_ceilings_def LOAD_ENVIRONMENT_CLASSES_def split_on_append split_on_single no)
  show ?thesis
    unfolding parseCeilings_def parts
    by (auto simp: LOAD_ENVIRONMENT_CLASSES_def ceiling_entry_show [OF assms] fun_eq_iff caps_ceiling_def)
      (metis load_environment_class.exhaust)
qed

text \<open>The limits of the gate are read as written: a setting that gives every class three positive
  whole numbers, in the documented format, parses to exactly these limits, so different limits
  are never written the same way.\<close>

theorem ceilings_round_trip:
  assumes "\<And>c. valid_caps (f c)" and "\<And>c. valid_caps (g c)"
  shows "parseCeilings (show_ceilings f) = Inr (\<lambda>c. caps_ceiling (f c)) \<and> (show_ceilings f = show_ceilings g \<longrightarrow> f = g)"
proof (intro conjI impI)
  show p: "parseCeilings (show_ceilings f) = Inr (\<lambda>c. caps_ceiling (f c))" using assms(1) by (rule parseCeilings_shown)
  assume "show_ceilings f = show_ceilings g"
  then have "(\<lambda>c. caps_ceiling (f c)) = (\<lambda>c. caps_ceiling (g c))"
    using p parseCeilings_shown [OF assms(2)] by simp
  then have "caps_ceiling (f c) = caps_ceiling (g c)" for c by (rule fun_cong)
  then show "f = g" by (auto simp: caps_ceiling_def fun_eq_iff prod_eq_iff)
qed

theorem ceilings_round_trip_witness:
  "\<exists>cs. parseCeilings (show_ceilings (\<lambda>c. (5000, 2000, 3600))) = Inr cs \<and> c_maxRps (cs PRODUCTION) = 5000"
  using ceilings_round_trip [of "\<lambda>c. (5000, 2000, 3600)" "\<lambda>c. (5000, 2000, 3600)"] by (simp add: valid_caps_def caps_ceiling_def)

end
