(* ===== verification/Load_Authorization.thy ===== *)
theory Load_Authorization
  imports Load_Safety Incidents_Repo
begin

text \<open>
  \<^verbatim>\<open>src/repositories/load-test-safety.repo.ts\<close> and \<^verbatim>\<open>src/services/loadtest/safety.service.ts\<close>: the
  classification of targets, the authorizations with their review by a second person, the
  shared kill switch, and the preflight that puts the gate of \<open>Load_Safety\<close> in front of every run.
  The tables of the load-test subsystem stand beside the monitoring database they refer to.
\<close>

section \<open>Tables and settings\<close>

record load_target_config =
  ltc_apiId :: target_id
  ltc_environmentClass :: load_environment_class
  ltc_hasRealSideEffects :: bool
  ltc_updatedBy :: "row_id option"
  ltc_updatedAt :: timestamp

record load_authorization =
  la_id :: row_id
  la_apiId :: target_id
  la_status :: load_authorization_status
  la_reference :: string
  la_scope :: string
  la_windowStart :: timestamp
  la_windowEnd :: timestamp
  la_maxRps :: int
  la_maxVus :: int
  la_maxDurationSeconds :: int
  la_allowRealSideEffects :: bool
  la_proposedBy :: row_id
  la_reviewedBy :: "row_id option"
  la_reviewNote :: "string option"
  la_reviewedAt :: "timestamp option"
  la_revokedAt :: "timestamp option"
  la_revokedReason :: "string option"
  la_createdAt :: timestamp

record kill_switch_state =
  ks_engaged :: bool
  ks_reason :: "string option"
  ks_setBy :: "row_id option"
  ks_setAt :: timestamp

record load_state =
  main :: db
  load_test_target_config :: "load_target_config list"
  load_test_authorizations :: "load_authorization list"
  load_test_control :: "kill_switch_state option"

record load_env =
  LOAD_TEST_ENABLED :: bool
  LOAD_TEST_CEILINGS :: string
  LOAD_TEST_REAL_SIDE_EFFECT_MAX_RPS :: rat
  LOAD_TEST_PRODUCTION_HOSTS :: string
  LOAD_TEST_SANDBOX_HOSTS :: string
  LOAD_TEST_MOCK_HOSTS :: string
  LOAD_TEST_MAX_WINDOW_DAYS :: int

section \<open>Repository\<close>

definition getTargetConfig :: "target_id \<Rightarrow> load_state \<Rightarrow> load_target_config option" where
  "getTargetConfig apiId s = find (\<lambda>c. ltc_apiId c = apiId) (load_test_target_config s)"

definition upsertTargetConfig ::
    "timestamp \<Rightarrow> target_id \<Rightarrow> load_environment_class \<Rightarrow> bool \<Rightarrow> row_id option \<Rightarrow> load_state \<Rightarrow> load_target_config \<times> load_state" where
  "upsertTargetConfig now apiId cls rse by s =
     (let c = \<lparr>ltc_apiId = apiId, ltc_environmentClass = cls, ltc_hasRealSideEffects = rse, ltc_updatedBy = by, ltc_updatedAt = now\<rparr>
      in (c, s\<lparr>load_test_target_config :=
            (if \<exists>x \<in> set (load_test_target_config s). ltc_apiId x = apiId
             then upd_where (\<lambda>x. ltc_apiId x = apiId) (\<lambda>_. c) (load_test_target_config s)
             else load_test_target_config s @ [c])\<rparr>))"

record new_authorization =
  na_apiId :: target_id
  na_reference :: string
  na_scope :: string
  na_windowStart :: timestamp
  na_windowEnd :: timestamp
  na_maxRps :: int
  na_maxVus :: int
  na_maxDurationSeconds :: int
  na_allowRealSideEffects :: bool

definition createAuthorization ::
    "timestamp \<Rightarrow> new_authorization \<Rightarrow> row_id \<Rightarrow> load_state \<Rightarrow> (db_error + load_authorization) \<times> load_state" where
  "createAuthorization now n proposedBy s =
     (let a = \<lparr>la_id = next_id (main s), la_apiId = na_apiId n, la_status = AUTH_PENDING, la_reference = na_reference n,
               la_scope = na_scope n, la_windowStart = na_windowStart n, la_windowEnd = na_windowEnd n,
               la_maxRps = na_maxRps n, la_maxVus = na_maxVus n, la_maxDurationSeconds = na_maxDurationSeconds n,
               la_allowRealSideEffects = na_allowRealSideEffects n, la_proposedBy = proposedBy, la_reviewedBy = None,
               la_reviewNote = None, la_reviewedAt = None, la_revokedAt = None, la_revokedReason = None, la_createdAt = now\<rparr>;
          s' = s\<lparr>main := (main s)\<lparr>next_id := Suc (next_id (main s))\<rparr>\<rparr>
      in if \<not> na_windowStart n < na_windowEnd n then (Inl (Check_violation ''load_authz_window''), s')
         else if \<not> (0 < na_maxRps n \<and> 0 < na_maxVus n \<and> 0 < na_maxDurationSeconds n)
         then (Inl (Check_violation ''load_authz_caps''), s')
         else (Inr a, s'\<lparr>load_test_authorizations := load_test_authorizations s @ [a]\<rparr>))"

definition getAuthorization :: "row_id \<Rightarrow> load_state \<Rightarrow> load_authorization option" where
  "getAuthorization k s = find (\<lambda>a. la_id a = k) (load_test_authorizations s)"

definition listAuthorizations ::
    "target_id option \<Rightarrow> load_authorization_status option \<Rightarrow> load_state \<Rightarrow> load_authorization list" where
  "listAuthorizations apiId status s =
     take 200 (sort_key (\<lambda>a. - la_createdAt a) (filter (\<lambda>a.
       (case apiId of None \<Rightarrow> True | Some t \<Rightarrow> la_apiId a = t) \<and> (case status of None \<Rightarrow> True | Some st \<Rightarrow> la_status a = st))
       (load_test_authorizations s)))"

definition covers :: "timestamp \<Rightarrow> load_authorization \<Rightarrow> bool" where
  "covers now a \<longleftrightarrow> la_status a = APPROVED \<and> la_windowStart a \<le> now \<and> now < la_windowEnd a"

definition findRelevantAuthorization :: "target_id \<Rightarrow> timestamp \<Rightarrow> load_state \<Rightarrow> load_authorization option" where
  "findRelevantAuthorization apiId now s =
     (case sort_key (\<lambda>a. if covers now a then 0 else 1 :: nat) (sort_key (\<lambda>a. - la_createdAt a)
             (filter (\<lambda>a. la_apiId a = apiId) (load_test_authorizations s))) of
        [] \<Rightarrow> None | a # _ \<Rightarrow> Some a)"

definition update_authorization ::
    "(load_authorization \<Rightarrow> bool) \<Rightarrow> (load_authorization \<Rightarrow> load_authorization) \<Rightarrow> load_state \<Rightarrow> load_authorization option \<times> load_state" where
  "update_authorization p f s =
     (map_option f (find p (load_test_authorizations s)),
      s\<lparr>load_test_authorizations := upd_where p f (load_test_authorizations s)\<rparr>)"

definition reviewAuthorization ::
    "timestamp \<Rightarrow> row_id \<Rightarrow> load_authorization_status \<Rightarrow> row_id \<Rightarrow> string option \<Rightarrow> load_state \<Rightarrow>
     (db_error + load_authorization option) \<times> load_state" where
  "reviewAuthorization now k status reviewedBy rnote s =
     (let p = (\<lambda>a. la_id a = k \<and> la_status a = AUTH_PENDING)
      in if \<exists>a \<in> set (load_test_authorizations s). p a \<and> la_proposedBy a = reviewedBy
         then (Inl (Check_violation ''load_authz_four_eyes''), s)
         else map_prod Inr id (update_authorization p (\<lambda>a. a\<lparr>la_status := status, la_reviewedBy := Some reviewedBy,
                la_reviewNote := rnote, la_reviewedAt := Some now\<rparr>) s))"

definition revokeAuthorization :: "timestamp \<Rightarrow> row_id \<Rightarrow> string \<Rightarrow> load_state \<Rightarrow> load_authorization option \<times> load_state" where
  "revokeAuthorization now k reason s =
     update_authorization (\<lambda>a. la_id a = k \<and> la_status a \<in> {AUTH_PENDING, APPROVED})
       (\<lambda>a. a\<lparr>la_status := REVOKED, la_revokedAt := Some now, la_revokedReason := Some reason\<rparr>) s"

text \<open>A missing control row counts as engaged.\<close>

definition getKillSwitch :: "timestamp \<Rightarrow> load_state \<Rightarrow> kill_switch_state" where
  "getKillSwitch now s =
     (case load_test_control s of
        None \<Rightarrow> \<lparr>ks_engaged = True, ks_reason = Some ''control row missing'', ks_setBy = None, ks_setAt = now\<rparr>
      | Some k \<Rightarrow> k)"

definition setKillSwitch :: "timestamp \<Rightarrow> bool \<Rightarrow> string option \<Rightarrow> row_id option \<Rightarrow> load_state \<Rightarrow> kill_switch_state \<times> load_state" where
  "setKillSwitch now engaged reason setBy s =
     (let s' = s\<lparr>load_test_control := map_option (\<lambda>_.
            \<lparr>ks_engaged = engaged, ks_reason = reason, ks_setBy = setBy, ks_setAt = now\<rparr>) (load_test_control s)\<rparr>
      in (getKillSwitch now s', s'))"

section \<open>Service\<close>

definition loadHosts :: "load_env \<Rightarrow> host_lists" where
  "loadHosts e = \<lparr>production_hosts = parseHostList (LOAD_TEST_PRODUCTION_HOSTS e),
     sandbox_hosts = parseHostList (LOAD_TEST_SANDBOX_HOSTS e), mock_hosts = parseHostList (LOAD_TEST_MOCK_HOSTS e)\<rparr>"

definition loadCeilings :: "load_env \<Rightarrow> app_error + load_ceilings" where
  "loadCeilings e = map_sum PlainError id (parseCeilings (LOAD_TEST_CEILINGS e))"

definition to_safety :: "load_authorization \<Rightarrow> safety_authorization" where
  "to_safety a = \<lparr>sa_status = la_status a, sa_windowStart = la_windowStart a, sa_windowEnd = la_windowEnd a,
     sa_maxRps = of_int (la_maxRps a), sa_maxVus = of_int (la_maxVus a), sa_maxDurationSeconds = of_int (la_maxDurationSeconds a),
     sa_allowRealSideEffects = la_allowRealSideEffects a\<rparr>"

definition runPreflight ::
    "(string \<Rightarrow> string option) \<Rightarrow> load_env \<Rightarrow> timestamp \<Rightarrow> target_id \<Rightarrow> preflight_plan \<Rightarrow> load_state \<Rightarrow> app_error + safety_decision" where
  "runPreflight urlHost e now apiId plan s =
     (case findTargetById apiId (main s) of
        None \<Rightarrow> Inl (NotFoundError ''Target not found'')
      | Some t \<Rightarrow>
          (case loadCeilings e of
             Inl err \<Rightarrow> Inl err
           | Inr cs \<Rightarrow>
               Inr (evaluateLoadSafety urlHost
                 \<lparr>i_now = now, i_enabled = LOAD_TEST_ENABLED e, i_killSwitch = ks_engaged (getKillSwitch now s),
                  i_url = api_url t, i_isMoneyMoving = isMoneyMoving t, i_environment = api_environment t,
                  i_config = map_option (\<lambda>c. (ltc_environmentClass c, ltc_hasRealSideEffects c)) (getTargetConfig apiId s),
                  i_authorization = map_option to_safety (findRelevantAuthorization apiId now s), i_plan = plan,
                  i_hosts = loadHosts e, i_ceilings = cs,
                  i_realSideEffectMaxRps = LOAD_TEST_REAL_SIDE_EFFECT_MAX_RPS e\<rparr>)))"

definition audit :: "audit_actor \<Rightarrow> string \<Rightarrow> string \<Rightarrow> entity_id option \<Rightarrow> string option \<Rightarrow> load_state \<Rightarrow> load_state" where
  "audit actor action entityType entityId summary s = s\<lparr>main := recordAudit actor action entityType entityId summary (main s)\<rparr>"

definition show_bool :: "bool \<Rightarrow> string" where
  "show_bool b = (if b then ''true'' else ''false'')"

definition setTargetConfig ::
    "(string \<Rightarrow> string option) \<Rightarrow> load_env \<Rightarrow> timestamp \<Rightarrow> target_id \<Rightarrow> load_environment_class \<Rightarrow> bool \<Rightarrow> audit_actor \<Rightarrow> load_state \<Rightarrow>
     (app_error + load_target_config) \<times> load_state" where
  "setTargetConfig urlHost e now apiId cls rse actor s =
     (case findTargetById apiId (main s) of
        None \<Rightarrow> (Inl (NotFoundError ''Target not found''), s)
      | Some t \<Rightarrow>
          let host = hostOf urlHost (api_url t); hosts = loadHosts e;
              productionLike = (api_environment t = Env_production \<or> (\<exists>h. host = Some h \<and> h \<in> set (production_hosts hosts)))
          in if productionLike \<and> cls \<noteq> PRODUCTION
             then (Inl (ValidationError ''This target is production (by environment or host); it can only be classified PRODUCTION.''), s)
             else if cls = MOCK \<and> \<not> (\<exists>h. host = Some h \<and> h \<in> set (mock_hosts hosts))
             then (Inl (ValidationError ''MOCK is only valid for allow-listed simulator hosts.''), s)
             else (case upsertTargetConfig now apiId cls rse (actor_userId actor) s of
                     (saved, s1) \<Rightarrow>
                       (Inr saved, audit actor ''load_test.target_config.set'' ''monitored_api'' (Some (Target apiId))
                          (Some (''Load class '' @ show_load_class cls @ '', real side effects '' @ show_bool rse)) s1)))"

definition exceeds_ceiling :: "new_authorization \<Rightarrow> load_ceiling \<Rightarrow> bool" where
  "exceeds_ceiling n c \<longleftrightarrow> c_maxRps c < of_int (na_maxRps n) \<or> c_maxVus c < of_int (na_maxVus n) \<or>
     c_maxDurationSeconds c < of_int (na_maxDurationSeconds n)"

text \<open>The message about the ceiling leaves out the three limits it quotes.\<close>

definition proposeAuthorization ::
    "load_env \<Rightarrow> timestamp \<Rightarrow> new_authorization \<Rightarrow> audit_actor \<Rightarrow> load_state \<Rightarrow> (app_error + load_authorization) \<times> load_state" where
  "proposeAuthorization e now n actor s =
     (case actor_userId actor of
        None \<Rightarrow> (Inl (ForbiddenError ''Load-test authorizations require an authenticated user.''), s)
      | Some user \<Rightarrow>
     (case findTargetById (na_apiId n) (main s) of
        None \<Rightarrow> (Inl (NotFoundError ''Target not found''), s)
      | Some t \<Rightarrow>
     (case getTargetConfig (na_apiId n) s of
        None \<Rightarrow> (Inl (ValidationError (''Classify the target (PUT '' @ utf8_ellipsis @ ''/config) before requesting authorization.'')), s)
      | Some cfg \<Rightarrow>
          if ltc_environmentClass cfg = MOCK then (Inl (ValidationError ''The simulator needs no authorization.''), s)
          else if ltc_environmentClass cfg = PRODUCTION \<and> isMoneyMoving t
          then (Inl (ValidationError ''Money-moving load on PRODUCTION can never be authorized.''), s)
          else if na_windowEnd n \<le> now then (Inl (ValidationError ''Authorization window is already over.''), s)
          else if LOAD_TEST_MAX_WINDOW_DAYS e * 86400000 < na_windowEnd n - na_windowStart n
          then (Inl (ValidationError (''Window may not exceed '' @ show_int (LOAD_TEST_MAX_WINDOW_DAYS e) @ '' days.'')), s)
          else if na_allowRealSideEffects n \<and> \<not> ltc_hasRealSideEffects cfg
          then (Inl (ValidationError ''Target is not flagged as having real side effects.''), s)
          else (case loadCeilings e of
                  Inl err \<Rightarrow> (Inl err, s)
                | Inr cs \<Rightarrow>
                    if exceeds_ceiling n (cs (ltc_environmentClass cfg))
                    then (Inl (ValidationError (''Requested caps exceed the '' @ show_load_class (ltc_environmentClass cfg) @ '' ceiling'')), s)
                    else (case createAuthorization now n user s of
                            (Inl err, s1) \<Rightarrow> (Inl (DbError err), s1)
                          | (Inr created, s1) \<Rightarrow>
                              (Inr created, audit actor ''load_test.authorization.proposed'' ''load_test_authorization'' (Some (Row (la_id created)))
                                 (Some (''Proposed '' @ show_load_class (ltc_environmentClass cfg) @ '' load authorization (ref '' @ na_reference n @ '')'')) s1))))))"

definition reviewProposal ::
    "timestamp \<Rightarrow> row_id \<Rightarrow> bool \<Rightarrow> string option \<Rightarrow> audit_actor \<Rightarrow> load_state \<Rightarrow> (app_error + load_authorization) \<times> load_state" where
  "reviewProposal now k approve rnote actor s =
     (case actor_userId actor of
        None \<Rightarrow> (Inl (ForbiddenError ''Reviewing requires an authenticated user.''), s)
      | Some user \<Rightarrow>
     (case getAuthorization k s of
        None \<Rightarrow> (Inl (NotFoundError ''Authorization not found''), s)
      | Some current \<Rightarrow>
          if la_proposedBy current = user
          then (Inl (ForbiddenError ''Four-eyes: a different ADMIN must review this authorization.''), s)
          else (case reviewAuthorization now k (if approve then APPROVED else REJECTED) user rnote s of
                  (Inl err, s1) \<Rightarrow> (Inl (DbError err), s1)
                | (Inr None, s1) \<Rightarrow> (Inl (ConflictError ''Authorization is no longer pending.''), s1)
                | (Inr (Some updated), s1) \<Rightarrow>
                    (Inr updated, audit actor (''load_test.authorization.'' @ (if approve then ''approved'' else ''rejected''))
                       ''load_test_authorization'' (Some (Row k)) (case rnote of Some [] \<Rightarrow> None | _ \<Rightarrow> rnote) s1))))"

definition revoke :: "timestamp \<Rightarrow> row_id \<Rightarrow> string \<Rightarrow> audit_actor \<Rightarrow> load_state \<Rightarrow> (app_error + load_authorization) \<times> load_state" where
  "revoke now k reason actor s =
     (case revokeAuthorization now k reason s of
        (None, s1) \<Rightarrow> (Inl (ConflictError ''Authorization not found or already closed.''), s1)
      | (Some updated, s1) \<Rightarrow>
          (Inr updated, audit actor ''load_test.authorization.revoked'' ''load_test_authorization'' (Some (Row k)) (Some reason) s1))"

definition engageKillSwitch :: "timestamp \<Rightarrow> bool \<Rightarrow> string option \<Rightarrow> audit_actor \<Rightarrow> load_state \<Rightarrow> kill_switch_state \<times> load_state" where
  "engageKillSwitch now engaged reason actor s =
     (case setKillSwitch now engaged reason (actor_userId actor) s of
        (st, s1) \<Rightarrow>
          (st, audit actor (if engaged then ''load_test.kill_switch.engaged'' else ''load_test.kill_switch.released'')
             ''load_test_control'' None (case reason of Some [] \<Rightarrow> None | _ \<Rightarrow> reason) s1))"

definition assertHostAllowedForClass ::
    "(string \<Rightarrow> string option) \<Rightarrow> load_env \<Rightarrow> string \<Rightarrow> load_environment_class option \<Rightarrow> app_error + unit" where
  "assertHostAllowedForClass urlHost e url cls =
     (let host = hostOf urlHost url; hosts = loadHosts e;
          ok = (case cls of None \<Rightarrow> [] | Some MOCK \<Rightarrow> mock_hosts hosts | Some PRODUCTION \<Rightarrow> production_hosts hosts
                  | Some _ \<Rightarrow> sandbox_hosts hosts)
      in if \<exists>h. host = Some h \<and> h \<noteq> [] \<and> h \<in> set ok then Inr ()
         else Inl (PlainError (''Refusing to send credentials to '' @ (case host of Some h \<Rightarrow> h | None \<Rightarrow> ''an unparseable URL'') @
                '': not on the '' @ (case cls of Some c \<Rightarrow> show_load_class c | None \<Rightarrow> ''unclassified'') @ '' host allow-list.'')))"

section \<open>Four eyes\<close>

definition authorization_ok :: "load_env \<Rightarrow> nat \<Rightarrow> load_authorization \<Rightarrow> bool" where
  "authorization_ok e n a \<longleftrightarrow> la_id a < n \<and> la_windowStart a < la_windowEnd a \<and>
     la_windowEnd a - la_windowStart a \<le> LOAD_TEST_MAX_WINDOW_DAYS e * 86400000 \<and>
     0 < la_maxRps a \<and> 0 < la_maxVus a \<and> 0 < la_maxDurationSeconds a \<and>
     (la_status a = APPROVED \<longrightarrow> (\<exists>u. la_reviewedBy a = Some u \<and> u \<noteq> la_proposedBy a))"

definition load_inv :: "load_env \<Rightarrow> load_state \<Rightarrow> bool" where
  "load_inv e s \<longleftrightarrow> (\<forall>a \<in> set (load_test_authorizations s). authorization_ok e (next_id (main s)) a) \<and>
     unique_on (\<lambda>_. True) la_id (load_test_authorizations s) \<and>
     unique_on (\<lambda>_. True) ltc_apiId (load_test_target_config s)"

datatype load_op =
    Op_set_config target_id load_environment_class bool
  | Op_propose new_authorization
  | Op_review row_id bool "string option"
  | Op_revoke row_id string
  | Op_kill_switch bool "string option"

text \<open>Every operation is made by its own actor at its own time.\<close>

fun load_step :: "(string \<Rightarrow> string option) \<Rightarrow> load_env \<Rightarrow> timestamp \<times> audit_actor \<times> load_op \<Rightarrow> load_state \<Rightarrow> load_state" where
  "load_step uh e (now, act, Op_set_config t c rse) s = snd (setTargetConfig uh e now t c rse act s)"
| "load_step uh e (now, act, Op_propose n) s = snd (proposeAuthorization e now n act s)"
| "load_step uh e (now, act, Op_review k ap rnote) s = snd (reviewProposal now k ap rnote act s)"
| "load_step uh e (now, act, Op_revoke k rsn) s = snd (revoke now k rsn act s)"
| "load_step uh e (now, act, Op_kill_switch b rsn) s = snd (engageKillSwitch now b rsn act s)"

lemma recordAudit_main [simp]:
  "next_id (recordAudit act a et k sm d) = next_id d" "monitored_apis (recordAudit act a et k sm d) = monitored_apis d"
  by (simp_all add: recordAudit_def)

lemma audit_frame [simp]:
  "load_test_authorizations (audit act a et k sm s) = load_test_authorizations s"
  "load_test_target_config (audit act a et k sm s) = load_test_target_config s"
  "load_test_control (audit act a et k sm s) = load_test_control s"
  "next_id (main (audit act a et k sm s)) = next_id (main s)"
  by (simp_all add: audit_def)

lemma load_inv_audit [simp]: "load_inv e (audit act a et k sm s) \<longleftrightarrow> load_inv e s"
  by (simp add: load_inv_def)

lemma upsertTargetConfig_inv: "load_inv e s \<Longrightarrow> load_inv e (snd (upsertTargetConfig now t c rse u s))"
  by (auto simp: upsertTargetConfig_def Let_def load_inv_def unique_on_snoc intro!: unique_on_upd_inv [THEN iffD2])

lemma setTargetConfig_inv: "load_inv e s \<Longrightarrow> load_inv e (snd (setTargetConfig uh e' now t c rse act s))"
  using upsertTargetConfig_inv [of e s now t c rse "actor_userId act"]
  by (auto simp: setTargetConfig_def Let_def split: option.splits prod.splits)

lemma createAuthorization_inv:
  assumes "load_inv e s" and "na_windowEnd n - na_windowStart n \<le> LOAD_TEST_MAX_WINDOW_DAYS e * 86400000"
  shows "load_inv e (snd (createAuthorization now n u s))"
  using assms
  by (auto simp: createAuthorization_def Let_def load_inv_def authorization_ok_def unique_on_snoc less_Suc_eq)

lemma proposeAuthorization_inv: "load_inv e s \<Longrightarrow> load_inv e (snd (proposeAuthorization e now n act s))"
  using createAuthorization_inv [of e s n now "the (actor_userId act)"]
  by (auto simp: proposeAuthorization_def split: option.splits sum.splits prod.splits)

lemma update_authorization_inv:
  assumes "load_inv e s"
    and "\<And>a. p a \<Longrightarrow> authorization_ok e (next_id (main s)) a \<Longrightarrow> a \<in> set (load_test_authorizations s) \<Longrightarrow>
        authorization_ok e (next_id (main s)) (f a)"
    and "\<And>a. la_id (f a) = la_id a"
  shows "load_inv e (snd (update_authorization p f s))"
  using assms by (auto simp: update_authorization_def load_inv_def set_upd_where intro!: unique_on_upd_inv [THEN iffD2])

lemma reviewAuthorization_inv: "load_inv e s \<Longrightarrow> load_inv e (snd (reviewAuthorization now k st u rnote s))"
  by (auto simp: reviewAuthorization_def Let_def authorization_ok_def intro!: update_authorization_inv)

lemma reviewProposal_inv: "load_inv e s \<Longrightarrow> load_inv e (snd (reviewProposal now k ap rnote act s))"
  using reviewAuthorization_inv [of e s now k "if ap then APPROVED else REJECTED" "the (actor_userId act)" rnote]
  by (auto simp: reviewProposal_def split: option.splits sum.splits prod.splits)

lemma revoke_inv: "load_inv e s \<Longrightarrow> load_inv e (snd (revoke now k rsn act s))"
proof -
  assume "load_inv e s"
  then have "load_inv e (snd (revokeAuthorization now k rsn s))"
    by (auto simp: revokeAuthorization_def authorization_ok_def intro!: update_authorization_inv)
  then show ?thesis by (auto simp: revoke_def split: option.splits prod.splits)
qed

lemma engageKillSwitch_inv: "load_inv e s \<Longrightarrow> load_inv e (snd (engageKillSwitch now b rsn act s))"
  by (simp add: engageKillSwitch_def setKillSwitch_def Let_def load_inv_def)

lemma load_step_inv: "load_inv e s \<Longrightarrow> load_inv e (load_step uh e x s)"
  by (cases "(uh, e, x, s)" rule: load_step.cases)
    (simp_all add: setTargetConfig_inv proposeAuthorization_inv reviewProposal_inv revoke_inv engageKillSwitch_inv)

lemma load_steps_inv: "load_inv e s \<Longrightarrow> load_inv e (fold (load_step uh e) ops s)"
  by (induction ops arbitrary: s) (simp_all add: load_step_inv)

lemma findRelevantAuthorization_SomeD:
  "findRelevantAuthorization t now s = Some a \<Longrightarrow> a \<in> set (load_test_authorizations s) \<and> la_apiId a = t"
  by (auto simp: findRelevantAuthorization_def split: list.splits dest!: sort_key_ConsD)

text \<open>C34. No load outside the simulator without a second pair of eyes: whatever sequence of
  classifications, proposals, reviews, revocations and kill-switch changes came before, when
  the preflight allows a run whose class is not the simulator's, the table holds an approved
  authorization of that very target, reviewed by somebody other than its proposer, whose window
  is no longer than the configured maximum and contains the run, and whose caps bound it.\<close>

theorem load_runs_need_four_eyes:
  assumes "load_inv e s0"
    and "runPreflight urlHost e now apiId plan (fold (load_step urlHost e) ops s0) = Inr dec"
    and "allowed dec" and "effectiveClass dec \<noteq> Some MOCK"
  shows "\<exists>a u. a \<in> set (load_test_authorizations (fold (load_step urlHost e) ops s0)) \<and> la_apiId a = apiId \<and> la_status a = APPROVED \<and>
    la_reviewedBy a = Some u \<and> u \<noteq> la_proposedBy a \<and>
    la_windowEnd a - la_windowStart a \<le> LOAD_TEST_MAX_WINDOW_DAYS e * 86400000 \<and>
    la_windowStart a \<le> now \<and> run_end now plan \<le> of_int (la_windowEnd a) \<and>
    p_rps plan \<le> of_int (la_maxRps a) \<and> p_vus plan \<le> of_int (la_maxVus a) \<and> p_durationSeconds plan \<le> of_int (la_maxDurationSeconds a)"
proof -
  let ?s = "fold (load_step urlHost e) ops s0"
  obtain i where i: "dec = evaluateLoadSafety urlHost i" "i_now i = now" "i_plan i = plan"
    "i_authorization i = map_option to_safety (findRelevantAuthorization apiId now ?s)"
    using assms(2) by (auto simp: runPreflight_def split: option.splits sum.splits)
  from assms(3) [unfolded i(1)] obtain sa where "i_authorization i = Some sa" "grants sa (i_now i) (i_plan i)"
    using assms(4) unfolding i(1) by (elim allowedE) (auto simp: auth_violations_Nil)
  then obtain a where a: "findRelevantAuthorization apiId now ?s = Some a" and g: "grants (to_safety a) now plan"
    using i by auto
  have mem: "a \<in> set (load_test_authorizations ?s)" "la_apiId a = apiId" using findRelevantAuthorization_SomeD [OF a] by auto
  then have ok: "authorization_ok e (next_id (main ?s)) a" using load_steps_inv [OF assms(1), of urlHost ops] by (simp add: load_inv_def)
  have st: "la_status a = APPROVED" using g by (simp add: grants_def to_safety_def)
  with ok obtain u where "la_reviewedBy a = Some u" "u \<noteq> la_proposedBy a" by (auto simp: authorization_ok_def)
  with mem st ok g show ?thesis by (auto simp: grants_def to_safety_def authorization_ok_def)
qed

section \<open>The kill switch\<close>

fun releases :: "load_op \<Rightarrow> bool" where
  "releases (Op_kill_switch b _) \<longleftrightarrow> \<not> b"
| "releases _ \<longleftrightarrow> False"

definition killed :: "load_state \<Rightarrow> bool" where
  "killed s \<longleftrightarrow> (case load_test_control s of None \<Rightarrow> True | Some k \<Rightarrow> ks_engaged k)"

lemma killed_iff: "killed s \<longleftrightarrow> ks_engaged (getKillSwitch now s)"
  by (simp add: killed_def getKillSwitch_def split: option.splits)

lemma control_frame:
  "load_test_control (snd (setTargetConfig uh e now t c rse act s)) = load_test_control s"
  "load_test_control (snd (proposeAuthorization e now n act s)) = load_test_control s"
  "load_test_control (snd (reviewProposal now k ap rnote act s)) = load_test_control s"
  "load_test_control (snd (revoke now k rsn act s)) = load_test_control s"
  by (auto simp: setTargetConfig_def upsertTargetConfig_def proposeAuthorization_def createAuthorization_def reviewProposal_def
      reviewAuthorization_def update_authorization_def revoke_def revokeAuthorization_def Let_def
      split: option.splits sum.splits prod.splits if_splits)

lemma killed_step: "killed s \<Longrightarrow> \<not> releases (snd (snd x)) \<Longrightarrow> killed (load_step uh e x s)"
  by (cases "(uh, e, x, s)" rule: load_step.cases)
    (auto simp: killed_def control_frame engageKillSwitch_def setKillSwitch_def Let_def split: option.splits)

lemma killed_steps: "killed s \<Longrightarrow> list_all (\<lambda>x. \<not> releases (snd (snd x))) ops \<Longrightarrow> killed (fold (load_step uh e) ops s)"
  by (induction ops arbitrary: s) (simp_all add: killed_step)

lemma killed_engage: "killed (snd (engageKillSwitch now True rsn act s))"
  by (simp add: killed_def engageKillSwitch_def setKillSwitch_def Let_def split: option.splits)

text \<open>C36. The kill switch stops everything: from the moment it is engaged, whatever else is configured,
  approved or revoked, no preflight allows a run until somebody releases it, and the decision
  says so. If the control row is lost the switch counts as engaged and cannot be released.\<close>

theorem kill_switch_stops_runs:
  assumes "list_all (\<lambda>x. \<not> releases (snd (snd x))) ops"
    and "runPreflight urlHost e now apiId plan (fold (load_step urlHost e) ops (snd (engageKillSwitch t0 True rsn act s))) = Inr dec"
  shows "\<not> allowed dec \<and> KILL_SWITCH \<in> set (violations dec) \<and>
    (load_test_control s = None \<longrightarrow> killed (snd (engageKillSwitch t1 False rsn' act' s)))"
proof -
  let ?s = "fold (load_step urlHost e) ops (snd (engageKillSwitch t0 True rsn act s))"
  have "killed ?s" using killed_engage assms(1) by (rule killed_steps)
  then have k: "ks_engaged (getKillSwitch now ?s)" using killed_iff [of ?s now] by simp
  obtain i where i: "dec = evaluateLoadSafety urlHost i" "i_killSwitch i"
    using assms(2) k by (auto simp: runPreflight_def split: option.splits sum.splits)
  then have "\<not> allowed dec" by (auto elim!: allowedE)
  moreover have "KILL_SWITCH \<in> set (violations dec)"
    using i by (auto simp: evaluateLoadSafety_def Let_def when_v_def split: option.splits)
  moreover have "load_test_control s = None \<Longrightarrow> killed (snd (engageKillSwitch t1 False rsn' act' s))"
    by (simp add: killed_def engageKillSwitch_def setKillSwitch_def Let_def)
  ultimately show ?thesis by simp
qed

section \<open>A sandbox run from proposal to preflight\<close>

definition sample_load_env :: load_env where
  "sample_load_env = \<lparr>LOAD_TEST_ENABLED = True, LOAD_TEST_CEILINGS = show_ceilings (\<lambda>c. (100, 100, 100)),
     LOAD_TEST_REAL_SIDE_EFFECT_MAX_RPS = 1, LOAD_TEST_PRODUCTION_HOSTS = ''api'', LOAD_TEST_SANDBOX_HOSTS = ''sbx'',
     LOAD_TEST_MOCK_HOSTS = ''localhost'', LOAD_TEST_MAX_WINDOW_DAYS = 30\<rparr>"

definition sample_load_state :: load_state where
  "sample_load_state = \<lparr>main = empty_db\<lparr>monitored_apis := [sample_api\<lparr>api_environment := Env_sandbox\<rparr>]\<rparr>,
     load_test_target_config = [], load_test_authorizations = [],
     load_test_control = Some \<lparr>ks_engaged = False, ks_reason = None, ks_setBy = None, ks_setAt = 0\<rparr>\<rparr>"

definition sample_proposal :: new_authorization where
  "sample_proposal = \<lparr>na_apiId = ''t1'', na_reference = ''CHG-1'', na_scope = ''payout'', na_windowStart = 0, na_windowEnd = 1000000,
     na_maxRps = 50, na_maxVus = 10, na_maxDurationSeconds = 60, na_allowRealSideEffects = False\<rparr>"

definition user_actor :: "row_id \<Rightarrow> audit_actor" where
  "user_actor u = \<lparr>actor_userId = Some u, actor_label = None\<rparr>"

definition sample_load_ops :: "(timestamp \<times> audit_actor \<times> load_op) list" where
  "sample_load_ops = [(1, user_actor 1, Op_set_config ''t1'' SANDBOX False), (2, user_actor 1, Op_propose sample_proposal),
     (3, user_actor 2, Op_review 0 True None)]"

definition sample_preflight :: preflight_plan where
  "sample_preflight = \<lparr>p_rps = 40, p_vus = 5, p_durationSeconds = 30, p_mutating = True, p_realSideEffects = False\<rparr>"

definition sandbox_host :: "string \<Rightarrow> string option" where
  "sandbox_host _ = Some ''sbx''"

lemma sample_load_hosts: "loadHosts sample_load_env = \<lparr>production_hosts = [''api''], sandbox_hosts = [''sbx''], mock_hosts = [''localhost'']\<rparr>"
  by (simp add: loadHosts_def sample_load_env_def parseHostList_def trim_printable)

lemma sample_window_days: "LOAD_TEST_MAX_WINDOW_DAYS sample_load_env = 30"
  by (simp add: sample_load_env_def)

lemma sample_ceilings: "loadCeilings sample_load_env = Inr (\<lambda>c. caps_ceiling (100, 100, 100))"
  using parseCeilings_shown [of "\<lambda>c. (100, 100, 100)"] by (simp add: loadCeilings_def sample_load_env_def valid_caps_def)

definition sample_authorization :: load_authorization where
  "sample_authorization = \<lparr>la_id = 0, la_apiId = ''t1'', la_status = APPROVED, la_reference = ''CHG-1'', la_scope = ''payout'',
     la_windowStart = 0, la_windowEnd = 1000000, la_maxRps = 50, la_maxVus = 10, la_maxDurationSeconds = 60,
     la_allowRealSideEffects = False, la_proposedBy = 1, la_reviewedBy = Some 2, la_reviewNote = None, la_reviewedAt = Some 3,
     la_revokedAt = None, la_revokedReason = None, la_createdAt = 2\<rparr>"

lemma sample_steps:
  fixes s1 s2 s3
  defines "s1 \<equiv> load_step sandbox_host sample_load_env (1, user_actor 1, Op_set_config ''t1'' SANDBOX False) sample_load_state"
    and "s2 \<equiv> load_step sandbox_host sample_load_env (2, user_actor 1, Op_propose sample_proposal) s1"
    and "s3 \<equiv> load_step sandbox_host sample_load_env (3, user_actor 2, Op_review 0 True None) s2"
  shows "load_test_authorizations s3 = [sample_authorization]"
    "load_test_target_config s3 = [\<lparr>ltc_apiId = ''t1'', ltc_environmentClass = SANDBOX, ltc_hasRealSideEffects = False,
       ltc_updatedBy = Some 1, ltc_updatedAt = 1\<rparr>]"
    "monitored_apis (main s3) = [sample_api\<lparr>api_environment := Env_sandbox\<rparr>]"
    "load_test_control s3 = load_test_control sample_load_state"
proof -
  let ?api = "sample_api\<lparr>api_environment := Env_sandbox\<rparr>"
  let ?cfg = "\<lparr>ltc_apiId = ''t1'', ltc_environmentClass = SANDBOX, ltc_hasRealSideEffects = False, ltc_updatedBy = Some 1, ltc_updatedAt = 1\<rparr>"
  have s1: "load_test_target_config s1 = [?cfg]" "load_test_authorizations s1 = []" "next_id (main s1) = 0"
    "monitored_apis (main s1) = [?api]" "load_test_control s1 = load_test_control sample_load_state"
    by (simp_all add: s1_def setTargetConfig_def findTargetById_def sample_load_state_def hostOf_def sandbox_host_def strip_brackets_def
        sample_load_hosts upsertTargetConfig_def Let_def user_actor_def empty_db_def audit_def)
  have s2: "load_test_target_config s2 = [?cfg]" "monitored_apis (main s2) = [?api]"
    "load_test_control s2 = load_test_control sample_load_state"
    "load_test_authorizations s2 = [sample_authorization\<lparr>la_status := AUTH_PENDING, la_reviewedBy := None, la_reviewedAt := None\<rparr>]"
    by (simp_all add: s2_def proposeAuthorization_def findTargetById_def getTargetConfig_def s1 sample_ceilings exceeds_ceiling_def
        caps_ceiling_def createAuthorization_def Let_def sample_proposal_def user_actor_def sample_authorization_def audit_def
        sample_window_days)
  show "load_test_authorizations s3 = [sample_authorization]" "load_test_target_config s3 = [?cfg]"
    "monitored_apis (main s3) = [?api]" "load_test_control s3 = load_test_control sample_load_state"
    by (simp_all add: s3_def reviewProposal_def getAuthorization_def s2 reviewAuthorization_def update_authorization_def Let_def
        user_actor_def sample_authorization_def audit_def)
qed

definition sample_authorized_state :: load_state where
  "sample_authorized_state = fold (load_step sandbox_host sample_load_env) sample_load_ops sample_load_state"

lemma sample_authorized:
  "load_test_authorizations sample_authorized_state = [sample_authorization]"
  "load_test_target_config sample_authorized_state = [\<lparr>ltc_apiId = ''t1'', ltc_environmentClass = SANDBOX,
     ltc_hasRealSideEffects = False, ltc_updatedBy = Some 1, ltc_updatedAt = 1\<rparr>]"
  "monitored_apis (main sample_authorized_state) = [sample_api\<lparr>api_environment := Env_sandbox\<rparr>]"
  "load_test_control sample_authorized_state = Some \<lparr>ks_engaged = False, ks_reason = None, ks_setBy = None, ks_setAt = 0\<rparr>"
  unfolding sample_authorized_state_def sample_load_ops_def fold_simps sample_steps by (simp_all add: sample_load_state_def)

lemma apis_frame: "monitored_apis (main (load_step uh e x s)) = monitored_apis (main s)"
  by (cases "(uh, e, x, s)" rule: load_step.cases)
    (auto simp: setTargetConfig_def upsertTargetConfig_def proposeAuthorization_def createAuthorization_def reviewProposal_def
      reviewAuthorization_def update_authorization_def revoke_def revokeAuthorization_def engageKillSwitch_def setKillSwitch_def
      audit_def Let_def split: option.splits sum.splits prod.splits if_splits)

lemma apis_steps: "monitored_apis (main (fold (load_step uh e) ops s)) = monitored_apis (main s)"
  by (induction ops arbitrary: s) (simp_all add: apis_frame)

lemma sample_load_inv: "load_inv e sample_load_state"
  by (simp add: load_inv_def sample_load_state_def unique_on_def)

lemma sample_gate_allows:
  assumes "p_rps p \<le> 50" "p_vus p \<le> 10" "p_durationSeconds p \<le> 60" "run_end 1000 p \<le> 1000000" "\<not> p_realSideEffects p"
  shows "\<exists>dec. runPreflight sandbox_host sample_load_env 1000 ''t1'' p sample_authorized_state = Inr dec \<and>
     allowed dec \<and> effectiveClass dec = Some SANDBOX"
proof -
  have f: "findTargetById ''t1'' (main sample_authorized_state) = Some (sample_api\<lparr>api_environment := Env_sandbox\<rparr>)"
    "getTargetConfig ''t1'' sample_authorized_state = Some \<lparr>ltc_apiId = ''t1'', ltc_environmentClass = SANDBOX,
     ltc_hasRealSideEffects = False, ltc_updatedBy = Some 1, ltc_updatedAt = 1\<rparr>"
    "findRelevantAuthorization ''t1'' 1000 sample_authorized_state = Some sample_authorization"
    "ks_engaged (getKillSwitch 1000 sample_authorized_state) = False"
    by (simp_all add: findTargetById_def getTargetConfig_def findRelevantAuthorization_def getKillSwitch_def sample_authorized
        sample_authorization_def)
  have "grants (to_safety sample_authorization) 1000 p"
    using assms by (simp add: grants_def to_safety_def sample_authorization_def)
  moreover have "LOAD_TEST_ENABLED sample_load_env" "p_rps p \<le> 100" "p_vus p \<le> 100" "p_durationSeconds p \<le> 100"
    using assms by (simp_all add: sample_load_env_def)
  ultimately show ?thesis using assms(5)
    by (simp add: runPreflight_def f sample_ceilings sample_load_hosts evaluateLoadSafety_def Let_def effective_class_def
        classFromEnvironment_def gate_Nil hostOf_def strip_brackets_def sandbox_host_def caps_ceiling_def)
qed

lemma sample_run_allowed:
  "\<exists>dec. runPreflight sandbox_host sample_load_env 1000 ''t1'' sample_preflight sample_authorized_state = Inr dec \<and>
     allowed dec \<and> effectiveClass dec = Some SANDBOX"
proof (rule sample_gate_allows)
  show "run_end 1000 sample_preflight \<le> 1000000"
    using js.rnd_of_int [of 30000] js.rnd_of_int [of 31000] by (simp add: run_end_def sample_preflight_def)
qed (simp_all add: sample_preflight_def)

theorem load_runs_need_four_eyes_witness:
  "\<exists>a. a \<in> set (load_test_authorizations (fold (load_step sandbox_host sample_load_env) sample_load_ops sample_load_state)) \<and>
     la_status a = APPROVED \<and> la_reviewedBy a \<noteq> Some (la_proposedBy a)"
proof -
  obtain dec where "runPreflight sandbox_host sample_load_env 1000 ''t1'' sample_preflight
      (fold (load_step sandbox_host sample_load_env) sample_load_ops sample_load_state) = Inr dec"
    "allowed dec" "effectiveClass dec \<noteq> Some MOCK"
    using sample_run_allowed unfolding sample_authorized_state_def by auto
  from load_runs_need_four_eyes [OF sample_load_inv this] show ?thesis by force
qed

theorem kill_switch_stops_runs_witness:
  "\<exists>dec. runPreflight sandbox_host sample_load_env 1000 ''t1'' sample_preflight
      (fold (load_step sandbox_host sample_load_env) sample_load_ops (snd (engageKillSwitch 0 True None (user_actor 1) sample_load_state))) = Inr dec \<and>
     \<not> allowed dec"
proof -
  have "list_all (\<lambda>x. \<not> releases (snd (snd x))) sample_load_ops" by (simp add: sample_load_ops_def)
  note ks = kill_switch_stops_runs [OF this]
  let ?s = "fold (load_step sandbox_host sample_load_env) sample_load_ops (snd (engageKillSwitch 0 True None (user_actor 1) sample_load_state))"
  have "\<exists>dec. runPreflight sandbox_host sample_load_env 1000 ''t1'' sample_preflight ?s = Inr dec"
    by (simp add: runPreflight_def sample_ceilings findTargetById_def apis_steps engageKillSwitch_def setKillSwitch_def Let_def
        audit_def sample_load_state_def)
  with ks show ?thesis by blast
qed

end
