(* ===== verification/Load_Metrics.thy ===== *)
theory Load_Metrics
  imports Js_Number "HOL-Library.Multiset"
begin

text \<open>
  \<^verbatim>\<open>src/services/loadtest/metrics-aggregator.ts\<close>: streaming aggregation of the samples of a load
  run into a histogram of latencies, five-second buckets, counters per second and error
  classes. \<open>Math.log\<close> and \<open>Math.pow\<close> are implementation-approximated, so they are arguments
  (\<open>js_math\<close>). A JavaScript \<open>Map\<close> is an association list in insertion order. A sample is what
  \<open>parseK6Line\<close> makes of a line, \<open>None\<close> when the line is not a metric sample; the status is
  \<open>None\<close> when \<open>Number\<close> gives \<open>NaN\<close>.
\<close>

section \<open>Maps\<close>

fun alist_update :: "'k \<Rightarrow> ('v option \<Rightarrow> 'v) \<Rightarrow> ('k \<times> 'v) list \<Rightarrow> ('k \<times> 'v) list" where
  "alist_update k f [] = [(k, f None)]"
| "alist_update k f ((a, v) # xs) = (if a = k then (a, f (Some v)) # xs else (a, v) # alist_update k f xs)"

definition bump :: "'k \<Rightarrow> ('k \<times> nat) list \<Rightarrow> ('k \<times> nat) list" where
  "bump k = alist_update k (\<lambda>v. Suc (case v of Some n \<Rightarrow> n | None \<Rightarrow> 0))"

section \<open>The histogram\<close>

record js_math =
  math_log :: "rat \<Rightarrow> rat"
  math_pow :: "rat \<Rightarrow> int \<Rightarrow> rat"

record log_histogram =
  counts :: "(int \<times> nat) list"
  h_count :: nat
  h_sum :: rat
  h_max :: rat

definition empty_histogram :: log_histogram where
  "empty_histogram = \<lparr>counts = [], h_count = 0, h_sum = 0, h_max = 0\<rparr>"

definition hist_index :: "js_math \<Rightarrow> rat \<Rightarrow> int" where
  "hist_index M ms = \<lfloor>fl (math_log M (fl (max ms (fl (1 / 10)) / fl (1 / 10))) / math_log M (fl (102 / 100)))\<rfloor>"

definition hist_value :: "js_math \<Rightarrow> int \<Rightarrow> rat" where
  "hist_value M idx = fl (fl (1 / 10) * math_pow M (fl (102 / 100)) (idx + 1))"

definition hist_record :: "js_math \<Rightarrow> rat \<Rightarrow> log_histogram \<Rightarrow> log_histogram" where
  "hist_record M ms h =
     (if ms < 0 then h
      else h\<lparr>counts := bump (hist_index M ms) (counts h), h_count := Suc (h_count h), h_sum := fl (h_sum h + ms),
             h_max := (if h_max h < ms then ms else h_max h)\<rparr>)"

fun quantile_loop :: "js_math \<Rightarrow> rat \<Rightarrow> int \<Rightarrow> nat \<Rightarrow> (int \<times> nat) list \<Rightarrow> rat" where
  "quantile_loop M mx rank seen [] = mx"
| "quantile_loop M mx rank seen ((idx, n) # rest) =
     (if rank \<le> int (seen + n) then min (hist_value M idx) mx else quantile_loop M mx rank (seen + n) rest)"

definition quantile :: "js_math \<Rightarrow> rat \<Rightarrow> log_histogram \<Rightarrow> rat" where
  "quantile M q h =
     (if h_count h = 0 then 0
      else quantile_loop M (h_max h) \<lceil>fl (q * of_nat (h_count h))\<rceil> 0 (sort_key fst (counts h)))"

definition hist_avg :: "log_histogram \<Rightarrow> rat" where
  "hist_avg h = (if h_count h = 0 then 0 else fl (h_sum h / of_nat (h_count h)))"

section \<open>Buckets, classes and results\<close>

type_synonym http_status = "rat option"

record bucket_row =
  bucketStart :: int
  requests :: nat
  failures :: nat
  rps :: rat
  avgMs :: rat
  p50Ms :: rat
  row_p95Ms :: rat
  row_p99Ms :: rat
  maxMs :: rat
  row_statusCounts :: "(http_status \<times> nat) list"

record error_classes =
  ec_server5xx :: nat
  ec_rateLimited429 :: nat
  ec_client4xx :: nat
  ec_networkOrTimeout :: nat
  ec_unexpectedOther :: nat

record run_summary =
  sm_totalRequests :: nat
  sm_failedRequests :: nat
  sm_errorRate :: rat
  sm_statusCounts :: "(http_status \<times> nat) list"
  sm_errorClasses :: error_classes
  sm_avg :: rat
  sm_p50 :: rat
  sm_p90 :: rat
  sm_p95 :: rat
  sm_p99 :: rat
  sm_max :: rat
  sm_achievedAvgRps :: rat
  sm_peakRps :: nat
  sm_maxSustainedRps :: rat
  sm_droppedIterations :: rat
  sm_generatorSaturated :: bool
  sm_authRequests :: nat
  sm_activeSeconds :: rat

definition BUCKET_MS :: int where
  "BUCKET_MS = 5000"

datatype guardrail_kind = Server_failures | Auth_refused | Rate_limited

record guardrail_options =
  windowSeconds :: int
  maxErrorRate :: rat
  minSamples :: nat
  maxRefusalRate :: "rat option"
  maxRateLimitedRate :: "rat option"

record guardrail_result =
  breach :: bool
  kind :: "guardrail_kind option"
  g_total :: nat
  errorRate :: rat
  refusalRate :: rat
  rateLimitedRate :: rat

record open_bucket =
  b_hist :: log_histogram
  b_requests :: nat
  b_failures :: nat
  b_statusCounts :: "(http_status \<times> nat) list"

record second_counts =
  s_total :: nat
  s_serverFailures :: nat
  s_authRefusals :: nat
  s_rateLimited :: nat

record k6_sample =
  metric :: string
  sample_time :: int
  sample_value :: rat
  tags :: "(string \<times> string) list"

record aggregator =
  open_buckets :: "(int \<times> open_bucket) list"
  overall :: log_histogram
  ag_statusCounts :: "(http_status \<times> nat) list"
  classes :: error_classes
  ag_total :: nat
  ag_failed :: nat
  dropped :: rat
  ag_auth :: nat
  perSecond :: "(int \<times> second_counts) list"
  bucketHistory :: "(rat \<times> rat) list"
  peakSecond :: nat
  firstMs :: "int option"
  lastMs :: int

definition no_errors :: error_classes where
  "no_errors = \<lparr>ec_server5xx = 0, ec_rateLimited429 = 0, ec_client4xx = 0, ec_networkOrTimeout = 0, ec_unexpectedOther = 0\<rparr>"

definition initial_aggregator :: aggregator where
  "initial_aggregator = \<lparr>open_buckets = [], overall = empty_histogram, ag_statusCounts = [], classes = no_errors,
     ag_total = 0, ag_failed = 0, dropped = 0, ag_auth = 0, perSecond = [], bucketHistory = [], peakSecond = 0,
     firstMs = None, lastMs = 0\<rparr>"

section \<open>Recording\<close>

definition status_ge :: "rat \<Rightarrow> http_status \<Rightarrow> bool" where
  "status_ge n st = (case st of Some s \<Rightarrow> n \<le> s | None \<Rightarrow> False)"

definition isServerFailure :: "http_status \<Rightarrow> bool" where
  "isServerFailure st \<longleftrightarrow> st = Some 0 \<or> status_ge 500 st"

definition classify :: "http_status \<Rightarrow> error_classes \<Rightarrow> error_classes" where
  "classify st c =
     (if st = Some 0 then c\<lparr>ec_networkOrTimeout := Suc (ec_networkOrTimeout c)\<rparr>
      else if status_ge 500 st then c\<lparr>ec_server5xx := Suc (ec_server5xx c)\<rparr>
      else if st = Some 429 then c\<lparr>ec_rateLimited429 := Suc (ec_rateLimited429 c)\<rparr>
      else if status_ge 400 st then c\<lparr>ec_client4xx := Suc (ec_client4xx c)\<rparr>
      else c\<lparr>ec_unexpectedOther := Suc (ec_unexpectedOther c)\<rparr>)"

definition bucket_record :: "js_math \<Rightarrow> rat \<Rightarrow> http_status \<Rightarrow> bool \<Rightarrow> open_bucket option \<Rightarrow> open_bucket" where
  "bucket_record M ms st expected b =
     (let x = (case b of Some y \<Rightarrow> y | None \<Rightarrow> \<lparr>b_hist = empty_histogram, b_requests = 0, b_failures = 0, b_statusCounts = []\<rparr>)
      in x\<lparr>b_requests := Suc (b_requests x), b_hist := hist_record M ms (b_hist x),
           b_statusCounts := bump st (b_statusCounts x),
           b_failures := (if expected then b_failures x else Suc (b_failures x))\<rparr>)"

definition second_record :: "http_status \<Rightarrow> second_counts option \<Rightarrow> second_counts" where
  "second_record st s =
     (let x = (case s of Some y \<Rightarrow> y | None \<Rightarrow> \<lparr>s_total = 0, s_serverFailures = 0, s_authRefusals = 0, s_rateLimited = 0\<rparr>)
      in \<lparr>s_total = Suc (s_total x),
          s_serverFailures = (if isServerFailure st then Suc (s_serverFailures x) else s_serverFailures x),
          s_authRefusals = (if st = Some 401 \<or> st = Some 403 then Suc (s_authRefusals x) else s_authRefusals x),
          s_rateLimited = (if st = Some 429 then Suc (s_rateLimited x) else s_rateLimited x)\<rparr>)"

definition agg_record :: "js_math \<Rightarrow> int \<Rightarrow> rat \<Rightarrow> http_status \<Rightarrow> bool \<Rightarrow> aggregator \<Rightarrow> aggregator" where
  "agg_record M time ms st expected a =
     (let sec = time div 1000;
          ps = alist_update sec (second_record st) (perSecond a);
          t = s_total (the (map_of ps sec))
      in a\<lparr>ag_total := Suc (ag_total a),
           firstMs := Some (case firstMs a of None \<Rightarrow> time | Some f \<Rightarrow> min f time), lastMs := max (lastMs a) time,
           open_buckets := alist_update (time div BUCKET_MS * BUCKET_MS) (bucket_record M ms st expected) (open_buckets a),
           overall := hist_record M ms (overall a), ag_statusCounts := bump st (ag_statusCounts a),
           ag_failed := (if expected then ag_failed a else Suc (ag_failed a)),
           classes := (if expected then classes a else classify st (classes a)),
           perSecond := ps, peakSecond := (if peakSecond a < t then t else peakSecond a)\<rparr>)"

definition feed :: "js_math \<Rightarrow> k6_sample option \<Rightarrow> aggregator \<Rightarrow> bool \<times> aggregator" where
  "feed M parsed a =
     (case parsed of
        None \<Rightarrow> (False, a)
      | Some p \<Rightarrow>
          if metric p = ''dropped_iterations'' then (True, a\<lparr>dropped := fl (dropped a + sample_value p)\<rparr>)
          else if metric p \<noteq> ''http_req_duration'' then (False, a)
          else if map_of (tags p) ''phase'' = Some ''auth'' then (True, a\<lparr>ag_auth := Suc (ag_auth a)\<rparr>)
          else (True, agg_record M (sample_time p) (sample_value p)
                  (case map_of (tags p) ''status'' of Some s \<Rightarrow> Number s | None \<Rightarrow> Some 0)
                  (map_of (tags p) ''expected_response'' \<noteq> Some ''false'') a))"

section \<open>Guardrail\<close>

definition window_sum :: "(second_counts \<Rightarrow> nat) \<Rightarrow> int \<Rightarrow> int \<Rightarrow> (int \<times> second_counts) list \<Rightarrow> nat" where
  "window_sum f lo hi ps = sum_list (map (\<lambda>s. case map_of ps s of Some x \<Rightarrow> f x | None \<Rightarrow> 0) [lo..hi])"

definition guardrail :: "int \<Rightarrow> guardrail_options \<Rightarrow> aggregator \<Rightarrow> guardrail_result \<times> aggregator" where
  "guardrail nowMs opts a =
     (let hi = nowMs div 1000; lo = hi - windowSeconds opts + 1;
          tot = window_sum s_total lo hi (perSecond a);
          rate = (\<lambda>n. if tot = 0 then 0 else fl (of_nat n / of_nat tot));
          server = window_sum s_serverFailures lo hi (perSecond a);
          refused = window_sum s_authRefusals lo hi (perSecond a);
          limited = window_sum s_rateLimited lo hi (perSecond a);
          enough = minSamples opts \<le> tot;
          refusalMax = (case maxRefusalRate opts of Some r \<Rightarrow> r | None \<Rightarrow> 1 / 2);
          limitedMax = (case maxRateLimitedRate opts of Some r \<Rightarrow> r | None \<Rightarrow> 1 / 2);
          k = (if enough \<and> refusalMax < rate refused then Some Auth_refused
               else if enough \<and> limitedMax < rate limited then Some Rate_limited
               else if enough \<and> maxErrorRate opts < rate server then Some Server_failures else None)
      in (\<lparr>breach = (k \<noteq> None), kind = k, g_total = tot, errorRate = rate server, refusalRate = rate refused,
           rateLimitedRate = rate limited\<rparr>,
          a\<lparr>perSecond := filter (\<lambda>(s, _). \<not> s < hi - windowSeconds opts - 5) (perSecond a)\<rparr>))"

section \<open>Draining and summary\<close>

definition round2 :: "rat \<Rightarrow> rat" where
  "round2 n = fl (of_int (Math_round (fl (n * 100))) / 100)"

text \<open>The time before which buckets are closed: \<open>None\<close> is \<open>Infinity\<close>.\<close>

definition closes :: "int option \<Rightarrow> int \<times> open_bucket \<Rightarrow> bool" where
  "closes before x = (case before of None \<Rightarrow> True | Some t \<Rightarrow> fst x + BUCKET_MS \<le> t)"

definition bucket_rps :: "open_bucket \<Rightarrow> rat" where
  "bucket_rps b = fl (of_nat (b_requests b) / 5)"

definition close_bucket :: "js_math \<Rightarrow> int \<times> open_bucket \<Rightarrow> bucket_row" where
  "close_bucket M x =
     (case x of (start, b) \<Rightarrow>
        \<lparr>bucketStart = start, requests = b_requests b, failures = b_failures b, rps = round2 (bucket_rps b),
         avgMs = round2 (hist_avg (b_hist b)), p50Ms = round2 (quantile M (1 / 2) (b_hist b)),
         row_p95Ms = round2 (quantile M (fl (95 / 100)) (b_hist b)), row_p99Ms = round2 (quantile M (fl (99 / 100)) (b_hist b)),
         maxMs = round2 (h_max (b_hist b)), row_statusCounts = b_statusCounts b\<rparr>)"

definition bucket_health :: "open_bucket \<Rightarrow> rat \<times> rat" where
  "bucket_health b = (bucket_rps b, if b_requests b = 0 then 0 else fl (of_nat (b_failures b) / of_nat (b_requests b)))"

definition drain :: "js_math \<Rightarrow> int option \<Rightarrow> aggregator \<Rightarrow> bucket_row list \<times> aggregator" where
  "drain M before a =
     (let closed = filter (closes before) (sort_key fst (open_buckets a))
      in (map (close_bucket M) closed,
          a\<lparr>open_buckets := filter (\<lambda>x. \<not> closes before x) (open_buckets a),
            bucketHistory := bucketHistory a @ map (bucket_health \<circ> snd) closed\<rparr>))"

definition summary :: "js_math \<Rightarrow> aggregator \<Rightarrow> run_summary" where
  "summary M a =
     (let active = (if ag_total a = 0 then 0
            else max 1 (fl (of_int (lastMs a - (case firstMs a of Some f \<Rightarrow> f | None \<Rightarrow> 0)) / 1000)));
          sustained = fold max (map fst (filter (\<lambda>h. snd h \<le> fl (1 / 100)) (bucketHistory a))) 0
      in \<lparr>sm_totalRequests = ag_total a, sm_failedRequests = ag_failed a,
          sm_errorRate = (if ag_total a = 0 then 0 else fl (of_nat (ag_failed a) / of_nat (ag_total a))),
          sm_statusCounts = ag_statusCounts a, sm_errorClasses = classes a, sm_avg = round2 (hist_avg (overall a)),
          sm_p50 = round2 (quantile M (1 / 2) (overall a)), sm_p90 = round2 (quantile M (fl (9 / 10)) (overall a)),
          sm_p95 = round2 (quantile M (fl (95 / 100)) (overall a)), sm_p99 = round2 (quantile M (fl (99 / 100)) (overall a)),
          sm_max = round2 (h_max (overall a)),
          sm_achievedAvgRps = round2 (if active = 0 then 0 else fl (of_nat (ag_total a) / active)),
          sm_peakRps = peakSecond a, sm_maxSustainedRps = round2 sustained, sm_droppedIterations = dropped a,
          sm_generatorSaturated = (0 < dropped a), sm_authRequests = ag_auth a, sm_activeSeconds = round2 active\<rparr>)"

section \<open>Nothing is lost\<close>

datatype agg_op = Feed "k6_sample option" | Drain "int option" | Guard int guardrail_options

fun agg_step :: "js_math \<Rightarrow> agg_op \<Rightarrow> aggregator \<times> bucket_row list \<Rightarrow> aggregator \<times> bucket_row list" where
  "agg_step M (Feed p) (a, rows) = (snd (feed M p a), rows)"
| "agg_step M (Drain t) (a, rows) = (snd (drain M t a), rows @ fst (drain M t a))"
| "agg_step M (Guard now opts) (a, rows) = (snd (guardrail now opts a), rows)"

definition class_sum :: "error_classes \<Rightarrow> nat" where
  "class_sum c = ec_server5xx c + ec_rateLimited429 c + ec_client4xx c + ec_networkOrTimeout c + ec_unexpectedOther c"

definition conserved :: "aggregator \<times> bucket_row list \<Rightarrow> bool" where
  "conserved x = (case x of (a, rows) \<Rightarrow>
     ag_total a = sum_list (map requests rows) + sum_list (map (b_requests \<circ> snd) (open_buckets a)) \<and>
     ag_failed a = sum_list (map failures rows) + sum_list (map (b_failures \<circ> snd) (open_buckets a)) \<and>
     ag_failed a = class_sum (classes a) \<and> ag_failed a \<le> ag_total a \<and>
     ag_total a = sum_list (map snd (ag_statusCounts a)))"

lemma sum_bump: "sum_list (map snd (bump k xs)) = Suc (sum_list (map snd xs))"
  unfolding bump_def by (induction xs) auto

lemma sum_alist_update:
  "(\<And>v. g (f v) = (case v of Some x \<Rightarrow> g x | None \<Rightarrow> 0) + c) \<Longrightarrow>
   sum_list (map (g \<circ> snd) (alist_update k f xs)) = sum_list (map (g \<circ> snd) xs) + c"
  for g :: "'v \<Rightarrow> nat"
  by (induction xs) auto

lemma bucket_record_counts:
  "b_requests (bucket_record M ms st ex b) = (case b of Some x \<Rightarrow> b_requests x | None \<Rightarrow> 0) + 1"
  "b_failures (bucket_record M ms st ex b) = (case b of Some x \<Rightarrow> b_failures x | None \<Rightarrow> 0) + (if ex then 0 else 1)"
  by (simp_all add: bucket_record_def Let_def split: option.splits)

lemma class_sum_classify: "class_sum (classify st c) = Suc (class_sum c)"
  by (simp add: class_sum_def classify_def)

lemma agg_record_conserved: "conserved (a, rows) \<Longrightarrow> conserved (agg_record M time ms st ex a, rows)"
  using sum_alist_update [where g = b_requests and f = "bucket_record M ms st ex" and c = 1
        and k = "time div BUCKET_MS * BUCKET_MS" and xs = "open_buckets a"]
    sum_alist_update [where g = b_failures and f = "bucket_record M ms st ex" and c = "if ex then 0 else 1"
        and k = "time div BUCKET_MS * BUCKET_MS" and xs = "open_buckets a"]
    bucket_record_counts [of M ms st ex]
  by (auto simp: conserved_def agg_record_def Let_def sum_bump class_sum_classify)

lemma feed_conserved: "conserved (a, rows) \<Longrightarrow> conserved (snd (feed M p a), rows)"
  using agg_record_conserved by (auto simp: feed_def split: option.split) (auto simp: conserved_def)

lemma sum_filter_split:
  "sum_list (map g xs) = sum_list (map g (filter p xs)) + sum_list (map g (filter (\<lambda>x. \<not> p x) xs))"
  for g :: "'a \<Rightarrow> nat"
  by (induction xs) auto

lemma sum_list_sort_key: "sum_list (map g (filter p (sort_key f xs))) = sum_list (map g (filter p xs))"
  for g :: "'a \<Rightarrow> nat"
proof -
  have "mset (map g (filter p (sort_key f xs))) = mset (map g (filter p xs))"
    by (simp add: mset_filter)
  then show ?thesis by (metis sum_mset_sum_list)
qed

lemma drain_conserved: "conserved (a, rows) \<Longrightarrow> conserved (snd (drain M t a), rows @ fst (drain M t a))"
proof -
  assume c: "conserved (a, rows)"
  let ?o = "open_buckets a"
  have rows: "map requests (map (close_bucket M) xs) = map (b_requests \<circ> snd) xs"
    "map failures (map (close_bucket M) xs) = map (b_failures \<circ> snd) xs" for xs
    by (simp_all add: close_bucket_def split_beta)
  show ?thesis
    using c sum_filter_split [of "b_requests \<circ> snd" ?o "closes t"] sum_filter_split [of "b_failures \<circ> snd" ?o "closes t"]
    by (simp add: conserved_def drain_def Let_def rows sum_list_sort_key del: map_map)
qed

lemma agg_step_conserved: "conserved x \<Longrightarrow> conserved (agg_step M op x)"
  by (cases "(M, op, x)" rule: agg_step.cases)
    (auto simp: feed_conserved drain_conserved, simp add: guardrail_def Let_def conserved_def)

lemma conserved_initial: "conserved (initial_aggregator, [])"
  by (simp add: conserved_def initial_aggregator_def class_sum_def no_errors_def)

lemma agg_steps_conserved: "conserved x \<Longrightarrow> conserved (fold (agg_step M) ops x)"
  by (induction ops arbitrary: x) (simp_all add: agg_step_conserved)


section \<open>The guardrail's window\<close>

text \<open>The recorded requests of a run, as pairs of time and status, in order.\<close>

definition recorded :: "k6_sample option \<Rightarrow> (int \<times> http_status) list" where
  "recorded p =
     (case p of
        None \<Rightarrow> []
      | Some q \<Rightarrow>
          if metric q = ''http_req_duration'' \<and> map_of (tags q) ''phase'' \<noteq> Some ''auth''
          then [(sample_time q, case map_of (tags q) ''status'' of Some s \<Rightarrow> Number s | None \<Rightarrow> Some 0)] else [])"

fun op_log :: "agg_op \<Rightarrow> (int \<times> http_status) list" where
  "op_log (Feed p) = recorded p"
| "op_log _ = []"

definition second_matches :: "int \<Rightarrow> (int \<times> http_status) list \<Rightarrow> second_counts option \<Rightarrow> bool" where
  "second_matches s lg c \<longleftrightarrow>
     (let here = filter (\<lambda>(t, st). t div 1000 = s) lg; get = (\<lambda>f. case c of Some x \<Rightarrow> f x | None \<Rightarrow> 0)
      in get s_total = length here \<and> get s_serverFailures = length (filter (\<lambda>(t, st). isServerFailure st) here) \<and>
         get s_authRefusals = length (filter (\<lambda>(t, st). st = Some 401 \<or> st = Some 403) here) \<and>
         get s_rateLimited = length (filter (\<lambda>(t, st). st = Some 429) here))"

definition seconds_ok :: "int \<Rightarrow> (int \<times> http_status) list \<Rightarrow> aggregator \<Rightarrow> bool" where
  "seconds_ok c0 lg a \<longleftrightarrow> (\<forall>s \<ge> c0. second_matches s lg (map_of (perSecond a) s))"

lemma map_of_alist_update: "map_of (alist_update k f xs) s = (if s = k then Some (f (map_of xs k)) else map_of xs s)"
  by (induction xs) auto

lemma map_of_filter_key: "map_of (filter (\<lambda>(k, _). P k) xs) s = (if P s then map_of xs s else None)"
  by (induction xs) auto

lemma second_record_matches:
  "second_matches s lg c \<Longrightarrow> second_matches s (lg @ [(t, st)]) (if s = t div 1000 then Some (second_record st c) else c)"
  by (auto simp: second_matches_def second_record_def Let_def split: option.splits)

lemma agg_record_seconds:
  "seconds_ok c0 lg a \<Longrightarrow> seconds_ok c0 (lg @ [(t, st)]) (agg_record M t ms st ex a)"
  unfolding seconds_ok_def
proof (intro allI impI)
  fix s assume "\<forall>s\<ge>c0. second_matches s lg (map_of (perSecond a) s)" and "c0 \<le> s"
  then have "second_matches s lg (map_of (perSecond a) s)" by simp
  from second_record_matches [OF this, of t st]
  show "second_matches s (lg @ [(t, st)]) (map_of (perSecond (agg_record M t ms st ex a)) s)"
    by (simp add: agg_record_def Let_def map_of_alist_update split: if_splits)
qed

lemma feed_seconds: "seconds_ok c0 lg a \<Longrightarrow> seconds_ok c0 (lg @ recorded p) (snd (feed M p a))"
  using agg_record_seconds [of c0 lg a]
  by (cases p) (auto simp: feed_def recorded_def, simp_all add: seconds_ok_def)

lemma guard_seconds:
  assumes "seconds_ok c0 lg a" and "now div 1000 - windowSeconds opts - 5 \<le> c0"
  shows "seconds_ok c0 lg (snd (guardrail now opts a))"
  using assms by (auto simp: seconds_ok_def guardrail_def Let_def map_of_filter_key)

definition earlier_guards :: "int \<Rightarrow> int \<Rightarrow> agg_op list \<Rightarrow> bool" where
  "earlier_guards now w ops \<longleftrightarrow> list_all (\<lambda>op. case op of Guard t o1 \<Rightarrow> t \<le> now \<and> windowSeconds o1 = w | _ \<Rightarrow> True) ops"

lemma agg_steps_seconds:
  assumes "seconds_ok (now div 1000 - w + 1) lg a" and "earlier_guards now w ops"
  shows "seconds_ok (now div 1000 - w + 1) (lg @ concat (map op_log ops)) (fst (fold (agg_step M) ops (a, rows)))"
  using assms
proof (induction ops arbitrary: lg a rows)
  case (Cons op ops)
  show ?case
  proof (cases op)
    case (Feed p)
    with Cons show ?thesis using feed_seconds [OF Cons.prems(1), of p M] by (simp add: earlier_guards_def flip: append_assoc)
  next
    case (Drain t)
    have "seconds_ok (now div 1000 - w + 1) lg (snd (drain M t a))" using Cons.prems(1) by (simp add: seconds_ok_def drain_def Let_def)
    with Cons Drain show ?thesis by (simp add: earlier_guards_def)
  next
    case (Guard t o1)
    with Cons.prems(2) have "t \<le> now" "windowSeconds o1 = w" by (auto simp: earlier_guards_def)
    then have "t div 1000 - windowSeconds o1 - 5 \<le> now div 1000 - w + 1" using zdiv_mono1 [of t now 1000] by simp
    then have "seconds_ok (now div 1000 - w + 1) lg (snd (guardrail t o1 a))" using Cons.prems(1) by (intro guard_seconds)
    with Cons Guard show ?thesis by (simp add: earlier_guards_def)
  qed
qed simp

lemma sum_indicator: "sum_list (map (\<lambda>s. if s = x then (1 :: nat) else 0) [lo..hi]) = (if lo \<le> x \<and> x \<le> hi then 1 else 0)" for x :: int
proof -
  have "sum_list (map (\<lambda>s. if s = x then (1 :: nat) else 0) [lo..hi]) = (\<Sum>s \<in> {lo..hi}. if s = x then 1 else 0)"
    by (simp add: sum_list_distinct_conv_sum_set)
  then show ?thesis by (simp add: sum.delta)
qed

definition in_window :: "int \<Rightarrow> int \<Rightarrow> (int \<times> http_status) list \<Rightarrow> (http_status \<Rightarrow> bool) \<Rightarrow> nat" where
  "in_window now w lg P = length (filter (\<lambda>(t, st). now div 1000 - w < t div 1000 \<and> t div 1000 \<le> now div 1000 \<and> P st) lg)"

lemma count_window:
  "sum_list (map (\<lambda>s. length (filter (\<lambda>(t, st). t div 1000 = s \<and> P st) lg)) [now div 1000 - w + 1..now div 1000]) = in_window now w lg P"
proof (induction lg)
  case (Cons x lg)
  obtain t st where x: "x = (t, st)" by (cases x)
  let ?I = "[now div 1000 - w + 1..now div 1000]"
  have "length (filter (\<lambda>(t, st). t div 1000 = s \<and> P st) (x # lg)) =
      length (filter (\<lambda>(t, st). t div 1000 = s \<and> P st) lg) + (if s = t div 1000 then (if P st then 1 else 0) else 0)" for s
    by (simp add: x)
  then have "sum_list (map (\<lambda>s. length (filter (\<lambda>(t, st). t div 1000 = s \<and> P st) (x # lg))) ?I) =
      in_window now w lg P + sum_list (map (\<lambda>s. if s = t div 1000 then (if P st then 1 else 0) else 0) ?I)"
    using Cons.IH by (simp add: sum_list_addf)
  also have "sum_list (map (\<lambda>s. if s = t div 1000 then (if P st then 1 else 0 :: nat) else 0) ?I) =
      (if P st then sum_list (map (\<lambda>s. if s = t div 1000 then 1 else 0) ?I) else 0)"
    by auto
  finally show ?case unfolding sum_indicator by (simp add: in_window_def x)
qed (simp add: in_window_def sum_list_0)

lemma window_sum_exact:
  assumes "seconds_ok (now div 1000 - w + 1) lg a"
  shows "window_sum s_total (now div 1000 - w + 1) (now div 1000) (perSecond a) = in_window now w lg (\<lambda>_. True)"
    and "window_sum s_serverFailures (now div 1000 - w + 1) (now div 1000) (perSecond a) = in_window now w lg isServerFailure"
    and "window_sum s_authRefusals (now div 1000 - w + 1) (now div 1000) (perSecond a) = in_window now w lg (\<lambda>st. st = Some 401 \<or> st = Some 403)"
    and "window_sum s_rateLimited (now div 1000 - w + 1) (now div 1000) (perSecond a) = in_window now w lg (\<lambda>st. st = Some 429)"
  using assms unfolding window_sum_def count_window [symmetric] seconds_ok_def second_matches_def Let_def
  by (auto simp: filter_filter split_beta' conj_commute intro!: arg_cong [where f = sum_list])

text \<open>C40. The guardrail judges exactly the trailing window: although the aggregator forgets old seconds
  as it goes, each check counts every request recorded so far whose second lies in the window
  that ends now, and trips on these counts: refused requests first, then throttled ones, then
  server failures, each only above its limit and only with enough samples.\<close>

theorem guardrail_window_exact:
  assumes "earlier_guards now (windowSeconds opts) ops"
  shows "case guardrail now opts (fst (fold (agg_step M) ops (initial_aggregator, []))) of (r, _) \<Rightarrow>
    (let n = in_window now (windowSeconds opts) (concat (map op_log ops)); share = (\<lambda>P. if n (\<lambda>_. True) = 0 then 0 else fl (of_nat (n P) / of_nat (n (\<lambda>_. True))));
         refusedShare = share (\<lambda>st. st = Some 401 \<or> st = Some 403); limitedShare = share (\<lambda>st. st = Some 429)
     in g_total r = n (\<lambda>_. True) \<and> breach r = (kind r \<noteq> None) \<and>
        kind r = (if n (\<lambda>_. True) < minSamples opts then None
          else if (case maxRefusalRate opts of Some x \<Rightarrow> x | None \<Rightarrow> 1 / 2) < refusedShare then Some Auth_refused
          else if (case maxRateLimitedRate opts of Some x \<Rightarrow> x | None \<Rightarrow> 1 / 2) < limitedShare then Some Rate_limited
          else if maxErrorRate opts < share isServerFailure then Some Server_failures else None))"
proof -
  have "seconds_ok (now div 1000 - windowSeconds opts + 1) [] initial_aggregator"
    by (simp add: seconds_ok_def initial_aggregator_def second_matches_def)
  from agg_steps_seconds [OF this assms, of M "[]"]
  have ok: "seconds_ok (now div 1000 - windowSeconds opts + 1) (concat (map op_log ops)) (fst (fold (agg_step M) ops (initial_aggregator, [])))"
    by simp
  show ?thesis by (simp add: guardrail_def Let_def window_sum_exact [OF ok] not_le)
qed

definition sample_request :: "int \<Rightarrow> string \<Rightarrow> agg_op" where
  "sample_request t st = Feed (Some \<lparr>metric = ''http_req_duration'', sample_time = t, sample_value = 12, tags = [(''status'', st)]\<rparr>)"

definition sample_guard :: guardrail_options where
  "sample_guard = \<lparr>windowSeconds = 30, maxErrorRate = 1 / 4, minSamples = 2, maxRefusalRate = None, maxRateLimitedRate = None\<rparr>"

definition sample_math :: js_math where
  "sample_math = \<lparr>math_log = (\<lambda>x. x - 1), math_pow = (\<lambda>_ _. 1)\<rparr>"

theorem guardrail_window_exact_witness:
  "g_total (fst (guardrail 40000 sample_guard (fst (fold (agg_step sample_math) [sample_request 1000 ''200'', Guard 39000 sample_guard, sample_request 39500 ''500'']
     (initial_aggregator, []))))) = 1"
  using guardrail_window_exact [of 40000 sample_guard "[sample_request 1000 ''200'', Guard 39000 sample_guard, sample_request 39500 ''500'']" sample_math]
  by (simp add: earlier_guards_def sample_request_def sample_guard_def in_window_def recorded_def Let_def split_beta)

end
