(* ===== verification/Load_Slo.thy ===== *)
theory Load_Slo
  imports Load_Plan
begin

text \<open>
  \<^verbatim>\<open>src/domain/load-slo.ts\<close>: the evaluation of a finished load run against its objectives. A check
  is modelled by its identifier, its name and its grade; the sentences shown next to it (target,
  actual value and explanation) carry no decision and are left out. Shares and ratios are
  quotients of doubles and rounded; the planned number of requests is a sum of whole and half
  numbers far below \<open>2 ^ 53\<close>, which doubles hold exactly.
\<close>

section \<open>Objectives\<close>

record slo_targets =
  p95Ms :: rat
  p99Ms :: rat
  maxServerErrorRate :: rat
  minThroughputRatio :: rat
  maxRateLimitedShare :: rat
  maxClientErrorShare :: rat
  requiredCapacityRps :: "rat option"

datatype slo_status = PASS | WARN | FAIL | INFO_S

datatype run_verdict = V_PASS | V_PASS_WITH_WARNINGS | V_FAIL | V_INCONCLUSIVE

record slo_check =
  check_id :: string
  check_name :: string
  check_status :: slo_status

record run_numbers =
  totalRequests :: nat
  server5xx :: nat
  rateLimited429 :: nat
  client4xx :: nat
  networkOrTimeout :: nat
  unexpectedOther :: nat
  status401 :: nat
  latency_p95 :: rat
  latency_p99 :: rat
  peak_rps :: rat
  maxSustainedRps :: rat
  droppedIterations :: nat
  generatorSaturated :: bool

record slo_evaluation =
  checks :: "slo_check list"
  verdict :: run_verdict
  reason :: string
  expected_requests :: int

definition defaultSlo :: "plan_config \<Rightarrow> slo_targets" where
  "defaultSlo cfg =
     (let batch = 1 < fanout cfg; wr = (plan_method cfg \<noteq> GET \<or> moneyMoving cfg)
      in \<lparr>p95Ms = (if batch then 4000 else if wr then 2000 else 800),
          p99Ms = (if batch then 8000 else if wr then 4000 else 1500),
          maxServerErrorRate = fl (1 / 100), minThroughputRatio = fl (9 / 10), maxRateLimitedShare = fl (5 / 100),
          maxClientErrorShare = fl (1 / 100), requiredCapacityRps = None\<rparr>)"

definition resolveSlo :: "plan_config \<Rightarrow> slo_targets" where
  "resolveSlo cfg =
     (let t = defaultSlo cfg
      in case slo cfg of
           None \<Rightarrow> t
         | Some s \<Rightarrow>
             \<lparr>p95Ms = opt_default (p95Ms t) (o_p95Ms s), p99Ms = opt_default (p99Ms t) (o_p99Ms s),
              maxServerErrorRate = opt_default (maxServerErrorRate t) (o_maxServerErrorRate s),
              minThroughputRatio = opt_default (minThroughputRatio t) (o_minThroughputRatio s),
              maxRateLimitedShare = opt_default (maxRateLimitedShare t) (o_maxRateLimitedShare s),
              maxClientErrorShare = opt_default (maxClientErrorShare t) (o_maxClientErrorShare s),
              requiredCapacityRps = opt_default (requiredCapacityRps t) (o_requiredCapacityRps s)\<rparr>)"

text \<open>The area under the ramp of the stages.\<close>

fun ramp_area :: "int \<Rightarrow> stage list \<Rightarrow> rat" where
  "ramp_area prev [] = 0"
| "ramp_area prev (s # ss) = of_int (stage_durationSeconds s * (prev + target s)) / 2 + ramp_area (target s) ss"

definition expectedRequests :: "plan_config \<Rightarrow> int" where
  "expectedRequests cfg = Math_round (ramp_area 0 (buildStages cfg))"

definition grade :: "rat \<Rightarrow> rat \<Rightarrow> rat \<Rightarrow> slo_status" where
  "grade v limit warnFactor = (if v \<le> limit then PASS else if v \<le> fl (limit * warnFactor) then WARN else FAIL)"

section \<open>The evaluation\<close>

definition share :: "nat \<Rightarrow> nat \<Rightarrow> rat" where
  "share n tot = fl (of_nat n / of_nat tot)"

text \<open>The pattern of the reasons with which the guardrail stops a run because the service fails.\<close>

definition drop_prefix :: "string \<Rightarrow> string \<Rightarrow> string option" where
  "drop_prefix p s = (if take (length p) s = p then Some (drop (length p) s) else None)"

definition skip_digits :: "string \<Rightarrow> string option" where
  "skip_digits s = (if s \<noteq> [] \<and> is_digit (hd s) then Some (dropWhile is_digit s) else None)"

definition skip_number :: "string \<Rightarrow> string option" where
  "skip_number s =
     Option.bind (skip_digits s) (\<lambda>r. case r of c # cs \<Rightarrow> if c = CHR ''.'' then skip_digits cs else Some r | [] \<Rightarrow> Some [])"

definition guardrailFail :: "string \<Rightarrow> bool" where
  "guardrailFail rsn =
     (case drop_prefix ''guardrail: '' rsn of
        None \<Rightarrow> False
      | Some r \<Rightarrow>
          drop_prefix ''server failure rate'' r \<noteq> None \<or>
          Option.bind (skip_number r) (\<lambda>r1. Option.bind (drop_prefix ''% of '' r1) (\<lambda>r2.
            Option.bind (skip_digits r2) (drop_prefix '' requests were rate limited''))) \<noteq> None)"

definition limitProfile :: "plan_config \<Rightarrow> bool" where
  "limitProfile cfg \<longleftrightarrow> profile cfg = STRESS \<or> profile cfg = BREAKPOINT"

definition graded :: "bool \<Rightarrow> slo_status \<Rightarrow> slo_status" where
  "graded atLimit s = (if atLimit \<and> s \<noteq> PASS then INFO_S else s)"

definition run_checks :: "plan_config \<Rightarrow> run_numbers \<Rightarrow> slo_check list" where
  "run_checks cfg n =
     (let s = resolveSlo cfg; expected = expectedRequests cfg; atLimit = limitProfile cfg;
          tot = max 1 (totalRequests n);
          serverErr = share (server5xx n + networkOrTimeout n) tot;
          clientErr = share (client4xx n + unexpectedOther n) tot;
          limited = share (rateLimited429 n) tot;
          ratio = (if 0 < expected then fl (of_nat (totalRequests n) / of_int expected) else 1);
          auth401 = share (status401 n) tot
      in [\<lparr>check_id = ''generator'', check_name = ''Test tool kept up'',
           check_status = (if generatorSaturated n then FAIL else PASS)\<rparr>,
          \<lparr>check_id = ''p95'', check_name = ''Typical-worst response time (P95)'',
           check_status = graded atLimit (grade (latency_p95 n) (p95Ms s) (5 / 4))\<rparr>,
          \<lparr>check_id = ''p99'', check_name = ''Worst-case response time (P99)'',
           check_status = graded atLimit (grade (latency_p99 n) (p99Ms s) (5 / 4))\<rparr>,
          \<lparr>check_id = ''server-errors'', check_name = ''Service failures (5xx, timeouts)'',
           check_status = graded atLimit (grade serverErr (maxServerErrorRate s) 2)\<rparr>,
          \<lparr>check_id = ''client-errors'', check_name = ''Valid requests refused (unexpected 4xx)'',
           check_status = graded atLimit (grade clientErr (maxClientErrorShare s) 3)\<rparr>,
          \<lparr>check_id = ''rate-limited'', check_name = ''Throttled requests (429)'',
           check_status = graded atLimit (if limited \<le> maxRateLimitedShare s then PASS else if limited \<le> 1 / 2 then WARN else FAIL)\<rparr>,
          \<lparr>check_id = ''throughput'', check_name = ''Delivered the planned load'',
           check_status = graded atLimit (if minThroughputRatio s \<le> ratio then PASS else if 3 / 4 \<le> ratio then WARN else FAIL)\<rparr>,
          \<lparr>check_id = ''auth'', check_name = ''Authentication held for the whole run'',
           check_status = (if auth401 \<le> fl (1 / 1000) then PASS else if auth401 \<le> fl (1 / 100) then WARN else FAIL)\<rparr>] @
         (if atLimit \<or> requiredCapacityRps s \<noteq> None
          then [\<lparr>check_id = ''capacity'', check_name = ''Sustained capacity'',
                 check_status =
                   (case requiredCapacityRps s of
                      Some req \<Rightarrow> if req \<le> maxSustainedRps n then PASS
                                  else if fl (req * fl (8 / 10)) \<le> maxSustainedRps n then WARN else FAIL
                    | None \<Rightarrow> INFO_S)\<rparr>]
          else []))"

definition with_status :: "slo_status \<Rightarrow> slo_check list \<Rightarrow> string list" where
  "with_status st cs = map (\<lambda>c. toLowerCase (check_name c)) (filter (\<lambda>c. check_status c = st) cs)"

definition replace_guardrail :: "string \<Rightarrow> string" where
  "replace_guardrail s = (case drop_prefix ''guardrail: '' s of Some r \<Rightarrow> r | None \<Rightarrow> s)"

definition evaluateRunSlo ::
    "plan_config \<Rightarrow> run_numbers option \<Rightarrow> load_run_status \<Rightarrow> string option \<Rightarrow> slo_evaluation" where
  "evaluateRunSlo cfg numbers runStatus finishedReason =
     (let expected = expectedRequests cfg;
          res = (\<lambda>cs v r. \<lparr>checks = cs, verdict = v, reason = r, expected_requests = expected\<rparr>);
          stopped =
            (let rsn = (case finishedReason of Some r \<Rightarrow> r | None \<Rightarrow> ''The run did not finish.'')
             in if guardrailFail rsn
                then res [] V_FAIL (''The service began failing under load and the safety guardrail stopped the test ('' @ replace_guardrail rsn @ '').'')
                else res [] V_INCONCLUSIVE (''The run was stopped before completion ('' @ rsn @ ''), so it is not a valid measurement.''))
      in case numbers of
           None \<Rightarrow> res [] V_INCONCLUSIVE ''The test itself failed to run, so nothing can be said about the service.''
         | Some n \<Rightarrow>
             if runStatus = RUN_RUN_FAILED
             then res [] V_INCONCLUSIVE ''The test itself failed to run, so nothing can be said about the service.''
             else if runStatus \<noteq> RUN_COMPLETED then stopped
             else let cs = run_checks cfg n; fails = with_status FAIL cs; warns = with_status WARN cs
                  in if generatorSaturated n
                     then res cs V_INCONCLUSIVE ''The load generator could not keep up, so this run does not prove anything about the service.''
                     else if fails \<noteq> []
                     then res cs V_FAIL (''Missed '' @ show_nat (length fails) @ '' objective'' @ (if 1 < length fails then ''s'' else []) @
                            '': '' @ join_names fails @ ''.'')
                     else if warns \<noteq> []
                     then res cs V_PASS_WITH_WARNINGS (''Met the objectives with thin margins on: '' @ join_names warns @ ''.'')
                     else res cs V_PASS ''Met every objective.'')"

section \<open>The planned volume\<close>

lemma ramp_area_bound:
  assumes "\<forall>s \<in> set ss. 0 \<le> stage_durationSeconds s \<and> 0 \<le> target s \<and> target s \<le> p" and "0 \<le> prev" and "prev \<le> p"
  shows "0 \<le> ramp_area prev ss \<and> ramp_area prev ss \<le> of_int (sum_list (map stage_durationSeconds ss) * p)"
  using assms
proof (induction ss arbitrary: prev)
  case (Cons s ss)
  then have s: "0 \<le> stage_durationSeconds s" "0 \<le> target s" "target s \<le> p" by auto
  have "stage_durationSeconds s * (prev + target s) \<le> stage_durationSeconds s * (2 * p)"
    using s Cons.prems(3) by (intro mult_left_mono) auto
  then have "of_int (stage_durationSeconds s * (prev + target s)) \<le> (of_int (stage_durationSeconds s * (2 * p)) :: rat)"
    by (simp only: of_int_le_iff)
  moreover have "0 \<le> (of_int (stage_durationSeconds s * (prev + target s)) :: rat)" using s Cons.prems(2) by simp
  moreover have "0 \<le> ramp_area (target s) ss \<and> ramp_area (target s) ss \<le> of_int (sum_list (map stage_durationSeconds ss) * p)"
    using Cons.IH [of "target s"] Cons.prems(1) s by simp
  moreover have "of_int (sum_list (map stage_durationSeconds (s # ss)) * p) =
      (of_int (stage_durationSeconds s * (2 * p)) / 2 + of_int (sum_list (map stage_durationSeconds ss) * p) :: rat)"
    by (simp add: algebra_simps)
  ultimately show ?case by (simp only: ramp_area.simps) linarith
qed simp

text \<open>The planned number of requests is the area under the ramp, rounded: for an accepted plan it
  lies between 0 and what the peak rate would produce over the whole duration.\<close>

theorem expected_requests_bounded:
  assumes "PlanConfigSchema i = Some cfg"
  shows "0 \<le> expectedRequests cfg \<and> expectedRequests cfg \<le> plan_durationSeconds cfg * peakRps cfg"
proof -
  have ok: "plan_ok cfg" using assms by (rule schema_plan_ok)
  have "sum_list (map stage_durationSeconds (buildStages cfg)) = plan_durationSeconds cfg"
    "\<forall>s \<in> set (buildStages cfg). 0 \<le> stage_durationSeconds s \<and> 0 \<le> target s \<and> target s \<le> peakRps cfg"
    using stages_ok(1,2) [OF ok] by force+
  moreover have "0 \<le> peakRps cfg" using stages_ok [OF ok] by fastforce
  ultimately have "0 \<le> ramp_area 0 (buildStages cfg) \<and>
      ramp_area 0 (buildStages cfg) \<le> of_int (plan_durationSeconds cfg * peakRps cfg)"
    using ramp_area_bound [of "buildStages cfg" "peakRps cfg" 0] by simp
  then have "Math_round (of_int 0) \<le> expectedRequests cfg"
    "expectedRequests cfg \<le> Math_round (of_int (plan_durationSeconds cfg * peakRps cfg))"
    unfolding expectedRequests_def by (intro Math_round_mono; simp)+
  then show ?thesis by (simp only: Math_round_of_int)
qed

theorem expected_requests_bounded_witness: "0 \<le> expectedRequests sample_plan \<and> expectedRequests sample_plan \<le> 61 * peakRps sample_plan"
  using expected_requests_bounded [OF sample_plan_accepted] by (simp add: sample_plan_def)

section \<open>Verdicts\<close>

lemma graded_PASS [simp]: "graded b s = PASS \<longleftrightarrow> s = PASS"
  by (simp add: graded_def)

lemma graded_not_bad: "b \<Longrightarrow> graded b s \<noteq> FAIL \<and> graded b s \<noteq> WARN"
  by (simp add: graded_def)

lemma grade_PASS [simp]: "grade v l w = PASS \<longleftrightarrow> v \<le> l"
  by (simp add: grade_def)

definition fine :: "slo_status \<Rightarrow> bool" where
  "fine s \<longleftrightarrow> s \<noteq> FAIL \<and> s \<noteq> WARN"

lemma fine_graded: "fine (graded b s) \<longleftrightarrow> b \<or> fine s"
  by (auto simp: fine_def graded_def)

lemma fine_grade: "fine (grade v l w) \<longleftrightarrow> v \<le> l"
  by (auto simp: fine_def grade_def)

lemma fine_if: "fine (if a then PASS else if b then WARN else FAIL) \<longleftrightarrow> a" "fine (if a then FAIL else PASS) \<longleftrightarrow> \<not> a" "fine INFO_S"
  by (auto simp: fine_def)

lemma with_status_Nil: "with_status FAIL cs = [] \<and> with_status WARN cs = [] \<longleftrightarrow> (\<forall>c \<in> set cs. fine (check_status c))"
  by (auto simp: with_status_def filter_empty_conv fine_def)

text \<open>What a completed run has to show, in terms of the measured numbers.\<close>

definition meets_objectives :: "plan_config \<Rightarrow> run_numbers \<Rightarrow> bool" where
  "meets_objectives cfg n \<longleftrightarrow>
     (let s = resolveSlo cfg; tot = max 1 (totalRequests n); expected = expectedRequests cfg
      in share (status401 n) tot \<le> fl (1 / 1000) \<and>
         (limitProfile cfg \<or>
            latency_p95 n \<le> p95Ms s \<and> latency_p99 n \<le> p99Ms s \<and>
            share (server5xx n + networkOrTimeout n) tot \<le> maxServerErrorRate s \<and>
            share (client4xx n + unexpectedOther n) tot \<le> maxClientErrorShare s \<and>
            share (rateLimited429 n) tot \<le> maxRateLimitedShare s \<and>
            minThroughputRatio s \<le> (if 0 < expected then fl (of_nat (totalRequests n) / of_int expected) else 1)) \<and>
         (case requiredCapacityRps s of None \<Rightarrow> True | Some req \<Rightarrow> req \<le> maxSustainedRps n))"

lemma run_checks_fine:
  "(\<forall>c \<in> set (run_checks cfg n). fine (check_status c)) \<longleftrightarrow> \<not> generatorSaturated n \<and> meets_objectives cfg n"
  unfolding run_checks_def meets_objectives_def Let_def
  by (cases "requiredCapacityRps (resolveSlo cfg)"; cases "limitProfile cfg") (auto simp add: fine_graded fine_grade fine_if)

text \<open>A run passes exactly when it completed, the load generator kept up and every objective was
  met: the shares of failures, refusals and throttled requests, the two response times and the
  delivered volume (for the profiles that look for the limit these only inform), the share of
  rejected tokens and the required capacity. A saturated generator, a failed or an unmeasured
  run never accuses or acquits the service.\<close>

theorem verdict_pass_iff:
  "(verdict (evaluateRunSlo cfg numbers st fr) = V_PASS \<longleftrightarrow>
      (\<exists>n. numbers = Some n \<and> st = RUN_COMPLETED \<and> \<not> generatorSaturated n \<and> meets_objectives cfg n)) \<and>
   (numbers = None \<or> st = RUN_RUN_FAILED \<or> st = RUN_COMPLETED \<and> generatorSaturated (the numbers) \<longrightarrow>
      verdict (evaluateRunSlo cfg numbers st fr) = V_INCONCLUSIVE)"
proof (cases numbers)
  case (Some n)
  then show ?thesis
    using run_checks_fine [of cfg n, folded with_status_Nil] by (auto simp: evaluateRunSlo_def Let_def)
qed (simp add: evaluateRunSlo_def Let_def)

theorem verdict_pass_iff_witness: "verdict (evaluateRunSlo sample_plan None RUN_COMPLETED None) = V_INCONCLUSIVE"
  using verdict_pass_iff [of sample_plan None RUN_COMPLETED None] by simp

end
