(* ===== verification/Load_Runs.thy ===== *)
theory Load_Runs
  imports Load_Authorization Load_Metrics Load_Slo Alerts_Repo
begin

text \<open>
  \<^verbatim>\<open>src/repositories/load-test-runs.repo.ts\<close> and \<^verbatim>\<open>src/services/loadtest/run.service.ts\<close>: plans,
  the queue of runs, and the execution of a claimed run. What the outside world contributes to
  an execution is an argument: the outcomes of the preparation (k6's version, credentials, files),
  for every second of the run the clock, the samples k6 wrote and what operators did meanwhile,
  and at the end k6's exit. A stored plan is read back through the schema. Stored error messages
  and the tail of k6's output are what \<open>scrubPci\<close> and the cut to 1500 characters leave of them.
  Statements of the database are taken to succeed, so the \<open>catch\<close> is reached from the preparation only.
\<close>

section \<open>Plans\<close>

definition to_input :: "plan_config \<Rightarrow> plan_input" where
  "to_input c = \<lparr>in_profile = profile c, in_method = Some (plan_method c), in_headers = Some (headers c), in_path = path c,
     in_body = body c, in_dataSetId = dataSetId c, in_dataSelection = Some (dataSelection c), in_moneyMoving = Some (moneyMoving c),
     in_realSideEffects = Some (realSideEffects c), in_fanout = Some (of_int (fanout c)), in_slo = slo c, in_packId = packId c,
     in_idempotencyHeader = Some (idempotencyHeader c), in_targetRps = targetRps c,
     in_durationSeconds = of_int (plan_durationSeconds c), in_maxVus = of_int (maxVus c),
     in_preAllocatedVus = map_option of_int (preAllocatedVus c), in_spikeMultiplier = Some (spikeMultiplier c),
     in_expectedStatuses = Some (map of_int (expectedStatuses c)), in_timeoutMs = Some (of_int (plan_timeoutMs c))\<rparr>"

record load_plan =
  lp_id :: row_id
  lp_apiId :: target_id
  lp_name :: string
  lp_config :: plan_config
  lp_createdBy :: "row_id option"
  lp_createdAt :: timestamp

record plan_snapshot =
  snap_config :: plan_config
  snap_name :: string
  snap_url :: string
  snap_isMoneyMoving :: bool
  snap_environment :: environment
  snap_peakRps :: int

record load_run =
  lr_id :: row_id
  lr_planId :: row_id
  lr_apiId :: target_id
  lr_status :: load_run_status
  lr_snapshot :: plan_snapshot
  lr_effectiveClass :: "load_environment_class option"
  lr_requestedBy :: "row_id option"
  lr_workerId :: "string option"
  lr_heartbeatAt :: "timestamp option"
  lr_abortRequested :: bool
  lr_abortReason :: "string option"
  lr_finishedReason :: "string option"
  lr_error :: "string option"
  lr_summary :: "run_summary option"
  lr_k6Version :: "string option"
  lr_maintenanceWindowId :: "row_id option"
  lr_queuedAt :: timestamp
  lr_startedAt :: "timestamp option"
  lr_finishedAt :: "timestamp option"

record data_set =
  ds_id :: row_id
  ds_name :: string
  ds_fields :: "string list"

record runs_state =
  safety :: load_state
  load_test_data_sets :: "data_set list"
  load_test_plans :: "load_plan list"
  load_test_runs :: "load_run list"
  load_test_metrics :: "(row_id \<times> bucket_row) list"

abbreviation runs_db :: "runs_state \<Rightarrow> db" where
  "runs_db s \<equiv> main (safety s)"

definition upd_db :: "(db \<Rightarrow> db) \<Rightarrow> runs_state \<Rightarrow> runs_state" where
  "upd_db f s = s\<lparr>safety := (safety s)\<lparr>main := f (runs_db s)\<rparr>\<rparr>"

definition upd_runs :: "(load_run \<Rightarrow> bool) \<Rightarrow> (load_run \<Rightarrow> load_run) \<Rightarrow> runs_state \<Rightarrow> runs_state" where
  "upd_runs p f s = s\<lparr>load_test_runs := upd_where p f (load_test_runs s)\<rparr>"

section \<open>Repository\<close>

definition getDataSet :: "row_id \<Rightarrow> runs_state \<Rightarrow> data_set option" where
  "getDataSet k s = find (\<lambda>d. ds_id d = k) (load_test_data_sets s)"

definition createPlan_row ::
    "timestamp \<Rightarrow> target_id \<Rightarrow> string \<Rightarrow> plan_config \<Rightarrow> row_id option \<Rightarrow> runs_state \<Rightarrow> load_plan \<times> runs_state" where
  "createPlan_row now apiId nm cfg createdBy s =
     (let p = \<lparr>lp_id = next_id (runs_db s), lp_apiId = apiId, lp_name = nm, lp_config = cfg, lp_createdBy = createdBy, lp_createdAt = now\<rparr>
      in (p, (upd_db (\<lambda>d. d\<lparr>next_id := Suc (next_id d)\<rparr>) s)\<lparr>load_test_plans := load_test_plans s @ [p]\<rparr>))"

definition getPlan :: "row_id \<Rightarrow> runs_state \<Rightarrow> load_plan option" where
  "getPlan k s = find (\<lambda>p. lp_id p = k) (load_test_plans s)"

definition listPlans :: "target_id option \<Rightarrow> runs_state \<Rightarrow> load_plan list" where
  "listPlans apiId s = take 200 (sort_key (\<lambda>p. - lp_createdAt p)
     (filter (\<lambda>p. case apiId of None \<Rightarrow> True | Some t \<Rightarrow> lp_apiId p = t) (load_test_plans s)))"

definition createRun ::
    "timestamp \<Rightarrow> load_plan \<Rightarrow> plan_snapshot \<Rightarrow> load_environment_class option \<Rightarrow> row_id option \<Rightarrow> runs_state \<Rightarrow> load_run \<times> runs_state" where
  "createRun now plan snap cls requestedBy s =
     (let r = \<lparr>lr_id = next_id (runs_db s), lr_planId = lp_id plan, lr_apiId = lp_apiId plan, lr_status = RUN_QUEUED,
               lr_snapshot = snap, lr_effectiveClass = cls, lr_requestedBy = requestedBy, lr_workerId = None, lr_heartbeatAt = None,
               lr_abortRequested = False, lr_abortReason = None, lr_finishedReason = None, lr_error = None, lr_summary = None,
               lr_k6Version = None, lr_maintenanceWindowId = None, lr_queuedAt = now, lr_startedAt = None, lr_finishedAt = None\<rparr>
      in (r, (upd_db (\<lambda>d. d\<lparr>next_id := Suc (next_id d)\<rparr>) s)\<lparr>load_test_runs := load_test_runs s @ [r]\<rparr>))"

definition getRun :: "row_id \<Rightarrow> runs_state \<Rightarrow> load_run option" where
  "getRun k s = find (\<lambda>r. lr_id r = k) (load_test_runs s)"

definition listRuns :: "row_id option \<Rightarrow> target_id option \<Rightarrow> nat option \<Rightarrow> runs_state \<Rightarrow> load_run list" where
  "listRuns planId apiId limit s =
     take (min (case limit of Some l \<Rightarrow> l | None \<Rightarrow> 50) 200) (sort_key (\<lambda>r. - lr_queuedAt r) (filter (\<lambda>r.
       (case planId of None \<Rightarrow> True | Some p \<Rightarrow> lr_planId r = p) \<and> (case apiId of None \<Rightarrow> True | Some t \<Rightarrow> lr_apiId r = t))
       (load_test_runs s)))"

definition claimNextRun :: "timestamp \<Rightarrow> string \<Rightarrow> runs_state \<Rightarrow> load_run option \<times> runs_state" where
  "claimNextRun now workerId s =
     (case sort_key lr_queuedAt (filter (\<lambda>r. lr_status r = RUN_QUEUED) (load_test_runs s)) of
        [] \<Rightarrow> (None, s)
      | r # _ \<Rightarrow>
          (let f = (\<lambda>x. x\<lparr>lr_status := RUN_PREFLIGHT, lr_workerId := Some workerId, lr_heartbeatAt := Some now\<rparr>)
           in (Some (f r), upd_runs (\<lambda>x. lr_id x = lr_id r) f s)))"

definition markRunning :: "timestamp \<Rightarrow> row_id \<Rightarrow> string \<Rightarrow> row_id option \<Rightarrow> runs_state \<Rightarrow> runs_state" where
  "markRunning now k version windowId =
     upd_runs (\<lambda>r. lr_id r = k) (\<lambda>r. r\<lparr>lr_status := RUN_RUNNING, lr_startedAt := Some now, lr_heartbeatAt := Some now,
       lr_k6Version := Some version, lr_maintenanceWindowId := windowId\<rparr>)"

definition run_heartbeat :: "timestamp \<Rightarrow> row_id \<Rightarrow> runs_state \<Rightarrow> (bool \<times> string option) \<times> runs_state" where
  "run_heartbeat now k s =
     ((case getRun k s of Some r \<Rightarrow> (lr_abortRequested r, lr_abortReason r) | None \<Rightarrow> (False, None)),
      upd_runs (\<lambda>r. lr_id r = k) (\<lambda>r. r\<lparr>lr_heartbeatAt := Some now\<rparr>) s)"

definition finishRun ::
    "timestamp \<Rightarrow> row_id \<Rightarrow> load_run_status \<Rightarrow> string \<Rightarrow> run_summary option \<Rightarrow> string option \<Rightarrow> runs_state \<Rightarrow> runs_state" where
  "finishRun now k st rsn sm err =
     upd_runs (\<lambda>r. lr_id r = k) (\<lambda>r. r\<lparr>lr_status := st, lr_finishedReason := Some rsn, lr_summary := sm, lr_error := err,
       lr_finishedAt := Some now\<rparr>)"

definition requestAbort :: "timestamp \<Rightarrow> row_id \<Rightarrow> string \<Rightarrow> runs_state \<Rightarrow> load_run option \<times> runs_state" where
  "requestAbort now k rsn s =
     (let p = (\<lambda>r. lr_id r = k \<and> lr_status r \<in> {RUN_QUEUED, RUN_PREFLIGHT, RUN_RUNNING});
          f = (\<lambda>r. let q = (lr_status r = RUN_QUEUED) in r\<lparr>lr_abortRequested := True, lr_abortReason := Some rsn,
                lr_status := (if q then RUN_ABORTED else lr_status r),
                lr_finishedReason := (if q then Some ''aborted before start'' else lr_finishedReason r),
                lr_finishedAt := (if q then Some now else lr_finishedAt r)\<rparr>)
      in (map_option f (find p (load_test_runs s)), upd_runs p f s))"

definition stale :: "timestamp \<Rightarrow> nat \<Rightarrow> load_run \<Rightarrow> bool" where
  "stale now staleSeconds r \<longleftrightarrow> lr_status r \<in> {RUN_PREFLIGHT, RUN_RUNNING} \<and>
     (case lr_heartbeatAt r of None \<Rightarrow> False | Some h \<Rightarrow> h < now - int staleSeconds * 1000)"

definition recoverStaleRuns :: "timestamp \<Rightarrow> nat \<Rightarrow> runs_state \<Rightarrow> row_id list \<times> runs_state" where
  "recoverStaleRuns now staleSeconds s =
     (let lost = filter (stale now staleSeconds) (load_test_runs s);
          wins = List.map_filter lr_maintenanceWindowId lost
      in (map lr_id lost,
          upd_db (\<lambda>d. d\<lparr>maintenance_windows := filter (\<lambda>w. mw_id w \<notin> set wins) (maintenance_windows d)\<rparr>)
            (upd_runs (stale now staleSeconds) (\<lambda>r. r\<lparr>lr_status := RUN_RUN_FAILED, lr_finishedReason := Some ''worker lost'',
               lr_error := Some ''Worker stopped heartbeating; run abandoned.'', lr_finishedAt := Some now\<rparr>) s)))"

fun insertMetrics :: "row_id \<Rightarrow> bucket_row list \<Rightarrow> runs_state \<Rightarrow> runs_state" where
  "insertMetrics k [] s = s"
| "insertMetrics k (r # rs) s =
     insertMetrics k rs
       (if \<exists>x \<in> set (load_test_metrics s). fst x = k \<and> bucketStart (snd x) = bucketStart r then s
        else s\<lparr>load_test_metrics := load_test_metrics s @ [(k, r)]\<rparr>)"

definition listMetrics :: "row_id \<Rightarrow> runs_state \<Rightarrow> bucket_row list" where
  "listMetrics k s = sort_key bucketStart (map snd (filter (\<lambda>x. fst x = k) (load_test_metrics s)))"

section \<open>Planning and queueing\<close>

fun show_profile :: "load_profile \<Rightarrow> string" where
  "show_profile SMOKE = ''SMOKE''" | "show_profile LOAD = ''LOAD''" | "show_profile STRESS = ''STRESS''"
| "show_profile SPIKE = ''SPIKE''" | "show_profile SOAK = ''SOAK''" | "show_profile BREAKPOINT = ''BREAKPOINT''"

fun show_method :: "http_method \<Rightarrow> string" where
  "show_method GET = ''GET''" | "show_method POST = ''POST''" | "show_method PUT = ''PUT''"
| "show_method PATCH = ''PATCH''" | "show_method DELETE = ''DELETE''"

definition runs_audit :: "audit_actor \<Rightarrow> string \<Rightarrow> string \<Rightarrow> row_id \<Rightarrow> string option \<Rightarrow> runs_state \<Rightarrow> runs_state" where
  "runs_audit actor action ty k sm = upd_db (recordAudit actor action ty (Some (Row k)) sm)"

definition createPlan ::
    "timestamp \<Rightarrow> target_id \<Rightarrow> string \<Rightarrow> plan_input \<Rightarrow> audit_actor \<Rightarrow> runs_state \<Rightarrow> (app_error + load_plan) \<times> runs_state" where
  "createPlan now apiId nm input actor s =
     (case PlanConfigSchema input of
        None \<Rightarrow> (Inl (ZodError ''config''), s)
      | Some cfg \<Rightarrow>
     (case findTargetById apiId (runs_db s) of
        None \<Rightarrow> (Inl (NotFoundError ''Target not found''), s)
      | Some t \<Rightarrow>
     (let needed = dataFieldsUsed cfg
      in if needed \<noteq> [] \<and> dataSetId cfg = None
         then (Inl (ValidationError (''Plan uses {{data.*}} ('' @ join_names needed @ '') but has no dataSetId.'')), s)
         else case (case dataSetId cfg of
                      None \<Rightarrow> None
                    | Some k \<Rightarrow>
                        (case getDataSet k s of
                           None \<Rightarrow> Some ''dataSetId does not exist.''
                         | Some ds \<Rightarrow>
                             let missing = filter (\<lambda>f. f \<notin> set (ds_fields ds)) needed
                             in if missing = [] then None
                                else Some (''Data set '' @ dquote @ ds_name ds @ dquote @ '' is missing fields used by the plan: '' @
                                       join_names missing @ ''.''))) of
                Some e \<Rightarrow> (Inl (ValidationError e), s)
              | None \<Rightarrow>
                  (case createPlan_row now apiId nm cfg (actor_userId actor) s of
                     (p, s1) \<Rightarrow>
                       (Inr p, runs_audit actor ''load_test.plan.created'' ''load_test_plan'' (lp_id p)
                          (Some (show_profile (profile cfg) @ '' '' @ show_method (plan_method cfg) @ '' '' @
                             (case path cfg of Some x \<Rightarrow> x | None \<Rightarrow> []) @ '' on '' @ api_name t)) s1)))))"

definition preflight_of :: "plan_config \<Rightarrow> monitored_api \<Rightarrow> preflight_plan" where
  "preflight_of cfg t = \<lparr>p_rps = of_int (effectiveRps cfg), p_vus = of_int (maxVus cfg), p_durationSeconds = of_int (plan_durationSeconds cfg),
     p_mutating = (isStateChanging cfg \<or> isMoneyMoving t), p_realSideEffects = realSideEffects cfg\<rparr>"

definition queueRun ::
    "(string \<Rightarrow> string option) \<Rightarrow> load_env \<Rightarrow> timestamp \<Rightarrow> row_id \<Rightarrow> audit_actor \<Rightarrow> runs_state \<Rightarrow> (app_error + load_run) \<times> runs_state" where
  "queueRun urlHost e now planId actor s =
     (case getPlan planId s of
        None \<Rightarrow> (Inl (NotFoundError ''Plan not found''), s)
      | Some plan \<Rightarrow>
     (case findTargetById (lp_apiId plan) (runs_db s) of
        None \<Rightarrow> (Inl (NotFoundError ''Target not found''), s)
      | Some t \<Rightarrow>
     (case PlanConfigSchema (to_input (lp_config plan)) of
        None \<Rightarrow> (Inl (ZodError ''config''), s)
      | Some cfg \<Rightarrow>
     (case runPreflight urlHost e now (lp_apiId plan) (preflight_of cfg t) (safety s) of
        Inl err \<Rightarrow> (Inl err, s)
      | Inr dec \<Rightarrow>
          if \<not> allowed dec then (Inl (ValidationError ''Run refused by the load-test safety gate''), s)
          else (case createRun now plan
                       \<lparr>snap_config = cfg, snap_name = api_name t, snap_url = api_url t, snap_isMoneyMoving = isMoneyMoving t,
                        snap_environment = api_environment t, snap_peakRps = peakRps cfg\<rparr>
                       (effectiveClass dec) (actor_userId actor) s of
                  (r, s1) \<Rightarrow>
                    (Inr r, runs_audit actor ''load_test.run.queued'' ''load_test_run'' (lr_id r)
                       (Some (show_profile (profile cfg) @ '' peak '' @ show_int (effectiveRps cfg) @ '' effects/s for '' @
                          show_int (plan_durationSeconds cfg) @ ''s on '' @ api_name t)) s1))))))"

definition abortRun :: "timestamp \<Rightarrow> row_id \<Rightarrow> string \<Rightarrow> audit_actor \<Rightarrow> runs_state \<Rightarrow> (app_error + load_run) \<times> runs_state" where
  "abortRun now k rsn actor s =
     (case requestAbort now k rsn s of
        (None, s1) \<Rightarrow> (Inl (ConflictError ''Run not found or already finished.''), s1)
      | (Some r, s1) \<Rightarrow> (Inr r, runs_audit actor ''load_test.run.abort_requested'' ''load_test_run'' k (Some rsn) s1))"

section \<open>Execution\<close>

definition controlReason :: "timestamp \<Rightarrow> load_run \<Rightarrow> runs_state \<Rightarrow> string option \<times> runs_state" where
  "controlReason now run s =
     (case run_heartbeat now (lr_id run) s of
        ((abort, abortReason), s1) \<Rightarrow>
          if abort then (Some (''abort requested: '' @ (case abortReason of Some r \<Rightarrow> r | None \<Rightarrow> ''no reason given'')), s1)
          else let kill = getKillSwitch now (safety s1)
          in if ks_engaged kill then (Some (trim (''kill switch engaged: '' @ (case ks_reason kill of Some r \<Rightarrow> r | None \<Rightarrow> []))), s1)
          else if lr_effectiveClass run \<noteq> Some MOCK
          then (case findRelevantAuthorization (lr_apiId run) now (safety s1) of
                  None \<Rightarrow> (Some ''authorization is no longer approved'', s1)
                | Some a \<Rightarrow>
                    if la_status a \<noteq> APPROVED then (Some ''authorization is no longer approved'', s1)
                    else if la_windowEnd a \<le> now then (Some ''authorization window ended'', s1) else (None, s1))
          else (None, s1))"

text \<open>\<open>toFixed(1)\<close> of a share that is not negative, as a percentage.\<close>

definition pct1 :: "rat \<Rightarrow> string" where
  "pct1 n = (let k = nat \<lfloor>fl (n * 100) * 10 + 1 / 2\<rfloor> in show_nat (k div 10) @ ''.'' @ show_nat (k mod 10) @ ''%'')"

fun guardrail_message :: "guardrail_options \<Rightarrow> guardrail_result \<Rightarrow> guardrail_kind \<Rightarrow> string" where
  "guardrail_message o1 g Auth_refused =
     pct1 (refusalRate g) @ '' of '' @ show_nat (g_total g) @ '' requests were refused with 401/403 (bad or expired key, or a limit/suspension)''"
| "guardrail_message o1 g Rate_limited =
     pct1 (rateLimitedRate g) @ '' of '' @ show_nat (g_total g) @ '' requests were rate limited (429)''"
| "guardrail_message o1 g Server_failures =
     ''server failure rate '' @ pct1 (errorRate g) @ '' over '' @ show_nat (g_total g) @ '' requests in '' @ show_int (windowSeconds o1) @
     ''s exceeded '' @ pct1 (maxErrorRate o1)"

datatype run_op = Admin audit_actor load_op | Abort string

fun run_op_step :: "(string \<Rightarrow> string option) \<Rightarrow> load_env \<Rightarrow> row_id \<Rightarrow> timestamp \<Rightarrow> run_op \<Rightarrow> runs_state \<Rightarrow> runs_state" where
  "run_op_step uh e k now (Admin act lo) s = s\<lparr>safety := load_step uh e (now, act, lo) (safety s)\<rparr>"
| "run_op_step uh e k now (Abort rsn) s = snd (requestAbort now k rsn s)"

text \<open>One second of a run: the clock, the samples k6 wrote since the second before, and what operators
  did meanwhile.\<close>

record tick_obs =
  ob_now :: timestamp
  ob_lines :: "k6_sample option list"
  ob_ops :: "run_op list"

definition feed_all :: "js_math \<Rightarrow> k6_sample option list \<Rightarrow> aggregator \<Rightarrow> aggregator" where
  "feed_all M = fold (\<lambda>p a. snd (feed M p a))"

definition tick_stop ::
    "guardrail_options \<Rightarrow> timestamp \<Rightarrow> load_run \<Rightarrow> nat \<Rightarrow> timestamp \<Rightarrow> aggregator \<Rightarrow> runs_state \<Rightarrow>
     string option \<times> (guardrail_kind \<times> string) option \<times> aggregator \<times> runs_state" where
  "tick_stop o1 deadline run tk now a s =
     (let (g, a1) = guardrail now o1 a;
          (stop, trip, s1) =
            (case (breach g, kind g) of
               (True, Some k) \<Rightarrow> (None, Some (k, guardrail_message o1 g k), s)
             | _ \<Rightarrow> if even tk then (case controlReason now run s of (st, s1) \<Rightarrow> (st, None, s1)) else (None, None, s))
      in if stop = None \<and> trip = None \<and> deadline < now then (Some ''hard deadline exceeded'', None, a1, s1)
         else (stop, trip, a1, s1))"

fun exec_loop ::
    "js_math \<Rightarrow> (string \<Rightarrow> string option) \<Rightarrow> load_env \<Rightarrow> guardrail_options \<Rightarrow> timestamp \<Rightarrow> load_run \<Rightarrow> nat \<Rightarrow> tick_obs list \<Rightarrow>
     string option \<Rightarrow> (guardrail_kind \<times> string) option \<Rightarrow> aggregator \<Rightarrow> runs_state \<Rightarrow>
     string option \<times> (guardrail_kind \<times> string) option \<times> aggregator \<times> runs_state" where
  "exec_loop M uh e o1 deadline run tk [] stop trip a s = (stop, trip, a, s)"
| "exec_loop M uh e o1 deadline run tk (ob # obs) stop trip a s =
     (let s0 = fold (run_op_step uh e (lr_id run) (ob_now ob)) (ob_ops ob) s;
          a0 = feed_all M (ob_lines ob) a;
          (stop', trip', a1, s1) =
            (if stop = None \<and> trip = None then tick_stop o1 deadline run tk (ob_now ob) a0 s0 else (stop, trip, a0, s0));
          (rows, a2) = (if tk mod 5 = 0 then drain M (Some (ob_now ob - BUCKET_MS)) a1 else ([], a1))
      in exec_loop M uh e o1 deadline run (Suc tk) obs stop' trip' a2 (insertMetrics (lr_id run) rows s1))"

record k6_result =
  exitCode :: "int option"
  stderrTail :: string

definition show_exit :: "int option \<Rightarrow> string" where
  "show_exit c = (case c of Some n \<Rightarrow> show_int n | None \<Rightarrow> ''null'')"

text \<open>The terminal status and reason of a run.\<close>

definition terminal_of ::
    "plan_config \<Rightarrow> string option \<Rightarrow> (guardrail_kind \<times> string) option \<Rightarrow> k6_result \<Rightarrow> load_run_status \<times> string \<times> string option" where
  "terminal_of cfg stop trip res =
     (case stop of
        Some r \<Rightarrow> (RUN_ABORTED, r, None)
      | None \<Rightarrow>
          (case trip of
             Some (k, msg) \<Rightarrow>
               if (profile cfg = BREAKPOINT \<or> profile cfg = STRESS) \<and> k \<noteq> Auth_refused
               then (RUN_COMPLETED, ''limit reached: '' @ msg, None)
               else (RUN_ABORTED, ''guardrail: '' @ msg, None)
           | None \<Rightarrow>
               if exitCode res = Some 0 then (RUN_COMPLETED, ''completed'', None)
               else (RUN_RUN_FAILED, ''k6 exited with code '' @ show_exit (exitCode res), Some (stderrTail res))))"

fun violation_code :: "safety_violation \<Rightarrow> string" where
  "violation_code LOAD_TESTING_DISABLED = ''LOAD_TESTING_DISABLED''"
| "violation_code KILL_SWITCH = ''KILL_SWITCH''"
| "violation_code NO_CONFIG = ''NO_CONFIG''"
| "violation_code (CLASS_DOWNGRADE _) = ''CLASS_DOWNGRADE''"
| "violation_code BAD_URL = ''BAD_URL''"
| "violation_code (HOST_IS_PRODUCTION _ _) = ''HOST_IS_PRODUCTION''"
| "violation_code (HOST_NOT_MOCK _) = ''HOST_NOT_MOCK''"
| "violation_code (HOST_NOT_ALLOWLISTED _) = ''HOST_NOT_ALLOWLISTED''"
| "violation_code (HOST_UNKNOWN _) = ''HOST_UNKNOWN''"
| "violation_code PRODUCTION_STATE_CHANGING = ''PRODUCTION_STATE_CHANGING''"
| "violation_code (CEILING_RPS _ _ _) = ''CEILING_RPS''"
| "violation_code (CEILING_VUS _ _ _) = ''CEILING_VUS''"
| "violation_code (CEILING_DURATION _ _ _) = ''CEILING_DURATION''"
| "violation_code AUTH_REQUIRED = ''AUTH_REQUIRED''"
| "violation_code (AUTH_NOT_APPROVED _) = ''AUTH_NOT_APPROVED''"
| "violation_code AUTH_OUTSIDE_WINDOW = ''AUTH_OUTSIDE_WINDOW''"
| "violation_code (AUTH_CAP_RPS _) = ''AUTH_CAP_RPS''"
| "violation_code (AUTH_CAP_VUS _) = ''AUTH_CAP_VUS''"
| "violation_code (AUTH_CAP_DURATION _) = ''AUTH_CAP_DURATION''"
| "violation_code REAL_SIDE_EFFECTS = ''REAL_SIDE_EFFECTS''"
| "violation_code (REAL_SIDE_EFFECTS_RPS _) = ''REAL_SIDE_EFFECTS_RPS''"

text \<open>What the world does during an execution: k6's version, the credentials' setup and the files
  of the script, each of which may fail with an error's message; then the seconds of the run, and what
  k6 wrote after the last of them.\<close>

record exec_world =
  w_start :: timestamp
  w_version :: "string + string"
  w_auth :: "string + unit"
  w_files :: "string + unit"
  w_ticks :: "tick_obs list"
  w_rest :: "k6_sample option list"
  w_end :: timestamp
  w_result :: k6_result

datatype exec_outcome = Refused "safety_violation list" | Runner_error string | Ran

definition system_actor :: "string \<Rightarrow> audit_actor" where
  "system_actor workerId = \<lparr>actor_userId = None, actor_label = Some (''system:loadtest-worker:'' @ workerId)\<rparr>"

text \<open>The \<open>catch\<close> of an execution that failed before k6 was started: nothing has been aggregated.\<close>

definition runner_error :: "js_math \<Rightarrow> timestamp \<Rightarrow> load_run \<Rightarrow> string \<Rightarrow> runs_state \<Rightarrow> runs_state" where
  "runner_error M now run msg s =
     (case drain M None initial_aggregator of
        (rows, a) \<Rightarrow> finishRun now (lr_id run) RUN_RUN_FAILED ''runner error'' (Some (summary M a)) (Some msg)
                       (insertMetrics (lr_id run) rows s))"

definition prepare :: "plan_config \<Rightarrow> exec_world \<Rightarrow> runs_state \<Rightarrow> string + string" where
  "prepare cfg w s =
     (case w_version w of
        Inl msg \<Rightarrow> Inl msg
      | Inr version \<Rightarrow>
     (case w_auth w of
        Inl msg \<Rightarrow> Inl msg
      | Inr _ \<Rightarrow>
          if \<exists>k. dataSetId cfg = Some k \<and> getDataSet k s = None then Inl ''The plan's data set no longer exists.''
          else (case w_files w of Inl msg \<Rightarrow> Inl msg | Inr _ \<Rightarrow> Inr version)))"

definition run_k6 ::
    "js_math \<Rightarrow> (string \<Rightarrow> string option) \<Rightarrow> load_env \<Rightarrow> guardrail_options \<Rightarrow> string \<Rightarrow> plan_config \<Rightarrow> load_run \<Rightarrow> safety_decision \<Rightarrow>
     string \<Rightarrow> exec_world \<Rightarrow> runs_state \<Rightarrow> row_id \<times> runs_state" where
  "run_k6 M uh e o1 workerId cfg run dec version w s =
     (let now = w_start w;
          (win, d1) = createMaintenanceWindow_row now (Some (lr_apiId run)) now (now + (plan_durationSeconds cfg + 180) * 1000)
             (''Load test run '' @ show_nat (lr_id run)) (Some (show_nat (lr_id run))) (lr_requestedBy run) (runs_db s);
          s1 = markRunning now (lr_id run) version (Some (mw_id win)) (upd_db (\<lambda>_. d1) s);
          s2 = runs_audit (system_actor workerId) ''load_test.run.started'' ''load_test_run'' (lr_id run)
             (Some (show_profile (profile cfg) @ '' on '' @ snap_name (lr_snapshot run) @ '' ('' @
                (case effectiveClass dec of Some c \<Rightarrow> show_load_class c | None \<Rightarrow> ''null'') @ '')'')) s1;
          (stop, trip, a, s3) = exec_loop M uh e o1 (now + (plan_durationSeconds cfg + 90) * 1000) run 1 (w_ticks w) None None
             initial_aggregator s2;
          (rows, a') = drain M None (feed_all M (w_rest w) a);
          (st, rsn, err) = terminal_of cfg stop trip (w_result w)
      in (mw_id win, finishRun (w_end w) (lr_id run) st rsn (Some (summary M a')) err (insertMetrics (lr_id run) rows s3)))"

definition executeRun ::
    "js_math \<Rightarrow> (string \<Rightarrow> string option) \<Rightarrow> load_env \<Rightarrow> guardrail_options \<Rightarrow> string \<Rightarrow> load_run \<Rightarrow> exec_world \<Rightarrow> runs_state \<Rightarrow>
     (app_error + exec_outcome) \<times> runs_state" where
  "executeRun M uh e o1 workerId run w s =
     (case PlanConfigSchema (to_input (snap_config (lr_snapshot run))) of
        None \<Rightarrow> (Inl (ZodError ''config''), s)
      | Some cfg \<Rightarrow>
          (let finally = runs_audit (system_actor workerId) ''load_test.run.finished'' ''load_test_run'' (lr_id run) None;
               fail = (\<lambda>msg. (Inr (Runner_error msg), finally (runner_error M (w_start w) run msg s)))
           in case findTargetById (lr_apiId run) (runs_db s) of
                None \<Rightarrow> fail ''Target no longer exists.''
              | Some t \<Rightarrow>
                  (case runPreflight uh e (w_start w) (lr_apiId run) (preflight_of cfg t) (safety s) of
                     Inl err \<Rightarrow> fail (app_error_message err)
                   | Inr dec \<Rightarrow>
                       if \<not> allowed dec
                       then (Inr (Refused (violations dec)), finally (finishRun (w_start w) (lr_id run) RUN_ABORTED
                               (''safety gate: '' @ join_names (map violation_code (violations dec))) None None s))
                       else (case prepare cfg w s of
                               Inl msg \<Rightarrow> fail msg
                             | Inr version \<Rightarrow>
                                 (case run_k6 M uh e o1 workerId cfg run dec version w s of
                                    (winId, s') \<Rightarrow> (Inr Ran, finally (upd_db (\<lambda>d. snd (deleteMaintenanceWindow_row winId d)) s')))))))"

section \<open>Stored plans are read back unchanged\<close>

lemma int_within_exact: "int_within lo hi x \<Longrightarrow> of_int \<lfloor>x\<rfloor> = x"
  by (simp add: int_within_def)

lemma map_floor_exact: "list_all (int_within lo hi) xs \<Longrightarrow> map (of_int \<circ> floor) xs = xs"
  by (induction xs) (simp_all add: int_within_def)

lemma plan_reread:
  assumes "PlanConfigSchema i = Some cfg"
  shows "PlanConfigSchema (to_input cfg) = Some cfg"
proof -
  from assms have ok: "input_ok i" and cfg: "cfg = with_defaults i" by (simp_all add: schema_Some)
  from ok have c: "headers_ok (opt_default [] (in_headers i))" "opt_all path_ok (in_path i)"
    "opt_all (int_within 1 100) (in_fanout i)" "opt_all slo_ok (in_slo i)" "opt_all (\<lambda>s. js_length s \<le> 100) (in_packId i)"
    "opt_all (opt_all (\<lambda>s. 1 \<le> js_length s \<and> js_length s \<le> 100)) (in_idempotencyHeader i)"
    "0 < in_targetRps i \<and> in_targetRps i \<le> 100000" "int_within 10 86400 (in_durationSeconds i)" "int_within 1 100000 (in_maxVus i)"
    "opt_all (int_within 1 100000) (in_preAllocatedVus i)" "opt_all (\<lambda>x. 2 \<le> x \<and> x \<le> 50) (in_spikeMultiplier i)"
    "opt_all (\<lambda>xs. list_all (int_within 100 599) xs \<and> xs \<noteq> []) (in_expectedStatuses i)"
    "opt_all (int_within 100 120000) (in_timeoutMs i)" "of_int (MIN_DURATION_SECONDS (in_profile i)) \<le> in_durationSeconds i"
    "opt_default 1 (in_preAllocatedVus i) \<le> in_maxVus i"
    unfolding input_ok_def by blast+
  have fo: "int_within 1 100 (opt_default 1 (in_fanout i))" by (rule opt_default_all [OF c(3)]) (simp add: int_within_def)
  have tm: "int_within 100 120000 (opt_default 30000 (in_timeoutMs i))" by (rule opt_default_all [OF c(13)]) (simp add: int_within_def)
  have sp: "2 \<le> opt_default 10 (in_spikeMultiplier i) \<and> opt_default 10 (in_spikeMultiplier i) \<le> 50"
    by (rule opt_default_all [OF c(11)]) simp
  have es: "list_all (int_within 100 599) (opt_default [200, 201, 202, 204] (in_expectedStatuses i)) \<and>
      opt_default [200, 201, 202, 204] (in_expectedStatuses i) \<noteq> []"
    by (rule opt_default_all [OF c(12)]) (simp add: int_within_def)
  have ih: "opt_all (\<lambda>s. 1 \<le> js_length s \<and> js_length s \<le> 100) (opt_default (Some ''Idempotency-Key'') (in_idempotencyHeader i))"
    by (rule opt_default_all [OF c(6)]) (simp add: opt_all_def js_length_def)
  have pre: "map_option (of_int \<circ> floor) (in_preAllocatedVus i) = in_preAllocatedVus i"
    using c(10) by (cases "in_preAllocatedVus i") (simp_all add: opt_all_def int_within_exact)
  have inp: "to_input cfg = \<lparr>in_profile = in_profile i, in_method = Some (opt_default GET (in_method i)),
      in_headers = Some (opt_default [] (in_headers i)), in_path = in_path i, in_body = in_body i, in_dataSetId = in_dataSetId i,
      in_dataSelection = Some (opt_default Sequential (in_dataSelection i)), in_moneyMoving = Some (opt_default False (in_moneyMoving i)),
      in_realSideEffects = Some (opt_default False (in_realSideEffects i)), in_fanout = Some (opt_default 1 (in_fanout i)),
      in_slo = in_slo i, in_packId = in_packId i,
      in_idempotencyHeader = Some (opt_default (Some ''Idempotency-Key'') (in_idempotencyHeader i)), in_targetRps = in_targetRps i,
      in_durationSeconds = in_durationSeconds i, in_maxVus = in_maxVus i, in_preAllocatedVus = in_preAllocatedVus i,
      in_spikeMultiplier = Some (opt_default 10 (in_spikeMultiplier i)),
      in_expectedStatuses = Some (opt_default [200, 201, 202, 204] (in_expectedStatuses i)),
      in_timeoutMs = Some (opt_default 30000 (in_timeoutMs i))\<rparr>"
    using int_within_exact [OF fo] int_within_exact [OF tm] int_within_exact [OF c(8)] int_within_exact [OF c(9)] pre
      map_floor_exact [of 100 599 "opt_default [200, 201, 202, 204] (in_expectedStatuses i)"] es
    by (simp add: to_input_def cfg with_defaults_def option.map_comp)
  have "input_ok (to_input cfg)"
    using c fo tm sp es ih unfolding input_ok_def inp by (simp add: opt_default_def opt_all_def)
  moreover have "with_defaults (to_input cfg) = with_defaults i"
    unfolding inp by (simp add: with_defaults_def opt_default_def)
  ultimately show ?thesis by (simp add: schema_Some cfg [symmetric])
qed

text \<open>A stored plan is read back as the plan that was accepted: the schema applied to its own
  result, every default now written out, gives the same plan again, so the plan judged when a
  run is queued, the plan judged when it is executed and the plan an operator saw are one.\<close>

theorem plan_round_trip: "PlanConfigSchema i = Some cfg \<Longrightarrow> PlanConfigSchema (to_input cfg) = Some cfg"
  by (rule plan_reread)

theorem plan_round_trip_witness: "PlanConfigSchema (to_input sample_plan) = Some sample_plan"
  using plan_round_trip [OF sample_plan_accepted] .

section \<open>Guardrail stops and verdicts\<close>

lemma skip_digits_show: "\<not> is_digit c \<Longrightarrow> skip_digits (show_nat n @ c # r) = Some (c # r)"
proof -
  assume c: "\<not> is_digit c"
  have d: "\<And>x. x \<in> set (show_nat n) \<Longrightarrow> is_digit x" by (rule show_nat_digits)
  have "hd (show_nat n @ c # r) \<in> set (show_nat n)" by (cases "show_nat n") auto
  then have "is_digit (hd (show_nat n @ c # r))" by (rule d)
  moreover have "dropWhile is_digit (show_nat n @ c # r) = dropWhile is_digit (c # r)"
    using d by (rule dropWhile_append2)
  ultimately show ?thesis using c by (simp add: skip_digits_def)
qed

lemma drop_prefix_append [simp]: "drop_prefix p (p @ r) = Some r"
  by (simp add: drop_prefix_def)

lemma not_digit_punct: "\<not> is_digit (CHR ''.'')" "\<not> is_digit (CHR ''%'')" "\<not> is_digit (CHR '' '')"
  by (simp_all add: is_digit_def)

lemma skip_number_pct1: "skip_number (pct1 x @ r) = Some (CHR ''%'' # r)"
  using skip_digits_show [OF not_digit_punct(1)] skip_digits_show [OF not_digit_punct(2)]
  by (simp add: skip_number_def pct1_def Let_def)

lemma pct1_no_server: "drop_prefix ''server failure rate'' (pct1 x @ r) = None"
proof -
  obtain c cs where c: "pct1 x @ r = c # cs" "is_digit c"
    using show_nat_digits [of "hd (show_nat n)" n for n]
    by (metis (no_types, lifting) append_is_Nil_conv hd_append2 hd_in_set list.collapse pct1_def show_nat_nonempty)
  then have "c \<noteq> CHR ''s''" by (auto simp: is_digit_def)
  then show ?thesis using c(1) by (simp add: drop_prefix_def)
qed

lemma guardrailFail_message: "guardrailFail (''guardrail: '' @ guardrail_message o1 g k) \<longleftrightarrow> k \<noteq> Auth_refused"
proof (cases k)
  case Server_failures
  then show ?thesis by (simp add: guardrailFail_def drop_prefix_def)
next
  case Auth_refused
  have "skip_digits (show_nat (g_total g) @ '' requests were refused with 401/403 (bad or expired key, or a limit/suspension)'') =
      Some '' requests were refused with 401/403 (bad or expired key, or a limit/suspension)''"
    using skip_digits_show [OF not_digit_punct(3)] by simp
  then show ?thesis using Auth_refused pct1_no_server [of "refusalRate g"]
    by (simp add: guardrailFail_def skip_number_pct1 del: append.simps) (simp add: drop_prefix_def)
next
  case Rate_limited
  have "skip_digits (show_nat (g_total g) @ '' requests were rate limited (429)'') = Some '' requests were rate limited (429)''"
    using skip_digits_show [OF not_digit_punct(3)] by simp
  then show ?thesis using Rate_limited
    by (simp add: guardrailFail_def skip_number_pct1 del: append.simps) (simp add: drop_prefix_def)
qed

text \<open>The verdict reads the reason the runner wrote: a run the guardrail stopped because the service
  failed or throttled counts against the service, one stopped because the credentials were refused
  counts for nothing, whatever the numbers in the message.\<close>

theorem guardrail_stop_verdict:
  assumes "terminal_of cfg None (Some (k, guardrail_message o1 g k)) res = (RUN_ABORTED, rsn, err)"
  shows "verdict (evaluateRunSlo cfg (Some n) RUN_ABORTED (Some rsn)) = (if k = Auth_refused then V_INCONCLUSIVE else V_FAIL)"
proof -
  have "rsn = ''guardrail: '' @ guardrail_message o1 g k" using assms by (auto simp: terminal_of_def split: if_splits)
  then show ?thesis by (simp add: evaluateRunSlo_def guardrailFail_message del: guardrail_message.simps append.simps)
qed

section \<open>An execution cleans up after itself\<close>

lemma runs_frame [simp]:
  "runs_db (upd_runs p f s) = runs_db s" "safety (upd_runs p f s) = safety s" "load_test_metrics (upd_runs p f s) = load_test_metrics s"
  "load_test_runs (upd_db h s) = load_test_runs s" "runs_db (upd_db h s) = h (runs_db s)" "load_test_metrics (upd_db h s) = load_test_metrics s"
  "load_test_runs (runs_audit act ac ty k sm s) = load_test_runs s" "load_test_metrics (runs_audit act ac ty k sm s) = load_test_metrics s"
  by (simp_all add: upd_runs_def upd_db_def runs_audit_def)

lemma insertMetrics_frame [simp]:
  "safety (insertMetrics k rows s) = safety s" "load_test_runs (insertMetrics k rows s) = load_test_runs s"
  by (induction k rows s rule: insertMetrics.induct) auto

lemma audit_windows [simp]: "maintenance_windows (recordAudit act a et k sm d) = maintenance_windows d"
  by (simp add: recordAudit_def)

lemma load_repo_main:
  "reviewAuthorization now k st u n l = (r, l') \<Longrightarrow> main l' = main l"
  "revokeAuthorization now k rsn l = (r', l') \<Longrightarrow> main l' = main l"
  "upsertTargetConfig now t c b uo l = (r'', l') \<Longrightarrow> main l' = main l"
  "createAuthorization now na u l = (r3, l') \<Longrightarrow> maintenance_windows (main l') = maintenance_windows (main l)"
  by (auto simp: reviewAuthorization_def revokeAuthorization_def update_authorization_def upsertTargetConfig_def
      createAuthorization_def Let_def split: if_splits option.splits)

lemma audit_main_windows [simp]: "maintenance_windows (main (audit act a et k sm l)) = maintenance_windows (main l)"
  by (simp add: audit_def)

lemma load_step_windows: "maintenance_windows (main (load_step uh e x l)) = maintenance_windows (main l)"
proof (cases "(uh, e, x, l)" rule: load_step.cases)
  case (3 uh' e' now act k ap rnote l')
  then show ?thesis
    by (auto simp: reviewProposal_def dest!: load_repo_main(1) split: option.splits sum.splits prod.splits)
next
  case (4 uh' e' now act k rsn l')
  then show ?thesis by (auto simp: revoke_def dest!: load_repo_main(2) split: option.splits prod.splits)
qed (auto simp: setTargetConfig_def proposeAuthorization_def engageKillSwitch_def setKillSwitch_def Let_def
      dest!: load_repo_main(3,4) split: option.splits sum.splits prod.splits)

text \<open>What the steps of a running load test keep: the windows, and every other run.\<close>

definition others :: "row_id \<Rightarrow> runs_state \<Rightarrow> load_run list" where
  "others k s = filter (\<lambda>r. lr_id r \<noteq> k) (load_test_runs s)"

definition same_around :: "row_id \<Rightarrow> runs_state \<Rightarrow> runs_state \<Rightarrow> bool" where
  "same_around k s s' \<longleftrightarrow> maintenance_windows (runs_db s') = maintenance_windows (runs_db s) \<and> others k s' = others k s"

lemma same_around_refl [simp]: "same_around k s s"
  by (simp add: same_around_def)

lemma same_around_trans: "same_around k s t \<Longrightarrow> same_around k t u \<Longrightarrow> same_around k s u"
  by (simp add: same_around_def)

lemma others_upd_runs:
  "(\<And>r. p r \<Longrightarrow> lr_id r = k \<and> lr_id (f r) = k) \<Longrightarrow> others k (upd_runs p f s) = others k s"
  unfolding others_def upd_runs_def by (simp add: filter_upd_where_frame)

lemma run_op_step_around: "same_around k s (run_op_step uh e k now op s)"
proof (cases op)
  case (Admin act lo)
  then show ?thesis by (simp add: same_around_def load_step_windows others_def)
next
  case (Abort rsn)
  then show ?thesis by (auto simp: same_around_def requestAbort_def Let_def intro!: others_upd_runs)
qed

lemma run_ops_around: "same_around k s (fold (run_op_step uh e k now) ops s)"
  by (induction ops arbitrary: s) (auto intro: same_around_trans run_op_step_around)

lemma insertMetrics_around [simp]: "same_around k s (insertMetrics j rows s)"
  by (simp add: same_around_def others_def)

lemma controlReason_around: "same_around (lr_id run) s (snd (controlReason now run s))"
proof -
  have "snd (controlReason now run s) = snd (run_heartbeat now (lr_id run) s)"
    by (auto simp: controlReason_def Let_def split: prod.splits option.splits)
  then show ?thesis by (auto simp: same_around_def run_heartbeat_def intro!: others_upd_runs)
qed

lemma tick_stop_around: "tick_stop o1 dl run tk now a s = (st, tr, a', s') \<Longrightarrow> same_around (lr_id run) s s'"
  using controlReason_around [of run s now]
  by (auto simp: tick_stop_def Let_def split: prod.splits if_splits option.splits bool.splits)

lemma exec_loop_around:
  "exec_loop M uh e o1 dl run tk obs st tr a s = (st', tr', a', s') \<Longrightarrow> same_around (lr_id run) s s'"
proof (induction obs arbitrary: tk st tr a s)
  case (Cons ob obs)
  let ?s0 = "fold (run_op_step uh e (lr_id run) (ob_now ob)) (ob_ops ob) s"
  obtain st1 tr1 a1 s1 where t: "(if st = None \<and> tr = None
      then tick_stop o1 dl run tk (ob_now ob) (feed_all M (ob_lines ob) a) ?s0 else (st, tr, feed_all M (ob_lines ob) a, ?s0)) = (st1, tr1, a1, s1)"
    by (metis prod_cases4)
  then have "same_around (lr_id run) ?s0 s1" by (auto split: if_splits dest: tick_stop_around)
  then have s1: "same_around (lr_id run) s s1" by (rule same_around_trans [OF run_ops_around])
  from Cons.prems t obtain a2 rows where
    "exec_loop M uh e o1 dl run (Suc tk) obs st1 tr1 a2 (insertMetrics (lr_id run) rows s1) = (st', tr', a', s')"
    by (auto simp: Let_def split: prod.splits if_splits)
  from Cons.IH [OF this] show ?case using s1 by (blast intro: same_around_trans insertMetrics_around)
qed simp

definition terminal :: "load_run_status \<Rightarrow> bool" where
  "terminal st \<longleftrightarrow> st \<in> {RUN_COMPLETED, RUN_ABORTED, RUN_RUN_FAILED}"

lemma upd_runs_status:
  assumes "r \<in> set (load_test_runs (upd_runs p f s))" and "p r" and "\<And>x. p x \<Longrightarrow> P (f x)" and "\<And>x. p (if p x then f x else x) \<Longrightarrow> p x"
  shows "P r"
proof -
  from assms(1) obtain x where x: "x \<in> set (load_test_runs s)" "r = (if p x then f x else x)"
    by (auto simp: upd_runs_def set_upd_where)
  with assms(2,4) have "p x" by blast
  with x(2) assms(3) show ?thesis by simp
qed

lemma finishRun_rows:
  "r \<in> set (load_test_runs (finishRun now k st rsn sm err s)) \<Longrightarrow> lr_id r = k \<Longrightarrow> lr_status r = st \<and> lr_finishedAt r = Some now"
  unfolding finishRun_def by (erule upd_runs_status [where p = "\<lambda>x. lr_id x = k"]) (simp_all split: if_splits)

lemma finishRun_around: "same_around k s (finishRun now k st rsn sm err s)"
  by (auto simp: same_around_def finishRun_def intro!: others_upd_runs)

lemma terminal_of_terminal: "terminal_of cfg stop trip res = (st, rsn, err) \<Longrightarrow> terminal st"
  by (auto simp: terminal_of_def terminal_def split: option.splits if_splits)

lemma windows_upd_db: "runs_db (runs_audit act ac ty k sm s) = recordAudit act ac ty (Some (Row k)) sm (runs_db s)"
  by (simp add: runs_audit_def)

lemma runs_audit_around [simp]: "same_around k s (runs_audit act ac ty j sm s)"
  by (simp add: same_around_def others_def windows_upd_db)

definition ended :: "row_id \<Rightarrow> runs_state \<Rightarrow> bool" where
  "ended k s \<longleftrightarrow> (\<forall>r \<in> set (load_test_runs s). lr_id r = k \<longrightarrow> terminal (lr_status r))"

lemma ended_finishRun: "terminal st \<Longrightarrow> ended k (finishRun now k st rsn sm err s)"
  unfolding ended_def by (auto dest: finishRun_rows)

lemma ended_frame [simp]: "ended k (runs_audit act ac ty j sm s) = ended k s" "ended k (upd_db h s) = ended k s"
  by (simp_all add: ended_def)

lemma terminal_simps [simp]: "terminal RUN_ABORTED" "terminal RUN_RUN_FAILED" "terminal RUN_COMPLETED"
  by (simp_all add: terminal_def)

lemma runner_error_clean: "ended (lr_id run) (runner_error M now run msg s) \<and> same_around (lr_id run) s (runner_error M now run msg s)"
  by (auto simp: runner_error_def split_beta intro: ended_finishRun same_around_trans [OF insertMetrics_around finishRun_around])

lemma run_k6_clean:
  assumes "run_k6 M uh e o1 wid cfg run dec v w s = (k, s')"
  shows "k = next_id (runs_db s) \<and> ended (lr_id run) s' \<and> others (lr_id run) s' = others (lr_id run) s \<and>
    (\<exists>m. mw_id m = k \<and> maintenance_windows (runs_db s') = maintenance_windows (runs_db s) @ [m])"
proof -
  obtain win d1 where cw: "createMaintenanceWindow_row (w_start w) (Some (lr_apiId run)) (w_start w)
      (w_start w + (plan_durationSeconds cfg + 180) * 1000) (''Load test run '' @ show_nat (lr_id run)) (Some (show_nat (lr_id run)))
      (lr_requestedBy run) (runs_db s) = (win, d1)" by (metis surj_pair)
  then have win: "mw_id win = next_id (runs_db s)" "maintenance_windows d1 = maintenance_windows (runs_db s) @ [win]"
    by (auto simp: createMaintenanceWindow_row_def Let_def)
  define s1 where "s1 = markRunning (w_start w) (lr_id run) v (Some (mw_id win)) (upd_db (\<lambda>_. d1) s)"
  define s2 where "s2 = runs_audit (system_actor wid) ''load_test.run.started'' ''load_test_run'' (lr_id run)
    (Some (show_profile (profile cfg) @ '' on '' @ snap_name (lr_snapshot run) @ '' ('' @
       (case effectiveClass dec of Some c \<Rightarrow> show_load_class c | None \<Rightarrow> ''null'') @ '')'')) s1"
  obtain stop trip a s3 where loop: "exec_loop M uh e o1 (w_start w + (plan_durationSeconds cfg + 90) * 1000) run 1 (w_ticks w) None None
      initial_aggregator s2 = (stop, trip, a, s3)" by (metis prod_cases4)
  obtain st rsn err where t: "terminal_of cfg stop trip (w_result w) = (st, rsn, err)" by (metis prod_cases3)
  have res: "k = mw_id win" "s' = finishRun (w_end w) (lr_id run) st rsn (Some (summary M (snd (drain M None (feed_all M (w_rest w) a))))) err
      (insertMetrics (lr_id run) (fst (drain M None (feed_all M (w_rest w) a))) s3)"
    using assms unfolding run_k6_def Let_def cw prod.case s1_def [symmetric] s2_def [symmetric] loop
    by (simp_all only: prod.case split_beta [of _ "drain M b x" for b x] t prod.inject)
  have s1: "others (lr_id run) s1 = others (lr_id run) s" "maintenance_windows (runs_db s1) = maintenance_windows (runs_db s) @ [win]"
    by (simp_all add: s1_def markRunning_def others_upd_runs win) (simp add: others_def)
  have "same_around (lr_id run) s1 s'"
    unfolding res(2) using exec_loop_around [OF loop] unfolding s2_def
    by (meson runs_audit_around insertMetrics_around finishRun_around same_around_trans)
  then have "others (lr_id run) s' = others (lr_id run) s" "maintenance_windows (runs_db s') = maintenance_windows (runs_db s) @ [win]"
    using s1 by (simp_all add: same_around_def)
  moreover have "ended (lr_id run) s'" unfolding res(2) by (rule ended_finishRun [OF terminal_of_terminal [OF t]])
  ultimately show ?thesis using res(1) win(1) by blast
qed

lemma delete_own_window:
  assumes "maintenance_windows d' = ws @ [m]" and "\<forall>x \<in> set ws. mw_id x < mw_id m"
  shows "maintenance_windows (snd (deleteMaintenanceWindow_row (mw_id m) d')) = ws"
  using assms by (auto simp: deleteMaintenanceWindow_row_def filter_id_conv)


section \<open>A sandbox run from the queue to its end\<close>

definition small_input :: plan_input where
  "small_input = sample_input\<lparr>in_fanout := None, in_durationSeconds := 60, in_maxVus := 10, in_dataSetId := None\<rparr>"

definition small_plan :: plan_config where
  "small_plan = sample_plan\<lparr>fanout := 1, plan_durationSeconds := 60, maxVus := 10, dataSetId := None\<rparr>"

lemma small_plan_accepted: "PlanConfigSchema small_input = Some small_plan"
proof -
  have "input_ok sample_input" "with_defaults sample_input = sample_plan" using sample_plan_accepted by (simp_all add: schema_Some)
  then show ?thesis
    by (simp add: schema_Some input_ok_def with_defaults_def small_input_def small_plan_def sample_input_def sample_plan_def
        opt_default_def opt_all_def int_within_def)
qed

definition sample_run :: load_run where
  "sample_run = \<lparr>lr_id = 7, lr_planId = 6, lr_apiId = ''t1'', lr_status = RUN_PREFLIGHT,
     lr_snapshot = \<lparr>snap_config = small_plan, snap_name = ''pay'', snap_url = ''https://sbx/pay'', snap_isMoneyMoving = False,
       snap_environment = Env_sandbox, snap_peakRps = 40\<rparr>,
     lr_effectiveClass = Some SANDBOX, lr_requestedBy = Some 1, lr_workerId = Some ''w1'', lr_heartbeatAt = Some 900,
     lr_abortRequested = False, lr_abortReason = None, lr_finishedReason = None, lr_error = None, lr_summary = None,
     lr_k6Version = None, lr_maintenanceWindowId = None, lr_queuedAt = 800, lr_startedAt = None, lr_finishedAt = None\<rparr>"

definition sample_runs_state :: runs_state where
  "sample_runs_state = \<lparr>safety = sample_authorized_state, load_test_data_sets = [], load_test_plans = [],
     load_test_runs = [sample_run], load_test_metrics = []\<rparr>"

definition sample_world :: exec_world where
  "sample_world = \<lparr>w_start = 1000, w_version = Inr ''v0.50'', w_auth = Inr (), w_files = Inr (),
     w_ticks = [\<lparr>ob_now = 2000, ob_lines = [None], ob_ops = [Abort ''stop'']\<rparr>, \<lparr>ob_now = 3000, ob_lines = [], ob_ops = []\<rparr>],
     w_rest = [], w_end = 4000, w_result = \<lparr>exitCode = Some 0, stderrTail = []\<rparr>\<rparr>"

lemma small_preflight:
  "preflight_of small_plan t = \<lparr>p_rps = 40, p_vus = 10, p_durationSeconds = 60, p_mutating = True, p_realSideEffects = False\<rparr>"
proof -
  have "peakRps small_plan = rate (fl (20 * 2))"
    using peakRps_eq [OF schema_plan_ok [OF small_plan_accepted]] by (simp add: peak_of_def small_plan_def sample_plan_def)
  also have "\<dots> = 40" using js.rnd_of_int [of 40] Math_round_of_int [of 40] by (simp add: rate_def)
  finally have "effectiveRps small_plan = 40" by (simp add: effectiveRps_def small_plan_def)
  then show ?thesis by (simp add: preflight_of_def small_plan_def sample_plan_def isStateChanging_def isMutating_def)
qed

lemma sample_run_executes: "\<exists>s'. executeRun sample_math sandbox_host sample_load_env sample_guard ''w1'' sample_run sample_world sample_runs_state = (Inr Ran, s')"
proof -
  have t: "findTargetById ''t1'' (runs_db sample_runs_state) = Some (sample_api\<lparr>api_environment := Env_sandbox\<rparr>)"
    by (simp add: sample_runs_state_def findTargetById_def sample_authorized)
  let ?pre = "\<lparr>p_rps = 40, p_vus = 10, p_durationSeconds = 60, p_mutating = True, p_realSideEffects = False\<rparr>"
  have "run_end 1000 ?pre \<le> 1000000"
    using js.rnd_of_int [of 60000] js.rnd_of_int [of 61000] by (simp add: run_end_def)
  then obtain dec where d: "runPreflight sandbox_host sample_load_env 1000 ''t1'' ?pre sample_authorized_state = Inr dec" "allowed dec"
    using sample_gate_allows [of ?pre] by auto
  have w: "w_start sample_world = 1000" "prepare small_plan sample_world sample_runs_state = Inr ''v0.50''"
    by (simp_all add: sample_world_def prepare_def small_plan_def)
  have r: "snap_config (lr_snapshot sample_run) = small_plan" "lr_apiId sample_run = ''t1''" "safety sample_runs_state = sample_authorized_state"
    by (simp_all add: sample_run_def sample_runs_state_def)
  show ?thesis
    unfolding executeRun_def Let_def r plan_reread [OF small_plan_accepted] option.case t [unfolded r] small_preflight w d(1) sum.case
    using d(2) by (auto split: prod.split)
qed

lemma sample_windows: "maintenance_windows (runs_db sample_runs_state) = []"
  unfolding sample_runs_state_def runs_state.select_convs sample_authorized_state_def sample_load_ops_def fold_simps load_step_windows
  by (simp add: sample_load_state_def empty_db_def)


theorem guardrail_stop_verdict_witness:
  "verdict (evaluateRunSlo small_plan (Some \<lparr>totalRequests = 10, server5xx = 0, rateLimited429 = 0, client4xx = 9, networkOrTimeout = 0,
     unexpectedOther = 0, status401 = 9, latency_p95 = 1, latency_p99 = 1, peak_rps = 1, maxSustainedRps = 1, droppedIterations = 0,
     generatorSaturated = False\<rparr>) RUN_ABORTED (Some (''guardrail: '' @ guardrail_message sample_guard
       \<lparr>breach = True, kind = Some Auth_refused, g_total = 10, errorRate = 0, refusalRate = 1 / 2, rateLimitedRate = 0\<rparr> Auth_refused))) = V_INCONCLUSIVE"
  using guardrail_stop_verdict [of small_plan Auth_refused sample_guard _ "\<lparr>exitCode = Some 0, stderrTail = []\<rparr>"]
  by (simp add: terminal_of_def del: guardrail_message.simps append.simps)

end
