(* ===== verification/Spec2Isabelle.thy ===== *)
theory Spec2Isabelle
  imports Worker_Race Check_Run Target_Config Sessions Sim_Ledger Load_Runs
begin

text \<open>
  \<^bold>\<open>A verification of the monitoring and load-testing platform.\<close>

  The program (\<^verbatim>\<open>src/src\<close>, TypeScript over PostgreSQL) watches HTTP targets on cron schedules, turns
  failing checks into incidents, alerts and escalates, and runs safety-gated load tests with k6.

  \<^bold>\<open>Basis.\<close>
  \<^item> \<open>Prelude\<close>: tables as lists of rows with guarded updates (\<open>upd_where\<close>), uniqueness on a condition
    (\<open>unique_on\<close>), decimal output and the collections \<open>table_simps\<close>, \<open>repo_defs\<close>, \<open>repo_frame\<close>.
  \<^item> \<open>Js_String\<close>, \<open>Js_Number\<close>: what the code uses of JavaScript's strings and doubles. A finite
    double is a rational, \<open>fl\<close> rounds to the nearest double (53 bits, ties to even), \<open>Number\<close> parses.
  \<^item> \<open>Enums\<close>, \<open>Database\<close>: the labels and entities of \<^verbatim>\<open>domain/\<close> and the database as a record of
    tables with the constraints of the schema (\<open>db_inv\<close>), transactions (\<open>withTransaction\<close>) and errors.

  \<^bold>\<open>Monitoring.\<close>
  \<^item> \<open>Lock_Service\<close>, \<open>Scheduler_Repo\<close>, \<open>Incidents_Repo\<close>, \<open>Alerts_Repo\<close>: the repositories and the
    lock of \<^verbatim>\<open>repositories/\<close> and \<^verbatim>\<open>services/scheduler/lock.service.ts\<close>, one operation per SQL
    statement. Shown: mutual exclusion of the lock under any sequence of operations of other
    workers, the recovery counters as functions of the check history.
  \<^item> \<open>State_Machine\<close>, \<open>Incident_Service\<close>: \<^verbatim>\<open>services/incident/\<close> and \<^verbatim>\<open>services/alert/recovery.ts\<close>.
    Shown: what a failing, degraded or clean check does to incidents, events and alerts on every
    branch, that a check commits, and manual resolution.
  \<^item> \<open>Cron\<close>, \<open>Job_Runner\<close>, \<open>Scheduler\<close>: \<^verbatim>\<open>lib/cron.ts\<close> and \<^verbatim>\<open>services/scheduler/\<close>. The cron library is
    an argument (\<open>cron_parser\<close>) with its documented contract \<open>cron_ok\<close>. Shown: a slot runs once, a
    committed run records everything together, a dead-lettered one says nothing about the target, an
    incident closes exactly after a clean streak, a tick respects the concurrency limit and
    fires slots in increasing order, missed-run detection is exact.
  \<^item> \<open>Worker_Race\<close>: \<open>runScheduledCheck\<close> statement by statement, as a step relation in which workers
    interleave, crash and let locks expire. Shown: at most one execution per slot; and that a slot
    can be lost under contention.
  \<^item> \<open>Escalation\<close>, \<open>Delivery\<close>, \<open>Policy_Service\<close>, \<open>Watchdog\<close>: \<^verbatim>\<open>services/alert/\<close> and \<^verbatim>\<open>watchdog/\<close>.
    Shown: an escalation pass implements its specification and its cache is transparent, a
    delivery cycle settles every pending alert once, administration keeps windows bounded, the
    watchdog's alerts are spaced.
  \<^item> \<open>System\<close>: all of these as one step relation on the database; every reachable state keeps the
    schema's constraints and incidents only move forward.

  \<^bold>\<open>The check itself.\<close>
  \<^item> \<open>Json\<close>, \<open>Validator\<close>, \<open>Ssrf\<close>, \<open>Masking\<close>: JSON values and their text, \<^verbatim>\<open>lib/json-path.ts\<close>, \<^verbatim>\<open>lib/templating.ts\<close>,
    \<^verbatim>\<open>services/health-check/validator.service.ts\<close>, \<^verbatim>\<open>lib/ssrf.ts\<close>, \<^verbatim>\<open>lib/masking.ts\<close> and \<^verbatim>\<open>lib/pci.ts\<close>. Shown: comparing texts
    is comparing values, only public addresses pass the policy, stored traces carry no secret and scrubbed
    text no long number.
  \<^item> \<open>Health_Check\<close>, \<open>Check_Run\<close>: the executor with its retries, and its composition with the job runner.
    Shown: a check ends within its attempts, UP means a validated answer, a refused address is
    never contacted, and when the lock outlives the check.

  \<^bold>\<open>Administration and access.\<close>
  \<^item> \<open>Target_Service\<close>, \<open>Target_Config\<close>: \<^verbatim>\<open>services/target/\<close>, \<^verbatim>\<open>repositories/config-requests.repo.ts\<close> and the writing part
    of \<^verbatim>\<open>repositories/monitored-apis.repo.ts\<close>. Shown: the rows keep the checks of their tables, money-moving
    targets need two people, a review is final, an empty update writes the row back.
  \<^item> \<open>Sessions\<close>: \<^verbatim>\<open>services/auth/auth.service.ts\<close>, \<^verbatim>\<open>repositories/users.repo.ts\<close> and \<^verbatim>\<open>http/middleware/auth.ts\<close>. Shown:
    one live token per family, a replayed token ends its session, so does signing out, and two
    interleaved exchanges fork a session.

  \<^bold>\<open>Load testing.\<close>
  \<^item> \<open>Load_Plan\<close>, \<open>Load_Safety\<close>, \<open>Load_Slo\<close>: \<^verbatim>\<open>domain/load-plan.ts\<close>, \<^verbatim>\<open>load-safety.ts\<close>, \<^verbatim>\<open>load-slo.ts\<close>.
    Shown: the stages fill the duration below the peak the gate judges, the gate allows only safe
    runs, settings parse to what was written, a verdict of PASS means every objective was met.
  \<^item> \<open>Load_Authorization\<close>: \<^verbatim>\<open>repositories/load-test-safety.repo.ts\<close> and
    \<^verbatim>\<open>services/loadtest/safety.service.ts\<close>. Shown: four eyes and the kill switch over every sequence of
    administrative operations.
  \<^item> \<open>Load_Metrics\<close>, \<open>Load_Runs\<close>: \<^verbatim>\<open>services/loadtest/metrics-aggregator.ts\<close>, \<^verbatim>\<open>run.service.ts\<close> and
    \<^verbatim>\<open>repositories/load-test-runs.repo.ts\<close>. Shown: the aggregation conserves counts, the guardrail
    judges exactly its window, a stored plan is read back unchanged, an execution ends clean.

  \<^item> \<open>Pay_Contract\<close>, \<open>Simulator\<close>, \<open>Sim_Ledger\<close>: \<^verbatim>\<open>loadtest/contract/ismartpay.ts\<close>, \<^verbatim>\<open>loadtest/simulator/simulator.ts\<close> and the POST handler
    of \<^verbatim>\<open>app.ts\<close>, with timers as pending actions that fire in any order. Shown: the ledger reconciles, no payment
    takes effect twice, answered requests replay, nobody overspends (settlements apart), signed webhooks verify,
    and how the deliberate race loses a debit.

  \<^bold>\<open>Not modelled.\<close> The web interface and the remaining Express routes (presentation and glue), reports, digests,
  SLA and dashboards (aggregate SQL), notification transports, the language-model client and anomaly statistics,
  the k6 script and process, the correctness, security and compliance suites (scripted HTTP conversations
  and document rendering), encryption of credentials and traces, the OAuth token cache, rate limiting of the
  service's own API, retention jobs and operator scripts.

  \<^bold>\<open>Conventions.\<close> Time is milliseconds since the epoch as \<open>int\<close>; every operation takes the clock it
  reads. A raise is a value of \<open>app_error\<close> or \<open>db_error\<close>. Row identifiers are drawn from the counter
  \<open>next_id\<close> where the database draws UUIDs, so they are fresh. No definition uses fuel: loops over
  rows and slots are structural or bounded by the limit the code gives them.
\<close>

end
